(* ===== verification/Kairos_Prelude.thy ===== *)
theory Kairos_Prelude
  imports Main "HOL-Library.Word" "HOL-Library.Finite_Map" "HOL-Library.Monad_Syntax"
begin

text \<open>
  The prelude of the development: how the pieces of Go that the kairos sources use are
  represented, and the generic lemmas the component theories share.

  \<^item> A computation that may panic has type \<open>'a option\<close>; \<open>None\<close> is a run-time panic
    (index or slice out of range, integer division by zero, nil dereference, explicit
    \<open>panic\<close>).  Errors that the code \<^emph>\<open>returns\<close> are ordinary values.
  \<^item> A Go map is a finite map; an iteration over a map takes the order of its keys as an
    argument, because Go leaves that order open.
  \<^item> Slices are lists.  \<open>go_index\<close>, \<open>go_upd\<close>, \<open>go_slice\<close>, \<open>go_copy\<close> and \<open>go_mod\<close> are the
    checked primitives.  A signed 64-bit integer is an \<open>int\<close> that \<open>i64\<close> wraps where the
    source does arithmetic that can leave the range; \<open>uint64\<close> is \<open>64 word\<close>.
  \<^item> Strings are byte strings (lists of \<open>char\<close>).
\<close>

named_theorems go_simps \<open>evaluation of the checked Go primitives\<close>
named_theorems inv_intros \<open>preservation of component invariants\<close>

type_synonym byte = "8 word"
type_synonym bytes = "byte list"
type_synonym uint64 = "64 word"
type_synonym 'a go = "'a option"

section \<open>Slices and integer arithmetic\<close>

definition go_index :: "'a list \<Rightarrow> nat \<Rightarrow> 'a go" where
  "go_index xs i = (if i < length xs then Some (xs ! i) else None)"

definition go_upd :: "'a list \<Rightarrow> nat \<Rightarrow> 'a \<Rightarrow> 'a list go" where
  "go_upd xs i v = (if i < length xs then Some (xs[i := v]) else None)"

definition go_slice :: "'a list \<Rightarrow> nat \<Rightarrow> nat \<Rightarrow> 'a list go" where
  "go_slice xs lo hi =
     (if lo \<le> hi \<and> hi \<le> length xs then Some (take (hi - lo) (drop lo xs)) else None)"

definition go_copy :: "'a list \<Rightarrow> nat \<Rightarrow> 'a list \<Rightarrow> 'a list go" where
  "go_copy dst off src =
     (if off \<le> length dst
      then Some (take off dst @ take (length dst - off) src @ drop (off + length src) dst)
      else None)"

definition go_mod :: "nat \<Rightarrow> nat \<Rightarrow> nat go" where
  "go_mod a n = (if n = 0 then None else Some (a mod n))"

definition i64 :: "int \<Rightarrow> int" where
  "i64 x = (x + 2 ^ 63) mod 2 ^ 64 - 2 ^ 63"

lemma i64_id [simp]: "- (2 ^ 63) \<le> x \<Longrightarrow> x < 2 ^ 63 \<Longrightarrow> i64 x = x"
  by (simp add: i64_def)

lemma i64_range: "- (2 ^ 63) \<le> i64 x \<and> i64 x < 2 ^ 63"
  by (simp add: i64_def)

lemma go_index_Some [go_simps]: "i < length xs \<Longrightarrow> go_index xs i = Some (xs ! i)"
  by (simp add: go_index_def)

lemma go_upd_Some [go_simps]: "i < length xs \<Longrightarrow> go_upd xs i v = Some (xs[i := v])"
  by (simp add: go_upd_def)

lemma go_slice_Some [go_simps]:
  "lo \<le> hi \<Longrightarrow> hi \<le> length xs \<Longrightarrow> go_slice xs lo hi = Some (take (hi - lo) (drop lo xs))"
  by (simp add: go_slice_def)

lemma go_copy_Some [go_simps]:
  "off \<le> length dst \<Longrightarrow> go_copy dst off src =
     Some (take off dst @ take (length dst - off) src @ drop (off + length src) dst)"
  by (simp add: go_copy_def)

lemma go_copy_length: "go_copy dst off src = Some r \<Longrightarrow> length r = length dst"
  by (auto simp: go_copy_def split: if_splits)

lemma go_mod_Some [go_simps]: "0 < n \<Longrightarrow> go_mod a n = Some (a mod n)"
  by (simp add: go_mod_def)

section \<open>Cyclic reading of a list\<close>

text \<open>\<open>cyc xs h c\<close> reads \<open>c\<close> consecutive cells of \<open>xs\<close> from index \<open>h\<close>, wrapping at the end:
  the contents of a ring buffer.\<close>

definition cyc :: "'a list \<Rightarrow> nat \<Rightarrow> nat \<Rightarrow> 'a list" where
  "cyc xs h c = map (\<lambda>i. xs ! ((h + i) mod length xs)) [0..<c]"

lemma cyc_length [simp]: "length (cyc xs h c) = c"
  by (simp add: cyc_def)

lemma cyc_0 [simp]: "cyc xs h 0 = []"
  by (simp add: cyc_def)

lemma cyc_Suc: "cyc xs h (Suc c) = cyc xs h c @ [xs ! ((h + c) mod length xs)]"
  by (simp add: cyc_def)

lemma cyc_Cons:
  assumes "h < length xs"
  shows "cyc xs h (Suc c) = xs ! h # cyc xs ((h + 1) mod length xs) c"
proof -
  have "[0..<Suc c] = 0 # map Suc [0..<c]"
    by (simp add: map_Suc_upt upt_conv_Cons del: upt_Suc)
  then show ?thesis
    using assms by (simp add: cyc_def mod_simps del: upt_Suc)
qed

lemma cyc_upd:
  assumes "c < length xs" "h < length xs"
  shows "cyc (xs[(h + c) mod length xs := v]) h (Suc c) = cyc xs h c @ [v]"
proof -
  have *: "(h + i) mod length xs \<noteq> (h + c) mod length xs" if "i < c" for i
  proof
    assume "(h + i) mod length xs = (h + c) mod length xs"
    then have "length xs dvd (h + c) - (h + i)"
      by (metis le_add_diff_inverse mod_eq_dvd_iff_nat nat_add_left_cancel_le nat_less_le that)
    then show False using that assms by (auto dest: dvd_imp_le)
  qed
  have len: "xs \<noteq> []" using assms by auto
  have "cyc (xs[(h + c) mod length xs := v]) h c = cyc xs h c"
    unfolding cyc_def length_list_update
    by (intro map_cong refl nth_list_update_neq) (metis "*" atLeastLessThan_iff set_upt)
  then show ?thesis using len by (simp add: cyc_Suc)
qed

lemma cyc_straight:
  assumes "h + c \<le> length xs"
  shows "cyc xs h c = take c (drop h xs)"
  using assms by (intro nth_equalityI) (auto simp: cyc_def)

lemma cyc_wrap:
  assumes "h < length xs" "length xs \<le> h + c" "c \<le> length xs"
  shows "cyc xs h c = drop h xs @ take (h + c - length xs) xs"
proof (rule nth_equalityI)
  show "length (cyc xs h c) = length (drop h xs @ take (h + c - length xs) xs)"
    using assms by auto
next
  fix i assume "i < length (cyc xs h c)"
  then have i: "i < c" by simp
  show "cyc xs h c ! i = (drop h xs @ take (h + c - length xs) xs) ! i"
  proof (cases "h + i < length xs")
    case True
    then have "i < length xs - h" by simp
    then show ?thesis using True i assms by (simp add: cyc_def nth_append)
  next
    case False
    then have "(h + i) mod length xs = h + i - length xs"
      using i assms by (simp add: mod_if)
    moreover have "\<not> i < length xs - h" using False by simp
    ultimately show ?thesis using i assms by (simp add: cyc_def nth_append add.commute)
  qed
qed

end
