(* ===== verification/Ring_Queue.thy ===== *)
theory Ring_Queue
  imports Kairos_Prelude
begin

text \<open>
  The two growable ring queues of the deliverer: the byte-counting message queue of
  \<open>server/deliverer/internal/queue/queue.go\<close> and the job queue of
  \<open>server/deliverer/internal/dissolve/queue.go\<close>.  The two Go files declare the same struct and
  the same \<open>resize\<close>; a polymorphic record \<open>'a ring\<close> carries both.

  Every operation runs under the queue's mutex, so one operation is one atomic step on the
  record.  \<open>None\<close> is a panic; the main fact about both queues is that no operation on a
  queue built by the constructor with a positive capacity ever panics and that the queue
  behaves like a list.  The contract \<open>fifo\<close> states this once for the clients.
\<close>

section \<open>State\<close>

record item =
  it_Data :: bytes
  it_Channel :: string
  it_FrameType :: byte

record 'a ring =
  q_nodes :: "'a list"
  q_head :: nat
  q_tail :: nat
  q_cnt :: nat
  q_size :: int
  q_closed :: bool
  q_initCap :: nat

definition zero_item :: item where
  "zero_item = \<lparr>it_Data = [], it_Channel = '''', it_FrameType = 0\<rparr>"

text \<open>What a call of \<open>Wait\<close> does at once: return a value, or block on the condition variable
  until the next signal, after which it returns as its source says.\<close>

datatype 'r wait = Returns 'r | Blocks

text \<open>How a worker loop over a queue stops: it returned, or it sleeps in \<open>Wait\<close>.\<close>

datatype run_stop = Stopped | Sleeping

section \<open>The message queue (queue.go)\<close>

definition queue_resize :: "'a \<Rightarrow> nat \<Rightarrow> 'a ring \<Rightarrow> 'a ring go" where
  "queue_resize zero n q = do {
     let fresh = replicate n zero;
     nodes \<leftarrow>
       (if q_head q < q_tail q then do {
          part \<leftarrow> go_slice (q_nodes q) (q_head q) (q_tail q);
          go_copy fresh 0 part
        } else do {
          upper \<leftarrow> go_slice (q_nodes q) (q_head q) (length (q_nodes q));
          half \<leftarrow> go_copy fresh 0 upper;
          lower \<leftarrow> go_slice (q_nodes q) 0 (q_tail q);
          go_copy half (length (q_nodes q) - q_head q) lower
        });
     t \<leftarrow> go_mod (q_cnt q) n;
     Some (q\<lparr>q_tail := t, q_head := 0, q_nodes := nodes\<rparr>)
   }"

definition queue_New :: "nat \<Rightarrow> item ring" where
  "queue_New initialCapacity =
     \<lparr>q_nodes = replicate initialCapacity zero_item, q_head = 0, q_tail = 0, q_cnt = 0,
      q_size = 0, q_closed = False, q_initCap = initialCapacity\<rparr>"

definition queue_Wait :: "item ring \<Rightarrow> bool wait" where
  "queue_Wait q = (if q_closed q then Returns False
                   else if q_cnt q \<noteq> 0 then Returns True else Blocks)"

definition queue_Remove :: "item ring \<Rightarrow> ((item \<times> bool) \<times> item ring) go" where
  "queue_Remove q =
     (if q_cnt q = 0 then Some ((zero_item, False), q)
      else do {
        i \<leftarrow> go_index (q_nodes q) (q_head q);
        h \<leftarrow> go_mod (q_head q + 1) (length (q_nodes q));
        let q1 = q\<lparr>q_head := h, q_cnt := q_cnt q - 1, q_size := q_size q - int (length (it_Data i))\<rparr>;
        let n = length (q_nodes q1) div 2;
        q2 \<leftarrow> (if q_initCap q1 \<le> n \<and> q_cnt q1 \<le> n then queue_resize zero_item n q1 else Some q1);
        Some ((i, True), q2)
      })"

definition queue_Closed :: "item ring \<Rightarrow> bool" where
  "queue_Closed q = q_closed q"

definition queue_Len :: "item ring \<Rightarrow> nat" where
  "queue_Len q = q_cnt q"

definition queue_Add :: "item \<Rightarrow> item ring \<Rightarrow> (bool \<times> item ring) go" where
  "queue_Add i q =
     (if q_closed q then Some (False, q)
      else do {
        q1 \<leftarrow> (if q_cnt q = length (q_nodes q) then queue_resize zero_item (q_cnt q * 2) q else Some q);
        nodes \<leftarrow> go_upd (q_nodes q1) (q_tail q1) i;
        t \<leftarrow> go_mod (q_tail q1 + 1) (length nodes);
        Some (True, q1\<lparr>q_nodes := nodes, q_tail := t,
                       q_size := q_size q1 + int (length (it_Data i)), q_cnt := q_cnt q1 + 1\<rparr>)
      })"

definition queue_Size :: "item ring \<Rightarrow> int" where
  "queue_Size q = q_size q"

text \<open>The loop of \<open>CloseRemaining\<close>: it runs once for each of the \<open>cnt\<close> entries.\<close>

fun queue_drain :: "nat \<Rightarrow> item ring \<Rightarrow> item list \<Rightarrow> (item list \<times> item ring) go" where
  "queue_drain 0 q rem = Some (rem, q)"
| "queue_drain (Suc k) q rem = do {
     i \<leftarrow> go_index (q_nodes q) (q_head q);
     h \<leftarrow> go_mod (q_head q + 1) (length (q_nodes q));
     queue_drain k (q\<lparr>q_head := h, q_cnt := k\<rparr>) (rem @ [i])
   }"

definition queue_Close :: "item ring \<Rightarrow> item ring" where
  "queue_Close q = q\<lparr>q_closed := True, q_cnt := 0, q_nodes := [], q_size := 0\<rparr>"

definition queue_CloseRemaining :: "item ring \<Rightarrow> (item list \<times> item ring) go" where
  "queue_CloseRemaining q =
     (if q_closed q then Some ([], q)
      else do {
        (rem, q1) \<leftarrow> queue_drain (q_cnt q) q [];
        Some (rem, q1\<lparr>q_closed := True, q_cnt := 0, q_nodes := [], q_size := 0\<rparr>)
      })"

section \<open>The job queue (dissolve/queue.go)\<close>

definition initialCapacity :: nat where
  "initialCapacity = 2"

text \<open>A \<open>Job\<close> slot that was never written holds \<open>nil\<close>, hence \<open>'j option\<close> cells.\<close>

definition newQueue :: "'j option ring" where
  "newQueue =
     \<lparr>q_nodes = replicate initialCapacity None, q_head = 0, q_tail = 0, q_cnt = 0,
      q_size = 0, q_closed = False, q_initCap = initialCapacity\<rparr>"

definition queueImpl_resize :: "nat \<Rightarrow> 'j option ring \<Rightarrow> 'j option ring go" where
  "queueImpl_resize n q = queue_resize None n q"

definition queueImpl_Add :: "'j option \<Rightarrow> 'j option ring \<Rightarrow> (bool \<times> 'j option ring) go" where
  "queueImpl_Add i q =
     (if q_closed q then Some (False, q)
      else do {
        q1 \<leftarrow> (if q_cnt q = length (q_nodes q) then queueImpl_resize (q_cnt q * 2) q else Some q);
        nodes \<leftarrow> go_upd (q_nodes q1) (q_tail q1) i;
        t \<leftarrow> go_mod (q_tail q1 + 1) (length nodes);
        Some (True, q1\<lparr>q_nodes := nodes, q_tail := t, q_cnt := q_cnt q1 + 1\<rparr>)
      })"

definition queueImpl_Close :: "'j option ring \<Rightarrow> 'j option ring" where
  "queueImpl_Close q = q\<lparr>q_closed := True, q_cnt := 0, q_nodes := [], q_size := 0\<rparr>"

definition queueImpl_Closed :: "'j option ring \<Rightarrow> bool" where
  "queueImpl_Closed q = q_closed q"

definition queueImpl_Remove :: "'j option ring \<Rightarrow> (('j option \<times> bool) \<times> 'j option ring) go" where
  "queueImpl_Remove q =
     (if q_cnt q = 0 then Some ((None, False), q)
      else do {
        i \<leftarrow> go_index (q_nodes q) (q_head q);
        h \<leftarrow> go_mod (q_head q + 1) (length (q_nodes q));
        let q1 = q\<lparr>q_head := h, q_cnt := q_cnt q - 1\<rparr>;
        let n = length (q_nodes q1) div 2;
        q2 \<leftarrow> (if q_initCap q1 \<le> n \<and> q_cnt q1 \<le> n then queueImpl_resize n q1 else Some q1);
        Some ((i, True), q2)
      })"

text \<open>\<open>Wait\<close> of the job queue removes the first job itself; when it blocks, the call ends in
  \<open>queueImpl_Remove\<close> on the state it wakes up in.\<close>

definition queueImpl_Wait :: "'j option ring \<Rightarrow> (('j option \<times> bool) \<times> 'j option ring) go wait" where
  "queueImpl_Wait q = (if q_closed q then Returns (Some ((None, False), q))
                       else if q_cnt q \<noteq> 0 then Returns (queueImpl_Remove q) else Blocks)"

section \<open>Well-formedness and abstraction\<close>

definition ring_items :: "'a ring \<Rightarrow> 'a list" where
  "ring_items q = cyc (q_nodes q) (q_head q) (q_cnt q)"

definition ring_wf :: "'a ring \<Rightarrow> bool" where
  "ring_wf q \<longleftrightarrow>
     (if q_closed q then q_cnt q = 0 \<and> q_nodes q = []
      else 0 < q_initCap q \<and> q_head q < length (q_nodes q) \<and> q_cnt q \<le> length (q_nodes q)
         \<and> q_tail q = (q_head q + q_cnt q) mod length (q_nodes q)
         \<and> (length (q_nodes q) div 2 < q_initCap q \<or> length (q_nodes q) div 2 < q_cnt q))"

definition items_bytes :: "item list \<Rightarrow> int" where
  "items_bytes xs = sum_list (map (\<lambda>i. int (length (it_Data i))) xs)"

definition queue_wf :: "item ring \<Rightarrow> bool" where
  "queue_wf q \<longleftrightarrow> ring_wf q \<and> q_size q = items_bytes (ring_items q)"

lemma items_bytes_simps [simp]:
  "items_bytes [] = 0"
  "items_bytes (x # xs) = int (length (it_Data x)) + items_bytes xs"
  "items_bytes (xs @ ys) = items_bytes xs + items_bytes ys"
  by (simp_all add: items_bytes_def)

lemma items_bytes_nonneg: "0 \<le> items_bytes xs"
  by (induction xs) auto

lemma ring_items_length [simp]: "length (ring_items q) = q_cnt q"
  by (simp add: ring_items_def)

lemma ring_items_empty_iff: "ring_items q = [] \<longleftrightarrow> q_cnt q = 0"
  by (metis length_0_conv ring_items_length)

lemma ring_items_nil [simp]: "q_cnt q = 0 \<Longrightarrow> ring_items q = []"
  by (simp add: ring_items_empty_iff)

lemma ring_wf_open:
  "ring_wf q \<Longrightarrow> \<not> q_closed q \<Longrightarrow>
     0 < q_initCap q \<and> q_head q < length (q_nodes q) \<and> q_cnt q \<le> length (q_nodes q)
     \<and> q_tail q = (q_head q + q_cnt q) mod length (q_nodes q)"
  by (simp add: ring_wf_def)

section \<open>Growing and shrinking\<close>

lemma queue_resize_ok:
  assumes wf: "q_head q < length (q_nodes q)" "q_cnt q \<le> length (q_nodes q)"
      "q_tail q = (q_head q + q_cnt q) mod length (q_nodes q)"
    and n: "0 < q_cnt q" "q_cnt q \<le> n"
  shows "\<exists>ns. queue_resize z n q = Some (q\<lparr>q_tail := q_cnt q mod n, q_head := 0, q_nodes := ns\<rparr>)
           \<and> length ns = n \<and> take (q_cnt q) ns = ring_items q"
proof (cases "q_head q + q_cnt q < length (q_nodes q)")
  case True
  then have "q_tail q = q_head q + q_cnt q" using wf by simp
  then show ?thesis using True n
    by (auto simp: queue_resize_def go_simps ring_items_def cyc_straight)
next
  case False
  let ?len = "length (q_nodes q)"
  have t: "q_tail q = q_head q + q_cnt q - ?len" using False wf by (simp add: mod_if)
  then have le: "\<not> q_head q < q_tail q" "?len - q_head q \<le> n" "q_tail q \<le> ?len" "q_tail q \<le> n - (?len - q_head q)"
    "q_cnt q = (?len - q_head q) + q_tail q"
    using wf n False by auto
  have "ring_items q = drop (q_head q) (q_nodes q) @ take (q_tail q) (q_nodes q)"
    unfolding ring_items_def t using wf False by (intro cyc_wrap) auto
  moreover define m where "m = ?len - q_head q"
  moreover define up where "up = drop (q_head q) (q_nodes q)"
  moreover define lo where "lo = take (q_tail q) (q_nodes q)"
  ultimately have parts: "ring_items q = up @ lo" "length up = m" "length lo = q_tail q"
    "m \<le> n" "q_tail q \<le> n - m" "q_cnt q = m + q_tail q"
    using le by auto
  have c1: "go_copy (replicate n z) 0 up = Some (up @ replicate (n - m) z)"
    using parts by (simp add: go_simps)
  have c2: "go_copy (up @ replicate (n - m) z) m lo = Some (up @ lo @ replicate (n - m - q_tail q) z)"
    using parts by (simp add: go_simps)
  have sl: "go_slice (q_nodes q) (q_head q) ?len = Some up" "go_slice (q_nodes q) 0 (q_tail q) = Some lo"
    using wf(1) le(3) by (simp_all add: go_simps up_def lo_def)
  have md: "go_mod (m + q_tail q) n = Some ((m + q_tail q) mod n)"
    using n by (simp add: go_mod_Some)
  show ?thesis
    using le(1) parts n
    by (intro exI[of _ "up @ lo @ replicate (n - m - q_tail q) z"])
      (simp add: queue_resize_def sl c1 c2 md flip: m_def)
qed

lemma cyc_from_0: "c \<le> length xs \<Longrightarrow> cyc xs 0 c = take c xs"
  by (simp add: cyc_straight)

text \<open>The growing branch of \<open>Add\<close>: afterwards there is room for one more entry and the contents
  are unchanged.\<close>

lemma queue_grow_ok:
  assumes "ring_wf q" "\<not> q_closed q"
  shows "\<exists>q1. (if q_cnt q = length (q_nodes q) then queue_resize z (q_cnt q * 2) q else Some q) = Some q1
     \<and> ring_items q1 = ring_items q \<and> q_cnt q1 = q_cnt q \<and> q_size q1 = q_size q
     \<and> q_closed q1 = q_closed q \<and> q_initCap q1 = q_initCap q
     \<and> q_head q1 < length (q_nodes q1) \<and> q_cnt q1 < length (q_nodes q1)
     \<and> q_tail q1 = (q_head q1 + q_cnt q1) mod length (q_nodes q1)
     \<and> (length (q_nodes q1) div 2 < q_initCap q1 \<or> length (q_nodes q1) div 2 \<le> q_cnt q1)"
proof (cases "q_cnt q = length (q_nodes q)")
  case True
  note w = ring_wf_open[OF assms]
  have pos: "0 < q_cnt q" using True w by auto
  obtain ns where ns: "queue_resize z (q_cnt q * 2) q =
      Some (q\<lparr>q_tail := q_cnt q mod (q_cnt q * 2), q_head := 0, q_nodes := ns\<rparr>)"
    "length ns = q_cnt q * 2" "take (q_cnt q) ns = ring_items q"
    using queue_resize_ok[of q "q_cnt q * 2" z] w pos by auto
  then show ?thesis using pos True by (auto simp: ring_items_def cyc_from_0)
next
  case False
  then show ?thesis using assms by (auto simp: ring_wf_def)
qed

lemma ring_push_ok:
  assumes "q_head q < length (q_nodes q)" "q_cnt q < length (q_nodes q)"
    "q_tail q = (q_head q + q_cnt q) mod length (q_nodes q)"
  shows "q_tail q < length (q_nodes q)"
    "cyc ((q_nodes q)[q_tail q := i]) (q_head q) (Suc (q_cnt q)) = ring_items q @ [i]"
    "Suc (q_tail q) mod length (q_nodes q) = Suc (q_head q + q_cnt q) mod length (q_nodes q)"
proof -
  have "q_nodes q \<noteq> []" using assms by auto
  then show "q_tail q < length (q_nodes q)" by (simp add: assms(3))
  show "cyc ((q_nodes q)[q_tail q := i]) (q_head q) (Suc (q_cnt q)) = ring_items q @ [i]"
    using cyc_upd[OF assms(2,1), of i] by (simp add: assms(3) ring_items_def)
  show "Suc (q_tail q) mod length (q_nodes q) = Suc (q_head q + q_cnt q) mod length (q_nodes q)"
    by (simp add: assms(3) mod_simps)
qed

text \<open>Appending one entry, for the message queue (which also writes \<open>size\<close>) and the job queue.\<close>

lemma ring_add_core:
  assumes "ring_wf q" "\<not> q_closed q"
  shows "\<exists>q1. (if q_cnt q = length (q_nodes q) then queue_resize z (q_cnt q * 2) q else Some q) = Some q1
     \<and> q_tail q1 < length (q_nodes q1) \<and> q_size q1 = q_size q \<and> \<not> q_closed q1 \<and> q_initCap q1 = q_initCap q
     \<and> (\<forall>s. let q' = q1\<lparr>q_nodes := (q_nodes q1)[q_tail q1 := i],
                         q_tail := Suc (q_tail q1) mod length (q_nodes q1),
                         q_size := s, q_cnt := Suc (q_cnt q1)\<rparr>
            in ring_wf q' \<and> ring_items q' = ring_items q @ [i])"
proof -
  from queue_grow_ok[OF assms, of z] obtain q1 where
    q1: "(if q_cnt q = length (q_nodes q) then queue_resize z (q_cnt q * 2) q else Some q) = Some q1"
    "ring_items q1 = ring_items q" "q_cnt q1 = q_cnt q" "q_size q1 = q_size q" "q_closed q1 = q_closed q"
    "q_initCap q1 = q_initCap q"
    and room: "q_head q1 < length (q_nodes q1)" "q_cnt q1 < length (q_nodes q1)"
    "q_tail q1 = (q_head q1 + q_cnt q1) mod length (q_nodes q1)"
    and cap: "length (q_nodes q1) div 2 < q_initCap q1 \<or> length (q_nodes q1) div 2 \<le> q_cnt q1"
    by blast
  note push = ring_push_ok[OF room]
  let ?q' = "\<lambda>s. q1\<lparr>q_nodes := (q_nodes q1)[q_tail q1 := i],
               q_tail := Suc (q_tail q1) mod length (q_nodes q1), q_size := s, q_cnt := Suc (q_cnt q1)\<rparr>"
  have its: "ring_items (?q' s) = ring_items q @ [i]" for s
    using push(2) q1(2) by (simp add: ring_items_def)
  have "ring_wf (?q' s)" for s
    using assms q1 room cap push(3) by (auto simp: ring_wf_def)
  then show ?thesis
    unfolding Let_def using q1 its push(1) assms(2) by (intro exI[of _ q1] conjI allI) auto
qed

lemma queue_Add_open:
  assumes "queue_wf q" "\<not> q_closed q"
  shows "\<exists>q'. queue_Add i q = Some (True, q') \<and> queue_wf q' \<and> ring_items q' = ring_items q @ [i]
     \<and> \<not> q_closed q' \<and> q_initCap q' = q_initCap q"
proof -
  have wf: "ring_wf q" "q_size q = items_bytes (ring_items q)" using assms(1) by (simp_all add: queue_wf_def)
  obtain q1 where
    q1: "(if q_cnt q = length (q_nodes q) then queue_resize zero_item (q_cnt q * 2) q else Some q) = Some q1"
    "q_tail q1 < length (q_nodes q1)" "q_size q1 = q_size q" "\<not> q_closed q1" "q_initCap q1 = q_initCap q"
    and q': "\<And>s. ring_wf (q1\<lparr>q_nodes := (q_nodes q1)[q_tail q1 := i],
                 q_tail := Suc (q_tail q1) mod length (q_nodes q1), q_size := s, q_cnt := Suc (q_cnt q1)\<rparr>)
      \<and> ring_items (q1\<lparr>q_nodes := (q_nodes q1)[q_tail q1 := i],
                 q_tail := Suc (q_tail q1) mod length (q_nodes q1), q_size := s, q_cnt := Suc (q_cnt q1)\<rparr>)
        = ring_items q @ [i]"
    using ring_add_core[OF wf(1) assms(2), of zero_item i] unfolding Let_def by blast
  have "q_nodes q1 \<noteq> []" using q1(2) by auto
  then show ?thesis
    using assms(2) q1(2-5) q' wf(2) by (simp add: queue_Add_def q1(1) go_simps queue_wf_def)
qed

lemma queueImpl_Add_open:
  assumes "ring_wf q" "\<not> q_closed q"
  shows "\<exists>q'. queueImpl_Add i q = Some (True, q') \<and> ring_wf q' \<and> ring_items q' = ring_items q @ [i]
     \<and> \<not> q_closed q'"
proof -
  obtain q1 where
    q1: "(if q_cnt q = length (q_nodes q) then queue_resize None (q_cnt q * 2) q else Some q) = Some q1"
    "q_tail q1 < length (q_nodes q1)" "\<not> q_closed q1"
    and q': "\<And>s. ring_wf (q1\<lparr>q_nodes := (q_nodes q1)[q_tail q1 := i],
                 q_tail := Suc (q_tail q1) mod length (q_nodes q1), q_size := s, q_cnt := Suc (q_cnt q1)\<rparr>)
      \<and> ring_items (q1\<lparr>q_nodes := (q_nodes q1)[q_tail q1 := i],
                 q_tail := Suc (q_tail q1) mod length (q_nodes q1), q_size := s, q_cnt := Suc (q_cnt q1)\<rparr>)
        = ring_items q @ [i]"
    using ring_add_core[OF assms, of None i] unfolding Let_def by blast
  have ne: "q_nodes q1 \<noteq> []" using q1(2) by auto
  have "q1\<lparr>q_nodes := (q_nodes q1)[q_tail q1 := i], q_tail := Suc (q_tail q1) mod length (q_nodes q1),
      q_size := q_size q1, q_cnt := Suc (q_cnt q1)\<rparr> =
    q1\<lparr>q_nodes := (q_nodes q1)[q_tail q1 := i], q_tail := Suc (q_tail q1) mod length (q_nodes q1),
      q_cnt := Suc (q_cnt q1)\<rparr>" by simp
  then show ?thesis
    unfolding queueImpl_Add_def queueImpl_resize_def q1(1)
    using assms(2) ne q1(2,3) q'[of "q_size q1"] by (simp add: go_simps)
qed

text \<open>Taking the first entry: the structural part that both \<open>Remove\<close> operations share.\<close>

lemma ring_pop_ok:
  assumes "ring_wf q" "q_cnt q \<noteq> 0"
  defines "h \<equiv> (q_head q + 1) mod length (q_nodes q)"
  shows "\<not> q_closed q" "q_head q < length (q_nodes q)" "h < length (q_nodes q)"
    "ring_items q = q_nodes q ! q_head q # cyc (q_nodes q) h (q_cnt q - 1)"
    "(h + (q_cnt q - 1)) mod length (q_nodes q) = q_tail q"
proof -
  show open_q: "\<not> q_closed q" using assms by (auto simp: ring_wf_def)
  note w = ring_wf_open[OF assms(1) open_q]
  then show hd_lt: "q_head q < length (q_nodes q)" by simp
  then have ne: "q_nodes q \<noteq> []" by auto
  then show "h < length (q_nodes q)" by (simp add: h_def)
  show "ring_items q = q_nodes q ! q_head q # cyc (q_nodes q) h (q_cnt q - 1)"
    using cyc_Cons[OF hd_lt, of "q_cnt q - 1"] assms(2) by (simp add: ring_items_def h_def)
  have "(h + (q_cnt q - 1)) mod length (q_nodes q) = (q_head q + 1 + (q_cnt q - 1)) mod length (q_nodes q)"
    unfolding h_def by (rule mod_add_left_eq)
  then show "(h + (q_cnt q - 1)) mod length (q_nodes q) = q_tail q"
    using w assms(2) by simp
qed

text \<open>The shrinking branch of \<open>Remove\<close>: it is only taken with exactly half of the cells full.\<close>

lemma queue_shrink_ok:
  assumes "\<not> q_closed q" "0 < q_initCap q"
    and "q_head q < length (q_nodes q)" "q_cnt q < length (q_nodes q)"
    and "q_tail q = (q_head q + q_cnt q) mod length (q_nodes q)"
    and cap: "length (q_nodes q) div 2 < q_initCap q \<or> length (q_nodes q) div 2 \<le> q_cnt q"
  shows "\<exists>q2. (if q_initCap q \<le> length (q_nodes q) div 2 \<and> q_cnt q \<le> length (q_nodes q) div 2
               then queue_resize z (length (q_nodes q) div 2) q else Some q) = Some q2
     \<and> ring_wf q2 \<and> ring_items q2 = ring_items q \<and> q_size q2 = q_size q \<and> \<not> q_closed q2
     \<and> q_initCap q2 = q_initCap q"
proof (cases "q_initCap q \<le> length (q_nodes q) div 2 \<and> q_cnt q \<le> length (q_nodes q) div 2")
  case True
  let ?n = "length (q_nodes q) div 2"
  have n: "q_cnt q = ?n" "0 < ?n" using True cap assms(2) by auto
  then obtain ns where ns: "queue_resize z ?n q =
      Some (q\<lparr>q_tail := q_cnt q mod ?n, q_head := 0, q_nodes := ns\<rparr>)"
    "length ns = ?n" "take (q_cnt q) ns = ring_items q"
    using queue_resize_ok[of q ?n z] assms by auto
  let ?q2 = "q\<lparr>q_tail := q_cnt q mod ?n, q_head := 0, q_nodes := ns\<rparr>"
  have "ring_items ?q2 = ring_items q"
    using ns n by (simp add: ring_items_def cyc_from_0)
  moreover have "ring_wf ?q2"
    unfolding ring_wf_def using assms(1,2) ns(2) n by simp
  ultimately show ?thesis using True ns(1) assms(1) by auto
next
  case False
  then have "ring_wf q" using assms by (auto simp: ring_wf_def)
  then show ?thesis using False assms(1) by auto
qed

lemma queue_Remove_cons:
  assumes "queue_wf q" "ring_items q = x # xs"
  shows "\<exists>q'. queue_Remove q = Some ((x, True), q') \<and> queue_wf q' \<and> ring_items q' = xs
     \<and> \<not> q_closed q' \<and> q_initCap q' = q_initCap q"
proof -
  have wf: "ring_wf q" and sz: "q_size q = items_bytes (x # xs)"
    using assms by (simp_all add: queue_wf_def)
  have c: "q_cnt q \<noteq> 0" using assms(2) by (metis list.distinct(1) ring_items_empty_iff)
  note pop = ring_pop_ok[OF wf c]
  define h where "h = (q_head q + 1) mod length (q_nodes q)"
  have x: "x = q_nodes q ! q_head q" "xs = cyc (q_nodes q) h (q_cnt q - 1)"
    using pop(4) assms(2) by (simp_all add: h_def)
  let ?q1 = "q\<lparr>q_head := h, q_cnt := q_cnt q - 1, q_size := q_size q - int (length (it_Data x))\<rparr>"
  have its: "ring_items ?q1 = xs" by (simp add: ring_items_def x(2))
  have "\<exists>q2. (if q_initCap ?q1 \<le> length (q_nodes ?q1) div 2 \<and> q_cnt ?q1 \<le> length (q_nodes ?q1) div 2
               then queue_resize zero_item (length (q_nodes ?q1) div 2) ?q1 else Some ?q1) = Some q2
     \<and> ring_wf q2 \<and> ring_items q2 = ring_items ?q1 \<and> q_size q2 = q_size ?q1 \<and> \<not> q_closed q2
     \<and> q_initCap q2 = q_initCap ?q1"
    using wf pop c by (intro queue_shrink_ok) (auto simp: ring_wf_def h_def)
  then obtain q2 where q2: "(if q_initCap ?q1 \<le> length (q_nodes ?q1) div 2 \<and> q_cnt ?q1 \<le> length (q_nodes ?q1) div 2
               then queue_resize zero_item (length (q_nodes ?q1) div 2) ?q1 else Some ?q1) = Some q2"
     "ring_wf q2" "ring_items q2 = xs" "q_size q2 = items_bytes xs" "\<not> q_closed q2" "q_initCap q2 = q_initCap q"
    using sz its by auto
  have ne: "q_nodes q \<noteq> []" using pop(2) by auto
  have "queue_Remove q =
     (if q_initCap ?q1 \<le> length (q_nodes ?q1) div 2 \<and> q_cnt ?q1 \<le> length (q_nodes ?q1) div 2
      then queue_resize zero_item (length (q_nodes ?q1) div 2) ?q1 else Some ?q1)
     \<bind> (\<lambda>q2. Some ((x, True), q2))"
    using c pop(2) ne by (simp add: queue_Remove_def go_simps Let_def h_def x(1))
  then have "queue_Remove q = Some ((x, True), q2)" by (simp only: q2(1) Option.bind.bind_lunit)
  then show ?thesis using q2 by (auto simp: queue_wf_def)
qed

lemma queueImpl_Remove_cons:
  assumes "ring_wf q" "ring_items q = x # xs"
  shows "\<exists>q'. queueImpl_Remove q = Some ((x, True), q') \<and> ring_wf q' \<and> ring_items q' = xs \<and> \<not> q_closed q'"
proof -
  have c: "q_cnt q \<noteq> 0" using assms(2) by (metis list.distinct(1) ring_items_empty_iff)
  note pop = ring_pop_ok[OF assms(1) c]
  define h where "h = (q_head q + 1) mod length (q_nodes q)"
  have x: "x = q_nodes q ! q_head q" "xs = cyc (q_nodes q) h (q_cnt q - 1)"
    using pop(4) assms(2) by (simp_all add: h_def)
  let ?q1 = "q\<lparr>q_head := h, q_cnt := q_cnt q - 1\<rparr>"
  have "\<exists>q2. (if q_initCap ?q1 \<le> length (q_nodes ?q1) div 2 \<and> q_cnt ?q1 \<le> length (q_nodes ?q1) div 2
               then queue_resize None (length (q_nodes ?q1) div 2) ?q1 else Some ?q1) = Some q2
     \<and> ring_wf q2 \<and> ring_items q2 = ring_items ?q1 \<and> q_size q2 = q_size ?q1 \<and> \<not> q_closed q2
     \<and> q_initCap q2 = q_initCap ?q1"
    using assms(1) pop c by (intro queue_shrink_ok) (auto simp: ring_wf_def h_def)
  then obtain q2 where q2: "(if q_initCap ?q1 \<le> length (q_nodes ?q1) div 2 \<and> q_cnt ?q1 \<le> length (q_nodes ?q1) div 2
               then queue_resize None (length (q_nodes ?q1) div 2) ?q1 else Some ?q1) = Some q2"
     "ring_wf q2" "ring_items q2 = xs" "\<not> q_closed q2"
    by (auto simp: ring_items_def x(2))
  have ne: "q_nodes q \<noteq> []" using pop(2) by auto
  have "queueImpl_Remove q =
     (if q_initCap ?q1 \<le> length (q_nodes ?q1) div 2 \<and> q_cnt ?q1 \<le> length (q_nodes ?q1) div 2
      then queue_resize None (length (q_nodes ?q1) div 2) ?q1 else Some ?q1)
     \<bind> (\<lambda>q2. Some ((x, True), q2))"
    using c pop(2) ne by (simp add: queueImpl_Remove_def queueImpl_resize_def go_simps Let_def h_def x(1))
  then have "queueImpl_Remove q = Some ((x, True), q2)" by (simp only: q2(1) Option.bind.bind_lunit)
  then show ?thesis using q2 by auto
qed

section \<open>The FIFO contract\<close>

text \<open>What the writer, the dissolver and the callback queue rely on: as long as the queue is open,
  \<open>add\<close> appends and reports success; \<open>remove\<close> takes the first entry; a closed queue refuses.
  \<open>None\<close> never appears in the laws, so a client that respects \<open>invar\<close> never panics here.\<close>

locale fifo =
  fixes invar :: "'q \<Rightarrow> bool"
    and items :: "'q \<Rightarrow> 'a list"
    and is_closed :: "'q \<Rightarrow> bool"
    and add :: "'a \<Rightarrow> 'q \<Rightarrow> (bool \<times> 'q) option"
    and remove :: "'q \<Rightarrow> (('a \<times> bool) \<times> 'q) option"
    and zero :: 'a
  assumes add_open: "invar q \<Longrightarrow> \<not> is_closed q \<Longrightarrow>
      \<exists>q'. add x q = Some (True, q') \<and> invar q' \<and> items q' = items q @ [x] \<and> \<not> is_closed q'"
    and add_closed: "is_closed q \<Longrightarrow> add x q = Some (False, q)"
    and remove_cons: "invar q \<Longrightarrow> items q = x # xs \<Longrightarrow>
      \<exists>q'. remove q = Some ((x, True), q') \<and> invar q' \<and> items q' = xs \<and> \<not> is_closed q'"
    and remove_nil: "invar q \<Longrightarrow> items q = [] \<Longrightarrow> remove q = Some ((zero, False), q)"
    and closed_nil: "invar q \<Longrightarrow> is_closed q \<Longrightarrow> items q = []"
begin

fun add_all :: "'a list \<Rightarrow> 'q \<Rightarrow> 'q option" where
  "add_all [] q = Some q"
| "add_all (x # xs) q = do { (_, q') \<leftarrow> add x q; add_all xs q' }"

fun take_n :: "nat \<Rightarrow> 'q \<Rightarrow> ('a list \<times> 'q) option" where
  "take_n 0 q = Some ([], q)"
| "take_n (Suc n) q = do {
     ((x, ok), q') \<leftarrow> remove q;
     if ok then do { (xs, q'') \<leftarrow> take_n n q'; Some (x # xs, q'') } else Some ([], q')
   }"

lemma add_all_open:
  "invar q \<Longrightarrow> \<not> is_closed q \<Longrightarrow>
     \<exists>q'. add_all xs q = Some q' \<and> invar q' \<and> items q' = items q @ xs \<and> \<not> is_closed q'"
proof (induction xs arbitrary: q)
  case (Cons x xs)
  obtain q1 where q1: "add x q = Some (True, q1)" "invar q1" "items q1 = items q @ [x]" "\<not> is_closed q1"
    using add_open[OF Cons.prems] by blast
  show ?case using Cons.IH[OF q1(2,4)] q1 by auto
qed simp

lemma take_n_take:
  "invar q \<Longrightarrow> \<exists>q'. take_n n q = Some (take n (items q), q') \<and> invar q' \<and> items q' = drop n (items q)"
proof (induction n arbitrary: q)
  case (Suc n)
  show ?case
  proof (cases "items q")
    case Nil
    then show ?thesis using remove_nil[OF Suc.prems] Suc.prems by auto
  next
    case (Cons x xs)
    obtain q1 where q1: "remove q = Some ((x, True), q1)" "invar q1" "items q1 = xs"
      using remove_cons[OF Suc.prems Cons] by blast
    then show ?thesis using Suc.IH[OF q1(2)] Cons by auto
  qed
qed simp

lemma add_all_take_n:
  assumes "invar q" "\<not> is_closed q" "items q = []"
  shows "\<exists>q1 q2. add_all xs q = Some q1 \<and> take_n (length xs) q1 = Some (xs, q2) \<and> items q2 = []"
proof -
  obtain q1 where "add_all xs q = Some q1" "invar q1" "items q1 = xs"
    using add_all_open[OF assms(1,2), of xs] assms(3) by auto
  then show ?thesis using take_n_take[of q1 "length xs"] by auto
qed

end

lemma queue_wf_New [simp]: "0 < n \<Longrightarrow> queue_wf (queue_New n)"
  by (simp add: queue_wf_def ring_wf_def queue_New_def ring_items_def)

lemma newQueue_wf [simp]: "ring_wf newQueue"
  by (simp add: ring_wf_def newQueue_def initialCapacity_def)

lemma queue_items_New [simp]: "ring_items (queue_New n) = []" "\<not> q_closed (queue_New n)"
  by (simp_all add: queue_New_def ring_items_def)

lemma newQueue_items [simp]: "ring_items newQueue = []" "\<not> q_closed newQueue"
  by (simp_all add: newQueue_def ring_items_def)

interpretation mq: fifo queue_wf ring_items q_closed queue_Add queue_Remove zero_item
proof unfold_locales
  fix q x
  assume "queue_wf q" "\<not> q_closed q"
  then show "\<exists>q'. queue_Add x q = Some (True, q') \<and> queue_wf q' \<and> ring_items q' = ring_items q @ [x] \<and> \<not> q_closed q'"
    using queue_Add_open[of q x] by blast
next
  fix q x xs
  assume "queue_wf q" "ring_items q = x # xs"
  then show "\<exists>q'. queue_Remove q = Some ((x, True), q') \<and> queue_wf q' \<and> ring_items q' = xs \<and> \<not> q_closed q'"
    using queue_Remove_cons[of q x xs] by blast
qed (auto simp: queue_Add_def queue_Remove_def queue_wf_def ring_wf_def ring_items_empty_iff)

interpretation jq: fifo ring_wf ring_items q_closed queueImpl_Add queueImpl_Remove None
proof unfold_locales
  fix q :: "'j option ring" and x
  assume "ring_wf q" "\<not> q_closed q"
  then show "\<exists>q'. queueImpl_Add x q = Some (True, q') \<and> ring_wf q' \<and> ring_items q' = ring_items q @ [x] \<and> \<not> q_closed q'"
    using queueImpl_Add_open[of q x] by blast
next
  fix q :: "'j option ring" and x xs
  assume "ring_wf q" "ring_items q = x # xs"
  then show "\<exists>q'. queueImpl_Remove q = Some ((x, True), q') \<and> ring_wf q' \<and> ring_items q' = xs \<and> \<not> q_closed q'"
    using queueImpl_Remove_cons[of q x xs] by blast
qed (auto simp: queueImpl_Add_def queueImpl_Remove_def ring_wf_def ring_items_empty_iff)

section \<open>Closing\<close>

lemma queue_drain_ok:
  assumes "q_head q < length (q_nodes q)" "k = q_cnt q"
  shows "\<exists>q'. queue_drain k q rem = Some (rem @ ring_items q, q') \<and> q_initCap q' = q_initCap q"
  using assms
proof (induction k arbitrary: q rem)
  case 0
  then show ?case by (auto simp: ring_items_def)
next
  case (Suc k)
  let ?q = "q\<lparr>q_head := (q_head q + 1) mod length (q_nodes q), q_cnt := k\<rparr>"
  have ne: "q_nodes q \<noteq> []" using Suc.prems by auto
  have "ring_items q = q_nodes q ! q_head q # ring_items ?q"
    using cyc_Cons[OF Suc.prems(1), of k] Suc.prems(2)[symmetric] by (simp add: ring_items_def)
  then show ?case
    using Suc.IH[of ?q "rem @ [q_nodes q ! q_head q]"] Suc.prems(1) ne by (auto simp: go_simps)
qed

lemma queue_CloseRemaining_ok:
  assumes "queue_wf q"
  shows "\<exists>q'. queue_CloseRemaining q = Some (ring_items q, q') \<and> queue_wf q' \<and> ring_items q' = [] \<and> q_closed q'"
proof (cases "q_closed q")
  case True
  then show ?thesis using assms by (auto simp: queue_CloseRemaining_def queue_wf_def ring_wf_def)
next
  case False
  then have "q_head q < length (q_nodes q)" using assms by (auto simp: queue_wf_def ring_wf_def)
  from queue_drain_ok[OF this refl, of "[]"] show ?thesis
    using False by (auto simp: queue_CloseRemaining_def queue_wf_def ring_wf_def ring_items_def)
qed

lemma queue_Close_ok [simp]:
  "queue_wf (queue_Close q)" "ring_items (queue_Close q) = []" "q_closed (queue_Close q)"
  by (simp_all add: queue_Close_def queue_wf_def ring_wf_def ring_items_def)

lemma queueImpl_Close_ok [simp]:
  "ring_wf (queueImpl_Close q)" "ring_items (queueImpl_Close q) = []" "q_closed (queueImpl_Close q)"
  by (simp_all add: queueImpl_Close_def ring_wf_def ring_items_def)

section \<open>The message queue refines a list\<close>

text \<open>All operations that change a message queue, what they return, a run of them in any order,
  and the same run on the abstract state: the list of waiting messages and the closed flag.\<close>

datatype queue_op = OpAdd item | OpRemove | OpClose | OpCloseRemaining

datatype queue_ret = RAdd bool | RRemove "item \<times> bool" | RClose | RRemaining "item list"

fun queue_exec :: "queue_op \<Rightarrow> item ring \<Rightarrow> (queue_ret \<times> item ring) go" where
  "queue_exec (OpAdd i) q = do { (b, q') \<leftarrow> queue_Add i q; Some (RAdd b, q') }"
| "queue_exec OpRemove q = do { (r, q') \<leftarrow> queue_Remove q; Some (RRemove r, q') }"
| "queue_exec OpClose q = Some (RClose, queue_Close q)"
| "queue_exec OpCloseRemaining q = do { (r, q') \<leftarrow> queue_CloseRemaining q; Some (RRemaining r, q') }"

fun queue_run :: "queue_op list \<Rightarrow> item ring \<Rightarrow> (queue_ret list \<times> item ring) go" where
  "queue_run [] q = Some ([], q)"
| "queue_run (op # ops) q = do {
     (r, q1) \<leftarrow> queue_exec op q;
     (rs, q2) \<leftarrow> queue_run ops q1;
     Some (r # rs, q2)
   }"

fun list_exec :: "queue_op \<Rightarrow> item list \<times> bool \<Rightarrow> queue_ret \<times> (item list \<times> bool)" where
  "list_exec (OpAdd i) (xs, c) = (if c then (RAdd False, (xs, c)) else (RAdd True, (xs @ [i], c)))"
| "list_exec OpRemove ([], c) = (RRemove (zero_item, False), ([], c))"
| "list_exec OpRemove (x # xs, c) = (RRemove (x, True), (xs, c))"
| "list_exec OpClose (xs, c) = (RClose, ([], True))"
| "list_exec OpCloseRemaining (xs, c) = (RRemaining xs, ([], True))"

fun list_run :: "queue_op list \<Rightarrow> item list \<times> bool \<Rightarrow> queue_ret list \<times> (item list \<times> bool)" where
  "list_run [] s = ([], s)"
| "list_run (op # ops) s =
     (let (r, s1) = list_exec op s; (rs, s2) = list_run ops s1 in (r # rs, s2))"

lemma queue_exec_refines:
  assumes "queue_wf q"
  shows "\<exists>r q'. queue_exec op q = Some (r, q') \<and> queue_wf q'
     \<and> list_exec op (ring_items q, q_closed q) = (r, (ring_items q', q_closed q'))"
proof (cases op)
  case (OpAdd i)
  show ?thesis
  proof (cases "q_closed q")
    case True
    then show ?thesis using OpAdd assms mq.add_closed[of q i] by simp
  next
    case False
    then show ?thesis using OpAdd mq.add_open[OF assms False, of i] by auto
  qed
next
  case OpRemove
  show ?thesis
  proof (cases "ring_items q")
    case Nil
    then show ?thesis using OpRemove assms mq.remove_nil[OF assms Nil] by simp
  next
    case (Cons x xs)
    moreover have "\<not> q_closed q" using mq.closed_nil[OF assms] Cons by auto
    ultimately show ?thesis using OpRemove mq.remove_cons[OF assms Cons] by auto
  qed
next
  case OpCloseRemaining
  then show ?thesis using queue_CloseRemaining_ok[OF assms] by auto
qed auto

text \<open>C1.  Every sequence of \<open>Add\<close>, \<open>Remove\<close>, \<open>Close\<close> and \<open>CloseRemaining\<close> calls on a queue built
  by \<open>New\<close> with a positive capacity runs without a panic, returns exactly what the same sequence
  returns on a plain first-in first-out list, leaves the queue holding that list, and keeps
  \<open>Size\<close> equal to the number of bytes waiting and \<open>Len\<close> equal to the number of messages.\<close>

theorem queue_run_refines_list:
  assumes "0 < n"
  shows "\<exists>rs q'. queue_run ops (queue_New n) = Some (rs, q')
     \<and> list_run ops ([], False) = (rs, (ring_items q', q_closed q'))
     \<and> queue_Size q' = items_bytes (ring_items q') \<and> queue_Len q' = length (ring_items q')"
proof -
  have "queue_wf q \<Longrightarrow> \<exists>rs q'. queue_run ops q = Some (rs, q') \<and> queue_wf q'
     \<and> list_run ops (ring_items q, q_closed q) = (rs, (ring_items q', q_closed q'))" for q
  proof (induction ops arbitrary: q)
    case (Cons op ops)
    obtain r q1 where r: "queue_exec op q = Some (r, q1)" "queue_wf q1"
      "list_exec op (ring_items q, q_closed q) = (r, (ring_items q1, q_closed q1))"
      using queue_exec_refines[OF Cons.prems] by blast
    then show ?case using Cons.IH[OF r(2)] by auto
  qed simp
  from this[OF queue_wf_New[OF assms]] obtain rs q' where "queue_run ops (queue_New n) = Some (rs, q')" "queue_wf q'"
    "list_run ops ([], False) = (rs, (ring_items q', q_closed q'))"
    by auto
  then show ?thesis by (auto simp: queue_wf_def queue_Size_def queue_Len_def)
qed

theorem queue_run_refines_list_witness:
  "\<exists>rs q'. queue_run [OpAdd zero_item, OpAdd zero_item, OpRemove, OpCloseRemaining] (queue_New 1) = Some (rs, q')
     \<and> list_run [OpAdd zero_item, OpAdd zero_item, OpRemove, OpCloseRemaining] ([], False)
         = (rs, (ring_items q', q_closed q'))
     \<and> queue_Size q' = items_bytes (ring_items q') \<and> queue_Len q' = length (ring_items q')"
  by (rule queue_run_refines_list) simp

text \<open>The hypothesis of C1 cannot be dropped: a queue of capacity 0 panics at the first \<open>Add\<close>.\<close>

lemma queue_New_0_panics: "queue_Add i (queue_New 0) = None"
  by (simp add: queue_Add_def queue_New_def queue_resize_def go_slice_def go_copy_def go_mod_def)

end
