(* ===== verification/Codes.thy ===== *)
theory Codes
  imports Kairos_Prelude
begin

text \<open>
  The error, disconnect and unsubscribe values of \<open>server/deliverer/errors.go\<close>,
  \<open>disconnect.go\<close> and \<open>unsubscribe.go\<close>, and the frame types of
  \<open>pkg/protocol/deliverprotocol/type.go\<close>.  Codes are 32-bit words as in the source.
\<close>

record error =
  e_Code :: "32 word"
  e_Message :: string
  e_Temporary :: bool

record disconnect =
  d_Code :: "32 word"
  d_Reason :: string

record unsubscribe =
  u_Code :: "32 word"
  u_Reason :: string

definition ErrorExpired :: error where
  "ErrorExpired = \<lparr>e_Code = 110, e_Message = ''expired'', e_Temporary = False\<rparr>"

definition ErrorInternal :: error where
  "ErrorInternal = \<lparr>e_Code = 100, e_Message = ''internal server error'', e_Temporary = True\<rparr>"

definition ErrorPermissionDenied :: error where
  "ErrorPermissionDenied = \<lparr>e_Code = 103, e_Message = ''permission denied'', e_Temporary = False\<rparr>"

definition ErrorBadRequest :: error where
  "ErrorBadRequest = \<lparr>e_Code = 107, e_Message = ''bad request'', e_Temporary = False\<rparr>"

definition ErrorUnrecoverablePosition :: error where
  "ErrorUnrecoverablePosition = \<lparr>e_Code = 112, e_Message = ''unrecoverable position'', e_Temporary = False\<rparr>"

definition ErrorNotAvailable :: error where
  "ErrorNotAvailable = \<lparr>e_Code = 108, e_Message = ''not available'', e_Temporary = False\<rparr>"

definition ErrorAlreadySubscribed :: error where
  "ErrorAlreadySubscribed = \<lparr>e_Code = 105, e_Message = ''already subscribed'', e_Temporary = False\<rparr>"

definition ErrorLimitExceeded :: error where
  "ErrorLimitExceeded = \<lparr>e_Code = 106, e_Message = ''limit exceeded'', e_Temporary = False\<rparr>"

definition DisconnectConnectionClosed :: disconnect where
  "DisconnectConnectionClosed = \<lparr>d_Code = 3000, d_Reason = ''connection closed''\<rparr>"

definition DisconnectShutdown :: disconnect where
  "DisconnectShutdown = \<lparr>d_Code = 3001, d_Reason = ''shutdown''\<rparr>"

definition DisconnectServerError :: disconnect where
  "DisconnectServerError = \<lparr>d_Code = 3004, d_Reason = ''internal server error''\<rparr>"

definition DisconnectExpired :: disconnect where
  "DisconnectExpired = \<lparr>d_Code = 3005, d_Reason = ''connection expired''\<rparr>"

definition DisconnectSubExpired :: disconnect where
  "DisconnectSubExpired = \<lparr>d_Code = 3006, d_Reason = ''subscription expired''\<rparr>"

definition DisconnectSlow :: disconnect where
  "DisconnectSlow = \<lparr>d_Code = 3008, d_Reason = ''slow''\<rparr>"

definition DisconnectWriteError :: disconnect where
  "DisconnectWriteError = \<lparr>d_Code = 3009, d_Reason = ''write error''\<rparr>"

definition DisconnectInsufficientState :: disconnect where
  "DisconnectInsufficientState = \<lparr>d_Code = 3010, d_Reason = ''insufficient state''\<rparr>"

definition DisconnectForceReconnect :: disconnect where
  "DisconnectForceReconnect = \<lparr>d_Code = 3011, d_Reason = ''force reconnect''\<rparr>"

definition DisconnectNoPong :: disconnect where
  "DisconnectNoPong = \<lparr>d_Code = 3012, d_Reason = ''no pong''\<rparr>"

definition DisconnectTooManyRequests :: disconnect where
  "DisconnectTooManyRequests = \<lparr>d_Code = 3013, d_Reason = ''too many requests''\<rparr>"

definition DisconnectInvalidToken :: disconnect where
  "DisconnectInvalidToken = \<lparr>d_Code = 3500, d_Reason = ''invalid token''\<rparr>"

definition DisconnectBadRequest :: disconnect where
  "DisconnectBadRequest = \<lparr>d_Code = 3501, d_Reason = ''bad request''\<rparr>"

definition DisconnectStale :: disconnect where
  "DisconnectStale = \<lparr>d_Code = 3502, d_Reason = ''stale''\<rparr>"

definition DisconnectForceNoReconnect :: disconnect where
  "DisconnectForceNoReconnect = \<lparr>d_Code = 3503, d_Reason = ''force disconnect''\<rparr>"

definition DisconnectConnectionLimit :: disconnect where
  "DisconnectConnectionLimit = \<lparr>d_Code = 3504, d_Reason = ''connection limit''\<rparr>"

definition DisconnectChannelLimit :: disconnect where
  "DisconnectChannelLimit = \<lparr>d_Code = 3505, d_Reason = ''channel limit''\<rparr>"

definition DisconnectInappropriateProtocol :: disconnect where
  "DisconnectInappropriateProtocol = \<lparr>d_Code = 3506, d_Reason = ''inappropriate protocol''\<rparr>"

definition DisconnectPermissionDenied :: disconnect where
  "DisconnectPermissionDenied = \<lparr>d_Code = 3507, d_Reason = ''permission denied''\<rparr>"

definition DisconnectNotAvailable :: disconnect where
  "DisconnectNotAvailable = \<lparr>d_Code = 3508, d_Reason = ''not available''\<rparr>"

definition DisconnectTooManyErrors :: disconnect where
  "DisconnectTooManyErrors = \<lparr>d_Code = 3509, d_Reason = ''too many errors''\<rparr>"

definition unsubscribeClient :: unsubscribe where
  "unsubscribeClient = \<lparr>u_Code = 0, u_Reason = ''client unsubscribed''\<rparr>"

definition unsubscribeDisconnect :: unsubscribe where
  "unsubscribeDisconnect = \<lparr>u_Code = 1, u_Reason = ''client disconnected''\<rparr>"

definition unsubscribeServer :: unsubscribe where
  "unsubscribeServer = \<lparr>u_Code = 2000, u_Reason = ''server unsubscribe''\<rparr>"

definition unsubscribeExpired :: unsubscribe where
  "unsubscribeExpired = \<lparr>u_Code = 2501, u_Reason = ''subscription expired''\<rparr>"

text \<open>Frame types: a \<open>uint8\<close> counted from 1.\<close>

abbreviation FrameTypeServerPing :: byte where "FrameTypeServerPing \<equiv> 1"
abbreviation FrameTypeClientPong :: byte where "FrameTypeClientPong \<equiv> 2"
abbreviation FrameTypePushConnect :: byte where "FrameTypePushConnect \<equiv> 3"
abbreviation FrameTypePushSubscribe :: byte where "FrameTypePushSubscribe \<equiv> 4"
abbreviation FrameTypePushPublication :: byte where "FrameTypePushPublication \<equiv> 5"
abbreviation FrameTypePushJoin :: byte where "FrameTypePushJoin \<equiv> 6"
abbreviation FrameTypePushLeave :: byte where "FrameTypePushLeave \<equiv> 7"
abbreviation FrameTypePushUnsubscribe :: byte where "FrameTypePushUnsubscribe \<equiv> 8"
abbreviation FrameTypePushMessage :: byte where "FrameTypePushMessage \<equiv> 9"
abbreviation FrameTypePushRefresh :: byte where "FrameTypePushRefresh \<equiv> 10"
abbreviation FrameTypePushDisconnect :: byte where "FrameTypePushDisconnect \<equiv> 11"
abbreviation FrameTypeConnect :: byte where "FrameTypeConnect \<equiv> 12"
abbreviation FrameTypeSubscribe :: byte where "FrameTypeSubscribe \<equiv> 13"
abbreviation FrameTypePublish :: byte where "FrameTypePublish \<equiv> 14"
abbreviation FrameTypeUnsubscribe :: byte where "FrameTypeUnsubscribe \<equiv> 15"
abbreviation FrameTypePresence :: byte where "FrameTypePresence \<equiv> 16"
abbreviation FrameTypePresenceStats :: byte where "FrameTypePresenceStats \<equiv> 17"
abbreviation FrameTypeHistory :: byte where "FrameTypeHistory \<equiv> 18"
abbreviation FrameTypeRefresh :: byte where "FrameTypeRefresh \<equiv> 19"
abbreviation FrameTypeSubRefresh :: byte where "FrameTypeSubRefresh \<equiv> 20"
abbreviation FrameTypeSend :: byte where "FrameTypeSend \<equiv> 21"

definition FrameType_String :: "byte \<Rightarrow> string" where
  "FrameType_String f =
     (if f = FrameTypeServerPing then ''server_ping''
      else if f = FrameTypeClientPong then ''client_pong''
      else if f = FrameTypePushConnect then ''push_connect''
      else if f = FrameTypePushSubscribe then ''push_subscribe''
      else if f = FrameTypePushPublication then ''push_publication''
      else if f = FrameTypePushJoin then ''push_join''
      else if f = FrameTypePushLeave then ''push_leave''
      else if f = FrameTypePushUnsubscribe then ''push_unsubscribe''
      else if f = FrameTypePushMessage then ''push_message''
      else if f = FrameTypePushRefresh then ''push_refresh''
      else if f = FrameTypePushDisconnect then ''push_disconnect''
      else if f = FrameTypeConnect then ''connect''
      else if f = FrameTypeSubscribe then ''subscribe''
      else if f = FrameTypePublish then ''publish''
      else if f = FrameTypeUnsubscribe then ''unsubscribe''
      else if f = FrameTypePresence then ''presence''
      else if f = FrameTypePresenceStats then ''presence_stats''
      else if f = FrameTypeHistory then ''history''
      else if f = FrameTypeSubRefresh then ''sub_refresh''
      else if f = FrameTypeRefresh then ''refresh''
      else if f = FrameTypeSend then ''send''
      else ''unknown'')"

lemmas error_defs =
  ErrorExpired_def
  ErrorInternal_def
  ErrorPermissionDenied_def
  ErrorBadRequest_def
  ErrorUnrecoverablePosition_def
  ErrorNotAvailable_def
  ErrorAlreadySubscribed_def
  ErrorLimitExceeded_def

lemmas disconnect_defs =
  DisconnectConnectionClosed_def
  DisconnectShutdown_def
  DisconnectServerError_def
  DisconnectExpired_def
  DisconnectSubExpired_def
  DisconnectSlow_def
  DisconnectWriteError_def
  DisconnectInsufficientState_def
  DisconnectForceReconnect_def
  DisconnectNoPong_def
  DisconnectTooManyRequests_def
  DisconnectInvalidToken_def
  DisconnectBadRequest_def
  DisconnectStale_def
  DisconnectForceNoReconnect_def
  DisconnectConnectionLimit_def
  DisconnectChannelLimit_def
  DisconnectInappropriateProtocol_def
  DisconnectPermissionDenied_def
  DisconnectNotAvailable_def
  DisconnectTooManyErrors_def

lemmas unsubscribe_defs =
  unsubscribeClient_def
  unsubscribeDisconnect_def
  unsubscribeServer_def
  unsubscribeExpired_def

end
