(* ===== verification/Writer.thy ===== *)
theory Writer
  imports Ring_Queue Codes
begin

text \<open>
  The batching message writer of a connection (\<open>server/deliverer/writer.go\<close>) over the message
  queue, and the two write callbacks that \<open>Client.startWriter\<close> installs
  (\<open>server/deliverer/client.go\<close>).

  The state is the \<open>writer\<close> record and an outside world \<open>'w\<close> that the two callbacks of
  \<open>writerConfig\<close> act on; a callback returns its error, if any.  A call of \<open>waitSendMessage\<close>
  that would sleep on the queue's condition variable is the value \<open>Blocks\<close>.
\<close>

datatype write_error = WErrDisconnect disconnect | WErrOther

record 'w writerConfig =
  WriteManyFn :: "item list \<Rightarrow> 'w \<Rightarrow> write_error option \<times> 'w"
  WriteFn :: "item \<Rightarrow> 'w \<Rightarrow> write_error option \<times> 'w"
  MaxQueueSize :: int

record 'w writer =
  w_config :: "'w writerConfig"
  w_messages :: "item ring"
  w_closed :: bool
  w_closeCh :: bool

definition defaultMaxMessagesInFrame :: int where
  "defaultMaxMessagesInFrame = 16"

definition newWriter :: "'w writerConfig \<Rightarrow> nat \<Rightarrow> 'w writer" where
  "newWriter config queueInitialCap =
     (let queueInitialCap = (if queueInitialCap = 0 then 2 else queueInitialCap)
      in \<lparr>w_config = config, w_messages = queue_New queueInitialCap, w_closed = False, w_closeCh = False\<rparr>)"

definition writer_enqueue :: "item \<Rightarrow> 'w writer \<Rightarrow> (disconnect option \<times> 'w writer) go" where
  "writer_enqueue item w = do {
     (ok, q) \<leftarrow> queue_Add item (w_messages w);
     let w1 = w\<lparr>w_messages := q\<rparr>;
     if \<not> ok then Some (Some DisconnectConnectionClosed, w1)
     else if MaxQueueSize (w_config w1) > 0 \<and> queue_Size (w_messages w1) > MaxQueueSize (w_config w1)
     then Some (Some DisconnectSlow, w1)
     else Some (None, w1)
   }"

text \<open>The inner loop of \<open>waitSendMessage\<close>.  The first component is \<open>None\<close> when the loop returns
  \<open>false\<close> from the whole function.\<close>

fun waitSendMessage_loop ::
  "int \<Rightarrow> nat \<Rightarrow> item list \<Rightarrow> item ring \<Rightarrow> (item list option \<times> item ring) go" where
  "waitSendMessage_loop maxMessagesInFrame 0 messages q = Some (Some messages, q)"
| "waitSendMessage_loop maxMessagesInFrame (Suc messageCount) messages q =
     (if maxMessagesInFrame > -1 \<and> int (length messages) \<ge> maxMessagesInFrame
      then Some (Some messages, q)
      else do {
        ((m, ok), q1) \<leftarrow> queue_Remove q;
        if ok then waitSendMessage_loop maxMessagesInFrame messageCount (messages @ [m]) q1
        else if queue_Closed q1 then Some (None, q1)
        else Some (Some messages, q1)
      })"

definition write_frame :: "'w writerConfig \<Rightarrow> item list \<Rightarrow> 'w \<Rightarrow> write_error option \<times> 'w" where
  "write_frame c messages world =
     (case messages of [m] \<Rightarrow> WriteFn c m world | _ \<Rightarrow> WriteManyFn c messages world)"

text \<open>\<open>closed_in_delay\<close> says that the close channel fired before the delay timer did.\<close>

definition waitSendMessage ::
  "int \<Rightarrow> int \<Rightarrow> bool \<Rightarrow> 'w writer \<Rightarrow> 'w \<Rightarrow> (bool \<times> 'w writer \<times> 'w) go wait" where
  "waitSendMessage maxMessagesInFrame writeDelay closed_in_delay w world =
     (case queue_Wait (w_messages w) of
        Blocks \<Rightarrow> Blocks
      | Returns ok \<Rightarrow> Returns (
          if \<not> ok then Some (False, w, world)
          else if writeDelay > 0 \<and> closed_in_delay then Some (False, w, world)
          else do {
            ((msg, ok), q1) \<leftarrow> queue_Remove (w_messages w);
            let w1 = w\<lparr>w_messages := q1\<rparr>;
            if \<not> ok then Some (\<not> queue_Closed (w_messages w1), w1, world)
            else do {
              let messageCount = queue_Len (w_messages w1);
              if (maxMessagesInFrame = -1 \<or> maxMessagesInFrame > 1) \<and> messageCount > 0
              then do {
                (ms, q2) \<leftarrow> waitSendMessage_loop maxMessagesInFrame messageCount [msg] (w_messages w1);
                let w2 = w1\<lparr>w_messages := q2\<rparr>;
                case ms of
                  None \<Rightarrow> Some (False, w2, world)
                | Some messages \<Rightarrow>
                    (let (writeErr, world') = write_frame (w_config w2) messages world
                     in Some (writeErr = None, w2, world'))
              }
              else (let (writeErr, world') = WriteFn (w_config w1) msg world
                    in Some (writeErr = None, w1, world'))
            }
          }))"

text \<open>The loop of \<open>run\<close>, up to the first call that blocks; the fuel bounds the iterations, and
  \<open>None\<close> in the first component says that it was used up.  The wait of \<open>writeDelay\<close> ends early
  when the close channel is closed.\<close>

fun writer_run_loop :: "nat \<Rightarrow> int \<Rightarrow> int \<Rightarrow> 'w writer \<Rightarrow> 'w \<Rightarrow> (run_stop option \<times> 'w writer \<times> 'w) go" where
  "writer_run_loop 0 writeDelay maxMessagesInFrame w world = Some (None, w, world)"
| "writer_run_loop (Suc fuel) writeDelay maxMessagesInFrame w world =
     (case waitSendMessage maxMessagesInFrame writeDelay (w_closeCh w) w world of
        Blocks \<Rightarrow> Some (Some Sleeping, w, world)
      | Returns r \<Rightarrow> do {
          (ok, w1, world1) \<leftarrow> r;
          if ok then writer_run_loop fuel writeDelay maxMessagesInFrame w1 world1
          else Some (Some Stopped, w1, world1)
        })"

definition writer_run :: "nat \<Rightarrow> int \<Rightarrow> int \<Rightarrow> 'w writer \<Rightarrow> 'w \<Rightarrow> (run_stop option \<times> 'w writer \<times> 'w) go" where
  "writer_run fuel writeDelay maxMessagesInFrame w world =
     writer_run_loop fuel writeDelay
       (if maxMessagesInFrame = 0 then defaultMaxMessagesInFrame else maxMessagesInFrame) w world"

text \<open>\<open>close\<close>; the last call, \<open>close(w.closeCh)\<close>, panics when the channel is closed already.\<close>

definition writer_close :: "bool \<Rightarrow> 'w writer \<Rightarrow> 'w \<Rightarrow> ('w writer \<times> 'w) go" where
  "writer_close flushRemaining w world =
     (if w_closed w then Some (w, world)
      else if flushRemaining then do {
        (remaining, q) \<leftarrow> queue_CloseRemaining (w_messages w);
        let world' = (if remaining \<noteq> [] then snd (WriteManyFn (w_config w) remaining world) else world);
        if w_closeCh w then None else Some (w\<lparr>w_closed := True, w_messages := q, w_closeCh := True\<rparr>, world')
      }
      else if w_closeCh w then None
      else Some (w\<lparr>w_closed := True, w_messages := queue_Close (w_messages w), w_closeCh := True\<rparr>, world))"

section \<open>The callbacks installed by a client\<close>

text \<open>The transport is outside the repository's control (a socket): its \<open>Write\<close> and \<open>WriteMany\<close>
  are arguments.  The second component of a result is the disconnect that the client is then
  asynchronously closed with.\<close>

definition closeReason :: "write_error \<Rightarrow> disconnect" where
  "closeReason e = (case e of WErrDisconnect d \<Rightarrow> d | WErrOther \<Rightarrow> DisconnectWriteError)"

definition passes :: "(item \<Rightarrow> bool) option \<Rightarrow> item \<Rightarrow> bool" where
  "passes transportWriteHandler item =
     (case transportWriteHandler of None \<Rightarrow> True | Some h \<Rightarrow> h item)"

definition startWriter_WriteFn ::
  "(item \<Rightarrow> bool) option \<Rightarrow> (bytes \<Rightarrow> 't \<Rightarrow> write_error option \<times> 't) \<Rightarrow> item
     \<Rightarrow> 't \<times> disconnect list \<Rightarrow> write_error option \<times> ('t \<times> disconnect list)" where
  "startWriter_WriteFn transportWriteHandler write item = (\<lambda>(t, closing).
     if \<not> passes transportWriteHandler item then (None, (t, closing))
     else (case write (it_Data item) t of
             (Some e, t1) \<Rightarrow> (Some e, (t1, closing @ [closeReason e]))
           | (None, t1) \<Rightarrow> (None, (t1, closing))))"

definition startWriter_WriteManyFn ::
  "(item \<Rightarrow> bool) option \<Rightarrow> (bytes list \<Rightarrow> 't \<Rightarrow> write_error option \<times> 't) \<Rightarrow> item list
     \<Rightarrow> 't \<times> disconnect list \<Rightarrow> write_error option \<times> ('t \<times> disconnect list)" where
  "startWriter_WriteManyFn transportWriteHandler writeMany items = (\<lambda>(t, closing).
     (let messages = map it_Data (filter (passes transportWriteHandler) items)
      in case writeMany messages t of
           (Some e, t1) \<Rightarrow> (Some e, (t1, closing @ [closeReason e]))
         | (None, t1) \<Rightarrow> (None, (t1, closing))))"

definition startWriter ::
  "(item \<Rightarrow> bool) option \<Rightarrow> (bytes \<Rightarrow> 't \<Rightarrow> write_error option \<times> 't)
     \<Rightarrow> (bytes list \<Rightarrow> 't \<Rightarrow> write_error option \<times> 't) \<Rightarrow> int \<Rightarrow> nat \<Rightarrow> ('t \<times> disconnect list) writer" where
  "startWriter transportWriteHandler write writeMany clientQueueMaxSize queueInitialCap =
     newWriter \<lparr>WriteManyFn = startWriter_WriteManyFn transportWriteHandler writeMany,
                WriteFn = startWriter_WriteFn transportWriteHandler write,
                MaxQueueSize = clientQueueMaxSize\<rparr> queueInitialCap"

section \<open>Batching\<close>

text \<open>A well-formed writer: its queue is, and its close channel is closed by \<open>close\<close> alone.\<close>

definition writer_wf :: "'w writer \<Rightarrow> bool" where
  "writer_wf w \<longleftrightarrow> queue_wf (w_messages w) \<and> (w_closeCh w \<longrightarrow> w_closed w)"

lemma newWriter_writer_wf [simp]: "writer_wf (newWriter c n)" "\<not> w_closeCh (newWriter c n)"
  by (simp_all add: newWriter_def writer_wf_def Let_def)

lemma newWriter_wf [simp]:
  "queue_wf (w_messages (newWriter c n))" "ring_items (w_messages (newWriter c n)) = []"
  "\<not> q_closed (w_messages (newWriter c n))" "w_config (newWriter c n) = c" "\<not> w_closed (newWriter c n)"
  by (simp_all add: newWriter_def Let_def)

text \<open>How many of the waiting messages one round takes.\<close>

definition batch :: "int \<Rightarrow> nat \<Rightarrow> nat" where
  "batch maxMessagesInFrame n =
     (if maxMessagesInFrame = -1 then n
      else if maxMessagesInFrame > 1 then min n (nat maxMessagesInFrame) else min n 1)"

lemma waitSendMessage_loop_ok:
  assumes "queue_wf q" "\<not> q_closed q" "c \<le> length (ring_items q)"
  shows "\<exists>q'. waitSendMessage_loop maxm c ms q =
     Some (Some (ms @ take (if maxm > -1 then min c (nat maxm - length ms) else c) (ring_items q)), q')
     \<and> queue_wf q' \<and> \<not> q_closed q'
     \<and> ring_items q' = drop (if maxm > -1 then min c (nat maxm - length ms) else c) (ring_items q)"
  using assms
proof (induction c arbitrary: q ms)
  case (Suc c)
  show ?case
  proof (cases "maxm > -1 \<and> int (length ms) \<ge> maxm")
    case True
    then show ?thesis using Suc.prems by auto
  next
    case False
    then have step: "(if maxm > -1 then min (Suc c) (nat maxm - length ms) else Suc c) =
        Suc (if maxm > -1 then min c (nat maxm - length (ms @ [m])) else c)" for m
      by auto
    obtain x xs where it: "ring_items q = x # xs" using Suc.prems(3) by (cases "ring_items q") auto
    obtain q1 where q1: "queue_Remove q = Some ((x, True), q1)" "queue_wf q1" "ring_items q1 = xs" "\<not> q_closed q1"
      using mq.remove_cons[OF Suc.prems(1) it] by blast
    have "c \<le> length (ring_items q1)" using Suc.prems(3) it q1(3) by simp
    from Suc.IH[OF q1(2,4) this, of "ms @ [x]"] show ?thesis
      unfolding step[of x] using False q1 it by auto
  qed
qed auto

lemma write_frame_single [simp]: "write_frame c [m] world = WriteFn c m world"
  by (simp add: write_frame_def)

lemma batch_pos: "0 < n \<Longrightarrow> 0 < batch m n"
  by (auto simp: batch_def)

lemma waitSendMessage_ok:
  assumes wf: "queue_wf (w_messages w)" "\<not> q_closed (w_messages w)" and ne: "ring_items (w_messages w) \<noteq> []"
    and k_def: "k = batch maxm (length (ring_items (w_messages w)))"
    and open_ch: "\<not> cl"
  shows "\<exists>q'. waitSendMessage maxm d cl w world = Returns (Some (
        case write_frame (w_config w) (take k (ring_items (w_messages w))) world of
          (e, world') \<Rightarrow> (e = None, w\<lparr>w_messages := q'\<rparr>, world')))
      \<and> queue_wf q' \<and> \<not> q_closed q' \<and> ring_items q' = drop k (ring_items (w_messages w))"
proof -
  obtain x xs where it: "ring_items (w_messages w) = x # xs" using ne by (cases "ring_items (w_messages w)") auto
  obtain q1 where q1: "queue_Remove (w_messages w) = Some ((x, True), q1)" "queue_wf q1" "ring_items q1 = xs" "\<not> q_closed q1"
    using mq.remove_cons[OF wf(1) it] by blast
  have wait: "queue_Wait (w_messages w) = Returns True"
    using wf(2) ne by (auto simp: queue_Wait_def ring_items_empty_iff)
  have cnt: "q_cnt q1 = length xs" using q1(3) by (metis ring_items_length)
  show ?thesis
  proof (cases "(maxm = -1 \<or> maxm > 1) \<and> xs \<noteq> []")
    case True
    have k: "k = Suc (if maxm > -1 then min (length xs) (nat maxm - length [x]) else length xs)"
      using True it by (auto simp: k_def batch_def)
    obtain q2 where q2: "waitSendMessage_loop maxm (length xs) [x] q1 = Some (Some (take k (x # xs)), q2)"
      "queue_wf q2" "\<not> q_closed q2" "ring_items q2 = drop k (x # xs)"
      using waitSendMessage_loop_ok[OF q1(2,4), of "length xs" maxm "[x]"] q1(3) k by auto
    show ?thesis
      using True q2 it
      by (intro exI[of _ q2]) (simp add: waitSendMessage_def wait q1(1) queue_Len_def cnt split_def Let_def open_ch)
  next
    case False
    then have k1: "k = 1" using it by (auto simp: k_def batch_def)
    consider "xs = []" | "maxm \<noteq> -1" "\<not> maxm > 1" using False by blast
    then show ?thesis
      by cases (rule exI[of _ q1], simp add: waitSendMessage_def wait queue_Len_def cnt split_def Let_def q1 it k1 open_ch)+
  qed
qed

text \<open>A transport that accepts everything and remembers the frames it was given.\<close>

definition rec_write :: "bytes \<Rightarrow> bytes list list \<Rightarrow> write_error option \<times> bytes list list" where
  "rec_write b t = (None, t @ [[b]])"

definition rec_writeMany :: "bytes list \<Rightarrow> bytes list list \<Rightarrow> write_error option \<times> bytes list list" where
  "rec_writeMany bs t = (None, t @ [bs])"

lemma write_frame_rec:
  assumes "w_config w = w_config (startWriter twh rec_write rec_writeMany m n)"
  shows "\<exists>fs. write_frame (w_config w) ms (t, cl) = (None, (t @ fs, cl))
     \<and> concat fs = map it_Data (filter (passes twh) ms) \<and> (\<forall>f\<in>set fs. length f \<le> length ms)"
proof (cases "\<exists>x. ms = [x]")
  case True
  then show ?thesis using assms
    by (auto simp: startWriter_def startWriter_WriteFn_def rec_write_def intro: exI[of _ "[]"])
next
  case False
  then have "write_frame (w_config w) ms (t, cl) = WriteManyFn (w_config w) ms (t, cl)"
    by (auto simp: write_frame_def split: list.split)
  then show ?thesis using assms
    by (auto simp: startWriter_def startWriter_WriteManyFn_def rec_writeMany_def Let_def)
qed

lemma batch_le: "0 < maxm \<Longrightarrow> batch maxm n \<le> nat maxm"
  by (auto simp: batch_def)

lemma writer_run_loop_ok:
  assumes "queue_wf (w_messages w)" "\<not> q_closed (w_messages w)"
    and "\<not> w_closeCh w"
    and "w_config w = w_config (startWriter twh rec_write rec_writeMany m n)"
    and "length (ring_items (w_messages w)) < fuel"
  shows "\<exists>w' fs. writer_run_loop fuel delay maxm w (t, cl) = Some (Some Sleeping, w', (t @ fs, cl))
     \<and> concat fs = map it_Data (filter (passes twh) (ring_items (w_messages w)))
     \<and> ring_items (w_messages w') = []
     \<and> (0 < maxm \<longrightarrow> (\<forall>f\<in>set fs. length f \<le> nat maxm))"
  using assms
proof (induction fuel arbitrary: w t)
  case (Suc fuel)
  let ?xs = "ring_items (w_messages w)"
  show ?case
  proof (cases "?xs = []")
    case True
    then have "queue_Wait (w_messages w) = Blocks"
      using Suc.prems(2) by (simp add: queue_Wait_def ring_items_empty_iff)
    then show ?thesis using True by (auto simp: waitSendMessage_def)
  next
    case False
    let ?k = "batch maxm (length ?xs)"
    obtain q' where q': "waitSendMessage maxm delay (w_closeCh w) w (t, cl) = Returns (Some (
        case write_frame (w_config w) (take ?k ?xs) (t, cl) of
          (e, world') \<Rightarrow> (e = None, w\<lparr>w_messages := q'\<rparr>, world')))"
      "queue_wf q'" "\<not> q_closed q'" "ring_items q' = drop ?k ?xs"
      using waitSendMessage_ok[OF Suc.prems(1,2) False refl Suc.prems(3)] by blast
    obtain fs where fs: "write_frame (w_config w) (take ?k ?xs) (t, cl) = (None, (t @ fs, cl))"
      "concat fs = map it_Data (filter (passes twh) (take ?k ?xs))" "\<forall>f\<in>set fs. length f \<le> length (take ?k ?xs)"
      using write_frame_rec[OF Suc.prems(4)] by blast
    have "0 < q_cnt (w_messages w)" using False by (simp add: ring_items_empty_iff)
    then have "length (ring_items q') < fuel"
      using q'(4) Suc.prems(5) batch_pos[of "length ?xs" maxm] by simp
    then obtain w' fs' where IH: "writer_run_loop fuel delay maxm (w\<lparr>w_messages := q'\<rparr>) (t @ fs, cl) =
          Some (Some Sleeping, w', ((t @ fs) @ fs', cl))"
      "concat fs' = map it_Data (filter (passes twh) (drop ?k ?xs))" "ring_items (w_messages w') = []"
      "0 < maxm \<longrightarrow> (\<forall>f\<in>set fs'. length f \<le> nat maxm)"
      using Suc.IH[of "w\<lparr>w_messages := q'\<rparr>" "t @ fs"] q' Suc.prems(3,4) by auto
    have "map it_Data (filter (passes twh) ?xs) = concat (fs @ fs')"
      using fs(2) IH(2) by (metis append_take_drop_id concat_append filter_append map_append)
    moreover have "0 < maxm \<longrightarrow> (\<forall>f\<in>set (fs @ fs'). length f \<le> nat maxm)"
      using fs(3) IH(4) batch_le[of maxm "length ?xs"] by fastforce
    ultimately show ?thesis
      using q'(1) fs(1) IH(1,3) by (intro exI[of _ w'] exI[of _ "fs @ fs'"]) simp
  qed
qed simp

section \<open>Properties\<close>

fun enqueue_all :: "item list \<Rightarrow> 'w writer \<Rightarrow> 'w writer go" where
  "enqueue_all [] w = Some w"
| "enqueue_all (i # is) w = do { (_, w1) \<leftarrow> writer_enqueue i w; enqueue_all is w1 }"

lemma writer_enqueue_open:
  assumes "queue_wf (w_messages w)" "\<not> q_closed (w_messages w)"
  shows "\<exists>q'. writer_enqueue i w =
       Some (if 0 < MaxQueueSize (w_config w)
                \<and> MaxQueueSize (w_config w) < items_bytes (ring_items (w_messages w) @ [i])
             then Some DisconnectSlow else None, w\<lparr>w_messages := q'\<rparr>)
     \<and> queue_wf q' \<and> \<not> q_closed q' \<and> ring_items q' = ring_items (w_messages w) @ [i]"
proof -
  obtain q' where q': "queue_Add i (w_messages w) = Some (True, q')" "queue_wf q'"
    "ring_items q' = ring_items (w_messages w) @ [i]" "\<not> q_closed q'"
    using mq.add_open[OF assms] by blast
  moreover have "queue_Size q' = items_bytes (ring_items (w_messages w) @ [i])"
    using q'(2,3) by (simp add: queue_Size_def queue_wf_def)
  ultimately show ?thesis by (auto simp: writer_enqueue_def Let_def)
qed

lemma enqueue_all_ok:
  assumes "queue_wf (w_messages w)" "\<not> q_closed (w_messages w)"
  shows "\<exists>w'. enqueue_all is w = Some w' \<and> queue_wf (w_messages w') \<and> \<not> q_closed (w_messages w')
     \<and> ring_items (w_messages w') = ring_items (w_messages w) @ is \<and> w_config w' = w_config w
     \<and> w_closeCh w' = w_closeCh w \<and> w_closed w' = w_closed w"
  using assms
proof (induction "is" arbitrary: w)
  case (Cons i "is")
  obtain e q' where q': "writer_enqueue i w = Some (e, w\<lparr>w_messages := q'\<rparr>)" "queue_wf q'" "\<not> q_closed q'"
    "ring_items q' = ring_items (w_messages w) @ [i]"
    using writer_enqueue_open[OF Cons.prems, of i] by blast
  then show ?case using Cons.IH[of "w\<lparr>w_messages := q'\<rparr>"] by auto
qed simp

text \<open>C2.  With a transport that accepts every frame, what is enqueued on a fresh writer is written to
  the transport completely, exactly once and in order, with or without a write delay: after any list of messages has been enqueued, the writer's loop reaches the
  state where it sleeps on an empty queue (within one round per message), and the frames handed
  to the transport, joined, are the payloads of the messages that the transport write handler
  lets through.  No frame is longer than \<open>maxMessagesInFrame\<close> (16 when it is left 0).\<close>

theorem writer_run_writes_in_order:
  assumes "length is < fuel"
  shows "\<exists>w w' fs. enqueue_all is (startWriter twh rec_write rec_writeMany maxq cap) = Some w
     \<and> writer_run fuel delay maxm w ([], []) = Some (Some Sleeping, w', (fs, []))
     \<and> concat fs = map it_Data (filter (passes twh) is)
     \<and> ring_items (w_messages w') = []
     \<and> (0 \<le> maxm \<longrightarrow> (\<forall>f\<in>set fs. length f \<le> (if maxm = 0 then 16 else nat maxm)))"
proof -
  let ?s = "startWriter twh rec_write rec_writeMany maxq cap"
  obtain w where w: "enqueue_all is ?s = Some w" "queue_wf (w_messages w)" "\<not> q_closed (w_messages w)"
    "ring_items (w_messages w) = is" "w_config w = w_config ?s" "\<not> w_closeCh w"
    using enqueue_all_ok[of ?s "is"] by (auto simp: startWriter_def)
  have fuel: "length (ring_items (w_messages w)) < fuel" using assms w(4) by simp
  have ran: "\<And>m t cl. \<exists>w' fs. writer_run_loop fuel delay m w (t, cl) = Some (Some Sleeping, w', (t @ fs, cl))
     \<and> concat fs = map it_Data (filter (passes twh) is) \<and> ring_items (w_messages w') = []
     \<and> (0 < m \<longrightarrow> (\<forall>f\<in>set fs. length f \<le> nat m))"
    using writer_run_loop_ok[OF w(2,3,6,5) fuel] w(4) by simp
  define m where "m = (if maxm = 0 then defaultMaxMessagesInFrame else maxm)"
  have m: "0 \<le> maxm \<longrightarrow> 0 < m" "nat m = (if maxm = 0 then 16 else nat maxm)"
    by (auto simp: defaultMaxMessagesInFrame_def m_def)
  obtain w' fs where "writer_run_loop fuel delay m w ([], []) = Some (Some Sleeping, w', (fs, []))"
    "concat fs = map it_Data (filter (passes twh) is)" "ring_items (w_messages w') = []"
    "0 < m \<longrightarrow> (\<forall>f\<in>set fs. length f \<le> nat m)"
    using ran[of m "[]" "[]"] by auto
  then show ?thesis
    unfolding m(2)[symmetric] using w(1) m(1)
    by (intro exI[of _ w] exI[of _ w'] exI[of _ fs]) (simp add: writer_run_def m_def[symmetric])
qed

theorem writer_run_writes_in_order_witness:
  "\<exists>w w' fs. enqueue_all [zero_item, zero_item\<lparr>it_Data := [7]\<rparr>] (startWriter None rec_write rec_writeMany 0 0) = Some w
     \<and> writer_run 3 25 0 w ([], []) = Some (Some Sleeping, w', (fs, []))
     \<and> concat fs = map it_Data (filter (passes None) [zero_item, zero_item\<lparr>it_Data := [7]\<rparr>])
     \<and> ring_items (w_messages w') = []
     \<and> (0 \<le> (0::int) \<longrightarrow> (\<forall>f\<in>set fs. length f \<le> (if (0::int) = 0 then 16 else nat 0)))"
  by (rule writer_run_writes_in_order) simp

text \<open>Back pressure: on an open connection \<open>enqueue\<close> always stores the message and never panics;
  it answers \<open>DisconnectSlow\<close> exactly when a limit is configured and the bytes now waiting exceed
  it.  After \<open>close\<close> every further message is refused with \<open>DisconnectConnectionClosed\<close> and
  nothing is stored.\<close>

theorem writer_enqueue_limits:
  assumes "queue_wf (w_messages w)"
  shows "\<exists>w'. writer_enqueue i w =
       Some (if q_closed (w_messages w) then Some DisconnectConnectionClosed
             else if 0 < MaxQueueSize (w_config w)
                \<and> MaxQueueSize (w_config w) < items_bytes (ring_items (w_messages w) @ [i])
             then Some DisconnectSlow else None, w')
     \<and> queue_wf (w_messages w')
     \<and> ring_items (w_messages w') = (if q_closed (w_messages w) then [] else ring_items (w_messages w) @ [i])"
proof (cases "q_closed (w_messages w)")
  case True
  then show ?thesis
    using mq.add_closed[OF True, of i] mq.closed_nil[OF assms True] assms
    by (auto simp: writer_enqueue_def Let_def)
next
  case False
  then show ?thesis using writer_enqueue_open[OF assms False, of i] by auto
qed

theorem writer_enqueue_limits_witness:
  "\<exists>w'. writer_enqueue zero_item (startWriter None rec_write rec_writeMany 1 0) =
       Some (if q_closed (w_messages (startWriter None rec_write rec_writeMany 1 0)) then Some DisconnectConnectionClosed
             else if 0 < MaxQueueSize (w_config (startWriter None rec_write rec_writeMany 1 0))
                \<and> MaxQueueSize (w_config (startWriter None rec_write rec_writeMany 1 0))
                  < items_bytes (ring_items (w_messages (startWriter None rec_write rec_writeMany 1 0)) @ [zero_item])
             then Some DisconnectSlow else None, w')
     \<and> queue_wf (w_messages w')
     \<and> ring_items (w_messages w') =
         (if q_closed (w_messages (startWriter None rec_write rec_writeMany 1 0)) then []
          else ring_items (w_messages (startWriter None rec_write rec_writeMany 1 0)) @ [zero_item])"
  by (rule writer_enqueue_limits) (simp add: startWriter_def)

text \<open>C3.  Closing with \<open>flushRemaining\<close> hands everything that still waits to \<open>WriteManyFn\<close> in one
  call, in order, and closes the queue; closing again does nothing.\<close>

theorem writer_close_flushes:
  assumes "writer_wf w" "\<not> w_closed w"
  shows "\<exists>w'. writer_close True w world =
       Some (w', if ring_items (w_messages w) = [] then world
                 else snd (WriteManyFn (w_config w) (ring_items (w_messages w)) world))
     \<and> q_closed (w_messages w') \<and> ring_items (w_messages w') = []
     \<and> writer_close b w' world' = Some (w', world')"
proof -
  obtain q' where "queue_CloseRemaining (w_messages w) = Some (ring_items (w_messages w), q')"
    "ring_items q' = []" "q_closed q'"
    using queue_CloseRemaining_ok[of "w_messages w"] assms(1) by (auto simp: writer_wf_def)
  then show ?thesis
    using assms
    by (intro exI[of _ "w\<lparr>w_closed := True, w_messages := q', w_closeCh := True\<rparr>"])
      (simp add: writer_close_def writer_wf_def)
qed

theorem writer_close_flushes_witness:
  "\<exists>w w'. enqueue_all [zero_item, zero_item\<lparr>it_Data := [7]\<rparr>] (startWriter None rec_write rec_writeMany 0 0) = Some w
     \<and> writer_close True w ([], []) = Some (w', ([[[], [7]]], []))
     \<and> q_closed (w_messages w') \<and> ring_items (w_messages w') = []
     \<and> writer_close False w' ([], []) = Some (w', ([], []))"
proof -
  let ?s = "startWriter None rec_write rec_writeMany 0 0" and ?is = "[zero_item, zero_item\<lparr>it_Data := [7]\<rparr>]"
  have s: "queue_wf (w_messages ?s)" "\<not> q_closed (w_messages ?s)" "\<not> w_closeCh ?s" "\<not> w_closed ?s" "ring_items (w_messages ?s) = []"
    by (simp_all add: startWriter_def)
  obtain w where w: "enqueue_all ?is ?s = Some w" "writer_wf w" "\<not> w_closed w" "ring_items (w_messages w) = ?is" "w_config w = w_config ?s"
    using enqueue_all_ok[OF s(1,2), of ?is] s(3-5) by (auto simp: writer_wf_def)
  show ?thesis
    using writer_close_flushes[OF w(2,3), of "([], [])" False "([], [])"] w(1,4,5)
    by (auto simp: startWriter_def startWriter_WriteManyFn_def rec_writeMany_def passes_def zero_item_def)
qed

end
