(* ===== verification/Dissolve.thy ===== *)
theory Dissolve
  imports Writer "HOL-Library.Multiset"
begin

text \<open>
  The background job runner of \<open>server/deliverer/internal/dissolve/dissolve.go\<close>, which the node
  uses to leave broker channels.  A job is a value \<open>'j\<close>; running it is the argument
  \<open>exec\<close>, which acts on a world \<open>'w\<close> and says whether the job returned an error.
  The loop of one worker is followed up to the call of \<open>Wait\<close> that sleeps.
\<close>

record 'j dissolver =
  ds_queue :: "'j option ring"
  ds_numWorkers :: nat

definition Dissolver_New :: "nat \<Rightarrow> 'j dissolver" where
  "Dissolver_New numWorkers = \<lparr>ds_queue = newQueue, ds_numWorkers = numWorkers\<rparr>"

definition Dissolver_Submit :: "'j \<Rightarrow> 'j dissolver \<Rightarrow> (string option \<times> 'j dissolver) go" where
  "Dissolver_Submit job d = do {
     (ok, q) \<leftarrow> queueImpl_Add (Some job) (ds_queue d);
     Some (if \<not> ok then Some ''can not submit job to closed dissolver'' else None, d\<lparr>ds_queue := q\<rparr>)
   }"

definition Dissolver_Close :: "'j dissolver \<Rightarrow> 'j dissolver" where
  "Dissolver_Close d = d\<lparr>ds_queue := queueImpl_Close (ds_queue d)\<rparr>"

fun Dissolver_runWorker ::
  "('j \<Rightarrow> 'w \<Rightarrow> bool \<times> 'w) \<Rightarrow> nat \<Rightarrow> 'j dissolver \<Rightarrow> 'w \<Rightarrow> (run_stop option \<times> 'j dissolver \<times> 'w) go" where
  "Dissolver_runWorker exec 0 d world = Some (None, d, world)"
| "Dissolver_runWorker exec (Suc fuel) d world =
     (case queueImpl_Wait (ds_queue d) of
        Blocks \<Rightarrow> Some (Some Sleeping, d, world)
      | Returns r \<Rightarrow> do {
          ((job, ok), q1) \<leftarrow> r;
          let d1 = d\<lparr>ds_queue := q1\<rparr>;
          if \<not> ok then
            (if queueImpl_Closed (ds_queue d1) then Some (Some Stopped, d1, world)
             else Dissolver_runWorker exec fuel d1 world)
          else do {
            j \<leftarrow> job;
            (let (err, world1) = exec j world
             in if err then do {
                  (_, q2) \<leftarrow> queueImpl_Add (Some j) (ds_queue d1);
                  Dissolver_runWorker exec fuel (d1\<lparr>ds_queue := q2\<rparr>) world1
                }
                else Dissolver_runWorker exec fuel d1 world1)
          }
        })"

section \<open>Every submitted job is run until it succeeds\<close>

text \<open>The runs of a job that ended without an error, in order: the worker over a world that also
  records them.\<close>

definition logged :: "('j \<Rightarrow> 'w \<Rightarrow> bool \<times> 'w) \<Rightarrow> 'j \<Rightarrow> 'w \<times> 'j list \<Rightarrow> bool \<times> ('w \<times> 'j list)" where
  "logged exec j = (\<lambda>(w, acc). case exec j w of (err, w') \<Rightarrow> (err, (w', if err then acc else acc @ [j])))"

definition remaining :: "('j \<Rightarrow> 'w \<Rightarrow> nat) \<Rightarrow> 'w \<Rightarrow> 'j list \<Rightarrow> nat" where
  "remaining tries w js = sum_list (map (\<lambda>j. Suc (tries j w)) js)"

lemma remaining_simps [simp]:
  "remaining tries w [] = 0"
  "remaining tries w (j # js) = Suc (tries j w) + remaining tries w js"
  "remaining tries w (js @ ks) = remaining tries w js + remaining tries w ks"
  by (simp_all add: remaining_def)

lemma logged_apply [simp]:
  "exec j w = (err, w') \<Longrightarrow> logged exec j (w, acc) = (err, (w', if err then acc else acc @ [j]))"
  by (simp add: logged_def)

lemma remaining_mono: "(\<And>i. tries i w' \<le> tries i w) \<Longrightarrow> remaining tries w' js \<le> remaining tries w js"
  by (induction js) (auto intro: add_mono)

lemma Dissolver_runWorker_drains:
  assumes fail: "\<And>j w w'. exec j w = (True, w') \<Longrightarrow> tries j w' < tries j w"
    and mono: "\<And>i j w w' e. exec j w = (e, w') \<Longrightarrow> tries i w' \<le> tries i w"
  shows "ring_wf (ds_queue d) \<Longrightarrow> \<not> q_closed (ds_queue d) \<Longrightarrow> ring_items (ds_queue d) = map Some js
    \<Longrightarrow> remaining tries w js < fuel \<Longrightarrow>
    \<exists>d' w' acc'. Dissolver_runWorker (logged exec) fuel d (w, acc) = Some (Some Sleeping, d', (w', acc @ acc'))
      \<and> mset acc' = mset js \<and> ring_items (ds_queue d') = [] \<and> \<not> q_closed (ds_queue d')"
proof (induction fuel arbitrary: d w js acc)
  case (Suc fuel)
  show ?case
  proof (cases js)
    case Nil
    then have "queueImpl_Wait (ds_queue d) = Blocks"
      using Suc.prems(2,3) by (simp add: queueImpl_Wait_def ring_items_empty_iff)
    then show ?thesis using Nil Suc.prems by auto
  next
    case (Cons j ks)
    then have it: "ring_items (ds_queue d) = Some j # map Some ks" using Suc.prems(3) by simp
    then have "q_cnt (ds_queue d) \<noteq> 0" by (metis list.distinct(1) ring_items_empty_iff)
    then have wait: "queueImpl_Wait (ds_queue d) = Returns (queueImpl_Remove (ds_queue d))"
      using Suc.prems(2) by (simp add: queueImpl_Wait_def)
    obtain q1 where q1: "queueImpl_Remove (ds_queue d) = Some ((Some j, True), q1)" "ring_wf q1"
      "ring_items q1 = map Some ks" "\<not> q_closed q1"
      using jq.remove_cons[OF Suc.prems(1) it] by blast
    obtain err w1 where ex: "exec j w = (err, w1)" by fastforce
    show ?thesis
    proof (cases err)
      case True
      obtain q2 where q2: "queueImpl_Add (Some j) q1 = Some (True, q2)" "ring_wf q2"
        "ring_items q2 = map Some (ks @ [j])" "\<not> q_closed q2"
        using jq.add_open[OF q1(2,4), of "Some j"] q1(3) by auto
      have "remaining tries w1 (ks @ [j]) < fuel"
        using Suc.prems(4) Cons fail[of j w w1] ex True remaining_mono[of tries w1 w ks] mono[OF ex] by simp
      from Suc.IH[of "d\<lparr>ds_queue := q2\<rparr>" "ks @ [j]" w1 acc] this q2 show ?thesis
        using Cons True ex by (auto simp: wait q1(1))
    next
      case False
      have "remaining tries w1 ks < fuel"
        using Suc.prems(4) Cons remaining_mono[of tries w1 w ks] mono[OF ex] by simp
      from Suc.IH[of "d\<lparr>ds_queue := q1\<rparr>" ks w1 "acc @ [j]"] this q1 obtain d' w' acc' where
        "Dissolver_runWorker (logged exec) fuel (d\<lparr>ds_queue := q1\<rparr>) (w1, acc @ [j]) =
            Some (Some Sleeping, d', (w', (acc @ [j]) @ acc'))"
        "mset acc' = mset ks" "ring_items (ds_queue d') = []" "\<not> q_closed (ds_queue d')"
        by auto
      then show ?thesis
        using Cons False ex by (intro exI[of _ d'] exI[of _ w'] exI[of _ "j # acc'"])
          (simp add: wait q1(1))
    qed
  qed
qed simp

fun submit_all :: "'j list \<Rightarrow> 'j dissolver \<Rightarrow> 'j dissolver go" where
  "submit_all [] d = Some d"
| "submit_all (j # js) d = do { (_, d1) \<leftarrow> Dissolver_Submit j d; submit_all js d1 }"

lemma submit_all_ok:
  assumes "ring_wf (ds_queue d)" "\<not> q_closed (ds_queue d)"
  shows "\<exists>d'. submit_all js d = Some d' \<and> ring_wf (ds_queue d') \<and> \<not> q_closed (ds_queue d')
     \<and> ring_items (ds_queue d') = ring_items (ds_queue d) @ map Some js"
  using assms
proof (induction js arbitrary: d)
  case (Cons j js)
  obtain q1 where q1: "queueImpl_Add (Some j) (ds_queue d) = Some (True, q1)" "ring_wf q1"
    "ring_items q1 = ring_items (ds_queue d) @ [Some j]" "\<not> q_closed q1"
    using jq.add_open[OF Cons.prems, of "Some j"] by blast
  then show ?case
    using Cons.IH[of "d\<lparr>ds_queue := q1\<rparr>"] by (auto simp: Dissolver_Submit_def)
qed simp

text \<open>C4.  A worker retries every submitted job until it succeeds.  Suppose a job \<open>j\<close> fails at most
  \<open>tries j w\<close> more times, that is, a failing run lowers the number and no run raises
  that of any job.  Then after the jobs \<open>js\<close> are submitted to a new dissolver a worker empties the
  queue, each job having returned without an error exactly once for each time it was submitted,
  within \<open>\<Sum> (tries j w + 1)\<close> runs; it then sleeps with an empty queue and never hits a nil
  job.\<close>

theorem Dissolver_runs_every_job:
  assumes "\<And>j w w'. exec j w = (True, w') \<Longrightarrow> tries j w' < tries j w"
    and "\<And>i j w w' e. exec j w = (e, w') \<Longrightarrow> tries i w' \<le> tries i w"
    and "remaining tries w js < fuel"
  shows "\<exists>d d' w' acc'. submit_all js (Dissolver_New n) = Some d
    \<and> Dissolver_runWorker (logged exec) fuel d (w, []) = Some (Some Sleeping, d', (w', acc'))
    \<and> mset acc' = mset js \<and> ring_items (ds_queue d') = []"
proof -
  obtain d where d: "submit_all js (Dissolver_New n) = Some d" "ring_wf (ds_queue d)" "\<not> q_closed (ds_queue d)"
    "ring_items (ds_queue d) = map Some js"
    using submit_all_ok[of "Dissolver_New n" js] by (auto simp: Dissolver_New_def)
  have "\<exists>d' w' acc'. Dissolver_runWorker (logged exec) fuel d (w, []) = Some (Some Sleeping, d', (w', [] @ acc'))
      \<and> mset acc' = mset js \<and> ring_items (ds_queue d') = [] \<and> \<not> q_closed (ds_queue d')"
    by (rule Dissolver_runWorker_drains[OF _ _ d(2-4) assms(3)]) (fact assms(1,2))+
  then show ?thesis using d(1) by auto
qed

theorem Dissolver_runs_every_job_witness:
  "\<exists>d d' w' acc'. submit_all [True, False] (Dissolver_New 1) = Some d
    \<and> Dissolver_runWorker (logged (\<lambda>j n. (0 < n, n - 1))) 6 d (1::nat, []) = Some (Some Sleeping, d', (w', acc'))
    \<and> mset acc' = mset [True, False] \<and> ring_items (ds_queue d') = []"
  by (rule Dissolver_runs_every_job[where tries = "\<lambda>j n. n"]) auto

end
