(* ===== verification/Ordered_Map.thy ===== *)
theory Ordered_Map
  imports Kairos_Prelude "HOL-Library.AList" "HOL-Library.Multiset"
begin

text \<open>
  The insertion-ordered map of \<open>pkg/orderedmap/orderedmap.go\<close> (with the copy helpers of
  \<open>pkg/deepcopy/deepcopy.go\<close>) that holds the tasks, variables and brokers of a workflow.

  The struct is a key slice \<open>s\<close> and a Go map \<open>m\<close>, \<open>nil\<close> in the zero value.  Functions of
  \<open>golang.org/x/exp\<close> and of the yaml and json packages are arguments of the operations that call
  them, with their documented behaviour as hypotheses where it is needed.
\<close>

section \<open>A contract for keyed stores\<close>

text \<open>Lookup after update, and an enumeration of the keys without repetitions.\<close>

locale keyed_store =
  fixes invar :: "'m \<Rightarrow> bool"
    and look :: "'m \<Rightarrow> 'k \<Rightarrow> 'v option"
    and upd :: "'k \<Rightarrow> 'v \<Rightarrow> 'm \<Rightarrow> 'm"
    and keys :: "'m \<Rightarrow> 'k list"
  assumes look_upd: "invar m \<Longrightarrow> look (upd k v m) k' = (if k' = k then Some v else look m k')"
    and invar_upd: "invar m \<Longrightarrow> invar (upd k v m)"
    and keys_look: "invar m \<Longrightarrow> set (keys m) = {k. look m k \<noteq> None}"
    and keys_distinct: "invar m \<Longrightarrow> distinct (keys m)"
begin

lemma fold_upd:
  "invar m \<Longrightarrow> invar (fold (\<lambda>(k, v). upd k v) kvs m)
     \<and> look (fold (\<lambda>(k, v). upd k v) kvs m) k = (case map_of (rev kvs) k of None \<Rightarrow> look m k | Some v \<Rightarrow> Some v)"
proof (induction kvs arbitrary: m)
  case (Cons kv kvs)
  then show ?case
    by (cases kv) (auto simp: look_upd invar_upd map_add_def split: option.splits)
qed simp

lemma keys_upd_set: "invar m \<Longrightarrow> set (keys (upd k v m)) = insert k (set (keys m))"
  by (auto simp: keys_look invar_upd look_upd split: if_splits)

lemma length_keys_upd:
  assumes "invar m"
  shows "length (keys (upd k v m)) = (if look m k = None then Suc (length (keys m)) else length (keys m))"
proof -
  have "length (keys (upd k v m)) = card (insert k (set (keys m)))"
    using assms by (metis distinct_card invar_upd keys_distinct keys_upd_set)
  moreover have "k \<in> set (keys m) \<longleftrightarrow> look m k \<noteq> None" using keys_look[OF assms] by auto
  ultimately show ?thesis
    using distinct_card[OF keys_distinct[OF assms]] by (auto simp: card_insert_if)
qed

end

section \<open>The ordered map\<close>

record ('k, 'v) omap =
  om_s :: "'k list"
  om_m :: "('k, 'v) fmap option"

definition om_index :: "('k, 'v) omap \<Rightarrow> 'k \<Rightarrow> 'v option" where
  "om_index om key = (case om_m om of None \<Rightarrow> None | Some m \<Rightarrow> fmlookup m key)"

definition om_New :: "('k, 'v) omap" where
  "om_New = \<lparr>om_s = [], om_m = Some fmempty\<rparr>"

definition om_FromMap :: "(('k, 'v) fmap \<Rightarrow> 'k list) \<Rightarrow> ('k, 'v) fmap \<Rightarrow> ('k, 'v) omap" where
  "om_FromMap maps_Keys m = om_New\<lparr>om_m := Some m, om_s := maps_Keys m\<rparr>"

definition om_FromMapWithOrder ::
  "('k list \<Rightarrow> 'k \<Rightarrow> bool) \<Rightarrow> ('k, 'v) fmap \<Rightarrow> 'k list \<Rightarrow> ('k, 'v) omap go" where
  "om_FromMapWithOrder slices_Contains m order =
     (if fcard (fmdom m) \<noteq> length order then None
      else if \<not> fBall (fmdom m) (slices_Contains order) then None
      else Some (om_New\<lparr>om_m := Some m, om_s := order\<rparr>))"

definition om_Len :: "('k, 'v) omap \<Rightarrow> nat" where
  "om_Len om = length (om_s om)"

definition om_Set :: "'k \<Rightarrow> 'v \<Rightarrow> ('k, 'v) omap \<Rightarrow> ('k, 'v) omap" where
  "om_Set key value om =
     (let m = (case om_m om of None \<Rightarrow> fmempty | Some m \<Rightarrow> m)
      in \<lparr>om_s = (if fmlookup m key = None then om_s om @ [key] else om_s om), om_m = Some (fmupd key value m)\<rparr>)"

definition om_Get :: "'v \<Rightarrow> 'k \<Rightarrow> ('k, 'v) omap \<Rightarrow> 'v" where
  "om_Get zero key om = (case om_index om key of None \<Rightarrow> zero | Some value \<Rightarrow> value)"

definition om_Exists :: "'k \<Rightarrow> ('k, 'v) omap \<Rightarrow> bool" where
  "om_Exists key om \<longleftrightarrow> om_index om key \<noteq> None"

definition om_Sort :: "('k list \<Rightarrow> 'k list) \<Rightarrow> ('k, 'v) omap \<Rightarrow> ('k, 'v) omap" where
  "om_Sort slices_Sort om = om\<lparr>om_s := slices_Sort (om_s om)\<rparr>"

definition om_SortFunc :: "(('k \<Rightarrow> 'k \<Rightarrow> int) \<Rightarrow> 'k list \<Rightarrow> 'k list) \<Rightarrow> ('k \<Rightarrow> 'k \<Rightarrow> int) \<Rightarrow> ('k, 'v) omap \<Rightarrow> ('k, 'v) omap" where
  "om_SortFunc slices_SortFunc lt om = om\<lparr>om_s := slices_SortFunc lt (om_s om)\<rparr>"

definition om_Keys :: "('k, 'v) omap \<Rightarrow> 'k list" where
  "om_Keys om = om_s om"

definition om_Values :: "'v \<Rightarrow> ('k, 'v) omap \<Rightarrow> 'v list" where
  "om_Values zero om = map (\<lambda>key. om_Get zero key om) (om_s om)"

text \<open>The loop of \<open>Range\<close> over the key slice; the callback acts on a state \<open>'s\<close> and returns its
  error, at which the loop stops.\<close>

fun om_Range_keys ::
  "('k \<Rightarrow> 'v \<Rightarrow> 's \<Rightarrow> 'e option \<times> 's) \<Rightarrow> ('k \<Rightarrow> 'v) \<Rightarrow> 'k list \<Rightarrow> 's \<Rightarrow> 'e option \<times> 's" where
  "om_Range_keys fn val [] s = (None, s)"
| "om_Range_keys fn val (key # rest) s =
     (case fn key (val key) s of
        (Some err, s') \<Rightarrow> (Some err, s')
      | (None, s') \<Rightarrow> om_Range_keys fn val rest s')"

definition om_Range ::
  "'v \<Rightarrow> ('k \<Rightarrow> 'v \<Rightarrow> 's \<Rightarrow> 'e option \<times> 's) \<Rightarrow> ('k, 'v) omap \<Rightarrow> 's \<Rightarrow> 'e option \<times> 's" where
  "om_Range zero fn om s = om_Range_keys fn (\<lambda>key. om_Get zero key om) (om_s om) s"

definition om_Merge :: "'v \<Rightarrow> ('k, 'v) omap \<Rightarrow> ('k, 'v) omap \<Rightarrow> ('k, 'v) omap" where
  "om_Merge zero other om =
     snd (om_Range zero (\<lambda>key value om. (None :: unit option, om_Set key value om)) other om)"

text \<open>\<open>deepcopy.Slice\<close> and \<open>deepcopy.Map\<close>; \<open>copy\<close> is the element's \<open>DeepCopy\<close> when it has one and
  the identity otherwise.\<close>

definition deepcopy_Slice :: "('a \<Rightarrow> 'a) \<Rightarrow> 'a list \<Rightarrow> 'a list" where
  "deepcopy_Slice copy orig = map copy orig"

definition deepcopy_Map :: "('v \<Rightarrow> 'v) \<Rightarrow> ('k, 'v) fmap option \<Rightarrow> ('k, 'v) fmap option" where
  "deepcopy_Map copy orig = map_option (fmmap copy) orig"

definition om_DeepCopy :: "('k \<Rightarrow> 'k) \<Rightarrow> ('v \<Rightarrow> 'v) \<Rightarrow> ('k, 'v) omap \<Rightarrow> ('k, 'v) omap" where
  "om_DeepCopy copyK copyV om =
     \<lparr>om_s = deepcopy_Slice copyK (om_s om), om_m = deepcopy_Map copyV (om_m om)\<rparr>"

text \<open>\<open>UnmarshalYAML\<close>: the node is its kind, its line and tag for the message, and its content
  nodes, which the two decoders read.  A mapping node with an odd content list makes
  \<open>Content[i+1]\<close> panic.\<close>

fun om_UnmarshalYAML_pairs ::
  "('n \<Rightarrow> 'e + 'k) \<Rightarrow> ('n \<Rightarrow> 'e + 'v) \<Rightarrow> 'n list \<Rightarrow> ('k, 'v) omap \<Rightarrow> ('e option \<times> ('k, 'v) omap) go" where
  "om_UnmarshalYAML_pairs decodeK decodeV [] om = Some (None, om)"
| "om_UnmarshalYAML_pairs decodeK decodeV [keyNode] om =
     (case decodeK keyNode of Inl err \<Rightarrow> Some (Some err, om) | Inr _ \<Rightarrow> None)"
| "om_UnmarshalYAML_pairs decodeK decodeV (keyNode # valueNode # rest) om =
     (case decodeK keyNode of
        Inl err \<Rightarrow> Some (Some err, om)
      | Inr k \<Rightarrow>
          (case decodeV valueNode of
             Inl err \<Rightarrow> Some (Some err, om)
           | Inr v \<Rightarrow> om_UnmarshalYAML_pairs decodeK decodeV rest (om_Set k v om)))"

definition om_UnmarshalYAML ::
  "('n \<Rightarrow> 'e + 'k) \<Rightarrow> ('n \<Rightarrow> 'e + 'v) \<Rightarrow> 'e \<Rightarrow> bool \<Rightarrow> 'n list \<Rightarrow> ('k, 'v) omap
     \<Rightarrow> ('e option \<times> ('k, 'v) omap) go" where
  "om_UnmarshalYAML decodeK decodeV kindError isMapping content om =
     (if isMapping then om_UnmarshalYAML_pairs decodeK decodeV content om
      else Some (Some kindError, om))"

definition om_MarshalJSON :: "'v \<Rightarrow> (('k, 'v) fmap \<Rightarrow> 'r) \<Rightarrow> ('k, 'v) omap \<Rightarrow> 'r" where
  "om_MarshalJSON zero json_Marshal om =
     json_Marshal (snd (om_Range zero (\<lambda>key value mj. (None :: unit option, fmupd key value mj)) om fmempty))"

definition om_UnmarshalJSON ::
  "('d \<Rightarrow> 'e + ('k \<times> 'v) list) \<Rightarrow> 'd \<Rightarrow> ('k, 'v) omap \<Rightarrow> 'e option \<times> ('k, 'v) omap" where
  "om_UnmarshalJSON json_Unmarshal data om =
     (case json_Unmarshal data of
        Inl err \<Rightarrow> (Some err, om)
      | Inr value \<Rightarrow> (None, fold (\<lambda>(k, v). om_Set k v) value om))"

section \<open>Invariant and laws\<close>

definition om_inv :: "('k, 'v) omap \<Rightarrow> bool" where
  "om_inv om \<longleftrightarrow> distinct (om_s om)
     \<and> set (om_s om) = (case om_m om of None \<Rightarrow> {} | Some m \<Rightarrow> fset (fmdom m))"

definition om_alist :: "('k, 'v) omap \<Rightarrow> ('k \<times> 'v) list" where
  "om_alist om = map (\<lambda>k. (k, the (om_index om k))) (om_s om)"

lemma om_inv_alt: "om_inv om \<longleftrightarrow> distinct (om_s om) \<and> set (om_s om) = {k. om_index om k \<noteq> None}"
proof -
  have "(case om_m om of None \<Rightarrow> {} | Some m \<Rightarrow> fset (fmdom m)) = {k. om_index om k \<noteq> None}"
    by (cases "om_m om") (auto simp: om_index_def fmlookup_dom_iff)
  then show ?thesis by (simp add: om_inv_def)
qed

lemma om_inv_keys: "om_inv om \<Longrightarrow> set (om_s om) = {k. om_index om k \<noteq> None}"
  by (simp add: om_inv_alt)

lemma om_index_Set: "om_index (om_Set k v om) k' = (if k' = k then Some v else om_index om k')"
  by (auto simp: om_index_def om_Set_def Let_def split: option.splits)

lemma om_s_Set: "om_s (om_Set k v om) = (if om_index om k = None then om_s om @ [k] else om_s om)"
  by (auto simp: om_index_def om_Set_def Let_def split: option.splits)

lemma om_inv_Set [inv_intros]: "om_inv om \<Longrightarrow> om_inv (om_Set k v om)"
  by (auto simp: om_inv_alt om_index_Set om_s_Set)

lemma om_inv_New [simp]: "om_inv om_New"
  by (simp add: om_inv_def om_New_def)

interpretation om: keyed_store om_inv om_index om_Set om_Keys
proof unfold_locales
  show "om_inv m \<Longrightarrow> distinct (om_Keys m)" for m :: "('a, 'b) omap"
    by (simp add: om_inv_alt om_Keys_def)
qed (simp_all add: om_index_Set om_inv_Set om_inv_keys om_Keys_def)

lemma om_alist_map_of: "om_inv om \<Longrightarrow> map_of (om_alist om) = om_index om"
  by (rule ext) (auto simp: om_alist_def map_of_map_restrict om_inv_keys restrict_map_def)

lemma AList_update_notin: "k \<notin> fst ` set al \<Longrightarrow> AList.update k v al = al @ [(k, v)]"
  by (induction al) auto

lemma AList_update_map:
  "distinct ks \<Longrightarrow> k \<in> set ks \<Longrightarrow>
     AList.update k v (map (\<lambda>x. (x, f x)) ks) = map (\<lambda>x. (x, if x = k then v else f x)) ks"
  by (induction ks) auto

lemma om_alist_Set:
  assumes "om_inv om"
  shows "om_alist (om_Set k v om) = AList.update k v (om_alist om)"
proof (cases "om_index om k = None")
  case True
  then have "k \<notin> set (om_s om)" using om_inv_keys[OF assms] by auto
  then have "k \<notin> fst ` set (om_alist om)" by (auto simp: om_alist_def)
  then show ?thesis
    using True \<open>k \<notin> set (om_s om)\<close>
    by (auto simp: AList_update_notin om_s_Set om_index_Set om_alist_def)
next
  case False
  then have "k \<in> set (om_s om)" "distinct (om_s om)"
    using om_inv_keys[OF assms] assms by (auto simp: om_inv_def)
  then show ?thesis
    using False by (auto simp: om_alist_def om_s_Set om_index_Set AList_update_map[of _ k v "\<lambda>x. the (om_index om x)"])
qed

section \<open>Iteration\<close>

lemma om_Range_keys_total:
  "(\<And>k v s. fst (fn k v s) = None) \<Longrightarrow>
     om_Range_keys fn val ks s = (None, fold (\<lambda>k s. snd (fn k (val k) s)) ks s)"
proof (induction ks arbitrary: s)
  case (Cons k ks)
  then have "fn k (val k) s = (None, snd (fn k (val k) s))" by (metis prod.collapse)
  then show ?case using Cons.IH[OF Cons.prems] by (metis (no_types, lifting) case_prod_conv fold_simps(2) old.prod.case om_Range_keys.simps(2) option.case(1))
qed simp

lemma om_Range_total:
  assumes "\<And>k v s. fst (fn k v s) = None" and "om_inv om"
  shows "om_Range zero fn om s = (None, fold (\<lambda>(k, v) s. snd (fn k v s)) (om_alist om) s)"
proof -
  have val: "om_Get zero k om = the (om_index om k)" if "k \<in> set (om_s om)" for k
    using that om_inv_keys[OF assms(2)] by (auto simp: om_Get_def)
  have "fold (\<lambda>k s. snd (fn k (om_Get zero k om) s)) (om_s om) s
      = fold (\<lambda>(k, v) s. snd (fn k v s)) (om_alist om) s"
    unfolding om_alist_def fold_map by (intro fold_cong) (auto simp: val)
  then show ?thesis
    using om_Range_keys_total[of fn, OF assms(1)] by (simp add: om_Range_def)
qed

lemma om_Merge_fold:
  "om_inv other \<Longrightarrow> om_Merge zero other om = fold (\<lambda>(k, v). om_Set k v) (om_alist other) om"
  by (simp add: om_Merge_def om_Range_total split_def)

lemma om_alist_fold_Set:
  "om_inv om \<Longrightarrow> om_inv (fold (\<lambda>(k, v). om_Set k v) kvs om)
     \<and> om_alist (fold (\<lambda>(k, v). om_Set k v) kvs om) = fold (\<lambda>(k, v). AList.update k v) kvs (om_alist om)"
  by (induction kvs arbitrary: om) (auto simp: om_alist_Set inv_intros)

lemma om_s_fold_Set:
  "om_inv om \<Longrightarrow> distinct (map fst kvs) \<Longrightarrow>
     om_s (fold (\<lambda>(k, v). om_Set k v) kvs om) = om_s om @ filter (\<lambda>k. om_index om k = None) (map fst kvs)"
proof (induction kvs arbitrary: om)
  case (Cons kv kvs)
  obtain k v where kv: "kv = (k, v)" by fastforce
  have "filter (\<lambda>k'. om_index (om_Set k v om) k' = None) (map fst kvs) = filter (\<lambda>k'. om_index om k' = None) (map fst kvs)"
    using Cons.prems(2) kv by (intro filter_cong) (auto simp: om_index_Set)
  then show ?case
    using Cons kv by (auto simp: inv_intros om_s_Set)
qed simp

lemma om_alist_keys [simp]: "map fst (om_alist om) = om_s om"
  by (simp add: om_alist_def comp_def)

lemma fold_AList_update_distinct:
  "distinct (map fst (al @ kvs)) \<Longrightarrow> fold (\<lambda>(k, v). AList.update k v) kvs al = al @ kvs"
proof (induction kvs arbitrary: al)
  case (Cons kv kvs)
  then show ?case using Cons.IH[of "al @ [kv]"]
    by (cases kv) (auto simp: AList_update_notin)
qed simp

lemma om_alist_New [simp]: "om_alist om_New = []"
  by (simp add: om_alist_def om_New_def)

lemma map_of_rev_distinct:
  assumes "distinct (map fst kvs)"
  shows "map_of (rev kvs) = map_of kvs"
proof
  fix k
  have "distinct (map fst (rev kvs))" using assms by (simp add: rev_map[symmetric])
  then have "map_of (rev kvs) k = Some v \<longleftrightarrow> map_of kvs k = Some v" for v
    using assms by (simp add: map_of_eq_Some_iff del: rev_map)
  then show "map_of (rev kvs) k = map_of kvs k" by (metis option.exhaust)
qed

section \<open>Properties\<close>

text \<open>C5.  \<open>Set\<close> keeps the key slice and the map in agreement (every key once, and exactly the keys
  of the map) and acts on the ordered sequence of entries as the update of an association list:
  a known key keeps its position and gets the new value, a new key goes to the end.  \<open>Get\<close>,
  \<open>Exists\<close>, \<open>Len\<close>, \<open>Keys\<close> and \<open>Values\<close> read that sequence.\<close>

theorem om_Set_refines_alist:
  assumes "om_inv om"
  shows "om_inv (om_Set k v om)
     \<and> om_alist (om_Set k v om) = AList.update k v (om_alist om)
     \<and> om_Get z k' (om_Set k v om) = (if k' = k then v else om_Get z k' om)
     \<and> (om_Exists k' (om_Set k v om) \<longleftrightarrow> k' = k \<or> om_Exists k' om)
     \<and> om_Len (om_Set k v om) = (if om_Exists k om then om_Len om else Suc (om_Len om))
     \<and> om_Keys (om_Set k v om) = map fst (AList.update k v (om_alist om))
     \<and> om_Values z (om_Set k v om) = map snd (AList.update k v (om_alist om))"
proof -
  have inv: "om_inv (om_Set k v om)" using assms by (rule inv_intros)
  have vals: "om_Values z om' = map snd (om_alist om')" if "om_inv om'" for om' :: "('a, 'b) omap"
    using om_inv_keys[OF that] by (auto simp: om_Values_def om_alist_def om_Get_def)
  have keys: "om_Keys (om_Set k v om) = map fst (AList.update k v (om_alist om))"
    unfolding om_alist_Set[OF assms, symmetric] using om_inv_keys[OF inv] by (simp add: om_alist_def om_Keys_def comp_def)
  show ?thesis
    using inv om_alist_Set[OF assms, of k v] om.length_keys_upd[OF assms, of k v] vals[OF inv] keys
    by (auto simp: om_Get_def om_Exists_def om_index_Set om_Len_def om_Keys_def)
qed

theorem om_Set_refines_alist_witness:
  "let om = om_Set ''b'' (2::int) (om_Set ''a'' 1 om_New) in
     om_inv (om_Set ''a'' 7 om)
     \<and> om_alist (om_Set ''a'' 7 om) = [(''a'', 7), (''b'', 2)]
     \<and> om_Get 0 ''b'' (om_Set ''a'' 7 om) = 2
     \<and> om_Exists ''b'' (om_Set ''a'' 7 om)
     \<and> om_Len (om_Set ''a'' 7 om) = 2
     \<and> om_Keys (om_Set ''a'' 7 om) = [''a'', ''b'']
     \<and> om_Values 0 (om_Set ''a'' 7 om) = [7, 2]"
proof -
  let ?om = "om_Set ''b'' (2::int) (om_Set ''a'' 1 om_New)"
  have inv: "om_inv ?om" by (intro inv_intros) simp
  have "om_alist ?om = [(''a'', 1), (''b'', 2)]" "om_Get 0 ''b'' ?om = 2" "om_Exists ''b'' ?om" "om_Exists ''a'' ?om" "om_Len ?om = 2"
    by (simp_all add: om_Set_def om_New_def om_alist_def om_Get_def om_Exists_def om_Len_def om_index_def)
  then show ?thesis using om_Set_refines_alist[OF inv, of "''a''" 7 0 "''b''"] by simp
qed

text \<open>\<open>Merge\<close> keeps the invariant, gives precedence to the other map's values, keeps the order
  of the receiver's keys and appends the other map's new keys in their order.\<close>

theorem om_Merge_correct:
  assumes "om_inv om" "om_inv other"
  shows "om_inv (om_Merge z other om)
     \<and> om_Keys (om_Merge z other om) = om_Keys om @ filter (\<lambda>k. \<not> om_Exists k om) (om_Keys other)
     \<and> om_index (om_Merge z other om) k = (case om_index other k of Some v \<Rightarrow> Some v | None \<Rightarrow> om_index om k)"
proof -
  have d: "distinct (map fst (om_alist other))" using assms(2) by (simp add: om_inv_def)
  let ?r = "fold (\<lambda>(k, v). om_Set k v) (om_alist other) om"
  have look: "om_index ?r k = (case om_index other k of Some v \<Rightarrow> Some v | None \<Rightarrow> om_index om k)"
    using om.fold_upd[OF assms(1), of "om_alist other" k]
    by (simp add: map_of_rev_distinct[OF d] om_alist_map_of[OF assms(2)] split: option.splits)
  have "om_s ?r = om_s om @ filter (\<lambda>k. om_index om k = None) (om_s other)"
    using om_s_fold_Set[OF assms(1) d] by simp
  then show ?thesis
    unfolding om_Merge_fold[OF assms(2)]
    using om_alist_fold_Set[OF assms(1), of "om_alist other"] look by (simp add: om_Keys_def om_Exists_def)
qed

theorem om_Merge_correct_witness:
  "om_inv (om_Merge 0 (om_Set ''b'' 2 (om_Set ''a'' 3 om_New)) (om_Set ''a'' (1::int) om_New))
     \<and> om_Keys (om_Merge 0 (om_Set ''b'' 2 (om_Set ''a'' 3 om_New)) (om_Set ''a'' (1::int) om_New))
        = om_Keys (om_Set ''a'' (1::int) om_New)
          @ filter (\<lambda>k. \<not> om_Exists k (om_Set ''a'' (1::int) om_New)) (om_Keys (om_Set ''b'' 2 (om_Set ''a'' (3::int) om_New)))
     \<and> om_index (om_Merge 0 (om_Set ''b'' 2 (om_Set ''a'' 3 om_New)) (om_Set ''a'' (1::int) om_New)) ''a''
        = (case om_index (om_Set ''b'' 2 (om_Set ''a'' 3 om_New)) ''a'' of
             Some v \<Rightarrow> Some v | None \<Rightarrow> om_index (om_Set ''a'' (1::int) om_New) ''a'')"
  by (rule om_Merge_correct) (simp_all add: inv_intros)

text \<open>Reading a YAML mapping whose keys are pairwise different, as the encoder writes it (key
  node, value node, key node, \<open>...\<close>), into a new map yields exactly the entries of the document in
  document order, without an error and without a panic.\<close>

theorem om_UnmarshalYAML_roundtrip:
  assumes "\<And>k. decodeK (encodeK k) = Inr k" "\<And>v. decodeV (encodeV v) = Inr v" "distinct (map fst kvs)"
  shows "\<exists>om. om_UnmarshalYAML decodeK decodeV e True (concat (map (\<lambda>(k, v). [encodeK k, encodeV v]) kvs)) om_New
           = Some (None, om) \<and> om_inv om \<and> om_alist om = kvs"
proof -
  have "om_UnmarshalYAML_pairs decodeK decodeV (concat (map (\<lambda>(k, v). [encodeK k, encodeV v]) kvs)) om
      = Some (None, fold (\<lambda>(k, v). om_Set k v) kvs om)" for om
    by (induction kvs arbitrary: om) (auto simp: assms(1,2))
  then show ?thesis
    using om_alist_fold_Set[OF om_inv_New, of kvs] fold_AList_update_distinct[of "[]" kvs] assms(3)
    by (simp add: om_UnmarshalYAML_def)
qed

theorem om_UnmarshalYAML_roundtrip_witness:
  "\<exists>om. om_UnmarshalYAML (\<lambda>n. if snd n then Inr (fst n) else Inl ''key'') (\<lambda>n. if snd n then Inl ''value'' else Inr (fst n)) ''kind'' True
       (concat (map (\<lambda>(k, v). [(k, True), (v, False)]) [(2::int, 5), (1, 7)])) om_New
       = Some (None, om) \<and> om_inv om \<and> om_alist om = [(2, 5), (1, 7)]"
  by (rule om_UnmarshalYAML_roundtrip[where encodeK = "\<lambda>k. (k, True)" and encodeV = "\<lambda>v. (v, False)"]) auto

text \<open>\<open>FromMapWithOrder\<close> only succeeds on an order that lists every key exactly once.\<close>

lemma om_FromMapWithOrder_inv:
  assumes "\<And>xs x. contains xs x \<longleftrightarrow> x \<in> set xs" "om_FromMapWithOrder contains m order = Some om"
  shows "om_inv om \<and> om_Keys om = order \<and> om_index om = fmlookup m"
proof -
  have om: "om = om_New\<lparr>om_m := Some m, om_s := order\<rparr>" "fcard (fmdom m) = length order" "fset (fmdom m) \<subseteq> set order"
    using assms by (auto simp: om_FromMapWithOrder_def split: if_splits)
  have "card (set order) \<le> length order" by (rule card_length)
  moreover have "card (fset (fmdom m)) = length order" using om(2) by (simp add: fcard.rep_eq)
  ultimately have eq: "fset (fmdom m) = set order" using om(3) by (metis List.finite_set card_mono card_subset_eq le_antisym)
  then have "distinct order" using \<open>card (fset (fmdom m)) = length order\<close> by (metis card_distinct)
  then show ?thesis using eq om(1) by (auto simp: om_inv_def om_Keys_def om_index_def om_New_def)
qed

end
