(* ===== verification/Buffers.thy ===== *)
theory Buffers
  imports Kairos_Prelude
begin

text \<open>
  The byte buffers of \<open>pkg/circbuf/circbuf.go\<close> (the last \<open>size\<close> bytes of a task's output) and
  \<open>pkg/bufcb/bufcb.go\<close> (output handed to a callback in chunks).
\<close>

section \<open>The circular buffer (circbuf.go)\<close>

text \<open>\<open>size\<close> and \<open>writeCursor\<close> never become negative, so they are naturals; \<open>written\<close> is a
  wrapping 64-bit integer.\<close>

record circbuf =
  cb_data :: bytes
  cb_size :: nat
  cb_writeCursor :: nat
  cb_written :: int

definition circbuf_NewBuffer :: "int \<Rightarrow> circbuf go" where
  "circbuf_NewBuffer sz =
     (if sz < 0 then None
      else Some \<lparr>cb_data = replicate (nat sz) 0, cb_size = nat sz, cb_writeCursor = 0, cb_written = 0\<rparr>)"

definition circbuf_Write :: "bytes \<Rightarrow> circbuf \<Rightarrow> (nat \<times> circbuf) go" where
  "circbuf_Write buf b = do {
     let n = length buf;
     let b1 = b\<lparr>cb_written := i64 (cb_written b + int n)\<rparr>;
     buf1 \<leftarrow> (if n > cb_size b1 then go_slice buf (n - cb_size b1) n else Some buf);
     let remain = cb_size b1 - cb_writeCursor b1;
     data1 \<leftarrow> go_copy (cb_data b1) (cb_writeCursor b1) buf1;
     data2 \<leftarrow> (if length buf1 > remain then do {
                 rest \<leftarrow> go_slice buf1 remain (length buf1);
                 go_copy data1 0 rest
               } else Some data1);
     c \<leftarrow> go_mod (cb_writeCursor b1 + length buf1) (cb_size b1);
     Some (n, b1\<lparr>cb_data := data2, cb_writeCursor := c\<rparr>)
   }"

definition circbuf_Size :: "circbuf \<Rightarrow> nat" where
  "circbuf_Size b = cb_size b"

definition circbuf_TotalWritten :: "circbuf \<Rightarrow> int" where
  "circbuf_TotalWritten b = cb_written b"

definition circbuf_Bytes :: "circbuf \<Rightarrow> bytes go" where
  "circbuf_Bytes b =
     (if cb_written b \<ge> int (cb_size b) \<and> cb_writeCursor b = 0 then Some (cb_data b)
      else if cb_written b > int (cb_size b) then do {
        upper \<leftarrow> go_slice (cb_data b) (cb_writeCursor b) (length (cb_data b));
        out1 \<leftarrow> go_copy (replicate (cb_size b) 0) 0 upper;
        lower \<leftarrow> go_slice (cb_data b) 0 (cb_writeCursor b);
        go_copy out1 (cb_size b - cb_writeCursor b) lower
      }
      else go_slice (cb_data b) 0 (cb_writeCursor b))"

definition circbuf_Reset :: "circbuf \<Rightarrow> circbuf" where
  "circbuf_Reset b = b\<lparr>cb_writeCursor := 0, cb_written := 0\<rparr>"

section \<open>What the circular buffer holds\<close>

definition last_n :: "nat \<Rightarrow> 'a list \<Rightarrow> 'a list" where
  "last_n n xs = drop (length xs - n) xs"

lemma last_n_all [simp]: "length xs \<le> n \<Longrightarrow> last_n n xs = xs"
  by (simp add: last_n_def)

lemma last_n_length [simp]: "length (last_n n xs) = min n (length xs)"
  by (simp add: last_n_def min_def)

lemma last_n_map: "map f (last_n n xs) = last_n n (map f xs)"
  by (simp add: last_n_def drop_map)

text \<open>\<open>circbuf_rep b log\<close>: the buffer \<open>b\<close> has received exactly the bytes \<open>log\<close> since it was made or
  reset.\<close>

definition circbuf_rep :: "circbuf \<Rightarrow> bytes \<Rightarrow> bool" where
  "circbuf_rep b log \<longleftrightarrow>
     0 < cb_size b \<and> length (cb_data b) = cb_size b \<and> cb_writeCursor b < cb_size b
     \<and> cb_written b = int (length log)
     \<and> (if length log < cb_size b
        then cb_writeCursor b = length log \<and> take (length log) (cb_data b) = log
        else drop (cb_writeCursor b) (cb_data b) @ take (cb_writeCursor b) (cb_data b) = last_n (cb_size b) log)
     \<and> (length log = cb_size b \<longrightarrow> cb_writeCursor b = 0)"

text \<open>One pass of the two copies: read from the cursor, the oldest bytes fall out and the new ones
  come last.\<close>

lemma circbuf_copies:
  assumes "c < n" "length data = n" "length buf \<le> n"
  shows "\<exists>data'. (do { data1 \<leftarrow> go_copy data c buf;
            if length buf > n - c then do { rest \<leftarrow> go_slice buf (n - c) (length buf); go_copy data1 0 rest }
            else Some data1 }) = Some data'
     \<and> length data' = n
     \<and> (let c' = (c + length buf) mod n in
         drop c' data' @ take c' data' = drop (length buf) (drop c data @ take c data) @ buf)
     \<and> (c + length buf < n \<longrightarrow> take (c + length buf) data' = take c data @ buf)"
proof (cases "c + length buf \<le> n")
  case True
  let ?d = "take c data @ buf @ drop (c + length buf) data"
  have cp: "go_copy data c buf = Some ?d" using True assms by (simp add: go_simps)
  have no: "\<not> length buf > n - c" using True assms by auto
  have old: "drop (length buf) (drop c data @ take c data) = drop (c + length buf) data @ take c data"
    using True assms by (simp add: add.commute[of c])
  have tk: "take (c + length buf) ?d = take c data @ buf" "drop (c + length buf) ?d = drop (c + length buf) data"
    using assms by simp_all
  have run: "(do { data1 \<leftarrow> go_copy data c buf;
            if length buf > n - c then do { rest \<leftarrow> go_slice buf (n - c) (length buf); go_copy data1 0 rest }
            else Some data1 }) = Some ?d"
    using no by (simp only: cp Option.bind.bind_lunit if_False)
  have len: "length ?d = n" using True assms by simp
  show ?thesis
  proof (cases "c + length buf < n")
    case True
    then have "(c + length buf) mod n = c + length buf" by simp
    then show ?thesis unfolding Let_def using run len tk old by (intro exI[of _ ?d]) (simp only: append_assoc simp_thms)
  next
    case False
    then have eq: "c + length buf = n" using True by simp
    then have "drop (c + length buf) data = []" using assms by simp
    then have "?d = drop (length buf) (drop c data @ take c data) @ buf" unfolding old by simp
    then show ?thesis unfolding Let_def eq using run len assms by (intro exI[of _ ?d]) simp
  qed
next
  case False
  define r where "r = n - c"
  define k where "k = c + length buf - n"
  have k: "k \<le> c" "length buf = r + k" "(c + length buf) mod n = k" "c < n" "k < n"
    using False assms by (auto simp: k_def r_def mod_if)
  let ?d1 = "take c data @ take r buf"
  let ?d2 = "drop r buf @ drop k ?d1"
  have cp: "go_copy data c buf = Some ?d1" using False assms by (simp add: go_simps r_def)
  have len: "length (drop r buf) = k" "length ?d1 = n" using k assms r_def by auto
  have cp2: "go_copy ?d1 0 (drop r buf) = Some ?d2" using len k by (simp add: go_simps)
  have sl: "go_slice buf r (length buf) = Some (drop r buf)" using k by (simp add: go_simps)
  have "drop k ?d2 @ take k ?d2 = (drop k (take c data) @ take r buf) @ drop r buf"
    using len k assms by simp
  also have "\<dots> = drop k (take c data) @ buf" by simp
  also have "drop k (take c data) = drop (length buf) (drop c data @ take c data)"
    using k assms r_def by simp
  finally have cy: "drop k ?d2 @ take k ?d2 = drop (length buf) (drop c data @ take c data) @ buf" .
  have "length ?d2 = length (drop r buf) + (length ?d1 - k)" by (simp only: length_append length_drop)
  then have l2: "length ?d2 = n" using len k(5) by simp
  have "length buf > n - c" using False assms(1) by simp
  then have "(do { data1 \<leftarrow> go_copy data c buf;
            if length buf > n - c then do { rest \<leftarrow> go_slice buf (n - c) (length buf); go_copy data1 0 rest }
            else Some data1 }) = Some ?d2"
    by (simp only: cp sl cp2 r_def[symmetric] Option.bind.bind_lunit if_True)
  then show ?thesis
    unfolding k(3) Let_def using cy l2 False by (intro exI[of _ ?d2] conjI impI) (assumption | simp)+
qed

lemma last_n_append:
  "last_n s (xs @ ys) = (if s \<le> length ys then last_n s ys else last_n (s - length ys) xs @ ys)"
proof (cases "s \<le> length ys")
  case True
  then have "length xs + length ys - s - length xs = length ys - s" by simp
  moreover have "drop (length xs + length ys - s) xs = []" using True by simp
  ultimately show ?thesis using True by (simp add: last_n_def)
qed (simp add: last_n_def)

lemma last_n_slide:
  assumes "s \<le> length xs"
  shows "drop (min (length ys) s) (last_n s xs) @ last_n s ys = last_n s (xs @ ys)"
proof (cases "s \<le> length ys")
  case True
  then show ?thesis using assms by (simp add: last_n_append)
next
  case False
  then have "length ys + (length xs - s) = length xs - (s - length ys)" using assms by simp
  then show ?thesis using False by (simp add: last_n_append last_n_def min_def)
qed

lemma last_n_fill:
  assumes "length xs < s" "length g = s - length xs" "s \<le> length xs + length ys"
  shows "drop (min (length ys) s) (g @ xs) @ last_n s ys = last_n s (xs @ ys)"
proof (cases "s \<le> length ys")
  case True
  then show ?thesis using assms by (simp add: last_n_append)
next
  case False
  then have "length ys - (s - length xs) = length xs - (s - length ys)" using assms by simp
  then show ?thesis using False assms by (simp add: last_n_append last_n_def min_def)
qed

lemma circbuf_Write_rep:
  assumes rep: "circbuf_rep b log" and fits: "length log + length buf < 2 ^ 63"
  shows "\<exists>b'. circbuf_Write buf b = Some (length buf, b') \<and> circbuf_rep b' (log @ buf) \<and> cb_size b' = cb_size b"
proof -
  let ?s = "cb_size b" and ?c = "cb_writeCursor b"
  define buf1 where "buf1 = last_n ?s buf"
  note r = rep[unfolded circbuf_rep_def]
  have b1: "(if length buf > ?s then go_slice buf (length buf - ?s) (length buf) else Some buf) = Some buf1"
    "length buf1 = min (length buf) ?s"
    by (auto simp: go_simps buf1_def last_n_def)
  obtain data' where d: "(do { data1 \<leftarrow> go_copy (cb_data b) ?c buf1;
      if length buf1 > ?s - ?c then do { rest \<leftarrow> go_slice buf1 (?s - ?c) (length buf1); go_copy data1 0 rest }
      else Some data1 }) = Some data'" "length data' = ?s"
    and cyc: "drop ((?c + length buf1) mod ?s) data' @ take ((?c + length buf1) mod ?s) data'
      = drop (length buf1) (drop ?c (cb_data b) @ take ?c (cb_data b)) @ buf1"
    and straight: "?c + length buf1 < ?s \<longrightarrow> take (?c + length buf1) data' = take ?c (cb_data b) @ buf1"
    using circbuf_copies[of ?c ?s "cb_data b" buf1] r b1(2) unfolding Let_def by auto
  let ?b' = "b\<lparr>cb_written := int (length (log @ buf)), cb_data := data', cb_writeCursor := (?c + length buf1) mod ?s\<rparr>"
  have wr: "i64 (cb_written b + int (length buf)) = int (length (log @ buf))"
    using r fits by (subst i64_id) auto
  have "circbuf_Write buf b = (do { data1 \<leftarrow> go_copy (cb_data b) ?c buf1;
      if length buf1 > ?s - ?c then do { rest \<leftarrow> go_slice buf1 (?s - ?c) (length buf1); go_copy data1 0 rest }
      else Some data1 }) \<bind> (\<lambda>data2. Some (length buf, b\<lparr>cb_written := int (length (log @ buf)), cb_data := data2,
        cb_writeCursor := (?c + length buf1) mod ?s\<rparr>))"
    using r wr by (simp add: circbuf_Write_def Let_def go_mod_Some b1(1) cong: if_cong)
  then have w: "circbuf_Write buf b = Some (length buf, ?b')" by (simp only: d(1) Option.bind.bind_lunit)
  let ?c' = "(?c + length buf1) mod ?s"
  have body: "if length (log @ buf) < ?s
      then ?c' = length (log @ buf) \<and> take (length (log @ buf)) data' = log @ buf
      else drop ?c' data' @ take ?c' data' = last_n ?s (log @ buf)"
  proof (cases "length log < ?s")
    case part: True
    then have c: "?c = length log" "take ?c (cb_data b) = log" using r by auto
    show ?thesis
    proof (cases "length (log @ buf) < ?s")
      case True
      then have "buf1 = buf" "?c + length buf1 < ?s" using c(1) by (simp_all add: buf1_def)
      then show ?thesis using True straight c by simp
    next
      case False
      then have "drop (min (length buf) ?s) (drop ?c (cb_data b) @ log) @ buf1 = last_n ?s (log @ buf)"
        unfolding buf1_def using r part c(1) by (intro last_n_fill) auto
      then show ?thesis using False cyc unfolding c(2) b1(2) by simp
    qed
  next
    case False
    then have "drop ?c (cb_data b) @ take ?c (cb_data b) = last_n ?s log" using r by simp
    then show ?thesis
      using False cyc last_n_slide[of ?s log buf] b1(2) by (simp flip: buf1_def)
  qed
  have zero: "?c' = 0" if "length (log @ buf) = ?s"
  proof (cases "buf = []")
    case True
    then show ?thesis using r that by (simp add: buf1_def)
  next
    case False
    then have "length log < ?s" using that by (cases buf) auto
    then have "?c = length log" using r by simp
    then show ?thesis using that by (simp add: buf1_def)
  qed
  have "0 < ?s" using r by simp
  then have "circbuf_rep ?b' (log @ buf)"
    unfolding circbuf_rep_def using body zero d(2) by (auto split: if_splits)
  then show ?thesis using w by auto
qed

lemma circbuf_Bytes_rep:
  assumes "circbuf_rep b log"
  shows "circbuf_Bytes b = Some (last_n (cb_size b) log)"
proof -
  note r = assms[unfolded circbuf_rep_def]
  consider "length log < cb_size b" | "length log \<ge> cb_size b" "cb_writeCursor b = 0"
    | "length log > cb_size b" "cb_writeCursor b \<noteq> 0"
    using r by fastforce
  then show ?thesis
  proof cases
    case 1
    then show ?thesis using r by (auto simp: circbuf_Bytes_def go_simps)
  next
    case 2
    then show ?thesis using r by (auto simp: circbuf_Bytes_def)
  next
    case 3
    then have "drop (cb_writeCursor b) (cb_data b) @ take (cb_writeCursor b) (cb_data b) = last_n (cb_size b) log"
      using r by simp
    then show ?thesis using 3 r by (simp add: circbuf_Bytes_def go_simps)
  qed
qed

fun circbuf_writes :: "bytes list \<Rightarrow> circbuf \<Rightarrow> circbuf go" where
  "circbuf_writes [] b = Some b"
| "circbuf_writes (w # ws) b = do { (_, b1) \<leftarrow> circbuf_Write w b; circbuf_writes ws b1 }"

lemma circbuf_writes_rep:
  "circbuf_rep b log \<Longrightarrow> length log + length (concat ws) < 2 ^ 63 \<Longrightarrow>
     \<exists>b'. circbuf_writes ws b = Some b' \<and> circbuf_rep b' (log @ concat ws) \<and> cb_size b' = cb_size b"
proof (induction ws arbitrary: b log)
  case (Cons w ws)
  obtain b1 where b1: "circbuf_Write w b = Some (length w, b1)" "circbuf_rep b1 (log @ w)" "cb_size b1 = cb_size b"
    using circbuf_Write_rep[of b log w] Cons.prems by auto
  then show ?case using Cons.IH[of b1 "log @ w"] Cons.prems by auto
qed auto

text \<open>C6.  For every sequence of writes (fewer than $2^{63}$ bytes in all) into a new buffer of
  positive size no operation panics, \<open>TotalWritten\<close> is the number of bytes written and \<open>Bytes\<close>
  returns exactly the last \<open>size\<close> of them, or all of them while fewer were written.\<close>

theorem circbuf_keeps_last_bytes:
  assumes "0 < n" "length (concat ws) < 2 ^ 63"
  shows "\<exists>b b'. circbuf_NewBuffer n = Some b \<and> circbuf_writes ws b = Some b'
     \<and> circbuf_Bytes b' = Some (last_n (nat n) (concat ws))
     \<and> circbuf_TotalWritten b' = int (length (concat ws))
     \<and> circbuf_Bytes (circbuf_Reset b') = Some []"
proof -
  let ?b = "\<lparr>cb_data = replicate (nat n) 0, cb_size = nat n, cb_writeCursor = 0, cb_written = 0\<rparr> :: circbuf"
  have new: "circbuf_NewBuffer n = Some ?b" "circbuf_rep ?b []"
    using assms(1) by (simp_all add: circbuf_NewBuffer_def circbuf_rep_def)
  obtain b' where b': "circbuf_writes ws ?b = Some b'" "circbuf_rep b' (concat ws)" "cb_size b' = nat n"
    using circbuf_writes_rep[OF new(2), of ws] assms(2) by auto
  have "circbuf_rep (circbuf_Reset b') []"
    using b'(2) by (auto simp: circbuf_rep_def circbuf_Reset_def)
  from circbuf_Bytes_rep[OF this] have "circbuf_Bytes (circbuf_Reset b') = Some []" by simp
  moreover have "circbuf_TotalWritten b' = int (length (concat ws))"
    using b'(2) by (simp add: circbuf_TotalWritten_def circbuf_rep_def)
  ultimately show ?thesis
    using new(1) b' circbuf_Bytes_rep[OF b'(2)] by auto
qed

theorem circbuf_keeps_last_bytes_witness:
  "\<exists>b b'. circbuf_NewBuffer 3 = Some b \<and> circbuf_writes [[1, 2], [3, 4, 5, 6], [7]] b = Some b'
     \<and> circbuf_Bytes b' = Some (last_n (nat 3) (concat [[1, 2], [3, 4, 5, 6], [7]]))
     \<and> circbuf_TotalWritten b' = int (length (concat [[1, 2], [3, 4, 5, 6], [7::byte]]))
     \<and> circbuf_Bytes (circbuf_Reset b') = Some []"
  by (rule circbuf_keeps_last_bytes) simp_all

section \<open>The callback buffer (bufcb.go)\<close>

text \<open>A chunk handed to \<open>Write\<close> is a Go slice: its bytes and the spare bytes between its length and
  its capacity, which reslicing can reach.  The callback acts on a world and may return an
  error.\<close>

record 'w bufcb =
  bc_data :: bytes
  bc_size :: int
  bc_written :: nat
  bc_cb :: "bytes \<Rightarrow> 'w \<Rightarrow> string option \<times> 'w"

definition bufcb_NewBuffer :: "int \<Rightarrow> (bytes \<Rightarrow> 'w \<Rightarrow> string option \<times> 'w) \<Rightarrow> 'w bufcb go" where
  "bufcb_NewBuffer sz cb =
     (if sz < 0 then None
      else Some \<lparr>bc_data = replicate (nat sz) 0, bc_size = sz, bc_written = 0, bc_cb = cb\<rparr>)"

definition bufcb_Flush :: "'w bufcb \<Rightarrow> 'w \<Rightarrow> ((nat \<times> string option) \<times> 'w bufcb \<times> 'w) go" where
  "bufcb_Flush b world = do {
     f \<leftarrow> go_slice (bc_data b) 0 (bc_written b);
     if f \<noteq> [] then
       (case bc_cb b f world of
          (Some err, world1) \<Rightarrow> Some ((bc_written b, Some err), b, world1)
        | (None, world1) \<Rightarrow> Some ((0, None), b\<lparr>bc_data := f, bc_written := 0\<rparr>, world1))
     else Some ((0, None), b\<lparr>bc_data := f, bc_written := 0\<rparr>, world)
   }"

text \<open>The loop of \<open>Write\<close>.  \<open>buf[:n]\<close> is in range up to the capacity, \<open>length buf + length spare\<close>,
  and \<open>buf[n:]\<close> up to the length.  With \<open>size \<le> 0\<close> the count would never go down; the fuel is
  then used up.\<close>

fun bufcb_Write_loop :: "nat \<Rightarrow> int \<Rightarrow> bytes \<Rightarrow> bytes \<Rightarrow> 'w bufcb \<Rightarrow> 'w
     \<Rightarrow> (((nat \<times> string option) \<times> 'w bufcb \<times> 'w) option) go" where
  "bufcb_Write_loop 0 n buf spare b world = (if n > 0 then Some None else Some (Some ((0, None), b, world)))"
| "bufcb_Write_loop (Suc fuel) n buf spare b world =
     (if n > 0 then do {
        chunk \<leftarrow> go_slice (buf @ spare) 0 (nat n);
        (case bc_cb b chunk world of
           (Some err, world1) \<Rightarrow> Some (Some ((bc_written b, Some err), b, world1))
         | (None, world1) \<Rightarrow> do {
             rest \<leftarrow> go_slice buf (nat n) (length buf);
             bufcb_Write_loop fuel (n - min (bc_size b) n) rest spare b world1
           })
      } else Some (Some ((0, None), b, world)))"

text \<open>A nil slice is \<open>None\<close>.\<close>

definition bufcb_Write :: "nat \<Rightarrow> (bytes \<times> bytes) option \<Rightarrow> 'w bufcb \<Rightarrow> 'w
     \<Rightarrow> (((nat \<times> string option) \<times> 'w bufcb \<times> 'w) option) go" where
  "bufcb_Write fuel sl b world =
     (case sl of
        None \<Rightarrow> (case bc_cb b [] world of (err, world1) \<Rightarrow> Some (Some ((0, err), b, world1)))
      | Some (buf, spare) \<Rightarrow>
          (if buf = [] then map_option Some (bufcb_Flush b world)
           else bufcb_Write_loop fuel (int (length buf)) buf spare b world))"

text \<open>A chunk that fits the configured size reaches the callback exactly once and unchanged,
  within two turns of the loop; the callback's error is returned.  A longer chunk without spare
  capacity is also handed over, and then \<open>Write\<close> panics: after the first turn the slice is empty
  while \<open>n\<close> is still positive.\<close>

theorem bufcb_Write_one_chunk:
  assumes "buf \<noteq> []" "0 < bc_size b" "bc_cb b buf world = (err, world1)"
  shows "(int (length buf) \<le> bc_size b \<longrightarrow>
            bufcb_Write (Suc (Suc fuel)) (Some (buf, spare)) b world =
              Some (Some ((case err of None \<Rightarrow> 0 | Some _ \<Rightarrow> bc_written b, err), b, world1)))
       \<and> (bc_size b < int (length buf) \<and> err = None \<longrightarrow>
            bufcb_Write (Suc (Suc fuel)) (Some (buf, [])) b world = None)"
  using assms by (auto simp: bufcb_Write_def go_slice_def split: option.split)

definition bufcb_example :: "bytes list bufcb" where
  "bufcb_example = \<lparr>bc_data = [0, 0], bc_size = 2, bc_written = 0, bc_cb = (\<lambda>b w. (None, w @ [b]))\<rparr>"

theorem bufcb_Write_one_chunk_witness:
  "bufcb_Write 2 (Some ([1, 2], [])) bufcb_example [] = Some (Some ((0, None), bufcb_example, [[1, 2]]))
   \<and> bufcb_Write 2 (Some ([1, 2, 3], [])) bufcb_example [] = None"
  using bufcb_Write_one_chunk[of "[1, 2]" bufcb_example "[]" None "[[1, 2]]" 0 "[]"]
    bufcb_Write_one_chunk[of "[1, 2, 3]" bufcb_example "[]" None "[[1, 2, 3]]" 0 "[]"]
  by (simp add: bufcb_example_def numeral_2_eq_2)

end
