(* ===== verification/Mem_Stream.thy ===== *)
theory Mem_Stream
  imports Buffers
begin

text \<open>
  The in-memory publication stream of \<open>server/deliverer/internal/memstream/stream.go\<close>.

  \<open>container/list\<close> is modelled by the sequence of its elements; an element is its identity (the
  pointer, a number that is never reused) and its value, so that the map \<open>index\<close> can hold
  pointers to elements as in the source.  Offsets are 64-bit words and wrap.
\<close>

record 'v sitem =
  si_Offset :: uint64
  si_Value :: 'v

record 'v stream =
  st_top :: uint64
  st_list :: "(nat \<times> 'v sitem) list"
  st_index :: "(uint64, nat) fmap"
  st_epoch :: string
  st_fresh :: nat

definition stream_New :: "string \<Rightarrow> 'v stream" where
  "stream_New genEpoch = \<lparr>st_top = 0, st_list = [], st_index = fmempty, st_epoch = genEpoch, st_fresh = 0\<rparr>"

definition letters :: string where
  "letters = ''abcdefghijklmnopqrstuvwxyzABCDEFGHIJKLMNOPQRSTUVWXYZ''"

text \<open>\<open>randString\<close> with the numbers the random source returns, each below \<open>len(letters)\<close>.\<close>

definition randString :: "nat list \<Rightarrow> string go" where
  "randString draws = those (map (go_index letters) draws)"

definition stream_Top :: "'v stream \<Rightarrow> uint64" where
  "stream_Top s = st_top s"

text \<open>The loops over \<open>Next\<close> and \<open>Prev\<close>: the elements still ahead, and the counter \<open>i\<close>.\<close>

fun stream_collect :: "int \<Rightarrow> int \<Rightarrow> 'a list \<Rightarrow> 'a list" where
  "stream_collect limit i [] = []"
| "stream_collect limit i (e # es) =
     (if limit \<ge> 0 \<and> i \<ge> limit then [] else e # stream_collect limit (i + 1) es)"

definition stream_Get ::
  "uint64 \<Rightarrow> bool \<Rightarrow> int \<Rightarrow> bool \<Rightarrow> 'v stream \<Rightarrow> 'v sitem list \<times> uint64" where
  "stream_Get offset useOffset limit reverse s =
     (if useOffset \<and> offset \<ge> st_top s + 1 then ([], st_top s)
      else
        let front = (case st_list s of [] \<Rightarrow> None | (p, _) # _ \<Rightarrow> Some p);
            back = (case rev (st_list s) of [] \<Rightarrow> None | (p, _) # _ \<Rightarrow> Some p);
            el = (if useOffset then
                    (case fmlookup (st_index s) offset of
                       Some p \<Rightarrow> Some p
                     | None \<Rightarrow> if reverse then None else front)
                  else if reverse then back else front)
        in case el of
             None \<Rightarrow> ([], st_top s)
           | Some p \<Rightarrow>
               if limit = 0 then ([], st_top s)
               else
                 (case dropWhile (\<lambda>(q, _). q \<noteq> p) (if reverse then rev (st_list s) else st_list s) of
                    [] \<Rightarrow> ([], st_top s)
                  | (_, item) # es \<Rightarrow> (item # stream_collect limit 1 (map snd es), st_top s)))"

text \<open>The trimming loop of \<open>Add\<close>: on an empty list \<open>Front\<close> is nil and its \<open>Value\<close> panics.\<close>

fun stream_trim :: "(nat \<times> 'v sitem) list \<Rightarrow> (uint64, nat) fmap \<Rightarrow> int
     \<Rightarrow> ((nat \<times> 'v sitem) list \<times> (uint64, nat) fmap) go" where
  "stream_trim [] index sz = (if 0 > sz then None else Some ([], index))"
| "stream_trim ((p, item) # es) index sz =
     (if int (length ((p, item) # es)) > sz then stream_trim es (fmdrop (si_Offset item) index) sz
      else Some ((p, item) # es, index))"

definition stream_Add :: "'v \<Rightarrow> int \<Rightarrow> 'v stream \<Rightarrow> (uint64 \<times> 'v stream) go" where
  "stream_Add v sz s = do {
     let top = st_top s + 1;
     let item = \<lparr>si_Offset = top, si_Value = v\<rparr>;
     let l = st_list s @ [(st_fresh s, item)];
     let index = fmupd (si_Offset item) (st_fresh s) (st_index s);
     (l', index') \<leftarrow> stream_trim l index sz;
     Some (top, s\<lparr>st_top := top, st_list := l', st_index := index', st_fresh := Suc (st_fresh s)\<rparr>)
   }"

definition stream_Clear :: "'v stream \<Rightarrow> 'v stream" where
  "stream_Clear s = s\<lparr>st_list := [], st_index := fmempty\<rparr>"

section \<open>Invariant\<close>

definition stream_items :: "'v stream \<Rightarrow> 'v sitem list" where
  "stream_items s = map snd (st_list s)"

text \<open>The retained items have consecutive offsets ending at \<open>top\<close>, and \<open>index\<close> maps exactly
  those offsets to their elements.\<close>

definition stream_inv :: "'v stream \<Rightarrow> bool" where
  "stream_inv s \<longleftrightarrow>
     length (st_list s) \<le> unat (st_top s)
     \<and> map (unat \<circ> si_Offset) (stream_items s) = [Suc (unat (st_top s)) - length (st_list s)..<Suc (unat (st_top s))]
     \<and> distinct (map fst (st_list s)) \<and> (\<forall>p\<in>fst ` set (st_list s). p < st_fresh s)
     \<and> (\<forall>o' p. fmlookup (st_index s) o' = Some p \<longleftrightarrow> (\<exists>it. (p, it) \<in> set (st_list s) \<and> si_Offset it = o'))"

lemma stream_inv_New [simp]: "stream_inv (stream_New e)"
  by (simp add: stream_inv_def stream_New_def stream_items_def)

lemma stream_inv_Clear [inv_intros]: "stream_inv s \<Longrightarrow> stream_inv (stream_Clear s)"
  by (simp add: stream_inv_def stream_Clear_def stream_items_def)

lemma upt_distinct_offsets:
  assumes "map (unat \<circ> si_Offset) (map snd l) = [a..<b]"
  shows "distinct (map (si_Offset \<circ> snd) l)"
proof -
  have "distinct (map unat (map (si_Offset \<circ> snd) l))" using assms by (simp add: comp_def)
  then show ?thesis by (simp only: distinct_map)
qed

text \<open>The trimming loop drops items from the front until at most \<open>sz\<close> are left, together with
  their index entries.\<close>

lemma stream_trim_ok:
  assumes "0 \<le> sz" "distinct (map (si_Offset \<circ> snd) l)" "distinct (map fst l)"
    and "\<forall>o' p. fmlookup index o' = Some p \<longleftrightarrow> (\<exists>it. (p, it) \<in> set l \<and> si_Offset it = o')"
  shows "\<exists>index'. stream_trim l index sz = Some (last_n (nat sz) l, index')
     \<and> (\<forall>o' p. fmlookup index' o' = Some p \<longleftrightarrow> (\<exists>it. (p, it) \<in> set (last_n (nat sz) l) \<and> si_Offset it = o'))"
  using assms
proof (induction l index sz rule: stream_trim.induct)
  case (2 p item es index sz)
  show ?case
  proof (cases "int (length ((p, item) # es)) > sz")
    case True
    have "last_n (nat sz) ((p, item) # es) = last_n (nat sz) es"
      using True "2.prems"(1) by (simp add: last_n_def Suc_diff_le nat_le_iff)
    moreover have "\<forall>o' q. fmlookup (fmdrop (si_Offset item) index) o' = Some q
        \<longleftrightarrow> (\<exists>it. (q, it) \<in> set es \<and> si_Offset it = o')"
    proof (intro allI)
      fix o' q
      show "fmlookup (fmdrop (si_Offset item) index) o' = Some q \<longleftrightarrow> (\<exists>it. (q, it) \<in> set es \<and> si_Offset it = o')"
        using "2.prems"(2,4) by (cases "o' = si_Offset item") (auto simp: image_iff)
    qed
    ultimately show ?thesis using "2.IH"[OF True "2.prems"(1)] True "2.prems"(2,3) by simp
  next
    case False
    then have "last_n (nat sz) ((p, item) # es) = (p, item) # es" by (simp add: nat_le_iff le_nat_iff)
    then show ?thesis using False "2.prems" by auto
  qed
qed auto

lemma stream_Add_ok:
  assumes inv: "stream_inv s" and "0 \<le> sz" and top: "unat (st_top s) + 1 < 2 ^ 64"
  shows "\<exists>s'. stream_Add v sz s = Some (st_top s + 1, s') \<and> stream_inv s' \<and> st_top s' = st_top s + 1
     \<and> stream_items s' = last_n (nat sz) (stream_items s @ [\<lparr>si_Offset = st_top s + 1, si_Value = v\<rparr>])"
proof -
  let ?top = "st_top s + 1" and ?it = "\<lparr>si_Offset = st_top s + 1, si_Value = v\<rparr>"
  let ?l = "st_list s @ [(st_fresh s, ?it)]"
  let ?n = "length (st_list s)"
  note i = inv[unfolded stream_inv_def stream_items_def]
  have ut: "unat ?top = Suc (unat (st_top s))" using top by (simp add: unat_plus_if_size word_size)
  have offs: "map (unat \<circ> si_Offset) (map snd ?l) = [Suc (unat ?top) - length ?l..<Suc (unat ?top)]"
    using i ut by simp
  have dist: "distinct (map (si_Offset \<circ> snd) ?l)" "distinct (map fst ?l)"
    using upt_distinct_offsets[OF offs] i by auto
  have new: "\<not> (\<exists>p. fmlookup (st_index s) ?top = Some p)"
    using i dist(1) by (auto simp: image_iff)
  have idx: "\<forall>o' p. fmlookup (fmupd ?top (st_fresh s) (st_index s)) o' = Some p
      \<longleftrightarrow> (\<exists>it. (p, it) \<in> set ?l \<and> si_Offset it = o')"
  proof (intro allI)
    fix o' p
    show "fmlookup (fmupd ?top (st_fresh s) (st_index s)) o' = Some p \<longleftrightarrow> (\<exists>it. (p, it) \<in> set ?l \<and> si_Offset it = o')"
    proof (cases "o' = ?top")
      case True
      then show ?thesis using i new by auto
    next
      case False
      then show ?thesis using i by auto
    qed
  qed
  obtain index' where tr: "stream_trim ?l (fmupd ?top (st_fresh s) (st_index s)) sz = Some (last_n (nat sz) ?l, index')"
    "\<forall>o' p. fmlookup index' o' = Some p \<longleftrightarrow> (\<exists>it. (p, it) \<in> set (last_n (nat sz) ?l) \<and> si_Offset it = o')"
    using stream_trim_ok[OF assms(2) dist idx] by blast
  let ?s' = "s\<lparr>st_top := ?top, st_list := last_n (nat sz) ?l, st_index := index', st_fresh := Suc (st_fresh s)\<rparr>"
  have "stream_Add v sz s = Some (?top, ?s')" using tr(1) by (simp add: stream_Add_def Let_def)
  moreover have "stream_items ?s' = last_n (nat sz) (stream_items s @ [?it])"
    by (simp add: stream_items_def last_n_map)
  moreover have "stream_inv ?s'"
  proof -
    let ?d = "length ?l - nat sz"
    have len: "length (last_n (nat sz) ?l) = length ?l - ?d" by (simp add: last_n_def)
    have le: "length ?l \<le> unat ?top" using i ut by simp
    have its': "stream_items ?s' = map snd (last_n (nat sz) ?l)" by (simp add: stream_items_def)
    have "map (unat \<circ> si_Offset) (stream_items ?s') = drop ?d (map (unat \<circ> si_Offset) (map snd ?l))"
      unfolding its' by (simp only: last_n_def drop_map)
    also have "\<dots> = [Suc (unat ?top) - (length ?l - ?d)..<Suc (unat ?top)]"
      unfolding offs drop_upt using le by (simp del: upt_Suc)
    finally have "map (unat \<circ> si_Offset) (stream_items ?s') = [Suc (unat ?top) - (length ?l - ?d)..<Suc (unat ?top)]" .
    moreover have "distinct (map fst (last_n (nat sz) ?l))"
      using dist(2) by (simp only: last_n_def drop_map[symmetric] distinct_drop)
    moreover have "\<forall>p\<in>fst ` set (last_n (nat sz) ?l). p < Suc (st_fresh s)"
      using i set_drop_subset[of ?d ?l] by (fastforce simp: last_n_def)
    ultimately show ?thesis
      using len le tr(2) by (simp add: stream_inv_def del: upt_Suc)
  qed
  ultimately show ?thesis by (intro exI[of _ ?s']) simp
qed

section \<open>Reading\<close>

definition limited :: "int \<Rightarrow> 'a list \<Rightarrow> 'a list" where
  "limited limit xs = (if limit < 0 then xs else take (nat limit) xs)"

lemma stream_collect_limited:
  "0 \<le> i \<Longrightarrow> stream_collect limit i es = (if limit < 0 then es else take (nat (limit - i)) es)"
proof (induction limit i es rule: stream_collect.induct)
  case (2 limit i e es)
  show ?case
  proof (cases "limit \<ge> 0 \<and> i \<ge> limit")
    case False
    moreover have "nat (limit - i) = Suc (nat (limit - (i + 1)))" if "\<not> limit < 0"
      using False that by simp
    ultimately show ?thesis using 2 by auto
  qed auto
qed simp

lemma collect_Cons:
  assumes "limit \<noteq> 0"
  shows "e # stream_collect limit 1 es = limited limit (e # es)"
proof (cases "limit < 0")
  case False
  then have "nat limit = Suc (nat (limit - 1))" using assms by simp
  then show ?thesis using False by (simp add: stream_collect_limited limited_def)
qed (simp add: stream_collect_limited limited_def)

lemma filter_upt_ge: "map f xs = [a..<b] \<Longrightarrow> filter (\<lambda>x. k \<le> f x) xs = drop (k - a) xs"
proof (induction xs arbitrary: a)
  case (Cons x xs)
  then have "a < b" by (cases "a < b") auto
  then have fx: "f x = a" "map f xs = [Suc a..<b]" using Cons.prems by (simp_all add: upt_conv_Cons)
  show ?case
  proof (cases "k \<le> a")
    case True
    then have "filter (\<lambda>x. k \<le> f x) xs = xs" using Cons.IH[OF fx(2)] by simp
    then show ?thesis using True fx(1) by simp
  next
    case False
    then have "k - a = Suc (k - Suc a)" by simp
    then show ?thesis using False fx Cons.IH[OF fx(2)] by simp
  qed
qed simp

lemma filter_upt_le: "map f xs = [a..<b] \<Longrightarrow> filter (\<lambda>x. f x \<le> k) xs = take (Suc k - a) xs"
proof (induction xs arbitrary: a)
  case (Cons x xs)
  then have "a < b" by (cases "a < b") auto
  then have fx: "f x = a" "map f xs = [Suc a..<b]" using Cons.prems by (simp_all add: upt_conv_Cons)
  show ?case
  proof (cases "a \<le> k")
    case True
    then have "Suc k - a = Suc (Suc k - Suc a)" by simp
    then show ?thesis using True fx Cons.IH[OF fx(2)] by simp
  next
    case False
    then have "filter (\<lambda>x. f x \<le> k) xs = []" using Cons.IH[OF fx(2)] by simp
    then show ?thesis using False fx(1) by simp
  qed
qed simp

lemma dropWhile_distinct:
  assumes "distinct (map fst l)" "i < length l"
  shows "dropWhile (\<lambda>(q, _). q \<noteq> fst (l ! i)) l = drop i l"
  using assms
proof (induction l arbitrary: i)
  case (Cons x l)
  show ?case
  proof (cases i)
    case (Suc j)
    then have "fst (l ! j) \<in> fst ` set l" using Cons.prems by auto
    then have "fst x \<noteq> fst (l ! j)" using Cons.prems(1) by (metis distinct.simps(2) list.map(2) list.set_map)
    then show ?thesis using Cons Suc by (cases x) auto
  qed (cases x, simp)
qed simp

text \<open>Where an offset is found, it is found at the position its number says.\<close>

lemma stream_index_pos:
  assumes "stream_inv s" "fmlookup (st_index s) off = Some p"
  shows "\<exists>i < length (st_list s). fst (st_list s ! i) = p
     \<and> unat off = Suc (unat (st_top s)) - length (st_list s) + i"
proof -
  note i = assms(1)[unfolded stream_inv_def stream_items_def]
  obtain it where it: "(p, it) \<in> set (st_list s)" "si_Offset it = off" using i assms(2) by blast
  then obtain j where j: "j < length (st_list s)" "st_list s ! j = (p, it)" by (metis in_set_conv_nth)
  have "map (unat \<circ> si_Offset) (map snd (st_list s)) ! j = unat off" using j it(2) by simp
  moreover have "[Suc (unat (st_top s)) - length (st_list s)..<Suc (unat (st_top s))] ! j
      = Suc (unat (st_top s)) - length (st_list s) + j"
    using j(1) i by (intro nth_upt) linarith
  ultimately show ?thesis using i j by (metis fst_conv)
qed

lemma stream_index_miss:
  assumes "stream_inv s" "fmlookup (st_index s) off = None" "unat off \<le> unat (st_top s)"
  shows "unat off < Suc (unat (st_top s)) - length (st_list s)"
proof (rule ccontr)
  note i = assms(1)[unfolded stream_inv_def stream_items_def]
  assume "\<not> ?thesis"
  then have "unat off \<in> set [Suc (unat (st_top s)) - length (st_list s)..<Suc (unat (st_top s))]"
    using assms(3) by (simp del: upt_Suc)
  then have "unat off \<in> set (map (unat \<circ> si_Offset) (map snd (st_list s)))" using i by metis
  then obtain p it where "(p, it) \<in> set (st_list s)" "si_Offset it = off"
    by (auto simp: word_unat_eq_iff)
  then show False using i assms(2) by (metis option.distinct(1))
qed

lemma walk_from:
  assumes "distinct (map fst l)" "i < length l" "limit \<noteq> 0"
  shows "(case dropWhile (\<lambda>(q, _). q \<noteq> fst (l ! i)) l of
            [] \<Rightarrow> ([], t)
          | (_, item) # es \<Rightarrow> (item # stream_collect limit 1 (map snd es), t)) = (limited limit (drop i (map snd l)), t)"
proof -
  have "drop i l = l ! i # drop (Suc i) l" using assms(2) by (simp add: Cons_nth_drop_Suc)
  then have "drop i (map snd l) = snd (l ! i) # map snd (drop (Suc i) l)" by (simp add: drop_map)
  then show ?thesis
    unfolding dropWhile_distinct[OF assms(1,2)] \<open>drop i l = _\<close> using collect_Cons[OF assms(3)] by (simp add: split_def)
qed

lemma limited_0 [simp]: "limited 0 xs = []" "limited limit [] = []"
  by (simp_all add: limited_def)

lemma first_handle: "(case l of [] \<Rightarrow> None | (p, _) # _ \<Rightarrow> Some p) = (if l = [] then None else Some (fst (l ! 0)))"
  by (cases l) auto

text \<open>\<open>Get\<close> once the starting element is known.\<close>

definition get_from :: "(nat \<times> 'v sitem) list \<Rightarrow> nat option \<Rightarrow> int \<Rightarrow> uint64 \<Rightarrow> 'v sitem list \<times> uint64" where
  "get_from l el limit t =
     (case el of None \<Rightarrow> ([], t)
      | Some p \<Rightarrow> if limit = 0 then ([], t)
          else (case dropWhile (\<lambda>(q, _). q \<noteq> p) l of
                  [] \<Rightarrow> ([], t)
                | (_, item) # es \<Rightarrow> (item # stream_collect limit 1 (map snd es), t)))"

lemma get_from_nth:
  "distinct (map fst l) \<Longrightarrow> i < length l \<Longrightarrow> get_from l (Some (fst (l ! i))) limit t = (limited limit (drop i (map snd l)), t)"
  by (cases "limit = 0") (simp_all add: get_from_def walk_from)

lemma get_from_first:
  "distinct (map fst l) \<Longrightarrow>
     get_from l (if l = [] then None else Some (fst (l ! 0))) limit t = (limited limit (map snd l), t)"
  using get_from_nth[of l 0 limit t] by (auto simp: get_from_def)

lemma stream_Get_get_from:
  assumes "\<not> (useOffset \<and> offset \<ge> st_top s + 1)"
  shows "stream_Get offset useOffset limit reverse s =
     (let l = (if reverse then rev (st_list s) else st_list s)
      in get_from l (if useOffset then
                       (case fmlookup (st_index s) offset of Some p \<Rightarrow> Some p
                        | None \<Rightarrow> if reverse then None else if l = [] then None else Some (fst (l ! 0)))
                     else if l = [] then None else Some (fst (l ! 0))) limit (st_top s))"
  using assms unfolding stream_Get_def get_from_def first_handle by (simp add: Let_def)

lemma stream_inv_offsets:
  assumes "stream_inv s"
  shows "filter (\<lambda>it. off \<le> si_Offset it) (stream_items s)
           = drop (unat off - (Suc (unat (st_top s)) - length (st_list s))) (stream_items s)"
    and "filter (\<lambda>it. si_Offset it \<le> off) (stream_items s)
           = take (Suc (unat off) - (Suc (unat (st_top s)) - length (st_list s))) (stream_items s)"
  using assms filter_upt_ge[of "unat \<circ> si_Offset" "stream_items s" _ _ "unat off"]
    filter_upt_le[of "unat \<circ> si_Offset" "stream_items s" _ _ "unat off"]
  by (simp_all add: stream_inv_def word_le_nat_alt del: upt_Suc)

lemma top_less:
  assumes "unat (tp :: uint64) + 1 < 2 ^ 64"
  shows "off \<ge> tp + 1 \<longleftrightarrow> unat off > unat tp"
proof -
  have "unat (tp + 1) = Suc (unat tp)" using assms by (simp add: unat_plus_if_size word_size)
  then show ?thesis by (simp add: word_le_nat_alt Suc_le_eq)
qed

lemma stream_Get_forward:
  assumes inv: "stream_inv s" and top: "unat (st_top s) + 1 < 2 ^ 64"
  shows "stream_Get off useOff limit False s =
     (if useOff then limited limit (filter (\<lambda>it. off \<le> si_Offset it) (stream_items s))
      else limited limit (stream_items s), st_top s)"
proof -
  note i = inv[unfolded stream_inv_def]
  let ?a = "Suc (unat (st_top s)) - length (st_list s)"
  have its: "stream_items s = map snd (st_list s)" by (simp add: stream_items_def)
  have dist: "distinct (map fst (st_list s))" using i by simp
  consider "\<not> useOff" | "useOff" "off \<ge> st_top s + 1"
    | p where "useOff" "\<not> off \<ge> st_top s + 1" "fmlookup (st_index s) off = Some p"
    | "useOff" "\<not> off \<ge> st_top s + 1" "fmlookup (st_index s) off = None"
    by fastforce
  then show ?thesis
  proof cases
    case 1
    then show ?thesis
      using get_from_first[OF dist, of limit "st_top s"] by (simp add: stream_Get_get_from its)
  next
    case 2
    then have "unat off - ?a \<ge> length (stream_items s)" using top_less[OF top] i its by auto
    then show ?thesis using 2 stream_inv_offsets(1)[OF inv, of off] by (simp add: stream_Get_def)
  next
    case 3
    obtain j where j: "j < length (st_list s)" "fst (st_list s ! j) = p" "unat off = ?a + j"
      using stream_index_pos[OF inv 3(3)] by blast
    then show ?thesis
      using 3 get_from_nth[OF dist j(1), of limit "st_top s"] stream_inv_offsets(1)[OF inv, of off]
      by (simp add: stream_Get_get_from its)
  next
    case 4
    then have "unat off < ?a" using stream_index_miss[OF inv 4(3)] top_less[OF top, of off] by auto
    then show ?thesis
      using 4 get_from_first[OF dist, of limit "st_top s"] stream_inv_offsets(1)[OF inv, of off]
      by (simp add: stream_Get_get_from its)
  qed
qed

lemma stream_Get_reverse:
  assumes inv: "stream_inv s" and top: "unat (st_top s) + 1 < 2 ^ 64"
  shows "stream_Get off useOff limit True s =
     (if useOff then if off \<ge> st_top s + 1 then [] else limited limit (rev (filter (\<lambda>it. si_Offset it \<le> off) (stream_items s)))
      else limited limit (rev (stream_items s)), st_top s)"
proof -
  note i = inv[unfolded stream_inv_def]
  let ?a = "Suc (unat (st_top s)) - length (st_list s)"
  let ?r = "rev (st_list s)"
  have its: "rev (stream_items s) = map snd ?r" by (simp add: stream_items_def rev_map)
  have dist: "distinct (map fst ?r)" using i by (simp add: rev_map[symmetric])
  consider "\<not> useOff" | "useOff" "off \<ge> st_top s + 1"
    | p where "useOff" "\<not> off \<ge> st_top s + 1" "fmlookup (st_index s) off = Some p"
    | "useOff" "\<not> off \<ge> st_top s + 1" "fmlookup (st_index s) off = None"
    by fastforce
  then show ?thesis
  proof cases
    case 1
    then show ?thesis
      using get_from_first[OF dist, of limit "st_top s"] by (simp add: stream_Get_get_from its)
  next
    case 2
    then show ?thesis by (simp add: stream_Get_def)
  next
    case 3
    obtain j where j: "j < length (st_list s)" "fst (st_list s ! j) = p" "unat off = ?a + j"
      using stream_index_pos[OF inv 3(3)] by blast
    let ?k = "length (st_list s) - Suc j"
    have k: "?k < length ?r" "fst (?r ! ?k) = p" using j(1,2) by (simp_all add: rev_nth)
    have "rev (take (Suc (unat off) - ?a) (stream_items s)) = drop ?k (map snd ?r)"
      using j(1,3) by (simp add: stream_items_def rev_take rev_map)
    then show ?thesis
      using 3 get_from_nth[OF dist k(1), of limit "st_top s"] k(2) stream_inv_offsets(2)[OF inv, of off]
      by (simp add: stream_Get_get_from)
  next
    case 4
    then have "unat off < ?a" using stream_index_miss[OF inv 4(3)] top_less[OF top, of off] by auto
    then show ?thesis
      using 4 stream_inv_offsets(2)[OF inv, of off] by (simp add: stream_Get_get_from get_from_def)
  qed
qed

section \<open>Properties\<close>

fun stream_adds :: "'v list \<Rightarrow> int \<Rightarrow> 'v stream \<Rightarrow> 'v stream go" where
  "stream_adds [] sz s = Some s"
| "stream_adds (v # vs) sz s = do { (_, s1) \<leftarrow> stream_Add v sz s; stream_adds vs sz s1 }"

lemma last_n_last_n: "last_n k (last_n k xs @ ys) = last_n k (xs @ ys)"
proof (cases "k \<le> length xs")
  case False
  then show ?thesis by simp
next
  case True
  then have "length (last_n k xs) = k" by (simp add: last_n_def)
  moreover have "k - length ys \<le> k" by simp
  ultimately show ?thesis
    using True by (simp add: last_n_append) (simp add: last_n_def add.commute)
qed

lemma stream_adds_ok:
  "stream_inv s \<Longrightarrow> 0 \<le> sz \<Longrightarrow> unat (st_top s) + length vs < 2 ^ 64 \<Longrightarrow> length (st_list s) \<le> nat sz \<Longrightarrow>
   \<exists>s'. stream_adds vs sz s = Some s' \<and> stream_inv s' \<and> unat (st_top s') = unat (st_top s) + length vs
     \<and> map si_Value (stream_items s') = last_n (nat sz) (map si_Value (stream_items s) @ vs)
     \<and> length (st_list s') \<le> nat sz"
proof (induction vs arbitrary: s)
  case Nil
  then show ?case by (auto simp: stream_items_def)
next
  case (Cons v vs)
  then have t: "unat (st_top s) + 1 < 2 ^ 64" by simp
  obtain s1 where s1: "stream_Add v sz s = Some (st_top s + 1, s1)" "stream_inv s1" "st_top s1 = st_top s + 1"
    "stream_items s1 = last_n (nat sz) (stream_items s @ [\<lparr>si_Offset = st_top s + 1, si_Value = v\<rparr>])"
    using stream_Add_ok[OF Cons.prems(1,2) t] by blast
  have ut: "unat (st_top s1) = Suc (unat (st_top s))" using s1(3) t by (simp add: unat_plus_if_size word_size)
  have len: "length (st_list s1) \<le> nat sz"
    using arg_cong[OF s1(4), of length] by (simp add: stream_items_def)
  obtain s' where "stream_adds vs sz s1 = Some s'" "stream_inv s'" "unat (st_top s') = unat (st_top s1) + length vs"
    "map si_Value (stream_items s') = last_n (nat sz) (map si_Value (stream_items s1) @ vs)" "length (st_list s') \<le> nat sz"
    using Cons.IH[OF s1(2) Cons.prems(2) _ len] ut Cons.prems(3) by auto
  then show ?case
    using s1(1,4) ut last_n_last_n[of "nat sz" "map si_Value (stream_items s) @ [v]" vs]
    by (auto simp: last_n_map)
qed

text \<open>C8.  A stream that only receives \<open>Add\<close> calls with a non-negative size keeps exactly the last
  \<open>size\<close> values in order, numbers them consecutively up to \<open>Top\<close>, which counts all values ever
  added, keeps \<open>index\<close> in agreement, and never panics (as long as fewer than $2^{64}$ values are
  added).\<close>

theorem stream_keeps_last_values:
  assumes "0 \<le> sz" "length vs < 2 ^ 64"
  shows "\<exists>s. stream_adds vs sz (stream_New e) = Some s \<and> stream_inv s
     \<and> unat (stream_Top s) = length vs
     \<and> map si_Value (stream_items s) = last_n (nat sz) vs
     \<and> map (unat \<circ> si_Offset) (stream_items s) = [Suc (length vs) - length (stream_items s)..<Suc (length vs)]"
proof -
  obtain s where "stream_adds vs sz (stream_New e) = Some s" "stream_inv s" "unat (st_top s) = length vs"
    "map si_Value (stream_items s) = last_n (nat sz) vs"
    using stream_adds_ok[of "stream_New e" sz vs] assms by (auto simp: stream_New_def stream_items_def stream_inv_def)
  then show ?thesis by (auto simp: stream_Top_def stream_inv_def stream_items_def simp del: upt_Suc)
qed

theorem stream_keeps_last_values_witness:
  "\<exists>s. stream_adds [''a'', ''b'', ''c''] 2 (stream_New ''ep'') = Some s \<and> stream_inv s
     \<and> unat (stream_Top s) = length [''a'', ''b'', ''c'']
     \<and> map si_Value (stream_items s) = last_n (nat 2) [''a'', ''b'', ''c'']
     \<and> map (unat \<circ> si_Offset) (stream_items s)
         = [Suc (length [''a'', ''b'', ''c'']) - length (stream_items s)..<Suc (length [''a'', ''b'', ''c''])]"
  by (rule stream_keeps_last_values) simp_all

text \<open>C9.  \<open>Get\<close> reads a well-formed stream as a log: forwards from an offset it returns the first
  \<open>limit\<close> retained items at or after that offset, backwards the last \<open>limit\<close> items at or before
  it, newest first; an offset past the top gives nothing; without an offset it starts at the
  respective end; a negative limit means all, and the second result is always the top.\<close>

theorem stream_Get_correct:
  assumes "stream_inv s" "unat (st_top s) + 1 < 2 ^ 64"
  shows "stream_Get off useOff limit reverse s =
     (if useOff \<and> unat (st_top s) < unat off then []
      else limited limit
        (if reverse then rev (filter (\<lambda>it. \<not> useOff \<or> si_Offset it \<le> off) (stream_items s))
         else filter (\<lambda>it. \<not> useOff \<or> off \<le> si_Offset it) (stream_items s)), st_top s)"
proof (cases reverse)
  case True
  then show ?thesis using stream_Get_reverse[OF assms] top_less[OF assms(2), of off] by auto
next
  case False
  have "filter (\<lambda>it. off \<le> si_Offset it) (stream_items s) = []" if "unat (st_top s) < unat off"
    using that assms(1) unfolding stream_inv_offsets(1)[OF assms(1)]
    by (auto simp: stream_inv_def stream_items_def)
  then show ?thesis using False stream_Get_forward[OF assms] by auto
qed

theorem stream_Get_correct_witness:
  "stream_Get 1 True 5 False (stream_New ''ep'' :: nat stream) =
     (if True \<and> unat (st_top (stream_New ''ep'' :: nat stream)) < unat (1 :: uint64) then []
      else limited 5
        (if False then rev (filter (\<lambda>it. \<not> True \<or> si_Offset it \<le> 1) (stream_items (stream_New ''ep'' :: nat stream)))
         else filter (\<lambda>it. \<not> True \<or> 1 \<le> si_Offset it) (stream_items (stream_New ''ep'' :: nat stream))), st_top (stream_New ''ep'' :: nat stream))"
  by (rule stream_Get_correct) (simp_all add: stream_New_def stream_inv_def stream_items_def)

text \<open>A negative size is not guarded against: the trimming loop reads the front of an empty
  list.\<close>

lemma stream_Add_negative_size_panics:
  assumes "sz < 0"
  shows "stream_Add v sz s = None"
proof -
  have "stream_trim l index sz = None" for l :: "(nat \<times> 'a sitem) list" and index
    using assms by (induction l index sz rule: stream_trim.induct) auto
  then show ?thesis by (simp add: stream_Add_def Let_def)
qed

end
