(* ===== verification/CB_Queue.thy ===== *)
theory CB_Queue
  imports Ring_Queue
begin

text \<open>
  The asynchronous callback queue of \<open>pkg/cbqueue/cbqueue.go\<close>, which the runner's worker and the
  daemon's pub/sub client use.  It is a singly linked list of heap cells with a head and a tail
  pointer, so the model has an explicit store: a pointer is a natural number, \<open>None\<close> is nil,
  and \<open>fresh\<close> is the address the next allocation returns.  Time stamps are integers.
\<close>

record 'f async_cb =
  acb_fn :: "'f option"
  acb_tm :: int
  acb_next :: "nat option"

record 'f cbqueue =
  cq_store :: "nat \<Rightarrow> 'f async_cb option"
  cq_fresh :: nat
  cq_head :: "nat option"
  cq_tail :: "nat option"

definition cbqueue_empty :: "'f cbqueue" where
  "cbqueue_empty = \<lparr>cq_store = (\<lambda>_. None), cq_fresh = 0, cq_head = None, cq_tail = None\<rparr>"

definition PushOrClose :: "int \<Rightarrow> 'f option \<Rightarrow> bool \<Rightarrow> 'f cbqueue \<Rightarrow> 'f cbqueue go" where
  "PushOrClose now f close q =
     (if \<not> close \<and> f = None then None
      else do {
        let a = cq_fresh q;
        let st = (cq_store q)(a \<mapsto> \<lparr>acb_fn = f, acb_tm = now, acb_next = None\<rparr>);
        q1 \<leftarrow> (case cq_tail q of
                 Some t \<Rightarrow> do {
                   c \<leftarrow> st t;
                   Some (q\<lparr>cq_store := st(t \<mapsto> c\<lparr>acb_next := Some a\<rparr>)\<rparr>)
                 }
               | None \<Rightarrow> Some (q\<lparr>cq_store := st, cq_head := Some a\<rparr>));
        Some (q1\<lparr>cq_tail := Some a, cq_fresh := Suc a\<rparr>)
      })"

definition Push :: "int \<Rightarrow> 'f option \<Rightarrow> 'f cbqueue \<Rightarrow> 'f cbqueue go" where
  "Push now f q = PushOrClose now f False q"

definition CBQueue_Close :: "int \<Rightarrow> 'f cbqueue \<Rightarrow> 'f cbqueue go" where
  "CBQueue_Close now q = PushOrClose now None True q"

text \<open>One turn of \<open>Dispatch\<close>: it sleeps while the queue is empty; otherwise it unlinks the first
  cell, and either stops (a nil callback) or calls the callback with the cell's age.\<close>

datatype 'f dispatched = DReturn | DCall 'f int

definition Dispatch_turn :: "int \<Rightarrow> 'f cbqueue \<Rightarrow> ('f dispatched \<times> 'f cbqueue) go wait" where
  "Dispatch_turn now q =
     (case cq_head q of
        None \<Rightarrow> Blocks
      | Some p \<Rightarrow> Returns (do {
          curr \<leftarrow> cq_store q p;
          let q1 = q\<lparr>cq_head := acb_next curr, cq_tail := (if cq_tail q = Some p then None else cq_tail q)\<rparr>;
          Some (case acb_fn curr of
                  None \<Rightarrow> (DReturn, q1)
                | Some f \<Rightarrow> (DCall f (now - acb_tm curr), q1))
        }))"

text \<open>The loop of \<open>Dispatch\<close> up to its first sleep, with the calls it made in order; all calls see
  the same clock.\<close>

fun Dispatch :: "int \<Rightarrow> nat \<Rightarrow> 'f cbqueue \<Rightarrow> (run_stop option \<times> ('f \<times> int) list \<times> 'f cbqueue) go" where
  "Dispatch now 0 q = Some (None, [], q)"
| "Dispatch now (Suc fuel) q =
     (case Dispatch_turn now q of
        Blocks \<Rightarrow> Some (Some Sleeping, [], q)
      | Returns r \<Rightarrow> do {
          (d, q1) \<leftarrow> r;
          (case d of
             DReturn \<Rightarrow> Some (Some Stopped, [], q1)
           | DCall f age \<Rightarrow> do {
               (stop, calls, q2) \<leftarrow> Dispatch now fuel q1;
               Some (stop, (f, age) # calls, q2)
             })
        })"

section \<open>The linked list as a list\<close>

text \<open>\<open>lseg st h t xs\<close>: following \<open>next\<close> from \<open>h\<close> visits cells with contents \<open>xs\<close> and ends in
  nil; \<open>ps\<close> are their addresses and the last one is \<open>t\<close>.\<close>

fun cells :: "(nat \<Rightarrow> 'f async_cb option) \<Rightarrow> nat option \<Rightarrow> nat list \<Rightarrow> ('f option \<times> int) list \<Rightarrow> bool" where
  "cells st h [] [] \<longleftrightarrow> h = None"
| "cells st h (p # ps) (x # xs) \<longleftrightarrow> h = Some p
     \<and> (\<exists>c. st p = Some c \<and> (acb_fn c, acb_tm c) = x \<and> cells st (acb_next c) ps xs)"
| "cells st h _ _ \<longleftrightarrow> False"

definition cbq_rep :: "'f cbqueue \<Rightarrow> ('f option \<times> int) list \<Rightarrow> bool" where
  "cbq_rep q xs \<longleftrightarrow> (\<exists>ps. cells (cq_store q) (cq_head q) ps xs \<and> distinct ps \<and> (\<forall>p\<in>set ps. p < cq_fresh q)
     \<and> cq_tail q = (if ps = [] then None else Some (last ps)))"

lemma cells_length: "cells st h ps xs \<Longrightarrow> length ps = length xs"
  by (induction st h ps xs rule: cells.induct) auto

lemma cells_nil: "cells st h ps [] \<longleftrightarrow> ps = [] \<and> h = None"
  by (cases ps) auto

lemma cells_upd_other: "p \<notin> set ps \<Longrightarrow> cells (st(p := c)) h ps xs = cells st h ps xs"
  by (induction st h ps xs rule: cells.induct) auto

text \<open>Linking a new last cell.\<close>

lemma cells_snoc:
  assumes "cells st h ps xs" "ps \<noteq> []" "distinct ps" "a \<notin> set ps"
    and "st (last ps) = Some c"
  shows "cells (st(a \<mapsto> \<lparr>acb_fn = fst x, acb_tm = snd x, acb_next = None\<rparr>, last ps \<mapsto> c\<lparr>acb_next := Some a\<rparr>)) h (ps @ [a]) (xs @ [x])"
proof -
  define st' where "st' = st(a \<mapsto> \<lparr>acb_fn = fst x, acb_tm = snd x, acb_next = None\<rparr>, last ps \<mapsto> c\<lparr>acb_next := Some a\<rparr>)"
  have "a \<noteq> last ps" using assms(4) last_in_set[OF assms(2)] by auto
  then have st': "st' a = Some \<lparr>acb_fn = fst x, acb_tm = snd x, acb_next = None\<rparr>"
    "st' (last ps) = Some (c\<lparr>acb_next := Some a\<rparr>)" "\<And>p. p \<noteq> a \<Longrightarrow> p \<noteq> last ps \<Longrightarrow> st' p = st p"
    by (simp_all add: st'_def)
  have "cells st' h' (ks @ [a]) (ys @ [x])"
    if "cells st h' ks ys" "ks \<noteq> []" "last ks = last ps" "distinct ks" "a \<notin> set ks" for h' ks ys
    using that
  proof (induction ks arbitrary: h' ys)
    case (Cons p ks)
    obtain d y ys' where d: "ys = y # ys'" "h' = Some p" "st p = Some d" "(acb_fn d, acb_tm d) = y" "cells st (acb_next d) ks ys'"
      using Cons.prems(1) by (cases ys) auto
    show ?case
    proof (cases "ks = []")
      case True
      then have "ys' = []" "d = c" "p = last ps" using cells_length[OF d(5)] Cons.prems(3) d(3) assms(5) by auto
      then show ?thesis using True d st' by auto
    next
      case False
      then have ne: "last ps \<noteq> p" "a \<noteq> p" using Cons.prems last_in_set[OF False] by auto
      have "cells st' (acb_next d) (ks @ [a]) (ys' @ [x])"
        by (rule Cons.IH[OF d(5) False]) (use Cons.prems False in auto)
      then show ?thesis using ne d st'(3)[of p] by simp
    qed
  qed simp
  from this[OF assms(1,2) refl assms(3,4)] show ?thesis by (simp only: st'_def)
qed

lemma cbq_rep_empty [simp]: "cbq_rep cbqueue_empty []"
  by (auto simp: cbq_rep_def cbqueue_empty_def intro: exI[of _ "[]"])

lemma last_cell:
  "cells st h ps xs \<Longrightarrow> ps \<noteq> [] \<Longrightarrow> \<exists>c. st (last ps) = Some c"
  by (induction st h ps xs rule: cells.induct) auto

lemma PushOrClose_rep:
  assumes "cbq_rep q xs" "close \<or> f \<noteq> None"
  shows "\<exists>q'. PushOrClose now f close q = Some q' \<and> cbq_rep q' (xs @ [(f, now)])"
proof -
  obtain ps where ps: "cells (cq_store q) (cq_head q) ps xs" "distinct ps" "\<forall>p\<in>set ps. p < cq_fresh q"
    "cq_tail q = (if ps = [] then None else Some (last ps))"
    using assms(1) by (auto simp: cbq_rep_def)
  let ?a = "cq_fresh q"
  have a: "?a \<notin> set ps" using ps(3) by auto
  show ?thesis
  proof (cases "ps = []")
    case True
    then have "xs = []" using cells_length[OF ps(1)] by simp
    moreover let ?q' = "q\<lparr>cq_store := (cq_store q)(?a \<mapsto> \<lparr>acb_fn = f, acb_tm = now, acb_next = None\<rparr>),
        cq_head := Some ?a, cq_tail := Some ?a, cq_fresh := Suc ?a\<rparr>"
    have "PushOrClose now f close q = Some ?q'"
      using True ps(4) assms(2) by (auto simp: PushOrClose_def Let_def)
    ultimately show ?thesis
      unfolding cbq_rep_def by (intro exI[of _ ?q'] conjI exI[of _ "[?a]"]) simp_all
  next
    case False
    obtain c where c: "cq_store q (last ps) = Some c" using last_cell[OF ps(1) False] by auto
    have ne: "last ps \<noteq> ?a" using a last_in_set[OF False] by auto
    let ?q' = "q\<lparr>cq_store := (cq_store q)(?a \<mapsto> \<lparr>acb_fn = f, acb_tm = now, acb_next = None\<rparr>,
        last ps \<mapsto> c\<lparr>acb_next := Some ?a\<rparr>), cq_tail := Some ?a, cq_fresh := Suc ?a\<rparr>"
    have "PushOrClose now f close q = Some ?q'"
      using assms(2) False ps(4) c ne by (auto simp: PushOrClose_def Let_def)
    moreover have "cells (cq_store ?q') (cq_head ?q') (ps @ [?a]) (xs @ [(f, now)])"
      using cells_snoc[OF ps(1) False ps(2) a c, of "(f, now)"] by simp
    moreover have "\<forall>p\<in>set (ps @ [?a]). p < Suc ?a" using ps(3) by auto
    ultimately show ?thesis
      using a ps(2) unfolding cbq_rep_def by (intro exI[of _ ?q'] conjI exI[of _ "ps @ [?a]"]) simp_all
  qed
qed

lemma Dispatch_turn_rep:
  assumes "cbq_rep q ((f, tm) # xs)"
  shows "\<exists>q'. Dispatch_turn now q =
       Returns (Some (case f of None \<Rightarrow> DReturn | Some g \<Rightarrow> DCall g (now - tm), q')) \<and> cbq_rep q' xs"
proof -
  obtain rs where rs: "cells (cq_store q) (cq_head q) rs ((f, tm) # xs)" "distinct rs"
    "\<forall>r\<in>set rs. r < cq_fresh q" "cq_tail q = (if rs = [] then None else Some (last rs))"
    using assms by (auto simp: cbq_rep_def)
  then obtain p ps where "rs = p # ps" using cells_length[OF rs(1)] by (cases rs) auto
  then have ps: "cells (cq_store q) (cq_head q) (p # ps) ((f, tm) # xs)" "distinct (p # ps)"
    "\<forall>r\<in>set (p # ps). r < cq_fresh q" "cq_tail q = Some (last (p # ps))"
    using rs by simp_all
  then obtain c where c: "cq_head q = Some p" "cq_store q p = Some c" "acb_fn c = f" "acb_tm c = tm"
    "cells (cq_store q) (acb_next c) ps xs" by auto
  let ?q' = "q\<lparr>cq_head := acb_next c, cq_tail := (if cq_tail q = Some p then None else cq_tail q)\<rparr>"
  have "cq_tail q = Some p \<longleftrightarrow> ps = []" using ps(2,4) by auto
  then have "cbq_rep ?q' xs"
    using c(5) ps(2-4) unfolding cbq_rep_def by (intro exI[of _ ps]) auto
  moreover have "Dispatch_turn now q =
       Returns (Some (case f of None \<Rightarrow> DReturn | Some g \<Rightarrow> DCall g (now - tm), ?q'))"
    using c(1-4) by (simp add: Dispatch_turn_def Let_def split: option.split)
  ultimately show ?thesis by blast
qed

lemma Dispatch_turn_empty: "cbq_rep q [] \<Longrightarrow> Dispatch_turn now q = Blocks"
  by (auto simp: cbq_rep_def Dispatch_turn_def cells_nil)

section \<open>Order of callbacks\<close>

fun push_all :: "('f \<times> int) list \<Rightarrow> 'f cbqueue \<Rightarrow> 'f cbqueue go" where
  "push_all [] q = Some q"
| "push_all ((f, tm) # fs) q = do { q1 \<leftarrow> Push tm (Some f) q; push_all fs q1 }"

lemma push_all_rep:
  "cbq_rep q xs \<Longrightarrow> \<exists>q'. push_all fs q = Some q' \<and> cbq_rep q' (xs @ map (\<lambda>(f, tm). (Some f, tm)) fs)"
proof (induction fs arbitrary: q xs)
  case (Cons ft fs)
  obtain f tm where ft: "ft = (f, tm)" by fastforce
  obtain q1 where q1: "Push tm (Some f) q = Some q1" "cbq_rep q1 (xs @ [(Some f, tm)])"
    using PushOrClose_rep[OF Cons.prems, of False "Some f" tm] by (auto simp: Push_def)
  then show ?case using Cons.IH[OF q1(2)] ft by auto
qed simp

lemma Dispatch_rep:
  "cbq_rep q (map (\<lambda>(f, tm). (Some f, tm)) fs @ (None, tc) # rest) \<Longrightarrow> length fs < fuel \<Longrightarrow>
     \<exists>q'. Dispatch now fuel q = Some (Some Stopped, map (\<lambda>(f, tm). (f, now - tm)) fs, q') \<and> cbq_rep q' rest"
proof (induction fuel arbitrary: q fs)
  case (Suc fuel)
  show ?case
  proof (cases fs)
    case Nil
    then show ?thesis using Dispatch_turn_rep[of q None tc rest now] Suc.prems(1) by auto
  next
    case (Cons ft gs)
    obtain f tm where ft: "ft = (f, tm)" by fastforce
    obtain q1 where q1: "Dispatch_turn now q = Returns (Some (DCall f (now - tm), q1))"
      "cbq_rep q1 (map (\<lambda>(f, tm). (Some f, tm)) gs @ (None, tc) # rest)"
      using Dispatch_turn_rep[of q "Some f" tm _ now] Suc.prems(1) Cons ft by auto
    then show ?thesis using Suc.IH[OF q1(2)] Suc.prems(2) Cons ft by auto
  qed
qed simp

text \<open>C7.  Callbacks run once each, in the order they were pushed and with their age, and the
  dispatcher returns at the close marker: callbacks pushed after \<open>Close\<close> are kept but not run.
  Nothing panics as long as the pushed callbacks are not nil.\<close>

theorem CBQueue_runs_in_order:
  assumes "length fs < fuel"
  shows "\<exists>q1 q2 q3 q4. push_all fs cbqueue_empty = Some q1 \<and> CBQueue_Close tc q1 = Some q2 \<and> push_all gs q2 = Some q3
     \<and> Dispatch now fuel q3 = Some (Some Stopped, map (\<lambda>(f, tm). (f, now - tm)) fs, q4)
     \<and> cbq_rep q4 (map (\<lambda>(f, tm). (Some f, tm)) gs)"
proof -
  obtain q1 where q1: "push_all fs cbqueue_empty = Some q1" "cbq_rep q1 (map (\<lambda>(f, tm). (Some f, tm)) fs)"
    using push_all_rep[OF cbq_rep_empty, of fs] by auto
  obtain q2 where q2: "CBQueue_Close tc q1 = Some q2" "cbq_rep q2 (map (\<lambda>(f, tm). (Some f, tm)) fs @ [(None, tc)])"
    using PushOrClose_rep[OF q1(2), of True None tc] by (auto simp: CBQueue_Close_def)
  obtain q3 where q3: "push_all gs q2 = Some q3"
    "cbq_rep q3 (map (\<lambda>(f, tm). (Some f, tm)) fs @ (None, tc) # map (\<lambda>(f, tm). (Some f, tm)) gs)"
    using push_all_rep[OF q2(2), of gs] by auto
  show ?thesis using q1(1) q2(1) q3(1) Dispatch_rep[OF q3(2) assms, of now] by auto
qed

theorem CBQueue_runs_in_order_witness:
  "\<exists>q1 q2 q3 q4. push_all [(''a'', 1), (''b'', 2)] cbqueue_empty = Some q1 \<and> CBQueue_Close 3 q1 = Some q2
     \<and> push_all [(''c'', 4)] q2 = Some q3
     \<and> Dispatch 10 3 q3 = Some (Some Stopped, map (\<lambda>(f, tm). (f, 10 - tm)) [(''a'', 1), (''b'', 2)], q4)
     \<and> cbq_rep q4 (map (\<lambda>(f, tm). (Some f, tm)) [(''c'', 4)])"
  by (rule CBQueue_runs_in_order) simp

end
