(* ===== verification/Pub_Sub_Sync.thy ===== *)
theory Pub_Sub_Sync
  imports Kairos_Prelude "HOL-Library.Multiset"
begin

text \<open>
  The publication buffer of \<open>server/deliverer/internal/recovery/sync.go\<close>, as a transition system of
  any number of publishing and subscribing goroutines that interleave at the points where the code
  takes or releases a lock or reads \<open>inSubscribe\<close>.

  One transition is one critical section of \<open>subSyncMu\<close>, one atomic load, or one acquisition or
  release of a \<open>pubBufferMu\<close>.  \<open>subSync\<close> maps a channel to the index of its \<open>subscribeState\<close> in a list
  of all states ever made, which is the heap.  \<open>pubs\<close> holds where each publishing goroutine stands in
  \<open>SyncPublication\<close>, \<open>readers\<close> the goroutines that wait for \<open>pubBufferMu\<close> in
  \<open>LockBufferAndReadBuffered\<close>.  \<open>delivered\<close> collects the calls of \<open>syncedFn\<close>, \<open>readOut\<close> what
  \<open>LockBufferAndReadBuffered\<close> returned, and \<open>finished\<close> the publications whose \<open>SyncPublication\<close> call
  has returned.  Unlocking a mutex that is not locked is a fatal error of the Go runtime, \<open>crashed\<close>.
\<close>

record 'p subscribeState =
  ss_inSubscribe :: bool
  ss_pubBufferMu :: bool
  ss_pubBufferLocked :: bool
  ss_pubBuffer :: "'p list"

datatype phase = PubStart | PubFound nat | PubLocking nat | PubLocked nat | PubAppending nat | PubLeaving nat | PubDelivering

record 'p pubSubSync =
  ps_subSync :: "string \<rightharpoonup> nat"
  ps_states :: "'p subscribeState list"
  ps_pubs :: "nat \<rightharpoonup> string \<times> 'p \<times> phase"
  ps_readers :: "nat \<rightharpoonup> string \<times> nat"
  ps_delivered :: "'p list"
  ps_readOut :: "'p list"
  ps_finished :: "'p list"
  ps_crashed :: bool

definition NewPubSubSync :: "'p pubSubSync" where
  "NewPubSubSync = \<lparr>ps_subSync = Map.empty, ps_states = [], ps_pubs = Map.empty, ps_readers = Map.empty,
     ps_delivered = [], ps_readOut = [], ps_finished = [], ps_crashed = False\<rparr>"

definition newSubscribeState :: "'p subscribeState" where
  "newSubscribeState = \<lparr>ss_inSubscribe = True, ss_pubBufferMu = False, ss_pubBufferLocked = False, ss_pubBuffer = []\<rparr>"

definition set_state :: "nat \<Rightarrow> 'p subscribeState \<Rightarrow> 'p pubSubSync \<Rightarrow> 'p pubSubSync" where
  "set_state s st c = c\<lparr>ps_states := (ps_states c)[s := st]\<rparr>"

definition at_phase :: "nat \<Rightarrow> string \<Rightarrow> 'p \<Rightarrow> phase \<Rightarrow> 'p pubSubSync \<Rightarrow> 'p pubSubSync" where
  "at_phase g channel pub ph c = c\<lparr>ps_pubs := (ps_pubs c)(g \<mapsto> (channel, pub, ph))\<rparr>"

text \<open>\<open>s.pubBufferMu.Unlock()\<close>\<close>

definition unlock_buffer :: "nat \<Rightarrow> 'p pubSubSync \<Rightarrow> 'p pubSubSync" where
  "unlock_buffer s c =
     (if ss_pubBufferMu (ps_states c ! s) then set_state s ((ps_states c ! s)\<lparr>ss_pubBufferMu := False\<rparr>) c
      else c\<lparr>ps_crashed := True\<rparr>)"

text \<open>The call of goroutine \<open>g\<close> returns.\<close>

definition return_pub :: "nat \<Rightarrow> 'p \<Rightarrow> 'p pubSubSync \<Rightarrow> 'p pubSubSync" where
  "return_pub g pub c = c\<lparr>ps_pubs := (ps_pubs c)(g := None), ps_finished := ps_finished c @ [pub]\<rparr>"

section \<open>The steps\<close>

datatype label = Publisher | Start string | Mark string | Read string | Stop string

inductive pss_step :: "label \<Rightarrow> 'p pubSubSync \<Rightarrow> 'p pubSubSync \<Rightarrow> bool" where
  call: "ps_pubs c g = None \<Longrightarrow> pss_step Publisher c (at_phase g channel pub PubStart c)"
| lookup_none: "ps_pubs c g = Some (channel, pub, PubStart) \<Longrightarrow> ps_subSync c channel = None
     \<Longrightarrow> pss_step Publisher c (at_phase g channel pub PubDelivering c)"
| lookup_some: "ps_pubs c g = Some (channel, pub, PubStart) \<Longrightarrow> ps_subSync c channel = Some s
     \<Longrightarrow> pss_step Publisher c (at_phase g channel pub (PubFound s) c)"
| load: "ps_pubs c g = Some (channel, pub, PubFound s)
     \<Longrightarrow> pss_step Publisher c (at_phase g channel pub
           (if ss_inSubscribe (ps_states c ! s) then PubLocking s else PubDelivering) c)"
| lock: "ps_pubs c g = Some (channel, pub, PubLocking s) \<Longrightarrow> \<not> ss_pubBufferMu (ps_states c ! s)
     \<Longrightarrow> pss_step Publisher c (at_phase g channel pub (PubLocked s) (set_state s ((ps_states c ! s)\<lparr>ss_pubBufferMu := True\<rparr>) c))"
| recheck: "ps_pubs c g = Some (channel, pub, PubLocked s)
     \<Longrightarrow> pss_step Publisher c (at_phase g channel pub
           (if ss_inSubscribe (ps_states c ! s) then PubAppending s else PubLeaving s) c)"
| append: "ps_pubs c g = Some (channel, pub, PubAppending s)
     \<Longrightarrow> pss_step Publisher c (return_pub g pub (unlock_buffer s
           (set_state s ((ps_states c ! s)\<lparr>ss_pubBuffer := ss_pubBuffer (ps_states c ! s) @ [pub]\<rparr>) c)))"
| leave: "ps_pubs c g = Some (channel, pub, PubLeaving s)
     \<Longrightarrow> pss_step Publisher c (at_phase g channel pub PubDelivering (unlock_buffer s c))"
| deliver: "ps_pubs c g = Some (channel, pub, PubDelivering)
     \<Longrightarrow> pss_step Publisher c (return_pub g pub (c\<lparr>ps_delivered := ps_delivered c @ [pub]\<rparr>))"
| start_buffering: "pss_step (Start channel) c (c\<lparr>ps_subSync := (ps_subSync c)(channel \<mapsto> length (ps_states c)),
                       ps_states := ps_states c @ [newSubscribeState]\<rparr>)"
| mark_none: "ps_subSync c channel = None \<Longrightarrow> pss_step (Mark channel) c c"
| mark: "ps_subSync c channel = Some s \<Longrightarrow> ps_readers c r = None
     \<Longrightarrow> pss_step (Mark channel) c ((set_state s ((ps_states c ! s)\<lparr>ss_pubBufferLocked := True\<rparr>) c)
           \<lparr>ps_readers := (ps_readers c)(r \<mapsto> (channel, s))\<rparr>)"
| read: "ps_readers c r = Some (channel, s) \<Longrightarrow> \<not> ss_pubBufferMu (ps_states c ! s)
     \<Longrightarrow> pss_step (Read channel) c ((set_state s ((ps_states c ! s)\<lparr>ss_pubBufferMu := True, ss_pubBuffer := []\<rparr>) c)
           \<lparr>ps_readers := (ps_readers c)(r := None), ps_readOut := ps_readOut c @ ss_pubBuffer (ps_states c ! s)\<rparr>)"
| stop_none: "ps_subSync c channel = None \<Longrightarrow> pss_step (Stop channel) c c"
| stop: "ps_subSync c channel = Some s
     \<Longrightarrow> pss_step (Stop channel) c ((if ss_pubBufferLocked (ps_states c ! s) then unlock_buffer s else id)
           ((set_state s ((ps_states c ! s)\<lparr>ss_inSubscribe := False\<rparr>) c)\<lparr>ps_subSync := (ps_subSync c)(channel := None)\<rparr>))"

inductive_cases pss_stepE: "pss_step l c c'"

text \<open>The order in which a subscriber uses a channel: it starts buffering, locks and reads the buffer
  (two steps, the first marks the state and the second gets the lock) and stops, or gives up and stops
  without reading; stopping a channel that is not buffering is allowed at any time.  Publishers are not
  restricted, and the subscribers of different channels run independently.  \<open>ab\<close> collects the states
  whose subscriber gave up.\<close>

datatype sub_phase = SubIdle | SubBuffering | SubMarked | SubRead

inductive pss_run :: "'p pubSubSync \<Rightarrow> (string \<Rightarrow> sub_phase) \<Rightarrow> nat set \<Rightarrow> bool" where
  init: "pss_run NewPubSubSync (\<lambda>_. SubIdle) {}"
| publisher: "pss_run c sp ab \<Longrightarrow> pss_step Publisher c c' \<Longrightarrow> pss_run c' sp ab"
| start: "pss_run c sp ab \<Longrightarrow> sp ch = SubIdle \<Longrightarrow> pss_step (Start ch) c c' \<Longrightarrow> pss_run c' (sp(ch := SubBuffering)) ab"
| marked: "pss_run c sp ab \<Longrightarrow> sp ch = SubBuffering \<Longrightarrow> pss_step (Mark ch) c c' \<Longrightarrow> pss_run c' (sp(ch := SubMarked)) ab"
| got: "pss_run c sp ab \<Longrightarrow> sp ch = SubMarked \<Longrightarrow> pss_step (Read ch) c c' \<Longrightarrow> pss_run c' (sp(ch := SubRead)) ab"
| stopped: "pss_run c sp ab \<Longrightarrow> sp ch \<in> {SubRead, SubIdle} \<Longrightarrow> pss_step (Stop ch) c c' \<Longrightarrow> pss_run c' (sp(ch := SubIdle)) ab"
| gave_up: "pss_run c sp ab \<Longrightarrow> sp ch = SubBuffering \<Longrightarrow> ps_subSync c ch = Some s \<Longrightarrow> pss_step (Stop ch) c c' \<Longrightarrow>
    pss_run c' (sp(ch := SubIdle)) (insert s ab)"

section \<open>No publication is lost or doubled\<close>

definition buffered :: "'p subscribeState list \<Rightarrow> 'p multiset" where
  "buffered sts = (\<Sum>s\<leftarrow>sts. mset (ss_pubBuffer s))"

lemma buffered_update:
  assumes "s < length sts"
  shows "buffered (sts[s := st]) + mset (ss_pubBuffer (sts ! s)) = buffered sts + mset (ss_pubBuffer st)"
  using assms
proof (induction sts arbitrary: s)
  case (Cons x sts)
  then show ?case by (cases s) (auto simp: buffered_def)
qed simp

lemma buffered_update_same:
  "s < length sts \<Longrightarrow> ss_pubBuffer st = ss_pubBuffer (sts ! s) \<Longrightarrow> buffered (sts[s := st]) = buffered sts"
  using buffered_update[of s sts st] by simp

lemma buffered_snoc [simp]: "buffered (sts @ [st]) = buffered sts + mset (ss_pubBuffer st)"
  by (simp add: buffered_def)

text \<open>The state a publisher is concerned with, and the one whose mutex it holds.\<close>

fun phase_state :: "phase \<Rightarrow> nat option" where
  "phase_state PubStart = None" | "phase_state PubDelivering = None" | "phase_state (PubFound s) = Some s"
| "phase_state (PubLocking s) = Some s" | "phase_state (PubLocked s) = Some s" | "phase_state (PubAppending s) = Some s"
| "phase_state (PubLeaving s) = Some s"

fun holds_mu :: "phase \<Rightarrow> nat option" where
  "holds_mu (PubLocked s) = Some s" | "holds_mu (PubAppending s) = Some s" | "holds_mu (PubLeaving s) = Some s"
| "holds_mu _ = None"

definition holder :: "'p pubSubSync \<Rightarrow> nat \<Rightarrow> nat \<Rightarrow> bool" where
  "holder c g s \<longleftrightarrow> (\<exists>ch pub ph. ps_pubs c g = Some (ch, pub, ph) \<and> holds_mu ph = Some s)"

definition appending :: "'p pubSubSync \<Rightarrow> nat \<Rightarrow> bool" where
  "appending c s \<longleftrightarrow> (\<exists>g ch pub. ps_pubs c g = Some (ch, pub, PubAppending s))"

text \<open>A state that collects publications: the one of a channel whose subscriber has not read yet.\<close>

definition collecting :: "'p pubSubSync \<Rightarrow> (string \<Rightarrow> sub_phase) \<Rightarrow> nat \<Rightarrow> bool" where
  "collecting c sp s \<longleftrightarrow> (\<exists>ch. ps_subSync c ch = Some s \<and> sp ch \<in> {SubBuffering, SubMarked})"

definition was_read :: "'p pubSubSync \<Rightarrow> (string \<Rightarrow> sub_phase) \<Rightarrow> nat \<Rightarrow> bool" where
  "was_read c sp s \<longleftrightarrow> (\<exists>ch. ps_subSync c ch = Some s \<and> sp ch = SubRead)"

definition inv_count :: "'p pubSubSync \<Rightarrow> bool" where
  "inv_count c \<longleftrightarrow> mset (ps_finished c) = mset (ps_delivered c) + mset (ps_readOut c) + buffered (ps_states c)"

definition inv_heap :: "'p pubSubSync \<Rightarrow> (string \<Rightarrow> sub_phase) \<Rightarrow> bool" where
  "inv_heap c sp \<longleftrightarrow>
     (\<forall>ch s. ps_subSync c ch = Some s \<longrightarrow> s < length (ps_states c))
     \<and> (\<forall>ch ch' s. ps_subSync c ch = Some s \<longrightarrow> ps_subSync c ch' = Some s \<longrightarrow> ch = ch')
     \<and> (\<forall>g ch pub ph s. ps_pubs c g = Some (ch, pub, ph) \<longrightarrow> phase_state ph = Some s \<longrightarrow> s < length (ps_states c))
     \<and> (\<forall>ch. sp ch = SubIdle \<longleftrightarrow> ps_subSync c ch = None)"

definition inv_flags :: "'p pubSubSync \<Rightarrow> (string \<Rightarrow> sub_phase) \<Rightarrow> bool" where
  "inv_flags c sp \<longleftrightarrow>
     (\<forall>s<length (ps_states c). ss_inSubscribe (ps_states c ! s) \<longleftrightarrow> (\<exists>ch. ps_subSync c ch = Some s))
     \<and> (\<forall>ch s. ps_subSync c ch = Some s \<longrightarrow> (ss_pubBufferLocked (ps_states c ! s) \<longleftrightarrow> sp ch \<in> {SubMarked, SubRead}))
     \<and> (\<forall>r ch s. ps_readers c r = Some (ch, s) \<longrightarrow> ps_subSync c ch = Some s \<and> sp ch = SubMarked)
     \<and> (\<forall>r r' ch s s'. ps_readers c r = Some (ch, s) \<longrightarrow> ps_readers c r' = Some (ch, s') \<longrightarrow> r = r')"

definition inv_mu :: "'p pubSubSync \<Rightarrow> (string \<Rightarrow> sub_phase) \<Rightarrow> bool" where
  "inv_mu c sp \<longleftrightarrow>
     (\<forall>s<length (ps_states c). ss_pubBufferMu (ps_states c ! s) \<longleftrightarrow> (\<exists>g. holder c g s) \<or> was_read c sp s)
     \<and> (\<forall>s g g'. holder c g s \<longrightarrow> holder c g' s \<longrightarrow> g = g')
     \<and> (\<forall>s g. holder c g s \<longrightarrow> \<not> was_read c sp s)"

definition inv_buf :: "'p pubSubSync \<Rightarrow> (string \<Rightarrow> sub_phase) \<Rightarrow> nat set \<Rightarrow> bool" where
  "inv_buf c sp ab \<longleftrightarrow>
     (\<forall>s. appending c s \<longrightarrow> s \<in> ab \<or> collecting c sp s)
     \<and> (\<forall>s<length (ps_states c). ss_pubBuffer (ps_states c ! s) \<noteq> [] \<longrightarrow> s \<in> ab \<or> collecting c sp s)"

definition pss_inv :: "'p pubSubSync \<Rightarrow> (string \<Rightarrow> sub_phase) \<Rightarrow> nat set \<Rightarrow> bool" where
  "pss_inv c sp ab \<longleftrightarrow> inv_count c \<and> inv_heap c sp \<and> inv_flags c sp \<and> inv_mu c sp \<and> inv_buf c sp ab \<and> \<not> ps_crashed c"

lemmas pss_inv_defs = pss_inv_def inv_count_def inv_heap_def inv_flags_def inv_mu_def inv_buf_def

lemma at_phase_simps [simp]:
  "ps_subSync (at_phase g ch pub ph c) = ps_subSync c" "ps_states (at_phase g ch pub ph c) = ps_states c"
  "ps_pubs (at_phase g ch pub ph c) = (ps_pubs c)(g \<mapsto> (ch, pub, ph))" "ps_readers (at_phase g ch pub ph c) = ps_readers c"
  "ps_delivered (at_phase g ch pub ph c) = ps_delivered c" "ps_readOut (at_phase g ch pub ph c) = ps_readOut c"
  "ps_finished (at_phase g ch pub ph c) = ps_finished c" "ps_crashed (at_phase g ch pub ph c) = ps_crashed c"
  by (simp_all add: at_phase_def)

lemma set_state_simps [simp]:
  "ps_subSync (set_state s st c) = ps_subSync c" "ps_states (set_state s st c) = (ps_states c)[s := st]"
  "ps_pubs (set_state s st c) = ps_pubs c" "ps_readers (set_state s st c) = ps_readers c"
  "ps_delivered (set_state s st c) = ps_delivered c" "ps_readOut (set_state s st c) = ps_readOut c"
  "ps_finished (set_state s st c) = ps_finished c" "ps_crashed (set_state s st c) = ps_crashed c"
  by (simp_all add: set_state_def)

lemma return_pub_simps [simp]:
  "ps_subSync (return_pub g pub c) = ps_subSync c" "ps_states (return_pub g pub c) = ps_states c"
  "ps_pubs (return_pub g pub c) = (ps_pubs c)(g := None)" "ps_readers (return_pub g pub c) = ps_readers c"
  "ps_delivered (return_pub g pub c) = ps_delivered c" "ps_readOut (return_pub g pub c) = ps_readOut c"
  "ps_finished (return_pub g pub c) = ps_finished c @ [pub]" "ps_crashed (return_pub g pub c) = ps_crashed c"
  by (simp_all add: return_pub_def)

text \<open>A publisher moves to another phase.\<close>

lemma holder_at_phase:
  "holder (at_phase g ch pub ph c) g' s \<longleftrightarrow> (if g' = g then holds_mu ph = Some s else holder c g' s)"
  by (auto simp: holder_def)

lemma holder_set_state [simp]: "holder (set_state s st c) = holder c"
  by (intro ext) (simp add: holder_def)

lemma appending_set_state [simp]: "appending (set_state s st c) = appending c"
  by (intro ext) (simp add: appending_def)

lemma live_set_state [simp]: "collecting (set_state s st c) = collecting c" "was_read (set_state s st c) = was_read c"
  by (intro ext; simp add: collecting_def was_read_def)+

lemma live_at_phase [simp]: "collecting (at_phase g ch pub ph c) = collecting c" "was_read (at_phase g ch pub ph c) = was_read c"
  by (intro ext; simp add: collecting_def was_read_def)+

lemma live_return [simp]: "collecting (return_pub g pub c) = collecting c" "was_read (return_pub g pub c) = was_read c"
  by (intro ext; simp add: collecting_def was_read_def)+

lemma appending_at_phase:
  "appending (at_phase g ch pub ph c) s \<Longrightarrow> ph = PubAppending s \<or> appending c s"
  by (auto simp: appending_def split: if_splits)

lemma move_inv:
  assumes "pss_inv c sp ab" "holds_mu ph = (case ps_pubs c g of None \<Rightarrow> None | Some (_, _, ph0) \<Rightarrow> holds_mu ph0)"
    and "\<And>s. phase_state ph = Some s \<Longrightarrow> s < length (ps_states c)"
    and "\<And>s. ph = PubAppending s \<Longrightarrow> s \<in> ab \<or> collecting c sp s"
  shows "pss_inv (at_phase g ch pub ph c) sp ab"
proof -
  have same: "holder (at_phase g ch pub ph c) = holder c"
    using assms(2) by (intro ext) (auto simp: holder_at_phase holder_def split: option.splits)
  have "inv_heap (at_phase g ch pub ph c) sp" using assms(1,3) by (fastforce simp: pss_inv_def inv_heap_def)
  moreover have "inv_buf (at_phase g ch pub ph c) sp ab"
    using assms(1,4) appending_at_phase[of g ch pub ph c] by (auto simp: pss_inv_def inv_buf_def)
  ultimately show ?thesis using assms(1) by (simp add: pss_inv_def inv_count_def inv_flags_def inv_mu_def same)
qed

lemma pub_state_lt:
  "pss_inv c sp ab \<Longrightarrow> ps_pubs c g = Some (ch, pub, ph) \<Longrightarrow> phase_state ph = Some s \<Longrightarrow> s < length (ps_states c)"
  by (auto simp: pss_inv_def inv_heap_def)

lemma holds_phase_state: "holds_mu ph = Some s \<Longrightarrow> phase_state ph = Some s"
  by (cases ph) simp_all

lemma nth_update_same: "f st = f (xs ! s) \<Longrightarrow> f (xs[s := st] ! s') = f (xs ! s')"
  by (cases "s < length xs"; cases "s = s'") (auto simp: list_update_beyond)

lemma inv_muI:
  assumes "\<And>s. s < length (ps_states c) \<Longrightarrow> ss_pubBufferMu (ps_states c ! s) \<longleftrightarrow> (\<exists>g. holder c g s) \<or> was_read c sp s"
    and "\<And>s g g'. holder c g s \<Longrightarrow> holder c g' s \<Longrightarrow> g = g'" "\<And>s g. holder c g s \<Longrightarrow> \<not> was_read c sp s"
  shows "inv_mu c sp"
  using assms unfolding inv_mu_def by blast

lemma inv_muD:
  assumes "pss_inv c sp ab"
  shows "\<And>s. s < length (ps_states c) \<Longrightarrow> ss_pubBufferMu (ps_states c ! s) \<longleftrightarrow> (\<exists>g. holder c g s) \<or> was_read c sp s"
    and "\<And>s g g'. holder c g s \<Longrightarrow> holder c g' s \<Longrightarrow> g = g'" "\<And>s g. holder c g s \<Longrightarrow> \<not> was_read c sp s"
  using assms unfolding pss_inv_def inv_mu_def by blast+

lemma inv_flags_cong:
  assumes "inv_flags c sp" "ps_subSync c' = ps_subSync c" "ps_readers c' = ps_readers c" "ps_states c' = (ps_states c)[s := st]"
    and "ss_inSubscribe st = ss_inSubscribe (ps_states c ! s)" "ss_pubBufferLocked st = ss_pubBufferLocked (ps_states c ! s)"
  shows "inv_flags c' sp"
  using assms(1)
  by (simp add: inv_flags_def assms(2-4) nth_update_same[of ss_inSubscribe, OF assms(5)] nth_update_same[of ss_pubBufferLocked, OF assms(6)])

lemma lock_inv:
  assumes inv: "pss_inv c sp ab" and g: "ps_pubs c g = Some (ch, pub, PubLocking s)" and free: "\<not> ss_pubBufferMu (ps_states c ! s)"
  shows "pss_inv (at_phase g ch pub (PubLocked s) (set_state s ((ps_states c ! s)\<lparr>ss_pubBufferMu := True\<rparr>) c)) sp ab"
    (is "pss_inv ?c sp ab")
proof -
  have s: "s < length (ps_states c)" by (rule pub_state_lt[OF inv g]) simp
  have none: "\<not> holder c g' s" "\<not> was_read c sp s" for g' using inv free s by (auto simp: pss_inv_def inv_mu_def)
  have gno: "\<not> holder c g s'" for s' by (simp add: holder_def g)
  have "inv_heap ?c sp" using inv s by (fastforce simp: pss_inv_def inv_heap_def)
  moreover have "inv_flags ?c sp"
    by (rule inv_flags_cong[where s = s and st = "(ps_states c ! s)\<lparr>ss_pubBufferMu := True\<rparr>"]) (use inv in \<open>simp_all add: pss_inv_def\<close>)
  moreover have "inv_mu ?c sp"
  proof (rule inv_muI)
    fix s' g1 g2
    have h: "holder ?c g' s' \<longleftrightarrow> (if g' = g then s = s' else holder c g' s')" for g' by (simp add: holder_at_phase)
    show "holder ?c g1 s' \<Longrightarrow> holder ?c g2 s' \<Longrightarrow> g1 = g2" unfolding h using none(1) inv_muD(2)[OF inv] by (auto split: if_splits)
    show "holder ?c g1 s' \<Longrightarrow> \<not> was_read ?c sp s'" unfolding h using none(2) inv_muD(3)[OF inv] by (auto split: if_splits)
    assume "s' < length (ps_states ?c)"
    then show "ss_pubBufferMu (ps_states ?c ! s') \<longleftrightarrow> (\<exists>g'. holder ?c g' s') \<or> was_read ?c sp s'"
      unfolding h using inv_muD(1)[OF inv, of s'] gno[of s'] by (cases "s = s'") (auto simp: nth_list_update)
  qed
  moreover have "inv_buf ?c sp ab"
  proof -
    have "ss_pubBuffer (ps_states ?c ! s') = ss_pubBuffer (ps_states c ! s')" for s' by (simp add: nth_update_same[of ss_pubBuffer])
    moreover have "appending ?c s' \<Longrightarrow> appending c s'" for s' using appending_at_phase by fastforce
    ultimately show ?thesis using inv by (simp add: pss_inv_def inv_buf_def)
  qed
  ultimately show ?thesis using inv s by (simp add: pss_inv_def inv_count_def buffered_update_same)
qed

text \<open>The holder of a state's mutex releases it, after it put \<open>new\<close> into the buffer; the goroutine then
  either is about to deliver or returns.\<close>

lemma unlock_held:
  assumes "pss_inv c sp ab" "ps_pubs c g = Some (ch, pub, ph)" "holds_mu ph = Some s"
  shows "ss_pubBufferMu (ps_states c ! s)" "s < length (ps_states c)"
proof -
  show s: "s < length (ps_states c)" using pub_state_lt[OF assms(1,2)] holds_phase_state[OF assms(3)] .
  have "holder c g s" using assms(2,3) by (simp add: holder_def)
  then show "ss_pubBufferMu (ps_states c ! s)" using assms(1) s by (auto simp: pss_inv_def inv_mu_def)
qed

lemma release_inv:
  assumes inv: "pss_inv c sp ab" and g: "ps_pubs c g = Some (ch, pub, ph)" and h: "holds_mu ph = Some s"
    and c': "ps_states c' = (ps_states c)[s := (ps_states c ! s)\<lparr>ss_pubBufferMu := False, ss_pubBuffer := ss_pubBuffer (ps_states c ! s) @ new\<rparr>]"
      "ps_pubs c' = (ps_pubs c)(g := x)" "x = None \<or> x = Some (ch, pub, PubDelivering)"
      "ps_subSync c' = ps_subSync c" "ps_readers c' = ps_readers c" "ps_crashed c' = ps_crashed c"
    and new: "new \<noteq> [] \<Longrightarrow> s \<in> ab \<or> collecting c sp s"
    and cnt: "mset (ps_finished c') + mset (ps_delivered c) + mset (ps_readOut c)
        = mset (ps_finished c) + mset (ps_delivered c') + mset (ps_readOut c') + mset new"
  shows "pss_inv c' sp ab"
proof -
  have s: "s < length (ps_states c)" by (rule unlock_held[OF inv g h])
  have held: "holder c g s" using g h by (simp add: holder_def)
  have hold': "holder c' g' s' \<longleftrightarrow> g' \<noteq> g \<and> holder c g' s'" for g' s' using c'(2,3) by (auto simp: holder_def)
  have live: "collecting c' sp = collecting c sp" "was_read c' sp = was_read c sp"
    by (intro ext; simp add: collecting_def was_read_def c'(4))+
  have app: "appending c' s' \<Longrightarrow> appending c s'" for s' using c'(2,3) by (auto simp: appending_def split: if_splits)
  have "inv_heap c' sp" using inv c' by (fastforce simp: pss_inv_def inv_heap_def split: if_splits)
  moreover have "inv_flags c' sp" by (rule inv_flags_cong[OF _ c'(4,5,1)]) (use inv in \<open>simp_all add: pss_inv_def\<close>)
  moreover have "inv_mu c' sp"
  proof -
    note mu = inv_muD(1)[OF inv] and uniq = inv_muD(2)[OF inv] and nread = inv_muD(3)[OF inv]
    have "ss_pubBufferMu (ps_states c' ! s') \<longleftrightarrow> (\<exists>g. holder c' g s') \<or> was_read c' sp s'" if "s' < length (ps_states c')" for s'
    proof (cases "s' = s")
      case True
      have "\<not> holder c' g' s" for g' using uniq[OF held] hold' by blast
      then show ?thesis using True s nread[OF held] c'(1) live by (simp add: nth_list_update)
    next
      case False
      have "holder c g s' \<Longrightarrow> s' = s" using g h by (auto simp: holder_def)
      then have "(\<exists>g'. holder c' g' s') \<longleftrightarrow> (\<exists>g'. holder c g' s')" using hold' False by blast
      then show ?thesis using mu[of s'] that False c'(1) live by (simp add: nth_list_update)
    qed
    then show ?thesis by (intro inv_muI) (auto simp: hold' live dest: uniq nread)
  qed
  moreover have "inv_buf c' sp ab"
    unfolding inv_buf_def live using inv app new c'(1) s
    by (auto simp: pss_inv_def inv_buf_def nth_list_update split: if_splits)
  moreover have "inv_count c'"
  proof -
    have "buffered (ps_states c') = buffered (ps_states c) + mset new"
      using buffered_update[OF s, of "(ps_states c ! s)\<lparr>ss_pubBufferMu := False, ss_pubBuffer := ss_pubBuffer (ps_states c ! s) @ new\<rparr>"] c'(1)
      by simp
    then show ?thesis using inv cnt by (simp add: pss_inv_def inv_count_def)
  qed
  ultimately show ?thesis using inv c'(6) by (simp add: pss_inv_def)
qed

lemma inv_flagsD:
  assumes "pss_inv c sp ab"
  shows "\<And>s. s < length (ps_states c) \<Longrightarrow> ss_inSubscribe (ps_states c ! s) \<longleftrightarrow> (\<exists>ch. ps_subSync c ch = Some s)"
    and "\<And>ch s. ps_subSync c ch = Some s \<Longrightarrow> ss_pubBufferLocked (ps_states c ! s) \<longleftrightarrow> sp ch \<in> {SubMarked, SubRead}"
    and "\<And>r ch s. ps_readers c r = Some (ch, s) \<Longrightarrow> ps_subSync c ch = Some s \<and> sp ch = SubMarked"
    and "\<And>r r' ch s s'. ps_readers c r = Some (ch, s) \<Longrightarrow> ps_readers c r' = Some (ch, s') \<Longrightarrow> r = r'"
  using assms unfolding pss_inv_def inv_flags_def by blast+

lemma inv_flagsI:
  assumes "\<And>s. s < length (ps_states c) \<Longrightarrow> ss_inSubscribe (ps_states c ! s) \<longleftrightarrow> (\<exists>ch. ps_subSync c ch = Some s)"
    and "\<And>ch s. ps_subSync c ch = Some s \<Longrightarrow> ss_pubBufferLocked (ps_states c ! s) \<longleftrightarrow> sp ch \<in> {SubMarked, SubRead}"
    and "\<And>r ch s. ps_readers c r = Some (ch, s) \<Longrightarrow> ps_subSync c ch = Some s \<and> sp ch = SubMarked"
    and "\<And>r r' ch s s'. ps_readers c r = Some (ch, s) \<Longrightarrow> ps_readers c r' = Some (ch, s') \<Longrightarrow> r = r'"
  shows "inv_flags c sp"
  using assms unfolding inv_flags_def by blast

lemma inv_heapD:
  assumes "pss_inv c sp ab"
  shows "\<And>ch s. ps_subSync c ch = Some s \<Longrightarrow> s < length (ps_states c)"
    and "\<And>ch ch' s. ps_subSync c ch = Some s \<Longrightarrow> ps_subSync c ch' = Some s \<Longrightarrow> ch = ch'"
    and "\<And>ch. sp ch = SubIdle \<longleftrightarrow> ps_subSync c ch = None"
  using assms unfolding pss_inv_def inv_heap_def by blast+

lemma pub_step_inv:
  assumes "pss_step Publisher c c'" "pss_inv c sp ab"
  shows "pss_inv c' sp ab"
  using assms(1)
proof cases
  case (call g channel pub)
  show ?thesis unfolding call(1) by (rule move_inv[OF assms(2)]) (use call(2) in simp_all)
next
  case (lookup_none g channel pub)
  show ?thesis unfolding lookup_none(1) by (rule move_inv[OF assms(2)]) (use lookup_none(2) in simp_all)
next
  case (lookup_some g channel pub s)
  have "s < length (ps_states c)" using assms(2) lookup_some(3) by (auto simp: pss_inv_def inv_heap_def)
  then show ?thesis unfolding lookup_some(1) by (intro move_inv[OF assms(2)]) (use lookup_some(2) in simp_all)
next
  case (load g channel pub s)
  have "s < length (ps_states c)" by (rule pub_state_lt[OF assms(2) load(2)]) simp
  then show ?thesis unfolding load(1) by (intro move_inv[OF assms(2)]) (use load(2) in \<open>simp_all split: if_splits\<close>)
next
  case (lock g channel pub s)
  show ?thesis unfolding lock(1) by (rule lock_inv[OF assms(2) lock(2,3)])
next
  case (recheck g channel pub s)
  have s: "s < length (ps_states c)" by (rule pub_state_lt[OF assms(2) recheck(2)]) simp
  have "collecting c sp s" if live: "ss_inSubscribe (ps_states c ! s)"
  proof -
    obtain ch where ch: "ps_subSync c ch = Some s" using inv_flagsD(1)[OF assms(2) s] live by blast
    have "holder c g s" using recheck(2) by (simp add: holder_def)
    then have "sp ch \<noteq> SubRead" using inv_muD(3)[OF assms(2)] ch by (auto simp: was_read_def)
    moreover have "sp ch \<noteq> SubIdle" using assms(2) ch by (auto simp: pss_inv_def inv_heap_def)
    ultimately show ?thesis using ch by (cases "sp ch") (auto simp: collecting_def)
  qed
  then show ?thesis unfolding recheck(1) by (intro move_inv[OF assms(2)]) (use recheck(2) s in \<open>simp_all split: if_splits\<close>)
next
  case (append g channel pub s)
  note held = unlock_held[OF assms(2) append(2), of s, simplified]
  let ?st = "(ps_states c ! s)\<lparr>ss_pubBuffer := ss_pubBuffer (ps_states c ! s) @ [pub]\<rparr>"
  have c': "c' = return_pub g pub (set_state s (?st\<lparr>ss_pubBufferMu := False\<rparr>) (set_state s ?st c))"
    using append(1) held by (simp add: unlock_buffer_def)
  have swap: "?st\<lparr>ss_pubBufferMu := False\<rparr> = (ps_states c ! s)\<lparr>ss_pubBufferMu := False, ss_pubBuffer := ss_pubBuffer (ps_states c ! s) @ [pub]\<rparr>"
    by simp
  show ?thesis
    by (rule release_inv[OF assms(2) append(2), where s = s and new = "[pub]" and x = None])
      (use assms(2) append(2) in \<open>auto simp: c' swap pss_inv_def inv_buf_def appending_def\<close>)
next
  case (leave g channel pub s)
  note held = unlock_held[OF assms(2) leave(2), of s, simplified]
  have c': "c' = at_phase g channel pub PubDelivering (set_state s ((ps_states c ! s)\<lparr>ss_pubBufferMu := False\<rparr>) c)"
    using leave(1) held by (simp add: unlock_buffer_def)
  show ?thesis
    by (rule release_inv[OF assms(2) leave(2), where s = s and new = "[]" and x = "Some (channel, pub, PubDelivering)"])
      (simp_all add: c')
next
  case (deliver g channel pub)
  have h: "holder c' = holder c" using deliver(2) by (intro ext) (auto simp: deliver(1) holder_def)
  have live: "collecting c' = collecting c" "was_read c' = was_read c"
    by (intro ext; simp add: deliver(1) collecting_def was_read_def)+
  have "appending c' s \<Longrightarrow> appending c s" for s by (auto simp: deliver(1) appending_def split: if_splits)
  moreover have "inv_heap c' sp" using assms(2) by (fastforce simp: deliver(1) pss_inv_def inv_heap_def split: if_splits)
  ultimately show ?thesis
    using assms(2) unfolding pss_inv_def inv_mu_def inv_buf_def h live
    by (simp add: deliver(1) inv_count_def inv_flags_def)
qed

lemma start_inv:
  assumes "pss_step (Start ch) c c'" "pss_inv c sp ab" "sp ch = SubIdle"
  shows "pss_inv c' (sp(ch := SubBuffering)) ab"
  using assms(1)
proof cases
  case start_buffering
  let ?n = "length (ps_states c)" and ?sp = "sp(ch := SubBuffering)"
  have idle: "ps_subSync c ch = None" using assms(2,3) by (auto simp: pss_inv_def inv_heap_def)
  have lt: "ps_subSync c ch' = Some s \<Longrightarrow> s < ?n" for ch' s using assms(2) by (auto simp: pss_inv_def inv_heap_def)
  have hold: "holder c' = holder c" "appending c' = appending c" by (intro ext; simp add: start_buffering holder_def appending_def)+
  have hlt: "holder c g s \<Longrightarrow> s < ?n" for g s using pub_state_lt[OF assms(2)] holds_phase_state by (auto simp: holder_def)
  have sub: "ps_subSync c' ch' = Some s \<longleftrightarrow> (if ch' = ch then s = ?n else ps_subSync c ch' = Some s)" for ch' s
    by (auto simp: start_buffering)
  have read: "was_read c' ?sp s \<longleftrightarrow> was_read c sp s" for s 
  proof
    show "was_read c' ?sp s \<Longrightarrow> was_read c sp s" by (auto simp: was_read_def sub split: if_splits)
    assume "was_read c sp s"
    then obtain ch' where "ps_subSync c ch' = Some s" "sp ch' = SubRead" by (auto simp: was_read_def)
    then show "was_read c' ?sp s" using idle unfolding was_read_def by (intro exI[of _ ch']) (auto simp: sub)
  qed
  have coll: "collecting c sp s \<Longrightarrow> collecting c' ?sp s" for s
  proof -
    assume "collecting c sp s"
    then obtain ch' where "ps_subSync c ch' = Some s" "sp ch' \<in> {SubBuffering, SubMarked}" by (auto simp: collecting_def)
    then show "collecting c' ?sp s" using idle unfolding collecting_def by (intro exI[of _ ch']) (auto simp: sub)
  qed
  have nth: "ps_states c' ! s = (if s < ?n then ps_states c ! s else newSubscribeState)" if "s < Suc ?n" for s
    using that by (auto simp: start_buffering nth_append)
  have len: "length (ps_states c') = Suc ?n" by (simp add: start_buffering)
  have "inv_heap c' ?sp"
    using assms(2) idle lt unfolding inv_heap_def sub len
    by (auto simp: start_buffering pss_inv_def inv_heap_def less_Suc_eq split: if_splits)
  moreover have "inv_flags c' ?sp"
  proof (rule inv_flagsI)
    fix s assume "s < length (ps_states c')"
    then have "s < Suc ?n" by (simp add: len)
    moreover have "(\<exists>ch. ps_subSync c' ch = Some s) \<longleftrightarrow> s = ?n \<or> (\<exists>ch. ps_subSync c ch = Some s)"
      unfolding sub using idle by (metis option.distinct(1))
    ultimately show "ss_inSubscribe (ps_states c' ! s) \<longleftrightarrow> (\<exists>ch. ps_subSync c' ch = Some s)"
      using inv_flagsD(1)[OF assms(2), of s] by (auto simp: nth newSubscribeState_def less_Suc_eq)
  next
    fix ch' s assume "ps_subSync c' ch' = Some s"
    then show "ss_pubBufferLocked (ps_states c' ! s) \<longleftrightarrow> ?sp ch' \<in> {SubMarked, SubRead}"
      using inv_flagsD(2)[OF assms(2), of ch' s] lt[of ch' s] unfolding sub
      by (cases "ch' = ch") (simp_all add: nth newSubscribeState_def)
  next
    fix r ch' s assume r: "ps_readers c' r = Some (ch', s)"
    then show "ps_subSync c' ch' = Some s \<and> ?sp ch' = SubMarked"
      using inv_flagsD(3)[OF assms(2), of r ch' s] idle by (auto simp: start_buffering)
  next
    fix r r' ch' s s' assume "ps_readers c' r = Some (ch', s)" "ps_readers c' r' = Some (ch', s')"
    then show "r = r'" using inv_flagsD(4)[OF assms(2)] by (simp add: start_buffering)
  qed
  moreover have "inv_mu c' ?sp"
  proof (rule inv_muI)
    fix s assume "s < length (ps_states c')"
    then have "s < ?n \<or> s = ?n" by (auto simp: len)
    moreover have "was_read c sp s \<Longrightarrow> s < ?n" using lt by (auto simp: was_read_def)
    ultimately show "ss_pubBufferMu (ps_states c' ! s) \<longleftrightarrow> (\<exists>g. holder c' g s) \<or> was_read c' ?sp s"
      unfolding hold read using inv_muD(1)[OF assms(2), of s] hlt[of _ s] by (auto simp: nth newSubscribeState_def)
  qed (use inv_muD(2,3)[OF assms(2)] in \<open>simp_all only: hold read\<close>, blast+)
  moreover have "inv_buf c' ?sp ab"
    using assms(2) coll unfolding inv_buf_def hold len
    by (auto simp: nth pss_inv_def inv_buf_def newSubscribeState_def)
  ultimately show ?thesis using assms(2) by (simp add: pss_inv_def inv_count_def start_buffering newSubscribeState_def)
qed

lemma live_sub:
  assumes "pss_inv c sp ab" "ps_subSync c ch = Some s" "ps_subSync c' ch = Some s \<or> ps_subSync c' ch = None"
    and "\<forall>ch'. ch' \<noteq> ch \<longrightarrow> ps_subSync c' ch' = ps_subSync c ch'"
  shows "was_read c' (sp(ch := x)) s' \<longleftrightarrow> (if s' = s then ps_subSync c' ch = Some s \<and> x = SubRead else was_read c sp s')"
    and "collecting c' (sp(ch := x)) s' \<longleftrightarrow>
      (if s' = s then ps_subSync c' ch = Some s \<and> x \<in> {SubBuffering, SubMarked} else collecting c sp s')"
    and "was_read c sp s \<longleftrightarrow> sp ch = SubRead" "collecting c sp s \<longleftrightarrow> sp ch \<in> {SubBuffering, SubMarked}"
    and "(\<exists>ch'. ps_subSync c' ch' = Some s') \<longleftrightarrow> (if s' = s then ps_subSync c' ch = Some s else \<exists>ch'. ps_subSync c ch' = Some s')"
proof -
  have inj: "ps_subSync c ch' = Some s \<Longrightarrow> ch' = ch" for ch' using inv_heapD(2)[OF assms(1) _ assms(2)] .
  define K where "K \<longleftrightarrow> ps_subSync c' ch = Some s"
  have sub: "ps_subSync c' ch' = Some s' \<longleftrightarrow> (if ch' = ch then K \<and> s' = s else ps_subSync c ch' = Some s')" for ch' s'
    using assms(3,4) by (auto simp: K_def)
  have only: "(\<exists>ch'. ps_subSync c' ch' = Some s' \<and> P ((sp(ch := x)) ch')) \<longleftrightarrow>
      (if s' = s then K \<and> P x else (\<exists>ch'. ps_subSync c ch' = Some s' \<and> P (sp ch')))" for P
  proof (cases "s' = s")
    case True
    then show ?thesis using inj unfolding sub by auto
  next
    case False
    have "ps_subSync c ch \<noteq> Some s'" using assms(2) False by simp
    then have "ps_subSync c' ch' = Some s' \<and> P ((sp(ch := x)) ch') \<longleftrightarrow> ps_subSync c ch' = Some s' \<and> P (sp ch')" for ch'
      using False unfolding sub by (cases "ch' = ch") simp_all
    then show ?thesis unfolding if_not_P[OF False] by blast
  qed
  show "was_read c' (sp(ch := x)) s' \<longleftrightarrow> (if s' = s then ps_subSync c' ch = Some s \<and> x = SubRead else was_read c sp s')"
    unfolding was_read_def K_def[symmetric] by (rule only)
  show "collecting c' (sp(ch := x)) s' \<longleftrightarrow>
      (if s' = s then ps_subSync c' ch = Some s \<and> x \<in> {SubBuffering, SubMarked} else collecting c sp s')"
    unfolding collecting_def K_def[symmetric] by (rule only)
  show "was_read c sp s \<longleftrightarrow> sp ch = SubRead" "collecting c sp s \<longleftrightarrow> sp ch \<in> {SubBuffering, SubMarked}"
    unfolding was_read_def collecting_def using inj assms(2) by blast+
  show "(\<exists>ch'. ps_subSync c' ch' = Some s') \<longleftrightarrow> (if s' = s then ps_subSync c' ch = Some s else \<exists>ch'. ps_subSync c ch' = Some s')"
    using only[of "\<lambda>_. True"] unfolding K_def by simp
qed

text \<open>A step of the subscriber of channel \<open>ch\<close>, whose state is \<open>s\<close>: no publisher moves, the state \<open>s\<close>
  becomes \<open>st\<close> and the channel keeps or loses it.\<close>

lemma sub_step_inv:
  assumes inv: "pss_inv c sp ab" and s: "ps_subSync c ch = Some s"
    and c': "ps_states c' = (ps_states c)[s := st]" "ps_pubs c' = ps_pubs c" "ps_crashed c' = ps_crashed c"
      "ps_subSync c' ch = (if x = SubIdle then None else Some s)" "\<And>ch'. ch' \<noteq> ch \<Longrightarrow> ps_subSync c' ch' = ps_subSync c ch'"
    and flags: "ss_inSubscribe st \<longleftrightarrow> x \<noteq> SubIdle" "x \<noteq> SubIdle \<Longrightarrow> ss_pubBufferLocked st \<longleftrightarrow> x \<in> {SubMarked, SubRead}"
      "\<And>r ch' s'. ch' \<noteq> ch \<Longrightarrow> ps_readers c' r = Some (ch', s') \<longleftrightarrow> ps_readers c r = Some (ch', s')"
      "\<And>r s'. ps_readers c' r = Some (ch, s') \<Longrightarrow> s' = s \<and> x = SubMarked"
      "\<And>r r' s' s''. ps_readers c' r = Some (ch, s') \<Longrightarrow> ps_readers c' r' = Some (ch, s'') \<Longrightarrow> r = r'"
    and mu: "ss_pubBufferMu st \<longleftrightarrow> (\<exists>g. holder c g s) \<or> x = SubRead" "\<And>g. holder c g s \<Longrightarrow> x \<noteq> SubRead"
    and buf: "appending c s \<or> ss_pubBuffer st \<noteq> [] \<Longrightarrow> s \<in> ab' \<or> x \<in> {SubBuffering, SubMarked}" "ab \<subseteq> ab'"
    and cnt: "inv_count c'"
  shows "pss_inv c' (sp(ch := x)) ab'"
proof -
  let ?sp = "sp(ch := x)"
  have slt: "s < length (ps_states c)" by (rule inv_heapD(1)[OF inv s])
  have len: "length (ps_states c') = length (ps_states c)" by (simp add: c'(1))
  have c4: "ps_subSync c' ch = Some s \<or> ps_subSync c' ch = None" by (simp add: c'(4))
  have c5: "\<forall>ch'. ch' \<noteq> ch \<longrightarrow> ps_subSync c' ch' = ps_subSync c ch'" using c'(5) by blast
  note live = live_sub[OF inv s c4 c5]
  have hold: "holder c' = holder c" "appending c' = appending c" by (intro ext; simp add: holder_def appending_def c'(2))+
  have sub: "ps_subSync c' ch' = Some s' \<longleftrightarrow> (if ch' = ch then x \<noteq> SubIdle \<and> s' = s else ps_subSync c ch' = Some s')" for ch' s'
    using c'(4,5) by auto
  have inj: "ps_subSync c ch' = Some s \<Longrightarrow> ch' = ch" for ch' using inv_heapD(2)[OF inv _ s] .
  have nth: "ps_states c' ! s' = (if s' = s then st else ps_states c ! s')" if "s' < length (ps_states c)" for s'
    using that by (auto simp: c'(1) nth_list_update)
  have "inv_heap c' ?sp"
  proof -
    have "?sp ch' = SubIdle \<longleftrightarrow> ps_subSync c' ch' = None" for ch' using inv_heapD(3)[OF inv, of ch'] c'(4,5) by (cases "ch' = ch") auto
    moreover have "ps_subSync c' ch1 = Some s' \<Longrightarrow> ps_subSync c' ch2 = Some s' \<Longrightarrow> ch1 = ch2" for ch1 ch2 s'
      unfolding sub using inj inv_heapD(2)[OF inv] by (metis (full_types))
    moreover have "ps_subSync c' ch1 = Some s' \<Longrightarrow> s' < length (ps_states c')" for ch1 s'
      using inv_heapD(1)[OF inv, of ch1 s'] slt by (cases "ch1 = ch") (simp_all add: sub len)
    ultimately show ?thesis unfolding inv_heap_def c'(2) len using pub_state_lt[OF inv] by blast
  qed
  moreover have "inv_flags c' ?sp"
  proof (rule inv_flagsI)
    fix s' assume "s' < length (ps_states c')"
    then show "ss_inSubscribe (ps_states c' ! s') \<longleftrightarrow> (\<exists>ch. ps_subSync c' ch = Some s')"
      using live(5)[of s'] inv_flagsD(1)[OF inv, of s'] flags(1) c'(4) by (simp add: nth len)
  next
    fix ch' s' assume e: "ps_subSync c' ch' = Some s'"
    show "ss_pubBufferLocked (ps_states c' ! s') \<longleftrightarrow> ?sp ch' \<in> {SubMarked, SubRead}"
    proof (cases "ch' = ch")
      case True
      then have "x \<noteq> SubIdle" "s' = s" using e by (simp_all add: sub)
      then show ?thesis using flags(2) slt True by (simp add: nth)
    next
      case False
      then have e': "ps_subSync c ch' = Some s'" using e by (simp add: sub)
      then have "s' \<noteq> s" using inj False by blast
      then show ?thesis using inv_flagsD(2)[OF inv e'] inv_heapD(1)[OF inv e'] False by (simp add: nth)
    qed
  next
    fix r ch' s' assume r: "ps_readers c' r = Some (ch', s')"
    show "ps_subSync c' ch' = Some s' \<and> ?sp ch' = SubMarked"
    proof (cases "ch' = ch")
      case True
      then show ?thesis using flags(4)[of r s'] r by (auto simp: sub)
    next
      case False
      then have "ps_readers c r = Some (ch', s')" using flags(3) r by blast
      from inv_flagsD(3)[OF inv this] show ?thesis using False by (simp add: sub)
    qed
  next
    fix r r' ch' s1 s2 assume r: "ps_readers c' r = Some (ch', s1)" "ps_readers c' r' = Some (ch', s2)"
    show "r = r'"
    proof (cases "ch' = ch")
      case True
      then show ?thesis using flags(5) r by blast
    next
      case False
      then have "ps_readers c r = Some (ch', s1)" "ps_readers c r' = Some (ch', s2)" using flags(3) r by blast+
      then show ?thesis by (rule inv_flagsD(4)[OF inv])
    qed
  qed
  moreover have "inv_mu c' ?sp"
  proof (rule inv_muI)
    fix s' g1 g2
    show "holder c' g1 s' \<Longrightarrow> holder c' g2 s' \<Longrightarrow> g1 = g2" unfolding hold by (rule inv_muD(2)[OF inv])
    show "holder c' g1 s' \<Longrightarrow> \<not> was_read c' ?sp s'" unfolding hold live(1) using inv_muD(3)[OF inv, of g1 s'] mu(2)[of g1] by (cases "s' = s") simp_all
    assume "s' < length (ps_states c')"
    then show "ss_pubBufferMu (ps_states c' ! s') \<longleftrightarrow> (\<exists>g. holder c' g s') \<or> was_read c' ?sp s'"
      unfolding hold live(1) using inv_muD(1)[OF inv, of s'] mu(1) c'(4) by (cases "s' = s"; cases "x = SubRead") (simp_all add: nth len)
  qed
  moreover have "inv_buf c' ?sp ab'"
  proof -
    have old: "appending c s' \<Longrightarrow> s' \<in> ab \<or> collecting c sp s'"
      "s' < length (ps_states c) \<Longrightarrow> ss_pubBuffer (ps_states c ! s') \<noteq> [] \<Longrightarrow> s' \<in> ab \<or> collecting c sp s'" for s'
      using inv by (auto simp: pss_inv_def inv_buf_def)
    have x: "ps_subSync c' ch = Some s" if "x \<in> {SubBuffering, SubMarked}" using c'(4) that by auto
    have "s' \<in> ab' \<or> collecting c' ?sp s'" if "appending c s' \<or> s' < length (ps_states c) \<and> ss_pubBuffer (ps_states c' ! s') \<noteq> []" for s'
    proof (cases "s' = s")
      case True
      then have "s \<in> ab' \<or> x \<in> {SubBuffering, SubMarked}" using buf(1) that slt by (auto simp: nth)
      then show ?thesis unfolding live(2) using x True by auto
    next
      case False
      then have "s' \<in> ab \<or> collecting c sp s'" using old[of s'] that by (auto simp: nth)
      then show ?thesis unfolding live(2) using False buf(2) by auto
    qed
    then show ?thesis unfolding inv_buf_def hold len by blast
  qed
  ultimately show ?thesis using inv cnt c'(3) by (simp add: pss_inv_def)
qed

lemma appending_holder: "appending c s \<Longrightarrow> \<exists>g. holder c g s"
  unfolding appending_def holder_def by (metis holds_mu.simps(2))

lemma mark_inv:
  assumes "pss_step (Mark ch) c c'" "pss_inv c sp ab" "sp ch = SubBuffering"
  shows "pss_inv c' (sp(ch := SubMarked)) ab"
  using assms(1)
proof cases
  case mark_none
  then show ?thesis using inv_heapD(3)[OF assms(2), of ch] assms(3) by simp
next
  case (mark s r)
  note lt = inv_heapD(1)[OF assms(2) mark(2)]
  have live: "collecting c sp s" "\<not> was_read c sp s"
    using live_sub(3,4)[OF assms(2) mark(2), of c] mark(2) assms(3) by auto
  have rd: "ps_readers c r' \<noteq> Some (ch, s')" for r' s' using inv_flagsD(3)[OF assms(2), of r' ch s'] assms(3) by auto
  have mu: "ss_pubBufferMu (ps_states c ! s) \<longleftrightarrow> (\<exists>g. holder c g s)" using inv_muD(1)[OF assms(2) lt] live(2) by blast
  have "inv_count c'" using assms(2) lt by (simp add: mark(1) pss_inv_def inv_count_def buffered_update_same)
  moreover have "ss_inSubscribe (ps_states c ! s)" using inv_flagsD(1)[OF assms(2) lt] mark(2) by blast
  ultimately show ?thesis
    by (intro sub_step_inv[OF assms(2) mark(2), where st = "(ps_states c ! s)\<lparr>ss_pubBufferLocked := True\<rparr>"])
      (use rd mu mark(2,3) in \<open>auto simp: mark(1) split: if_splits\<close>)
qed

lemma read_inv:
  assumes "pss_step (Read ch) c c'" "pss_inv c sp ab" "sp ch = SubMarked"
  shows "pss_inv c' (sp(ch := SubRead)) ab"
  using assms(1)
proof cases
  case (read r s)
  have sub: "ps_subSync c ch = Some s" using inv_flagsD(3)[OF assms(2) read(2)] by simp
  note lt = inv_heapD(1)[OF assms(2) sub]
  have nohold: "\<not> holder c g s" for g using inv_muD(1)[OF assms(2) lt] read(3) by blast
  then have noapp: "\<not> appending c s" using appending_holder by blast
  have rd: "r' = r" if "ps_readers c r' = Some (ch, s')" for r' s' by (rule inv_flagsD(4)[OF assms(2) that read(2)])
  let ?st = "(ps_states c ! s)\<lparr>ss_pubBufferMu := True, ss_pubBuffer := []\<rparr>"
  have "buffered (ps_states c) = mset (ss_pubBuffer (ps_states c ! s)) + buffered ((ps_states c)[s := ?st])"
    using buffered_update[OF lt, of ?st] by (simp add: add.commute)
  then have cnt: "inv_count c'" using assms(2) by (simp add: read(1) pss_inv_def inv_count_def)
  have ins: "ss_inSubscribe (ps_states c ! s)" using inv_flagsD(1)[OF assms(2) lt] sub by blast
  have lk: "ss_pubBufferLocked (ps_states c ! s)" using inv_flagsD(2)[OF assms(2) sub] assms(3) by simp
  have no: "ps_readers c' r' \<noteq> Some (ch, s')" for r' s' using rd[of r' s'] by (cases "r' = r") (auto simp: read(1))
  have others: "ch' \<noteq> ch \<Longrightarrow> ps_readers c' r' = Some (ch', s') \<longleftrightarrow> ps_readers c r' = Some (ch', s')" for r' ch' s'
    using read(2) by (cases "r' = r") (auto simp: read(1))
  show ?thesis
    by (rule sub_step_inv[OF assms(2) sub, where st = ?st])
      (use sub nohold noapp cnt ins lk no others in \<open>simp_all add: read(1)\<close>)
qed

lemma stop_inv:
  assumes "pss_step (Stop ch) c c'" "pss_inv c sp ab" "sp ch \<in> {SubRead, SubIdle}"
  shows "pss_inv c' (sp(ch := SubIdle)) ab"
  using assms(1)
proof cases
  case stop_none
  then have "sp ch = SubIdle" using inv_heapD(3)[OF assms(2), of ch] by simp
  then show ?thesis using assms(2) stop_none(1) by (simp add: fun_upd_idem)
next
  case (stop s)
  note lt = inv_heapD(1)[OF assms(2) stop(2)]
  have sp: "sp ch = SubRead" using assms(3) inv_heapD(3)[OF assms(2), of ch] stop(2) by auto
  have read: "was_read c sp s" "\<not> collecting c sp s" using live_sub(3,4)[OF assms(2) stop(2), of c] stop(2) sp by auto
  have nohold: "\<not> holder c g s" for g using inv_muD(3)[OF assms(2)] read(1) by blast
  then have noapp: "\<not> appending c s" using appending_holder by blast
  have mu: "ss_pubBufferMu (ps_states c ! s)" using inv_muD(1)[OF assms(2) lt] read(1) by blast
  have lk: "ss_pubBufferLocked (ps_states c ! s)" using inv_flagsD(2)[OF assms(2) stop(2)] sp by simp
  have rd: "ps_readers c r' \<noteq> Some (ch, s')" for r' s' using inv_flagsD(3)[OF assms(2), of r' ch s'] sp by auto
  let ?st = "(ps_states c ! s)\<lparr>ss_inSubscribe := False, ss_pubBufferMu := False\<rparr>"
  have c': "c' = (set_state s ?st c)\<lparr>ps_subSync := (ps_subSync c)(ch := None)\<rparr>"
    using stop(1) lk mu lt by (simp add: unlock_buffer_def set_state_def)
  have cnt: "inv_count c'" using assms(2) lt by (simp add: c' pss_inv_def inv_count_def buffered_update_same)
  have buf: "ss_pubBuffer (ps_states c ! s) \<noteq> [] \<Longrightarrow> s \<in> ab" using assms(2) lt read(2) by (auto simp: pss_inv_def inv_buf_def)
  show ?thesis
    by (rule sub_step_inv[OF assms(2) stop(2), where st = ?st])
      (use rd nohold noapp buf cnt in \<open>auto simp: c'\<close>)
qed

lemma give_up_inv:
  assumes "pss_step (Stop ch) c c'" "pss_inv c sp ab" "sp ch = SubBuffering" "ps_subSync c ch = Some s"
  shows "pss_inv c' (sp(ch := SubIdle)) (insert s ab)"
  using assms(1)
proof cases
  case stop_none
  then show ?thesis using assms(4) by simp
next
  case (stop s')
  then have s': "s' = s" using assms(4) by simp
  note lt = inv_heapD(1)[OF assms(2,4)]
  have "\<not> was_read c sp s" using live_sub(3)[OF assms(2,4), of c] assms(3,4) by auto
  then have mu: "ss_pubBufferMu (ps_states c ! s) \<longleftrightarrow> (\<exists>g. holder c g s)" using inv_muD(1)[OF assms(2) lt] by blast
  have lk: "\<not> ss_pubBufferLocked (ps_states c ! s)" using inv_flagsD(2)[OF assms(2,4)] assms(3) by simp
  have rd: "ps_readers c r' \<noteq> Some (ch, s'')" for r' s'' using inv_flagsD(3)[OF assms(2), of r' ch s''] assms(3) by auto
  let ?st = "(ps_states c ! s)\<lparr>ss_inSubscribe := False\<rparr>"
  have c': "c' = (set_state s ?st c)\<lparr>ps_subSync := (ps_subSync c)(ch := None)\<rparr>" using stop(1) lk by (simp add: s')
  have cnt: "inv_count c'" using assms(2) lt by (simp add: c' pss_inv_def inv_count_def buffered_update_same)
  show ?thesis
    by (rule sub_step_inv[OF assms(2,4), where st = ?st]) (use rd mu cnt in \<open>auto simp: c'\<close>)
qed

lemma pss_run_inv: "pss_run c sp ab \<Longrightarrow> pss_inv c sp ab"
proof (induction rule: pss_run.induct)
  case init
  show ?case by (simp add: pss_inv_defs NewPubSubSync_def buffered_def holder_def appending_def was_read_def)
qed (blast intro: pub_step_inv start_inv mark_inv read_inv stop_inv give_up_inv)+

text \<open>C10.  However publishers and subscribers interleave, as long as the subscriber of a channel uses
  it in the order start, lock and read, stop (or stops early), every publication whose
  \<open>SyncPublication\<close> call has returned is accounted for exactly once: it was handed to \<open>syncedFn\<close>, or
  \<open>LockBufferAndReadBuffered\<close> has returned it, or it waits in one buffer.  A buffer in which something
  waits belongs to a channel whose subscriber has yet to read it, or to a subscriber that stopped
  without reading; so after the read nothing is put into a buffer any more.  No mutex is unlocked that
  is not locked.\<close>

theorem SyncPublication_conserves:
  assumes "pss_run c sp ab"
  shows "mset (ps_finished c) = mset (ps_delivered c) + mset (ps_readOut c) + buffered (ps_states c)
     \<and> (\<forall>s<length (ps_states c). ss_pubBuffer (ps_states c ! s) \<noteq> [] \<longrightarrow>
          s \<in> ab \<or> (\<exists>ch. ps_subSync c ch = Some s \<and> sp ch \<in> {SubBuffering, SubMarked}))
     \<and> \<not> ps_crashed c"
  using pss_run_inv[OF assms] by (simp add: pss_inv_def inv_count_def inv_buf_def collecting_def)

text \<open>A run in which one publication arrives while the channel is buffering and a second one waits for
  the mutex while the subscriber reads; it is delivered after the stop.\<close>

lemma buffering_run:
  "\<exists>c :: nat pubSubSync. pss_run c (\<lambda>_. SubIdle) {} \<and> ps_finished c = [7, 8] \<and> ps_delivered c = [8] \<and> ps_readOut c = [7]
     \<and> length (ps_states c) = 1"
proof -
  define st where "st m l b = \<lparr>ss_inSubscribe = True, ss_pubBufferMu = m, ss_pubBufferLocked = l, ss_pubBuffer = b :: nat list\<rparr>" for m l b
  define cf where "cf sub sts ps rs del out fin = \<lparr>ps_subSync = sub, ps_states = sts, ps_pubs = ps, ps_readers = rs, ps_delivered = del,
      ps_readOut = out, ps_finished = fin, ps_crashed = False\<rparr>" for sub sts ps rs del out and fin :: "nat list"
  define S where "S = [''ch'' \<mapsto> 0 :: nat]"
  define sp where "sp x = (\<lambda>_. SubIdle)(''ch'' := x)" for x
  have upd: "(sp x)(''ch'' := y) = sp y" "sp SubIdle = (\<lambda>_. SubIdle)" for x y by (auto simp: sp_def)
  have spc: "sp x ''ch'' = x" for x by (simp add: sp_def)
  note d = cf_def st_def S_def at_phase_def set_state_def return_pub_def unlock_buffer_def newSubscribeState_def
  have P: "pss_run c1 (sp x) {}" if "pss_run c (sp x) {}" "pss_step Publisher c c'" "c' = c1" for c c' c1 :: "nat pubSubSync" and x
    using publisher[OF that(1,2)] that(3) by simp
  have "pss_run (cf Map.empty [] Map.empty Map.empty [] [] []) (sp SubIdle) {}"
    using pss_run.init by (simp add: upd cf_def NewPubSubSync_def)
  then have "pss_run (cf S [st False False []] Map.empty Map.empty [] [] []) (sp SubBuffering) {}"
    using pss_run.start[OF _ _ start_buffering, of "cf Map.empty [] Map.empty Map.empty [] [] []" "sp SubIdle" "{}" "''ch''"]
    by (simp add: upd(1) spc d)
  then have "pss_run (cf S [st False False []] [0 \<mapsto> (''ch'', 7, PubStart)] Map.empty [] [] []) (sp SubBuffering) {}"
    by (rule P[OF _ call[where g = 0 and channel = "''ch''" and pub = 7]]) (simp_all add: d)
  then have "pss_run (cf S [st False False []] [0 \<mapsto> (''ch'', 7, PubFound 0)] Map.empty [] [] []) (sp SubBuffering) {}"
    by (rule P[OF _ lookup_some[where g = 0 and channel = "''ch''" and pub = 7 and s = 0]]) (simp_all add: d)
  then have "pss_run (cf S [st False False []] [0 \<mapsto> (''ch'', 7, PubLocking 0)] Map.empty [] [] []) (sp SubBuffering) {}"
    by (rule P[OF _ load[where g = 0 and channel = "''ch''" and pub = 7 and s = 0]]) (simp_all add: d)
  then have "pss_run (cf S [st True False []] [0 \<mapsto> (''ch'', 7, PubLocked 0)] Map.empty [] [] []) (sp SubBuffering) {}"
    by (rule P[OF _ lock[where g = 0 and channel = "''ch''" and pub = 7 and s = 0]]) (simp_all add: d)
  then have "pss_run (cf S [st True False []] [0 \<mapsto> (''ch'', 7, PubAppending 0)] Map.empty [] [] []) (sp SubBuffering) {}"
    by (rule P[OF _ recheck[where g = 0 and channel = "''ch''" and pub = 7 and s = 0]]) (simp_all add: d)
  then have "pss_run (cf S [st False False [7]] Map.empty Map.empty [] [] [7]) (sp SubBuffering) {}"
    by (rule P[OF _ append[where g = 0 and channel = "''ch''" and pub = 7 and s = 0]]) (simp_all add: d)
  then have "pss_run (cf S [st False False [7]] [0 \<mapsto> (''ch'', 8, PubStart)] Map.empty [] [] [7]) (sp SubBuffering) {}"
    by (rule P[OF _ call[where g = 0 and channel = "''ch''" and pub = 8]]) (simp_all add: d)
  then have "pss_run (cf S [st False False [7]] [0 \<mapsto> (''ch'', 8, PubFound 0)] Map.empty [] [] [7]) (sp SubBuffering) {}"
    by (rule P[OF _ lookup_some[where g = 0 and channel = "''ch''" and pub = 8 and s = 0]]) (simp_all add: d)
  then have 1: "pss_run (cf S [st False False [7]] [0 \<mapsto> (''ch'', 8, PubLocking 0)] Map.empty [] [] [7]) (sp SubBuffering) {}" (is "pss_run ?c1 _ _")
    by (rule P[OF _ load[where g = 0 and channel = "''ch''" and pub = 8 and s = 0]]) (simp_all add: d)
  have "pss_step (Mark ''ch'') ?c1 (cf S [st False True [7]] [0 \<mapsto> (''ch'', 8, PubLocking 0)] [0 \<mapsto> (''ch'', 0)] [] [] [7])" (is "pss_step _ _ ?c2")
    using mark[of ?c1 "''ch''" 0 0] by (simp add: d)
  from marked[OF 1 spc this] have 2: "pss_run ?c2 (sp SubMarked) {}" by (simp add: upd(1))
  have "pss_step (Read ''ch'') ?c2 (cf S [st True True []] [0 \<mapsto> (''ch'', 8, PubLocking 0)] Map.empty [] [7] [7])" (is "pss_step _ _ ?c3")
    using read[of ?c2 0 "''ch''" 0] by (simp add: d)
  from got[OF 2 spc this] have 3: "pss_run ?c3 (sp SubRead) {}" by (simp add: upd(1))
  let ?dead = "\<lambda>m. (st m True [])\<lparr>ss_inSubscribe := False\<rparr>"
  have "pss_step (Stop ''ch'') ?c3 (cf Map.empty [?dead False] [0 \<mapsto> (''ch'', 8, PubLocking 0)] Map.empty [] [7] [7])" (is "pss_step _ _ ?c4")
    using stop[of ?c3 "''ch''" 0] by (simp add: d)
  from stopped[OF 3 _ this] have "pss_run ?c4 (sp SubIdle) {}" by (simp add: upd(1) spc)
  then have "pss_run (cf Map.empty [?dead True] [0 \<mapsto> (''ch'', 8, PubLocked 0)] Map.empty [] [7] [7]) (sp SubIdle) {}"
    by (rule P[OF _ lock[where g = 0 and channel = "''ch''" and pub = 8 and s = 0]]) (simp_all add: d)
  then have "pss_run (cf Map.empty [?dead True] [0 \<mapsto> (''ch'', 8, PubLeaving 0)] Map.empty [] [7] [7]) (sp SubIdle) {}"
    by (rule P[OF _ recheck[where g = 0 and channel = "''ch''" and pub = 8 and s = 0]]) (simp_all add: d)
  then have "pss_run (cf Map.empty [?dead False] [0 \<mapsto> (''ch'', 8, PubDelivering)] Map.empty [] [7] [7]) (sp SubIdle) {}"
    by (rule P[OF _ leave[where g = 0 and channel = "''ch''" and pub = 8 and s = 0]]) (simp_all add: d)
  then have "pss_run (cf Map.empty [?dead False] Map.empty Map.empty [8] [7] [7, 8]) (sp SubIdle) {}"
    by (rule P[OF _ deliver[where g = 0 and channel = "''ch''" and pub = 8]]) (simp_all add: d)
  then show ?thesis unfolding upd(2) by (intro exI[of _ "cf Map.empty [?dead False] Map.empty Map.empty [8] [7] [7, 8]"]) (simp add: cf_def)
qed

theorem SyncPublication_conserves_witness:
  "\<exists>c :: nat pubSubSync. pss_run c (\<lambda>_. SubIdle) {} \<and> ps_finished c = [7, 8] \<and> ps_delivered c = [8] \<and> ps_readOut c = [7]
     \<and> length (ps_states c) = 1 \<and> buffered (ps_states c) = {#} \<and> ss_pubBuffer (ps_states c ! 0) = [] \<and> \<not> ps_crashed c"
proof -
  obtain c :: "nat pubSubSync" where c: "pss_run c (\<lambda>_. SubIdle) {}" "ps_finished c = [7, 8]" "ps_delivered c = [8]" "ps_readOut c = [7]"
    "length (ps_states c) = 1"
    using buffering_run by blast
  show ?thesis using SyncPublication_conserves[OF c(1)] c by (intro exI[of _ c]) (simp add: add.commute)
qed

text \<open>While nobody has started buffering, as in the current client, publishing never waits and
  delivers at once.\<close>

lemma SyncPublication_without_buffering:
  assumes "ps_subSync c = Map.empty" "ps_pubs c g = None"
  shows "(pss_step Publisher)\<^sup>*\<^sup>* c (c\<lparr>ps_delivered := ps_delivered c @ [pub], ps_finished := ps_finished c @ [pub]\<rparr>)"
proof -
  let ?c1 = "at_phase g channel pub PubStart c"
  let ?c2 = "at_phase g channel pub PubDelivering ?c1"
  have "pss_step Publisher c ?c1" by (rule call[OF assms(2)])
  moreover have "pss_step Publisher ?c1 ?c2" by (rule lookup_none) (simp_all add: assms(1))
  moreover have "pss_step Publisher ?c2 (return_pub g pub (?c2\<lparr>ps_delivered := ps_delivered ?c2 @ [pub]\<rparr>))" by (rule deliver) simp
  moreover have "return_pub g pub (?c2\<lparr>ps_delivered := ps_delivered ?c2 @ [pub]\<rparr>)
      = c\<lparr>ps_delivered := ps_delivered c @ [pub], ps_finished := ps_finished c @ [pub]\<rparr>"
    using assms(2) by (simp add: return_pub_def at_phase_def fun_upd_idem)
  ultimately show ?thesis by (metis converse_rtranclp_into_rtranclp rtranclp.rtrancl_refl)
qed

end
