(* ===== verification/Bucket_Map.thy ===== *)
theory Bucket_Map
  imports Kairos_Prelude
begin

text \<open>
  Maps of maps with the clean-up rule that three components of the deliverer follow: the entry of
  an outer key is created with its first inner key and deleted with its last one.  The lemmas are
  shared by the connection and subscription shards of the hub (\<open>hub.go\<close>) and by the presence hub
  (\<open>presence_memory.go\<close>), whose operations are written out in their own theories.
\<close>

type_synonym ('c, 'u, 'v) buckets = "('c, ('u, 'v) fmap) fmap"

abbreviation fm_len :: "('a, 'b) fmap \<Rightarrow> nat" where
  "fm_len m \<equiv> fcard (fmdom m)"

lemma fm_len_0_iff [simp]: "fm_len m = 0 \<longleftrightarrow> m = fmempty"
  by (metis fcard_fempty fcard_0_eq fmdom_empty fmdom_empty fmrestrict_fset_dom fmrestrict_fset_null)

lemma fm_len_pos: "0 < fm_len m \<longleftrightarrow> m \<noteq> fmempty"
  by (metis fm_len_0_iff neq0_conv)

lemma fmdom_Collect: "fset (fmdom m) = {k. fmlookup m k \<noteq> None}"
  by (auto simp: fmlookup_dom_iff)

lemma fm_len_card: "fm_len m = card {k. fmlookup m k \<noteq> None}"
  by (simp add: fcard.rep_eq fmdom_Collect)

definition bk_look :: "('c, 'u, 'v) buckets \<Rightarrow> 'c \<Rightarrow> 'u \<Rightarrow> 'v option" where
  "bk_look m ch u = (case fmlookup m ch of None \<Rightarrow> None | Some b \<Rightarrow> fmlookup b u)"

definition bk_get :: "('c, 'u, 'v) buckets \<Rightarrow> 'c \<Rightarrow> ('u, 'v) fmap" where
  "bk_get m ch = (case fmlookup m ch of None \<Rightarrow> fmempty | Some b \<Rightarrow> b)"

definition bk_add :: "'c \<Rightarrow> 'u \<Rightarrow> 'v \<Rightarrow> ('c, 'u, 'v) buckets \<Rightarrow> ('c, 'u, 'v) buckets" where
  "bk_add ch u v m = fmupd ch (fmupd u v (bk_get m ch)) m"

definition bk_del :: "'c \<Rightarrow> 'u \<Rightarrow> ('c, 'u, 'v) buckets \<Rightarrow> ('c, 'u, 'v) buckets" where
  "bk_del ch u m =
     (if bk_look m ch u = None then m
      else if fm_len (fmdrop u (bk_get m ch)) = 0 then fmdrop ch m
      else fmupd ch (fmdrop u (bk_get m ch)) m)"

definition bk_count :: "('c, 'u, 'v) buckets \<Rightarrow> nat" where
  "bk_count m = (\<Sum>ch\<in>fset (fmdom m). fm_len (bk_get m ch))"

definition bk_inv :: "('c, 'u, 'v) buckets \<Rightarrow> bool" where
  "bk_inv m \<longleftrightarrow> (\<forall>ch\<in>fset (fmdom m). bk_get m ch \<noteq> fmempty)"

section \<open>Laws\<close>

lemma fmlookup_bk_get [simp]: "fmlookup (bk_get m ch) u = bk_look m ch u"
  by (simp add: bk_get_def bk_look_def split: option.split)

lemma bk_look_empty [simp]: "bk_look fmempty ch u = None"
  by (simp add: bk_look_def)

lemma bk_inv_empty [simp]: "bk_inv fmempty"
  by (simp add: bk_inv_def)

lemma bk_look_add: "bk_look (bk_add ch u v m) ch' u' = (if ch' = ch \<and> u' = u then Some v else bk_look m ch' u')"
  by (auto simp: bk_add_def bk_look_def bk_get_def split: option.split)

lemma bk_get_add: "bk_get (bk_add ch u v m) ch' = (if ch' = ch then fmupd u v (bk_get m ch) else bk_get m ch')"
  by (simp add: bk_add_def bk_get_def)

lemma fm_nonempty: "m \<noteq> fmempty \<longleftrightarrow> (\<exists>k. fmlookup m k \<noteq> None)"
  by (metis fmap_ext fmempty_lookup)

lemma bk_inv_alt: "bk_inv m \<longleftrightarrow> (\<forall>ch. fmlookup m ch \<noteq> None \<longrightarrow> (\<exists>u. bk_look m ch u \<noteq> None))"
  unfolding bk_inv_def fm_nonempty by (auto simp: fmlookup_dom_iff)

lemma bk_inv_add [inv_intros]: "bk_inv m \<Longrightarrow> bk_inv (bk_add ch u v m)"
  unfolding bk_inv_alt by (auto simp: bk_look_add) (auto simp: bk_add_def split: if_splits)

lemma bk_get_none: "bk_look m ch u \<noteq> None \<Longrightarrow> fmlookup m ch = Some (bk_get m ch)"
  by (auto simp: bk_look_def bk_get_def split: option.splits)

lemma bk_look_del: "bk_look (bk_del ch u m) ch' u' = (if ch' = ch \<and> u' = u then None else bk_look m ch' u')"
proof (cases "bk_look m ch u = None")
  case False
  show ?thesis
  proof (cases "fm_len (fmdrop u (bk_get m ch)) = 0")
    case True
    then have "fmlookup (fmdrop u (bk_get m ch)) w = None" for w unfolding fm_len_0_iff by simp
    then have "bk_look m ch w = None" if "w \<noteq> u" for w using that by (metis fmlookup_bk_get fmlookup_drop)
    moreover have "bk_del ch u m = fmdrop ch m" by (simp only: bk_del_def True False if_False if_True refl)
    moreover have "bk_look (fmdrop ch m) ch' u' = (if ch' = ch then None else bk_look m ch' u')" by (simp add: bk_look_def)
    ultimately show ?thesis by auto
  next
    case nz: False
    then have "bk_del ch u m = fmupd ch (fmdrop u (bk_get m ch)) m" by (simp only: bk_del_def False if_False)
    moreover have "bk_look (fmupd ch b m) ch' u' = (if ch' = ch then fmlookup b u' else bk_look m ch' u')" for b
      by (simp add: bk_look_def)
    ultimately show ?thesis by simp
  qed
qed (auto simp: bk_del_def)

lemma bk_inv_del [inv_intros]:
  assumes "bk_inv m"
  shows "bk_inv (bk_del ch u m)"
proof (cases "bk_look m ch u = None")
  case False
  let ?b = "fmdrop u (bk_get m ch)"
  show ?thesis
  proof (cases "fm_len ?b = 0")
    case True
    have "bk_inv (fmdrop ch m)" using assms by (auto simp: bk_inv_def bk_get_def)
    then show ?thesis by (simp only: bk_del_def True False if_False if_True refl)
  next
    case nz: False
    then have "?b \<noteq> fmempty" by (metis fm_len_0_iff)
    then have "bk_inv (fmupd ch ?b m)" using assms by (auto simp: bk_inv_def bk_get_def)
    then show ?thesis by (simp only: bk_del_def nz False if_False)
  qed
qed (simp add: bk_del_def assms)

lemma bk_dom: "bk_inv m \<Longrightarrow> fmlookup m ch \<noteq> None \<longleftrightarrow> (\<exists>u. bk_look m ch u \<noteq> None)"
  by (auto simp: bk_inv_alt) (auto simp: bk_look_def split: option.splits)

lemma bk_get_len: "fm_len (bk_get m ch) = card {u. bk_look m ch u \<noteq> None}"
  by (simp add: fm_len_card)

lemma bk_finite: "finite {(ch, u). bk_look m ch u \<noteq> None}"
proof -
  have "{(ch, u). bk_look m ch u \<noteq> None} \<subseteq> Sigma (fset (fmdom m)) (\<lambda>ch. fset (fmdom (bk_get m ch)))"
    by (auto simp: fmlookup_dom_iff bk_look_def split: option.splits)
  then show ?thesis by (rule finite_subset) auto
qed

lemma bk_count_card: "bk_count m = card {(ch, u). bk_look m ch u \<noteq> None}"
proof -
  have "{(ch, u). bk_look m ch u \<noteq> None} = Sigma (fset (fmdom m)) (\<lambda>ch. {u. bk_look m ch u \<noteq> None})"
    by (auto simp: fmlookup_dom_iff bk_look_def split: option.splits)
  moreover have "finite {u. bk_look m ch u \<noteq> None}" for ch
    using bk_finite[of m] by (rule_tac finite_subset[OF _ finite_imageI[OF bk_finite[of m], of snd]]) force
  ultimately show ?thesis
    unfolding bk_count_def by (simp add: card_SigmaI bk_get_len)
qed

lemma bk_len_card: "bk_inv m \<Longrightarrow> fm_len m = card {ch. \<exists>u. bk_look m ch u \<noteq> None}"
  unfolding fm_len_card by (simp only: bk_dom)

section \<open>The contract of a two-level store\<close>

text \<open>Everything a client of such a store can observe: which pairs are present and with what value,
  and that outer keys without members do not exist.\<close>

locale two_level_store =
  fixes invar :: "'m \<Rightarrow> bool"
    and look :: "'m \<Rightarrow> 'c \<Rightarrow> 'u \<Rightarrow> 'v option"
    and has :: "'m \<Rightarrow> 'c \<Rightarrow> bool"
    and add :: "'c \<Rightarrow> 'u \<Rightarrow> 'v \<Rightarrow> 'm \<Rightarrow> 'm"
    and del :: "'c \<Rightarrow> 'u \<Rightarrow> 'm \<Rightarrow> 'm"
  assumes look_add: "look (add c u v m) c' u' = (if c' = c \<and> u' = u then Some v else look m c' u')"
    and look_del: "look (del c u m) c' u' = (if c' = c \<and> u' = u then None else look m c' u')"
    and invar_add: "invar m \<Longrightarrow> invar (add c u v m)"
    and invar_del: "invar m \<Longrightarrow> invar (del c u m)"
    and has_iff: "invar m \<Longrightarrow> has m c \<longleftrightarrow> (\<exists>u. look m c u \<noteq> None)"
begin

lemma del_add_same: "look m c u = None \<Longrightarrow> look (del c u (add c u v m)) c' u' = look m c' u'"
  by (simp add: look_add look_del)

lemma has_add: "invar m \<Longrightarrow> has (add c u v m) c' \<longleftrightarrow> c' = c \<or> has m c'"
  by (auto simp: has_iff invar_add look_add)

lemma has_del: "invar m \<Longrightarrow> has (del c u m) c' \<longleftrightarrow> (\<exists>w. (c' \<noteq> c \<or> w \<noteq> u) \<and> look m c' w \<noteq> None)"
  by (auto simp: has_iff invar_del look_del)

lemma pairs_add: "{(c', u'). look (add c u v m) c' u' \<noteq> None} = insert (c, u) {(c', u'). look m c' u' \<noteq> None}"
  by (auto simp: look_add split: if_splits)

lemma pairs_del: "{(c', u'). look (del c u m) c' u' \<noteq> None} = {(c', u'). look m c' u' \<noteq> None} - {(c, u)}"
  by (auto simp: look_del split: if_splits)

end

end
