(* ===== verification/Hub.thy ===== *)
theory Hub
  imports Bucket_Map
begin

text \<open>
  The connection and subscription tables of a deliverer node
  (\<open>server/deliverer/hub.go\<close>), with the shard index of \<open>node.go\<close>, and the in-memory presence
  table (\<open>presence_memory.go\<close>).

  Clients appear here as references: the connection id and the user id that \<open>ID()\<close> and
  \<open>UserID()\<close> return.  \<open>map[string]struct{}\<close> is a map to \<open>unit\<close>.  Each operation holds its
  shard's mutex, so it is one step.
\<close>

section \<open>The shard index (node.go)\<close>

unbundle bit_operations_syntax

definition fnv64a :: "string \<Rightarrow> uint64" where
  "fnv64a s = fold (\<lambda>c h. (h XOR of_nat (of_char c)) * 1099511628211) s 14695981039346656037"

definition index :: "string \<Rightarrow> nat \<Rightarrow> nat" where
  "index s numBuckets =
     (if numBuckets = 1 then 0 else unat (fnv64a s mod of_nat numBuckets))"

definition numHubShards :: nat where
  "numHubShards = 64"

lemma index_less:
  assumes "0 < n" "n < 2 ^ 64"
  shows "index s n < n"
proof (cases "n = 1")
  case False
  have "unat (of_nat n :: uint64) = n" using assms by (simp add: unat_of_nat take_bit_nat_eq_self)
  then show ?thesis using False assms by (simp add: index_def unat_mod)
qed (simp add: index_def)

section \<open>Connection shards\<close>

record client_ref =
  cr_ID :: string
  cr_UserID :: string

record connShard =
  cs_conns :: "(string, client_ref) fmap"
  cs_users :: "(string, string, unit) buckets"

definition newConnShard :: connShard where
  "newConnShard = \<lparr>cs_conns = fmempty, cs_users = fmempty\<rparr>"

definition connShard_userConnections :: "string \<Rightarrow> connShard \<Rightarrow> (string, client_ref) fmap" where
  "connShard_userConnections userID h =
     (case fmlookup (cs_users h) userID of
        None \<Rightarrow> fmempty
      | Some userConnections \<Rightarrow> fmfilter (\<lambda>uid. uid |\<in>| fmdom userConnections) (cs_conns h))"

record userInfo =
  ui_ID :: string
  ui_Online :: bool

definition connShard_infoUser :: "string \<Rightarrow> connShard \<Rightarrow> userInfo" where
  "connShard_infoUser userID h =
     \<lparr>ui_ID = userID, ui_Online = (fm_len (connShard_userConnections userID h) > 0)\<rparr>"

definition connShard_add :: "client_ref \<Rightarrow> connShard \<Rightarrow> connShard" where
  "connShard_add c h =
     (let uid = cr_ID c; user = cr_UserID c;
          h1 = h\<lparr>cs_conns := fmupd uid c (cs_conns h)\<rparr>;
          h2 = (if fmlookup (cs_users h1) user = None
                then h1\<lparr>cs_users := fmupd user fmempty (cs_users h1)\<rparr> else h1)
      in h2\<lparr>cs_users := fmupd user (fmupd uid () (bk_get (cs_users h2) user)) (cs_users h2)\<rparr>)"

definition connShard_remove :: "client_ref \<Rightarrow> connShard \<Rightarrow> connShard" where
  "connShard_remove c h =
     (let uid = cr_ID c; user = cr_UserID c;
          h1 = h\<lparr>cs_conns := fmdrop uid (cs_conns h)\<rparr>
      in case fmlookup (cs_users h1) user of
           None \<Rightarrow> h1
         | Some us \<Rightarrow>
             if fmlookup us uid = None then h1
             else
               let us1 = fmdrop uid us; h2 = h1\<lparr>cs_users := fmupd user us1 (cs_users h1)\<rparr>
               in if fm_len us1 = 0 then h2\<lparr>cs_users := fmdrop user (cs_users h2)\<rparr> else h2)"

definition connShard_NumClients :: "connShard \<Rightarrow> nat" where
  "connShard_NumClients h = (\<Sum>user\<in>fset (fmdom (cs_users h)). fm_len (bk_get (cs_users h) user))"

definition connShard_NumUsers :: "connShard \<Rightarrow> nat" where
  "connShard_NumUsers h = fm_len (cs_users h)"

section \<open>Subscription shards\<close>

record subShard =
  sb_subs :: "(string, string, client_ref) buckets"

definition newSubShard :: subShard where
  "newSubShard = \<lparr>sb_subs = fmempty\<rparr>"

definition subShard_addSub :: "string \<Rightarrow> client_ref \<Rightarrow> subShard \<Rightarrow> bool \<times> subShard" where
  "subShard_addSub ch c h =
     (let uid = cr_ID c;
          ok = (fmlookup (sb_subs h) ch \<noteq> None);
          h1 = (if \<not> ok then h\<lparr>sb_subs := fmupd ch fmempty (sb_subs h)\<rparr> else h);
          h2 = h1\<lparr>sb_subs := fmupd ch (fmupd uid c (bk_get (sb_subs h1) ch)) (sb_subs h1)\<rparr>
      in (\<not> ok, h2))"

definition subShard_removeSub :: "string \<Rightarrow> client_ref \<Rightarrow> subShard \<Rightarrow> bool \<times> subShard" where
  "subShard_removeSub ch c h =
     (let uid = cr_ID c
      in case fmlookup (sb_subs h) ch of
           None \<Rightarrow> (True, h)
         | Some cs \<Rightarrow>
             if fmlookup cs uid = None then (True, h)
             else
               let cs1 = fmdrop uid cs; h1 = h\<lparr>sb_subs := fmupd ch cs1 (sb_subs h)\<rparr>
               in if fm_len cs1 = 0 then (True, h1\<lparr>sb_subs := fmdrop ch (sb_subs h1)\<rparr>) else (False, h1))"

definition subShard_NumChannels :: "subShard \<Rightarrow> nat" where
  "subShard_NumChannels h = fm_len (sb_subs h)"

definition subShard_NumSubscriptions :: "subShard \<Rightarrow> nat" where
  "subShard_NumSubscriptions h = (\<Sum>ch\<in>fset (fmdom (sb_subs h)). fm_len (bk_get (sb_subs h) ch))"

definition subShard_Channels :: "subShard \<Rightarrow> string fset" where
  "subShard_Channels h = fmdom (sb_subs h)"

definition subShard_NumSubscribers :: "string \<Rightarrow> subShard \<Rightarrow> nat" where
  "subShard_NumSubscribers ch h =
     (case fmlookup (sb_subs h) ch of None \<Rightarrow> 0 | Some conns \<Rightarrow> fm_len conns)"

section \<open>The hub\<close>

record hub =
  h_connShards :: "connShard list"
  h_subShards :: "subShard list"
  h_sessions :: "(string, client_ref) fmap"

definition newHub :: hub where
  "newHub = \<lparr>h_connShards = replicate numHubShards newConnShard,
             h_subShards = replicate numHubShards newSubShard, h_sessions = fmempty\<rparr>"

definition hub_clientBySession :: "string \<Rightarrow> hub \<Rightarrow> client_ref option" where
  "hub_clientBySession session h = fmlookup (h_sessions h) session"

definition hub_add :: "client_ref \<Rightarrow> hub \<Rightarrow> hub" where
  "hub_add c h = (let i = index (cr_UserID c) numHubShards
     in h\<lparr>h_connShards := (h_connShards h)[i := connShard_add c (h_connShards h ! i)]\<rparr>)"

definition hub_remove :: "client_ref \<Rightarrow> hub \<Rightarrow> hub" where
  "hub_remove c h = (let i = index (cr_UserID c) numHubShards
     in h\<lparr>h_connShards := (h_connShards h)[i := connShard_remove c (h_connShards h ! i)]\<rparr>)"

definition hub_Connections :: "hub \<Rightarrow> (string, client_ref) fmap" where
  "hub_Connections h = fold (\<lambda>shard conns. conns ++\<^sub>f cs_conns shard) (h_connShards h) fmempty"

definition hub_UserConnections :: "string \<Rightarrow> hub \<Rightarrow> (string, client_ref) fmap" where
  "hub_UserConnections userID h = connShard_userConnections userID (h_connShards h ! index userID numHubShards)"

definition hub_InfoUser :: "string \<Rightarrow> hub \<Rightarrow> userInfo" where
  "hub_InfoUser userID h = connShard_infoUser userID (h_connShards h ! index userID numHubShards)"

definition hub_addSub :: "string \<Rightarrow> client_ref \<Rightarrow> hub \<Rightarrow> bool \<times> hub" where
  "hub_addSub ch c h = (let i = index ch numHubShards; (first, s) = subShard_addSub ch c (h_subShards h ! i)
     in (first, h\<lparr>h_subShards := (h_subShards h)[i := s]\<rparr>))"

definition hub_removeSub :: "string \<Rightarrow> client_ref \<Rightarrow> hub \<Rightarrow> bool \<times> hub" where
  "hub_removeSub ch c h = (let i = index ch numHubShards; (emp, s) = subShard_removeSub ch c (h_subShards h ! i)
     in (emp, h\<lparr>h_subShards := (h_subShards h)[i := s]\<rparr>))"

definition hub_NumSubscribers :: "string \<Rightarrow> hub \<Rightarrow> nat" where
  "hub_NumSubscribers ch h = subShard_NumSubscribers ch (h_subShards h ! index ch numHubShards)"

definition hub_Channels :: "hub \<Rightarrow> string fset" where
  "hub_Channels h = fold (\<lambda>s acc. acc |\<union>| subShard_Channels s) (h_subShards h) {||}"

definition hub_NumClients :: "hub \<Rightarrow> nat" where
  "hub_NumClients h = sum_list (map connShard_NumClients (h_connShards h))"

definition hub_NumUsers :: "hub \<Rightarrow> nat" where
  "hub_NumUsers h = sum_list (map connShard_NumUsers (h_connShards h))"

definition hub_NumSubscriptions :: "hub \<Rightarrow> nat" where
  "hub_NumSubscriptions h = sum_list (map subShard_NumSubscriptions (h_subShards h))"

definition hub_NumChannels :: "hub \<Rightarrow> nat" where
  "hub_NumChannels h = sum_list (map subShard_NumChannels (h_subShards h))"

section \<open>Presence (presence_memory.go)\<close>

record clientInfo =
  ci_ClientID :: string
  ci_UserID :: string
  ci_ConnInfo :: bytes
  ci_ChanInfo :: bytes
  ci_ChanRole :: int

type_synonym presenceHub = "(string, string, clientInfo) buckets"

record presenceStats =
  pst_NumClients :: nat
  pst_NumUsers :: nat

definition presenceHub_add :: "string \<Rightarrow> string \<Rightarrow> clientInfo \<Rightarrow> presenceHub \<Rightarrow> presenceHub" where
  "presenceHub_add ch uid info h =
     (let h1 = (if fmlookup h ch = None then fmupd ch fmempty h else h)
      in fmupd ch (fmupd uid info (bk_get h1 ch)) h1)"

definition presenceHub_remove :: "string \<Rightarrow> string \<Rightarrow> presenceHub \<Rightarrow> presenceHub" where
  "presenceHub_remove ch uid h =
     (case fmlookup h ch of
        None \<Rightarrow> h
      | Some p \<Rightarrow>
          if fmlookup p uid = None then h
          else let p1 = fmdrop uid p; h1 = fmupd ch p1 h
               in if fm_len p1 = 0 then fmdrop ch h1 else h1)"

definition presenceHub_get :: "string \<Rightarrow> presenceHub \<Rightarrow> (string, clientInfo) fmap option" where
  "presenceHub_get ch h = fmlookup h ch"

definition presenceHub_getStats :: "string \<Rightarrow> presenceHub \<Rightarrow> presenceStats" where
  "presenceHub_getStats ch h =
     (case fmlookup h ch of
        None \<Rightarrow> \<lparr>pst_NumClients = 0, pst_NumUsers = 0\<rparr>
      | Some p \<Rightarrow> \<lparr>pst_NumClients = fm_len p, pst_NumUsers = fcard (ci_UserID |`| fmran p)\<rparr>)"

section \<open>The shard operations as bucket operations\<close>

lemma fmupd_twice: "fmupd k v (fmupd k w m) = fmupd k v m"
  by (rule fmap_ext) simp

lemma fmdrop_fmupd_same': "fmdrop k (fmupd k v m) = fmdrop k m"
  by (rule fmap_ext) simp

lemma connShard_add_users [simp]: "cs_users (connShard_add c h) = bk_add (cr_UserID c) (cr_ID c) () (cs_users h)"
  by (simp add: connShard_add_def Let_def bk_add_def bk_get_def fmupd_twice split: option.split)

lemma connShard_add_conns [simp]: "cs_conns (connShard_add c h) = fmupd (cr_ID c) c (cs_conns h)"
  by (simp add: connShard_add_def Let_def)

lemma connShard_remove_users [simp]: "cs_users (connShard_remove c h) = bk_del (cr_UserID c) (cr_ID c) (cs_users h)"
  by (simp add: connShard_remove_def Let_def bk_del_def bk_get_def bk_look_def fmdrop_fmupd_same' del: fm_len_0_iff split: option.split)

lemma connShard_remove_conns [simp]: "cs_conns (connShard_remove c h) = fmdrop (cr_ID c) (cs_conns h)"
  by (simp add: connShard_remove_def Let_def split: option.split)

lemma subShard_addSub_eq:
  "subShard_addSub ch c h = (fmlookup (sb_subs h) ch = None, h\<lparr>sb_subs := bk_add ch (cr_ID c) c (sb_subs h)\<rparr>)"
  by (simp add: subShard_addSub_def Let_def bk_add_def bk_get_def fmupd_twice split: option.split)

lemma subShard_removeSub_eq:
  "subShard_removeSub ch c h =
     (bk_look (sb_subs h) ch (cr_ID c) = None \<or> fm_len (fmdrop (cr_ID c) (bk_get (sb_subs h) ch)) = 0,
      h\<lparr>sb_subs := bk_del ch (cr_ID c) (sb_subs h)\<rparr>)"
  by (simp add: subShard_removeSub_def Let_def bk_del_def bk_get_def bk_look_def fmdrop_fmupd_same' del: fm_len_0_iff split: option.split)

lemma presenceHub_add_eq: "presenceHub_add ch uid info h = bk_add ch uid info h"
  by (simp add: presenceHub_add_def Let_def bk_add_def bk_get_def fmupd_twice split: option.split)

lemma presenceHub_remove_eq: "presenceHub_remove ch uid h = bk_del ch uid h"
  by (simp add: presenceHub_remove_def Let_def bk_del_def bk_get_def bk_look_def fmdrop_fmupd_same' del: fm_len_0_iff split: option.split)

lemmas bucket_ops = connShard_add_users connShard_remove_users subShard_addSub_eq subShard_removeSub_eq
  presenceHub_add_eq presenceHub_remove_eq

interpretation users: two_level_store "\<lambda>h. bk_inv (cs_users h)" "\<lambda>h. bk_look (cs_users h)"
  "\<lambda>h u. fmlookup (cs_users h) u \<noteq> None" "\<lambda>u i x. connShard_add \<lparr>cr_ID = i, cr_UserID = u\<rparr>"
  "\<lambda>u i. connShard_remove \<lparr>cr_ID = i, cr_UserID = u\<rparr>"
  by unfold_locales (simp_all add: bk_look_add bk_look_del bk_inv_add bk_inv_del bk_dom del: not_None_eq)

interpretation subs: two_level_store "\<lambda>h. bk_inv (sb_subs h)" "\<lambda>h ch i. map_option cr_UserID (bk_look (sb_subs h) ch i)"
  "\<lambda>h ch. fmlookup (sb_subs h) ch \<noteq> None" "\<lambda>ch i u h. snd (subShard_addSub ch \<lparr>cr_ID = i, cr_UserID = u\<rparr> h)"
  "\<lambda>ch i h. snd (subShard_removeSub ch \<lparr>cr_ID = i, cr_UserID = ''''\<rparr> h)"
  by unfold_locales (simp_all add: subShard_addSub_eq subShard_removeSub_eq bk_look_add bk_look_del bk_inv_add bk_inv_del bk_dom option.map_disc_iff del: not_None_eq)

interpretation presence: two_level_store bk_inv bk_look "\<lambda>h ch. presenceHub_get ch h \<noteq> None"
  presenceHub_add presenceHub_remove
  by unfold_locales (simp_all add: presenceHub_add_eq presenceHub_remove_eq presenceHub_get_def bk_look_add bk_look_del bk_inv_add bk_inv_del bk_dom del: not_None_eq)

section \<open>The sharded hub behaves like one table\<close>

abbreviation hidx :: "string \<Rightarrow> nat" where
  "hidx s \<equiv> index s numHubShards"

lemma hidx_less [simp]: "hidx s < numHubShards"
  by (rule index_less) (simp_all add: numHubShards_def)

lemma numHubShards_pos [simp]: "0 < numHubShards"
  by (simp add: numHubShards_def)

lemma sum_shards:
  fixes n :: nat
  assumes "finite A" "\<And>a. a \<in> A \<Longrightarrow> g a < n"
  shows "(\<Sum>k<n. card {a \<in> A. g a = k}) = card A"
proof -
  have "(\<Sum>k<n. card {a \<in> A. g a = k}) = (\<Sum>k\<in>{..<n}. sum (\<lambda>_. 1) {a \<in> A. g a = k})" by simp
  also have "\<dots> = sum (\<lambda>_. 1 :: nat) A" using assms by (intro sum.group) auto
  finally show ?thesis by simp
qed

lemma sum_list_shards:
  assumes "length xs = n" "\<And>k. k < n \<Longrightarrow> f (xs ! k) = card {a \<in> A. g a = k}" "finite A" "\<And>a. a \<in> A \<Longrightarrow> g a < n"
  shows "sum_list (map f xs) = card A"
proof -
  have "sum_list (map f xs) = (\<Sum>k<n. f (xs ! k))"
    using assms(1) by (simp add: sum_list_sum_nth atLeast0LessThan)
  also have "\<dots> = (\<Sum>k<n. card {a \<in> A. g a = k})" using assms(2) by simp
  also have "\<dots> = card A" by (rule sum_shards[OF assms(3,4)])
  finally show ?thesis .
qed

subsection \<open>Subscriptions\<close>

text \<open>\<open>hub_subs_rep S h\<close>: exactly the pairs (channel, client id) in \<open>S\<close> are subscribed.\<close>

definition hub_subs_rep :: "(string \<times> string) set \<Rightarrow> hub \<Rightarrow> bool" where
  "hub_subs_rep S h \<longleftrightarrow> finite S \<and> length (h_subShards h) = numHubShards
     \<and> (\<forall>k<numHubShards. bk_inv (sb_subs (h_subShards h ! k))
         \<and> (\<forall>ch i. bk_look (sb_subs (h_subShards h ! k)) ch i \<noteq> None \<longleftrightarrow> (ch, i) \<in> S \<and> hidx ch = k))"

lemma hub_subs_rep_new: "hub_subs_rep {} newHub"
  by (simp add: hub_subs_rep_def newHub_def newSubShard_def)

lemma hub_subs_shard:
  assumes "hub_subs_rep S h"
  shows "bk_inv (sb_subs (h_subShards h ! hidx ch))"
    "bk_look (sb_subs (h_subShards h ! hidx ch)) ch i \<noteq> None \<longleftrightarrow> (ch, i) \<in> S"
    "length (h_subShards h) = numHubShards"
  using assms by (simp_all add: hub_subs_rep_def)

lemma hub_addSub_rep:
  assumes "hub_subs_rep S h"
  shows "hub_subs_rep (insert (ch, cr_ID c) S) (snd (hub_addSub ch c h))
     \<and> (fst (hub_addSub ch c h) \<longleftrightarrow> (\<forall>i. (ch, i) \<notin> S))"
proof -
  note sh = hub_subs_shard[OF assms]
  have "fst (hub_addSub ch c h) \<longleftrightarrow> (\<forall>i. (ch, i) \<notin> S)"
    using bk_dom[OF sh(1), of ch ch] sh(2)[of ch] by (auto simp: hub_addSub_def Let_def subShard_addSub_eq)
  moreover have "hub_subs_rep (insert (ch, cr_ID c) S) (snd (hub_addSub ch c h))"
    using assms by (auto simp: hub_subs_rep_def hub_addSub_def Let_def subShard_addSub_eq nth_list_update bk_look_add bk_inv_add split: if_splits)
  ultimately show ?thesis by blast
qed

lemma hub_removeSub_rep:
  assumes "hub_subs_rep S h"
  shows "hub_subs_rep (S - {(ch, cr_ID c)}) (snd (hub_removeSub ch c h))
     \<and> (fst (hub_removeSub ch c h) \<longleftrightarrow> (ch, cr_ID c) \<notin> S \<or> (\<forall>i. (ch, i) \<notin> S - {(ch, cr_ID c)}))"
proof -
  note sh = hub_subs_shard[OF assms]
  let ?m = "sb_subs (h_subShards h ! hidx ch)"
  have "fm_len (fmdrop (cr_ID c) (bk_get ?m ch)) = 0 \<longleftrightarrow> (\<forall>i. (ch, i) \<notin> S - {(ch, cr_ID c)})"
    unfolding fm_len_0_iff using fm_nonempty[of "fmdrop (cr_ID c) (bk_get ?m ch)"] sh(2)[of ch] by (auto split: if_splits)
  then have "fst (hub_removeSub ch c h) \<longleftrightarrow> (ch, cr_ID c) \<notin> S \<or> (\<forall>i. (ch, i) \<notin> S - {(ch, cr_ID c)})"
    using sh(2)[of ch "cr_ID c"] by (simp add: hub_removeSub_def Let_def subShard_removeSub_eq del: fm_len_0_iff not_None_eq) blast
  moreover have "hub_subs_rep (S - {(ch, cr_ID c)}) (snd (hub_removeSub ch c h))"
    using assms by (auto simp: hub_subs_rep_def hub_removeSub_def Let_def subShard_removeSub_eq nth_list_update bk_look_del bk_inv_del split: if_splits)
  ultimately show ?thesis by blast
qed

lemma hub_subs_counts:
  assumes rep: "hub_subs_rep S h"
  shows "hub_NumSubscriptions h = card S" "hub_NumChannels h = card (fst ` S)"
    "hub_NumSubscribers ch h = card {i. (ch, i) \<in> S}" "fset (hub_Channels h) = fst ` S"
proof -
  note r = rep[unfolded hub_subs_rep_def]
  have fin: "finite S" and len: "length (h_subShards h) = numHubShards" using r by auto
  have pairs: "{(ch, i). bk_look (sb_subs (h_subShards h ! k)) ch i \<noteq> None} = {a \<in> S. hidx (fst a) = k}"
    and chans: "{ch. \<exists>i. bk_look (sb_subs (h_subShards h ! k)) ch i \<noteq> None} = {ch \<in> fst ` S. hidx ch = k}"
    and inv: "bk_inv (sb_subs (h_subShards h ! k))" if "k < numHubShards" for k
    using r that by (auto simp: image_iff) (metis fst_conv)
  show "hub_NumSubscriptions h = card S"
    unfolding hub_NumSubscriptions_def
    by (rule sum_list_shards[OF len _ fin, where g = "hidx \<circ> fst"])
      (simp_all add: subShard_NumSubscriptions_def bk_count_def[symmetric] bk_count_card pairs del: not_None_eq)
  show "hub_NumChannels h = card (fst ` S)"
    unfolding hub_NumChannels_def
    by (rule sum_list_shards[OF len _ finite_imageI[OF fin], where g = hidx])
      (simp_all add: subShard_NumChannels_def bk_len_card[OF inv] chans del: not_None_eq)
  show "hub_NumSubscribers ch h = card {i. (ch, i) \<in> S}"
    using hub_subs_shard(2)[OF rep, of ch] bk_get_len[of "sb_subs (h_subShards h ! hidx ch)" ch]
    by (simp add: hub_NumSubscribers_def subShard_NumSubscribers_def bk_get_def fcard_fempty split: option.splits)
  have fold: "fset (fold (\<lambda>s acc. acc |\<union>| subShard_Channels s) xs a) = fset a \<union> (\<Union>s\<in>set xs. fset (subShard_Channels s))" for xs a
    by (induction xs arbitrary: a) auto
  have dom: "fset (subShard_Channels (h_subShards h ! k)) = {ch \<in> fst ` S. hidx ch = k}" if "k < numHubShards" for k
    by (simp only: subShard_Channels_def fmdom_Collect bk_dom[OF inv[OF that]] chans[OF that])
  show "fset (hub_Channels h) = fst ` S"
  proof -
    have "(\<Union>s\<in>set (h_subShards h). fset (subShard_Channels s)) = (\<Union>k<numHubShards. fset (subShard_Channels (h_subShards h ! k)))"
      using len by (auto simp: set_conv_nth)
    also have "\<dots> = (\<Union>k<numHubShards. {ch \<in> fst ` S. hidx ch = k})" by (simp add: dom)
    also have "\<dots> = fst ` S" by force
    finally show ?thesis by (simp add: hub_Channels_def fold)
  qed
qed

datatype sub_op = SubAdd string client_ref | SubRemove string client_ref

fun hub_sub_run :: "sub_op list \<Rightarrow> hub \<Rightarrow> bool list \<times> hub" where
  "hub_sub_run [] h = ([], h)"
| "hub_sub_run (SubAdd ch c # ops) h =
     (let (r, h1) = hub_addSub ch c h; (rs, h2) = hub_sub_run ops h1 in (r # rs, h2))"
| "hub_sub_run (SubRemove ch c # ops) h =
     (let (r, h1) = hub_removeSub ch c h; (rs, h2) = hub_sub_run ops h1 in (r # rs, h2))"

fun set_sub_run :: "sub_op list \<Rightarrow> (string \<times> string) set \<Rightarrow> bool list \<times> (string \<times> string) set" where
  "set_sub_run [] S = ([], S)"
| "set_sub_run (SubAdd ch c # ops) S =
     (let (rs, S2) = set_sub_run ops (insert (ch, cr_ID c) S) in ((ch \<notin> fst ` S) # rs, S2))"
| "set_sub_run (SubRemove ch c # ops) S =
     (let S1 = S - {(ch, cr_ID c)}; (rs, S2) = set_sub_run ops S1
      in (((ch, cr_ID c) \<notin> S \<or> ch \<notin> fst ` S1) # rs, S2))"

lemma set_sub_fst: "(\<forall>i. (ch, i) \<notin> S) \<longleftrightarrow> ch \<notin> fst ` S"
  by force

lemma hub_sub_run_rep:
  "hub_subs_rep S h \<Longrightarrow> fst (hub_sub_run ops h) = fst (set_sub_run ops S)
     \<and> hub_subs_rep (snd (set_sub_run ops S)) (snd (hub_sub_run ops h))"
proof (induction ops arbitrary: S h)
  case (Cons op ops)
  show ?case
  proof (cases op)
    case (SubAdd ch c)
    note a = hub_addSub_rep[OF Cons.prems, of ch c, unfolded set_sub_fst]
    then show ?thesis using Cons.IH[OF conjunct1[OF a]] SubAdd by (simp add: split_def Let_def)
  next
    case (SubRemove ch c)
    note a = hub_removeSub_rep[OF Cons.prems, of ch c, unfolded set_sub_fst]
    then show ?thesis using Cons.IH[OF conjunct1[OF a]] SubRemove by (simp add: split_def Let_def)
  qed
qed simp

text \<open>C11.  The 64 subscription shards together behave like one set of (channel, client) pairs.  For
  every sequence of \<open>addSub\<close> and \<open>removeSub\<close> calls the hub returns \<open>first\<close> exactly when the channel
  had no subscriber, and \<open>empty\<close> exactly when the client was not subscribed or the channel lost its
  last subscriber; afterwards \<open>NumSubscriptions\<close>, \<open>NumChannels\<close>, \<open>NumSubscribers\<close> and \<open>Channels\<close>
  count that set (the comment that entries do not overlap among shards is justified).\<close>

theorem hub_subscriptions_refine_set:
  "let (rs, h) = hub_sub_run ops newHub; (rs', S) = set_sub_run ops {}
   in rs = rs' \<and> hub_NumSubscriptions h = card S \<and> hub_NumChannels h = card (fst ` S)
      \<and> hub_NumSubscribers ch h = card {i. (ch, i) \<in> S} \<and> fset (hub_Channels h) = fst ` S"
  using hub_sub_run_rep[OF hub_subs_rep_new, of ops] hub_subs_counts[of "snd (set_sub_run ops {})" "snd (hub_sub_run ops newHub)"]
  by (auto simp: split_def Let_def)

subsection \<open>Connections\<close>

text \<open>\<open>hub_conns_rep user_of U h\<close>: exactly the clients with the ids in \<open>U\<close> are connected, the
  client \<open>i\<close> as the user \<open>user_of i\<close>.\<close>

definition hub_conns_rep :: "(string \<Rightarrow> string) \<Rightarrow> string set \<Rightarrow> hub \<Rightarrow> bool" where
  "hub_conns_rep user_of U h \<longleftrightarrow> finite U \<and> length (h_connShards h) = numHubShards
     \<and> (\<forall>k<numHubShards. bk_inv (cs_users (h_connShards h ! k))
         \<and> (\<forall>u i. bk_look (cs_users (h_connShards h ! k)) u i \<noteq> None \<longleftrightarrow> i \<in> U \<and> user_of i = u \<and> hidx u = k)
         \<and> (\<forall>i. fmlookup (cs_conns (h_connShards h ! k)) i =
                 (if i \<in> U \<and> hidx (user_of i) = k then Some \<lparr>cr_ID = i, cr_UserID = user_of i\<rparr> else None)))"

lemma hub_conns_rep_new: "hub_conns_rep user_of {} newHub"
  by (simp add: hub_conns_rep_def newHub_def newConnShard_def)

lemma hub_add_rep:
  assumes "hub_conns_rep user_of U h" "cr_UserID c = user_of (cr_ID c)"
  shows "hub_conns_rep user_of (insert (cr_ID c) U) (hub_add c h)"
proof -
  have c: "c = \<lparr>cr_ID = cr_ID c, cr_UserID = user_of (cr_ID c)\<rparr>" using assms(2) by simp
  show ?thesis
    using assms(1) assms(2)[symmetric] c
    by (auto simp: hub_conns_rep_def hub_add_def Let_def nth_list_update bk_look_add bk_inv_add split: if_splits)
qed

lemma hub_remove_rep:
  assumes "hub_conns_rep user_of U h" "cr_UserID c = user_of (cr_ID c)"
  shows "hub_conns_rep user_of (U - {cr_ID c}) (hub_remove c h)"
  using assms
  by (auto simp: hub_conns_rep_def hub_remove_def Let_def nth_list_update bk_look_del bk_inv_del split: if_splits)

lemma hub_conns_counts:
  assumes rep: "hub_conns_rep user_of U h"
  shows "hub_NumClients h = card U" "hub_NumUsers h = card (user_of ` U)"
    "fmlookup (hub_UserConnections u h) i =
       (if i \<in> U \<and> user_of i = u then Some \<lparr>cr_ID = i, cr_UserID = u\<rparr> else None)"
    "fmlookup (hub_Connections h) i = (if i \<in> U then Some \<lparr>cr_ID = i, cr_UserID = user_of i\<rparr> else None)"
    "ui_Online (hub_InfoUser u h) \<longleftrightarrow> u \<in> user_of ` U"
proof -
  note r = rep[unfolded hub_conns_rep_def]
  have fin: "finite U" and len: "length (h_connShards h) = numHubShards" using r by auto
  have inv: "bk_inv (cs_users (h_connShards h ! k))"
    and look: "bk_look (cs_users (h_connShards h ! k)) u i \<noteq> None \<longleftrightarrow> i \<in> U \<and> user_of i = u \<and> hidx u = k"
    and conns: "fmlookup (cs_conns (h_connShards h ! k)) i =
        (if i \<in> U \<and> hidx (user_of i) = k then Some \<lparr>cr_ID = i, cr_UserID = user_of i\<rparr> else None)"
    if "k < numHubShards" for k u i
    using r that by auto
  have pairs: "card {(u, i). bk_look (cs_users (h_connShards h ! k)) u i \<noteq> None} = card {i \<in> U. hidx (user_of i) = k}"
    if "k < numHubShards" for k
  proof -
    have "{(u, i). bk_look (cs_users (h_connShards h ! k)) u i \<noteq> None} = (\<lambda>i. (user_of i, i)) ` {i \<in> U. hidx (user_of i) = k}"
      using look[OF that] by auto
    then show ?thesis by (simp add: card_image inj_on_def)
  qed
  have us: "{u. \<exists>i. bk_look (cs_users (h_connShards h ! k)) u i \<noteq> None} = {u \<in> user_of ` U. hidx u = k}"
    if "k < numHubShards" for k
    using look[OF that] by auto
  show "hub_NumClients h = card U"
    unfolding hub_NumClients_def
    by (rule sum_list_shards[OF len _ fin, where g = "hidx \<circ> user_of"])
      (simp_all add: connShard_NumClients_def bk_count_def[symmetric] bk_count_card pairs del: not_None_eq)
  show "hub_NumUsers h = card (user_of ` U)"
    unfolding hub_NumUsers_def
    by (rule sum_list_shards[OF len _ finite_imageI[OF fin], where g = hidx])
      (simp_all add: connShard_NumUsers_def bk_len_card[OF inv] us del: not_None_eq)
  have uc: "fmlookup (hub_UserConnections u h) i = (if i \<in> U \<and> user_of i = u then Some \<lparr>cr_ID = i, cr_UserID = u\<rparr> else None)" for i
    using look[OF hidx_less, of u u i] conns[OF hidx_less, of u i]
    by (auto simp: hub_UserConnections_def connShard_userConnections_def bk_look_def fmlookup_dom_iff split: option.splits)
  then show "fmlookup (hub_UserConnections u h) i = (if i \<in> U \<and> user_of i = u then Some \<lparr>cr_ID = i, cr_UserID = u\<rparr> else None)" .
  have "ui_Online (hub_InfoUser u h) \<longleftrightarrow> hub_UserConnections u h \<noteq> fmempty"
    by (simp add: hub_InfoUser_def connShard_infoUser_def hub_UserConnections_def fm_len_pos)
  then show "ui_Online (hub_InfoUser u h) \<longleftrightarrow> u \<in> user_of ` U"
    using uc unfolding fm_nonempty by (auto split: if_splits)
  have fold: "fmlookup (fold (\<lambda>shard conns. conns ++\<^sub>f cs_conns shard) xs a) i = Some x \<longleftrightarrow>
      (\<exists>s\<in>set xs. fmlookup (cs_conns s) i = Some x) \<or> (\<forall>s\<in>set xs. fmlookup (cs_conns s) i = None) \<and> fmlookup a i = Some x"
    if "\<forall>s\<in>set xs. \<forall>y. fmlookup (cs_conns s) i = Some y \<longrightarrow> y = z" for xs a x z
    using that
  proof (induction xs arbitrary: a)
    case (Cons s xs)
    then show ?case using Cons.IH[of "a ++\<^sub>f cs_conns s"] by (auto split: if_splits option.splits simp: fmlookup_dom_iff)
  qed simp
  show "fmlookup (hub_Connections h) i = (if i \<in> U then Some \<lparr>cr_ID = i, cr_UserID = user_of i\<rparr> else None)"
  proof -
    have same: "\<forall>s\<in>set (h_connShards h). \<forall>y. fmlookup (cs_conns s) i = Some y \<longrightarrow> y = \<lparr>cr_ID = i, cr_UserID = user_of i\<rparr>"
      using conns len by (auto simp: in_set_conv_nth split: if_splits)
    have "h_connShards h ! hidx (user_of i) \<in> set (h_connShards h)" using len by simp
    moreover have "i \<in> U" if "s \<in> set (h_connShards h)" "fmlookup (cs_conns s) i = Some x" for s x
      using that len conns by (auto simp: in_set_conv_nth split: if_splits)
    ultimately have "(\<exists>s\<in>set (h_connShards h). fmlookup (cs_conns s) i = Some x)
        \<longleftrightarrow> i \<in> U \<and> x = \<lparr>cr_ID = i, cr_UserID = user_of i\<rparr>" for x
      using conns[OF hidx_less, of "user_of i" i] same by metis
    then have "fmlookup (hub_Connections h) i = Some x \<longleftrightarrow> i \<in> U \<and> x = \<lparr>cr_ID = i, cr_UserID = user_of i\<rparr>" for x
      unfolding hub_Connections_def fold[OF same] by simp
    then show ?thesis by (metis option.exhaust)
  qed
qed

datatype conn_op = ConnAdd client_ref | ConnRemove client_ref

fun conn_client :: "conn_op \<Rightarrow> client_ref" where
  "conn_client (ConnAdd c) = c"
| "conn_client (ConnRemove c) = c"

fun hub_conn_run :: "conn_op list \<Rightarrow> hub \<Rightarrow> hub" where
  "hub_conn_run [] h = h"
| "hub_conn_run (ConnAdd c # ops) h = hub_conn_run ops (hub_add c h)"
| "hub_conn_run (ConnRemove c # ops) h = hub_conn_run ops (hub_remove c h)"

fun set_conn_run :: "conn_op list \<Rightarrow> string set \<Rightarrow> string set" where
  "set_conn_run [] U = U"
| "set_conn_run (ConnAdd c # ops) U = set_conn_run ops (insert (cr_ID c) U)"
| "set_conn_run (ConnRemove c # ops) U = set_conn_run ops (U - {cr_ID c})"

lemma hub_conn_run_rep:
  "hub_conns_rep user_of U h \<Longrightarrow> \<forall>op\<in>set ops. cr_UserID (conn_client op) = user_of (cr_ID (conn_client op)) \<Longrightarrow>
     hub_conns_rep user_of (set_conn_run ops U) (hub_conn_run ops h)"
proof (induction ops arbitrary: U h)
  case (Cons op ops)
  then show ?case by (cases op) (auto intro: hub_add_rep hub_remove_rep)
qed simp

text \<open>C12.  The 64 connection shards behave like one table of clients.  As long as a client id always
  belongs to the same user, after any sequence of \<open>add\<close> and \<open>remove\<close> calls the hub holds exactly
  the clients added and not removed since: \<open>Connections\<close> and \<open>UserConnections\<close> list them,
  \<open>NumClients\<close> counts them, \<open>NumUsers\<close> counts their users, and \<open>InfoUser\<close> reports a user
  online exactly when it has one of them.\<close>

theorem hub_connections_refine_set:
  assumes "\<forall>op\<in>set ops. cr_UserID (conn_client op) = user_of (cr_ID (conn_client op))"
  shows "let h = hub_conn_run ops newHub; U = set_conn_run ops {}
    in hub_NumClients h = card U \<and> hub_NumUsers h = card (user_of ` U)
     \<and> fmlookup (hub_Connections h) i = (if i \<in> U then Some \<lparr>cr_ID = i, cr_UserID = user_of i\<rparr> else None)
     \<and> fmlookup (hub_UserConnections u h) i = (if i \<in> U \<and> user_of i = u then Some \<lparr>cr_ID = i, cr_UserID = u\<rparr> else None)
     \<and> (ui_Online (hub_InfoUser u h) \<longleftrightarrow> u \<in> user_of ` U)"
  using hub_conns_counts[OF hub_conn_run_rep[OF hub_conns_rep_new assms]] unfolding Let_def by blast

theorem hub_connections_refine_set_witness:
  "let h = hub_conn_run [ConnAdd \<lparr>cr_ID = ''1'', cr_UserID = ''u''\<rparr>, ConnAdd \<lparr>cr_ID = ''2'', cr_UserID = ''u''\<rparr>, ConnRemove \<lparr>cr_ID = ''1'', cr_UserID = ''u''\<rparr>] newHub;
       U = set_conn_run [ConnAdd \<lparr>cr_ID = ''1'', cr_UserID = ''u''\<rparr>, ConnAdd \<lparr>cr_ID = ''2'', cr_UserID = ''u''\<rparr>, ConnRemove \<lparr>cr_ID = ''1'', cr_UserID = ''u''\<rparr>] {}
    in hub_NumClients h = card U \<and> hub_NumUsers h = card ((\<lambda>_. ''u'') ` U)
     \<and> fmlookup (hub_Connections h) ''2'' = (if ''2'' \<in> U then Some \<lparr>cr_ID = ''2'', cr_UserID = ''u''\<rparr> else None)
     \<and> fmlookup (hub_UserConnections ''u'' h) ''2'' = (if ''2'' \<in> U \<and> ''u'' = ''u'' then Some \<lparr>cr_ID = ''2'', cr_UserID = ''u''\<rparr> else None)
     \<and> (ui_Online (hub_InfoUser ''u'' h) \<longleftrightarrow> ''u'' \<in> (\<lambda>_. ''u'') ` U)"
  by (rule hub_connections_refine_set[where user_of = "\<lambda>_. ''u''"]) simp

subsection \<open>Presence\<close>

text \<open>C13.  The presence table: \<open>add\<close> and \<open>remove\<close> change exactly one (channel, client) entry,
  \<open>get\<close> returns the channel's entries and \<open>nil\<close> exactly when there are none, and \<open>getStats\<close>
  counts the clients and the different users among them.\<close>

theorem presence_correct:
  assumes "bk_inv h"
  shows "bk_inv (presenceHub_add ch uid info h) \<and> bk_inv (presenceHub_remove ch uid h)
     \<and> bk_look (presenceHub_add ch uid info h) ch' uid' = (if ch' = ch \<and> uid' = uid then Some info else bk_look h ch' uid')
     \<and> bk_look (presenceHub_remove ch uid h) ch' uid' = (if ch' = ch \<and> uid' = uid then None else bk_look h ch' uid')
     \<and> (presenceHub_get ch h = None \<longleftrightarrow> (\<forall>i. bk_look h ch i = None))
     \<and> pst_NumClients (presenceHub_getStats ch h) = card {i. bk_look h ch i \<noteq> None}
     \<and> pst_NumUsers (presenceHub_getStats ch h) = card {ci_UserID p | p i. bk_look h ch i = Some p}"
proof -
  have "pst_NumClients (presenceHub_getStats ch h) = card {i. bk_look h ch i \<noteq> None}"
    using bk_get_len[of h ch] by (auto simp: presenceHub_getStats_def bk_get_def fcard_fempty split: option.splits)
  moreover have "pst_NumUsers (presenceHub_getStats ch h) = card {ci_UserID p | p i. bk_look h ch i = Some p}"
  proof (cases "fmlookup h ch")
    case None
    then show ?thesis by (simp add: presenceHub_getStats_def bk_look_def)
  next
    case (Some p)
    have "fset (ci_UserID |`| fmran p) = {ci_UserID q | q i. bk_look h ch i = Some q}"
      using Some by (auto simp: bk_look_def fmlookup_ran_iff image_iff) (metis fmranI)
    then show ?thesis using Some by (simp add: presenceHub_getStats_def fcard.rep_eq)
  qed
  moreover have "presenceHub_get ch h = None \<longleftrightarrow> (\<forall>i. bk_look h ch i = None)"
    using presence.has_iff[OF assms, of ch] by metis
  ultimately show ?thesis
    using presence.invar_add[OF assms] presence.invar_del[OF assms] presence.look_add presence.look_del by auto
qed

theorem presence_correct_witness:
  "let info = \<lparr>ci_ClientID = ''1'', ci_UserID = ''u'', ci_ConnInfo = [], ci_ChanInfo = [], ci_ChanRole = 0\<rparr>;
       h = presenceHub_add ''c'' ''2'' info fmempty
   in bk_inv (presenceHub_add ''c'' ''1'' info h) \<and> bk_inv (presenceHub_remove ''c'' ''1'' h)
     \<and> bk_look (presenceHub_add ''c'' ''1'' info h) ''c'' ''2'' = (if ''c'' = ''c'' \<and> ''2'' = ''1'' then Some info else bk_look h ''c'' ''2'')
     \<and> bk_look (presenceHub_remove ''c'' ''1'' h) ''c'' ''2'' = (if ''c'' = ''c'' \<and> ''2'' = ''1'' then None else bk_look h ''c'' ''2'')
     \<and> (presenceHub_get ''c'' h = None \<longleftrightarrow> (\<forall>i. bk_look h ''c'' i = None))
     \<and> pst_NumClients (presenceHub_getStats ''c'' h) = card {i. bk_look h ''c'' i \<noteq> None}
     \<and> pst_NumUsers (presenceHub_getStats ''c'' h) = card {ci_UserID p | p i. bk_look h ''c'' i = Some p}"
  unfolding Let_def by (rule presence_correct) (simp add: presenceHub_add_eq bk_inv_add)

end
