(* ===== verification/Node.thy ===== *)
theory Node
  imports Hub Codes Dissolve Ordered_Map
begin

text \<open>
  The deliverer node (\<open>server/deliverer/node.go\<close>): configuration defaults
  (with \<open>config.go\<close>), the registry of cluster nodes, the conversions between internal and wire
  records, and the bookkeeping that keeps the broker subscribed to every channel that has a
  subscriber.

  The \<open>Broker\<close> interface of \<open>broker.go\<close> is a record of its two stateful operations over a broker
  state \<open>'b\<close>; \<open>MemoryBroker\<close> (\<open>broker_memory.go\<close>) is one instance.  Time stamps are Unix
  seconds and durations nanoseconds, both as integers; the current time is an argument.
\<close>

section \<open>Configuration\<close>

abbreviation Second :: int where
  "Second \<equiv> 1000000000"

record config =
  cf_Version :: string
  cf_Name :: string
  cf_ClientPresenceUpdateInterval :: int
  cf_ClientExpiredCloseDelay :: int
  cf_ClientExpiredSubCloseDelay :: int
  cf_ClientStaleCloseDelay :: int
  cf_ClientChannelPositionCheckDelay :: int
  cf_ClientQueueMaxSize :: int
  cf_ClientChannelLimit :: int
  cf_UserConnectionLimit :: int
  cf_ChannelMaxLength :: int
  cf_UseSingleFlight :: bool

record pingPongConfig =
  pp_PingInterval :: int
  pp_PongTimeout :: int

definition getPingPongPeriodValues :: "pingPongConfig \<Rightarrow> int \<times> int" where
  "getPingPongPeriodValues config =
     (let pingInterval = (if pp_PingInterval config < 0 then 0
                          else if pp_PingInterval config = 0 then 25 * Second else pp_PingInterval config);
          pongTimeout = (if pp_PongTimeout config < 0 then 0
                         else if pp_PongTimeout config = 0 then 10 * Second else pp_PongTimeout config)
      in (pingInterval, pongTimeout))"

text \<open>The defaulting at the start of \<open>NewNode\<close>; \<open>hostname\<close> is what \<open>os.Hostname\<close> returned.\<close>

definition NewNode_config :: "string \<Rightarrow> config \<Rightarrow> config" where
  "NewNode_config hostname c =
     c\<lparr>cf_ClientPresenceUpdateInterval := (if cf_ClientPresenceUpdateInterval c = 0 then 27 * Second else cf_ClientPresenceUpdateInterval c),
       cf_ClientChannelPositionCheckDelay := (if cf_ClientChannelPositionCheckDelay c = 0 then 40 * Second else cf_ClientChannelPositionCheckDelay c),
       cf_ClientExpiredCloseDelay := (if cf_ClientExpiredCloseDelay c = 0 then 25 * Second else cf_ClientExpiredCloseDelay c),
       cf_ClientExpiredSubCloseDelay := (if cf_ClientExpiredSubCloseDelay c = 0 then 25 * Second else cf_ClientExpiredSubCloseDelay c),
       cf_ClientStaleCloseDelay := (if cf_ClientStaleCloseDelay c = 0 then 15 * Second else cf_ClientStaleCloseDelay c),
       cf_ClientQueueMaxSize := (if cf_ClientQueueMaxSize c = 0 then 1048576 else cf_ClientQueueMaxSize c),
       cf_ClientChannelLimit := (if cf_ClientChannelLimit c = 0 then 128 else cf_ClientChannelLimit c),
       cf_ChannelMaxLength := (if cf_ChannelMaxLength c = 0 then 255 else cf_ChannelMaxLength c),
       cf_Name := (if cf_Name c = '''' then hostname else cf_Name c)\<rparr>"

section \<open>Wire conversions\<close>

record publication =
  pb_Data :: bytes
  pb_Info :: "clientInfo option"
  pb_Tags :: "(string, string) fmap"

record protoClientInfo =
  pi_User :: string
  pi_Client :: string
  pi_ConnInfo :: bytes
  pi_ChanInfo :: bytes

record protoPublication =
  ppb_Data :: bytes
  ppb_Info :: "protoClientInfo option"
  ppb_Tags :: "(string, string) fmap"

text \<open>The fields that the conversions do not set have their zero values.\<close>

definition infoFromProto :: "protoClientInfo option \<Rightarrow> clientInfo option" where
  "infoFromProto v =
     (case v of
        None \<Rightarrow> None
      | Some v \<Rightarrow> Some \<lparr>ci_ClientID = pi_Client v, ci_UserID = pi_User v,
          ci_ConnInfo = (if length (pi_ConnInfo v) > 0 then pi_ConnInfo v else []),
          ci_ChanInfo = (if length (pi_ChanInfo v) > 0 then pi_ChanInfo v else []), ci_ChanRole = 0\<rparr>)"

definition infoToProto :: "clientInfo option \<Rightarrow> protoClientInfo option" where
  "infoToProto v =
     (case v of
        None \<Rightarrow> None
      | Some v \<Rightarrow> Some \<lparr>pi_User = ci_UserID v, pi_Client = ci_ClientID v,
          pi_ConnInfo = (if length (ci_ConnInfo v) > 0 then ci_ConnInfo v else []),
          pi_ChanInfo = (if length (ci_ChanInfo v) > 0 then ci_ChanInfo v else [])\<rparr>)"

definition pubToProto :: "publication option \<Rightarrow> protoPublication option" where
  "pubToProto pub =
     (case pub of
        None \<Rightarrow> None
      | Some pub \<Rightarrow> Some \<lparr>ppb_Data = pb_Data pub, ppb_Info = infoToProto (pb_Info pub), ppb_Tags = pb_Tags pub\<rparr>)"

definition pubFromProto :: "protoPublication option \<Rightarrow> publication option" where
  "pubFromProto pub =
     (case pub of
        None \<Rightarrow> None
      | Some pub \<Rightarrow> Some \<lparr>pb_Data = ppb_Data pub, pb_Info = infoFromProto (ppb_Info pub), pb_Tags = ppb_Tags pub\<rparr>)"

section \<open>The node registry\<close>

record nodeMsg =
  n_Uid :: string
  n_Name :: string
  n_Version :: string
  n_NumClients :: "32 word"
  n_NumUsers :: "32 word"
  n_NumChannels :: "32 word"
  n_Uptime :: "32 word"
  n_Metrics :: "bytes option"
  n_Data :: bytes
  n_NumSubs :: "32 word"

record nodeRegistry =
  nr_currentUID :: string
  nr_nodes :: "(string, nodeMsg) fmap"
  nr_updates :: "(string, int) fmap"

definition newNodeRegistry :: "string \<Rightarrow> nodeRegistry" where
  "newNodeRegistry currentUID = \<lparr>nr_currentUID = currentUID, nr_nodes = fmempty, nr_updates = fmempty\<rparr>"

definition nodeRegistry_list :: "nodeRegistry \<Rightarrow> nodeMsg fset" where
  "nodeRegistry_list r = fmran (nr_nodes r)"

definition nodeRegistry_size :: "nodeRegistry \<Rightarrow> nat" where
  "nodeRegistry_size r = fm_len (nr_nodes r)"

definition nodeRegistry_get :: "string \<Rightarrow> nodeRegistry \<Rightarrow> nodeMsg option" where
  "nodeRegistry_get uid r = fmlookup (nr_nodes r) uid"

definition nodeRegistry_add :: "int \<Rightarrow> nodeMsg \<Rightarrow> nodeRegistry \<Rightarrow> bool \<times> nodeRegistry" where
  "nodeRegistry_add now info r =
     (let (isNewNode, nodes) =
        (case fmlookup (nr_nodes r) (n_Uid info) of
           Some node \<Rightarrow>
             (if n_Metrics info \<noteq> None then (False, fmupd (n_Uid info) info (nr_nodes r))
              else (False, fmupd (n_Uid info)
                     \<lparr>n_Uid = n_Uid info, n_Name = n_Name info, n_Version = n_Version info,
                      n_NumClients = n_NumClients info, n_NumUsers = n_NumUsers info,
                      n_NumChannels = n_NumChannels info, n_Uptime = n_Uptime info,
                      n_Metrics = n_Metrics node, n_Data = n_Data info, n_NumSubs = n_NumSubs info\<rparr> (nr_nodes r)))
         | None \<Rightarrow> (True, fmupd (n_Uid info) info (nr_nodes r)))
      in (isNewNode, r\<lparr>nr_nodes := nodes, nr_updates := fmupd (n_Uid info) now (nr_updates r)\<rparr>))"

definition nodeRegistry_remove :: "string \<Rightarrow> nodeRegistry \<Rightarrow> nodeRegistry" where
  "nodeRegistry_remove uid r = r\<lparr>nr_nodes := fmdrop uid (nr_nodes r), nr_updates := fmdrop uid (nr_updates r)\<rparr>"

text \<open>The body of the loop of \<open>clean\<close>, and the loop over the keys in the order the map iteration
  delivers them; \<open>delay\<close> is in whole seconds (\<open>int64(delay.Seconds())\<close>).\<close>

definition nodeRegistry_clean_one :: "int \<Rightarrow> int \<Rightarrow> string \<Rightarrow> nodeRegistry \<Rightarrow> nodeRegistry" where
  "nodeRegistry_clean_one now delay uid r =
     (if uid = nr_currentUID r then r
      else (case fmlookup (nr_updates r) uid of
              None \<Rightarrow> r\<lparr>nr_nodes := fmdrop uid (nr_nodes r)\<rparr>
            | Some updated \<Rightarrow>
                if now - updated > delay
                then r\<lparr>nr_nodes := fmdrop uid (nr_nodes r), nr_updates := fmdrop uid (nr_updates r)\<rparr>
                else r))"

definition nodeRegistry_clean :: "string list \<Rightarrow> int \<Rightarrow> int \<Rightarrow> nodeRegistry \<Rightarrow> nodeRegistry" where
  "nodeRegistry_clean order now delay r = fold (nodeRegistry_clean_one now delay) order r"

section \<open>Broker and subscriptions\<close>

text \<open>An error of the broker: one of the server's own error values, or any other.\<close>

datatype broker_error = BErrClient error | BErrOther

record 'b broker =
  br_Subscribe :: "string \<Rightarrow> 'b \<Rightarrow> broker_error option \<times> 'b"
  br_Unsubscribe :: "string \<Rightarrow> 'b \<Rightarrow> broker_error option \<times> 'b"

definition MemoryBroker_Subscribe :: "string \<Rightarrow> unit \<Rightarrow> broker_error option \<times> unit" where
  "MemoryBroker_Subscribe ch b = (None, b)"

definition MemoryBroker_Unsubscribe :: "string \<Rightarrow> unit \<Rightarrow> broker_error option \<times> unit" where
  "MemoryBroker_Unsubscribe ch b = (None, b)"

definition MemoryBroker :: "unit broker" where
  "MemoryBroker = \<lparr>br_Subscribe = MemoryBroker_Subscribe, br_Unsubscribe = MemoryBroker_Unsubscribe\<rparr>"

text \<open>The node.  A job of the dissolver is the channel its closure captured; \<open>nd_running\<close> holds
  the jobs that workers have taken from the queue and not finished.\<close>

record 'b node =
  nd_uid :: string
  nd_config :: config
  nd_hub :: hub
  nd_presence :: presenceHub
  nd_nodes :: nodeRegistry
  nd_broker :: 'b
  nd_subDissolver :: "string dissolver"
  nd_running :: "string list"

text \<open>\<open>NewNode\<close>: \<open>uid\<close> is the random id, \<open>b\<close> the state of the broker set on the node.\<close>

definition numSubDissolverWorkers :: nat where
  "numSubDissolverWorkers = 64"

definition NewNode :: "string \<Rightarrow> string \<Rightarrow> 'b \<Rightarrow> config \<Rightarrow> 'b node" where
  "NewNode uid hostname b c =
     \<lparr>nd_uid = uid, nd_config = NewNode_config hostname c, nd_hub = newHub, nd_presence = fmempty,
      nd_nodes = newNodeRegistry uid, nd_broker = b, nd_subDissolver = Dissolver_New numSubDissolverWorkers,
      nd_running = []\<rparr>"

definition addSubscription ::
  "'b broker \<Rightarrow> string \<Rightarrow> client_ref \<Rightarrow> ('b, 'm) node_scheme \<Rightarrow> broker_error option \<times> ('b, 'm) node_scheme" where
  "addSubscription B ch c n =
     (let (first, h1) = hub_addSub ch c (nd_hub n); n1 = n\<lparr>nd_hub := h1\<rparr>
      in if first then
           (case br_Subscribe B ch (nd_broker n1) of
              (Some err, b1) \<Rightarrow> (Some err, n1\<lparr>nd_broker := b1, nd_hub := snd (hub_removeSub ch c h1)\<rparr>)
            | (None, b1) \<Rightarrow> (None, n1\<lparr>nd_broker := b1\<rparr>))
         else (None, n1))"

definition removeSubscription ::
  "string \<Rightarrow> client_ref \<Rightarrow> ('b, 'm) node_scheme \<Rightarrow> ('b, 'm) node_scheme go" where
  "removeSubscription ch c n =
     (let (emp, h1) = hub_removeSub ch c (nd_hub n); n1 = n\<lparr>nd_hub := h1\<rparr>
      in if emp then do {
           (_, d) \<leftarrow> Dissolver_Submit ch (nd_subDissolver n1);
           Some (n1\<lparr>nd_subDissolver := d\<rparr>)
         } else Some n1)"

text \<open>The closure that \<open>removeSubscription\<close> submits: it runs under the channel's lock.\<close>

definition dissolve_job :: "'b broker \<Rightarrow> string \<Rightarrow> ('b, 'm) node_scheme \<Rightarrow> broker_error option \<times> ('b, 'm) node_scheme" where
  "dissolve_job B ch n =
     (if hub_NumSubscribers ch (nd_hub n) = 0 then
        (case br_Unsubscribe B ch (nd_broker n) of (err, b1) \<Rightarrow> (err, n\<lparr>nd_broker := b1\<rparr>))
      else (None, n))"

section \<open>Registry and conversions\<close>

definition registry_inv :: "nodeRegistry \<Rightarrow> bool" where
  "registry_inv r \<longleftrightarrow> fmdom (nr_nodes r) = fmdom (nr_updates r)
     \<and> fBall (fmdom (nr_nodes r)) (\<lambda>uid. n_Uid (the (fmlookup (nr_nodes r) uid)) = uid)"

lemma registry_inv_alt:
  "registry_inv r \<longleftrightarrow> (\<forall>uid. fmlookup (nr_nodes r) uid = None \<longleftrightarrow> fmlookup (nr_updates r) uid = None)
     \<and> (\<forall>uid m. fmlookup (nr_nodes r) uid = Some m \<longrightarrow> n_Uid m = uid)"
proof -
  have "fmdom (nr_nodes r) = fmdom (nr_updates r)
      \<longleftrightarrow> (\<forall>uid. fmlookup (nr_nodes r) uid = None \<longleftrightarrow> fmlookup (nr_updates r) uid = None)"
    by (metis fmdom_notD fmdom_notI fset_eqI)
  moreover have "fBall (fmdom (nr_nodes r)) (\<lambda>uid. n_Uid (the (fmlookup (nr_nodes r) uid)) = uid)
      \<longleftrightarrow> (\<forall>uid m. fmlookup (nr_nodes r) uid = Some m \<longrightarrow> n_Uid m = uid)"
    by (metis fmdomI fmlookup_dom_iff option.sel)
  ultimately show ?thesis by (simp add: registry_inv_def)
qed

lemma registry_inv_new [simp]: "registry_inv (newNodeRegistry uid)"
  by (simp add: registry_inv_alt newNodeRegistry_def)

lemma nodeRegistry_add_nodes:
  "fmlookup (nr_nodes (snd (nodeRegistry_add now info r))) uid =
     (if uid = n_Uid info then
        Some (case fmlookup (nr_nodes r) uid of
                None \<Rightarrow> info
              | Some node \<Rightarrow> info\<lparr>n_Metrics := (if n_Metrics info = None then n_Metrics node else n_Metrics info)\<rparr>)
      else fmlookup (nr_nodes r) uid)"
  by (cases info) (auto simp: nodeRegistry_add_def split: option.splits)

lemma nodeRegistry_add_other [simp]:
  "nr_currentUID (snd (nodeRegistry_add now info r)) = nr_currentUID r"
  "nr_updates (snd (nodeRegistry_add now info r)) = fmupd (n_Uid info) now (nr_updates r)"
  "fst (nodeRegistry_add now info r) \<longleftrightarrow> fmlookup (nr_nodes r) (n_Uid info) = None"
  by (auto simp: nodeRegistry_add_def split: option.splits)

lemma registry_inv_add [inv_intros]: "registry_inv r \<Longrightarrow> registry_inv (snd (nodeRegistry_add now info r))"
  by (auto simp: registry_inv_alt nodeRegistry_add_nodes split: option.splits)

lemma registry_inv_remove [inv_intros]: "registry_inv r \<Longrightarrow> registry_inv (nodeRegistry_remove uid r)"
  by (simp add: registry_inv_alt nodeRegistry_remove_def)

lemma clean_one_lookup:
  "fmlookup (nr_nodes (nodeRegistry_clean_one now delay uid r)) x =
     (if x = uid \<and> uid \<noteq> nr_currentUID r
         \<and> (case fmlookup (nr_updates r) uid of None \<Rightarrow> True | Some t \<Rightarrow> now - t > delay)
      then None else fmlookup (nr_nodes r) x)"
  "fmlookup (nr_updates (nodeRegistry_clean_one now delay uid r)) x =
     (if x = uid \<and> uid \<noteq> nr_currentUID r
         \<and> (case fmlookup (nr_updates r) uid of None \<Rightarrow> True | Some t \<Rightarrow> now - t > delay)
      then None else fmlookup (nr_updates r) x)"
  "nr_currentUID (nodeRegistry_clean_one now delay uid r) = nr_currentUID r"
  by (auto simp: nodeRegistry_clean_one_def split: option.splits)

lemma clean_lookup:
  "fmlookup (nr_nodes (nodeRegistry_clean order now delay r)) x =
     (if x \<in> set order \<and> x \<noteq> nr_currentUID r
         \<and> (case fmlookup (nr_updates r) x of None \<Rightarrow> True | Some t \<Rightarrow> now - t > delay)
      then None else fmlookup (nr_nodes r) x)
   \<and> fmlookup (nr_updates (nodeRegistry_clean order now delay r)) x =
     (if x \<in> set order \<and> x \<noteq> nr_currentUID r
         \<and> (case fmlookup (nr_updates r) x of None \<Rightarrow> True | Some t \<Rightarrow> now - t > delay)
      then None else fmlookup (nr_updates r) x)
   \<and> nr_currentUID (nodeRegistry_clean order now delay r) = nr_currentUID r"
proof (induction order arbitrary: r)
  case (Cons u order)
  have step: "nodeRegistry_clean (u # order) now delay r
      = nodeRegistry_clean order now delay (nodeRegistry_clean_one now delay u r)"
    by (simp add: nodeRegistry_clean_def)
  show ?case
    unfolding step
    using Cons.IH[of "nodeRegistry_clean_one now delay u r"]
    by (cases "x = u") (simp_all add: clean_one_lookup split: option.splits)
qed (simp add: nodeRegistry_clean_def)

lemma registry_inv_clean [inv_intros]:
  assumes "registry_inv r"
  shows "registry_inv (nodeRegistry_clean order now delay r)"
  using assms clean_lookup[of order now delay r] by (auto simp: registry_inv_alt split: if_splits)

text \<open>C14.  The registry: a node message is stored under its own id with the current time and keeps
  the previously known metrics when it brings none; \<open>add\<close> reports a new node exactly when the id
  was unknown; \<open>clean\<close>, in whatever order it visits the nodes, drops exactly the other nodes not
  heard of for more than \<open>delay\<close> seconds and never the current one; all operations keep the node
  and time tables in agreement.\<close>

theorem nodeRegistry_correct:
  assumes "registry_inv r" "set order = fset (fmdom (nr_nodes r))"
  shows "registry_inv (snd (nodeRegistry_add now info r)) \<and> registry_inv (nodeRegistry_remove uid r)
     \<and> registry_inv (nodeRegistry_clean order now delay r)
     \<and> (fst (nodeRegistry_add now info r) \<longleftrightarrow> nodeRegistry_get (n_Uid info) r = None)
     \<and> nodeRegistry_get (n_Uid info) (snd (nodeRegistry_add now info r)) =
         Some (case nodeRegistry_get (n_Uid info) r of
                 None \<Rightarrow> info
               | Some node \<Rightarrow> info\<lparr>n_Metrics := (if n_Metrics info = None then n_Metrics node else n_Metrics info)\<rparr>)
     \<and> nodeRegistry_get uid (nodeRegistry_remove uid r) = None
     \<and> (nodeRegistry_get x (nodeRegistry_clean order now delay r) \<noteq> None \<longleftrightarrow>
          nodeRegistry_get x r \<noteq> None
          \<and> (x = nr_currentUID r \<or> now - the (fmlookup (nr_updates r) x) \<le> delay))"
proof -
  have up: "fmlookup (nr_nodes r) x \<noteq> None \<longleftrightarrow> fmlookup (nr_updates r) x \<noteq> None"
    using assms(1) by (simp add: registry_inv_alt)
  have "x \<in> set order \<longleftrightarrow> fmlookup (nr_nodes r) x \<noteq> None" using assms(2) fmdom_Collect[of "nr_nodes r"] by auto
  then have "nodeRegistry_get x (nodeRegistry_clean order now delay r) \<noteq> None \<longleftrightarrow>
          nodeRegistry_get x r \<noteq> None \<and> (x = nr_currentUID r \<or> now - the (fmlookup (nr_updates r) x) \<le> delay)"
    using clean_lookup[of order now delay r x] up
    by (auto simp: nodeRegistry_get_def split: option.splits if_splits)
  moreover have "nodeRegistry_get uid (nodeRegistry_remove uid r) = None"
    by (simp add: nodeRegistry_get_def nodeRegistry_remove_def)
  ultimately show ?thesis
    using assms(1) by (simp add: inv_intros nodeRegistry_get_def nodeRegistry_add_nodes del: not_None_eq)
qed

theorem nodeRegistry_correct_witness:
  "let m = \<lparr>n_Uid = ''b'', n_Name = [], n_Version = [], n_NumClients = 0, n_NumUsers = 0, n_NumChannels = 0,
            n_Uptime = 0, n_Metrics = None, n_Data = [], n_NumSubs = 0\<rparr>;
       r = newNodeRegistry ''a''
   in registry_inv (snd (nodeRegistry_add 100 m r)) \<and> registry_inv (nodeRegistry_remove ''b'' r)
     \<and> registry_inv (nodeRegistry_clean [] 100 7 r)
     \<and> (fst (nodeRegistry_add 100 m r) \<longleftrightarrow> nodeRegistry_get (n_Uid m) r = None)
     \<and> nodeRegistry_get (n_Uid m) (snd (nodeRegistry_add 100 m r)) =
         Some (case nodeRegistry_get (n_Uid m) r of
                 None \<Rightarrow> m
               | Some node \<Rightarrow> m\<lparr>n_Metrics := (if n_Metrics m = None then n_Metrics node else n_Metrics m)\<rparr>)
     \<and> nodeRegistry_get ''b'' (nodeRegistry_remove ''b'' r) = None
     \<and> (nodeRegistry_get ''b'' (nodeRegistry_clean [] 100 7 r) \<noteq> None \<longleftrightarrow>
          nodeRegistry_get ''b'' r \<noteq> None
          \<and> (''b'' = nr_currentUID r \<or> 100 - the (fmlookup (nr_updates r) ''b'') \<le> 7))"
  unfolding Let_def by (rule nodeRegistry_correct) (simp_all add: newNodeRegistry_def registry_inv_def)

text \<open>Sending a publication over the wire and back loses nothing but the channel role of its
  sender, which the wire format does not carry; wire publications survive the opposite round trip
  unchanged.\<close>

theorem publication_roundtrip:
  "pubFromProto (pubToProto pub) = map_option (pb_Info_update (map_option (ci_ChanRole_update (\<lambda>_. 0)))) pub
   \<and> pubToProto (pubFromProto wire) = wire"
proof -
  have to: "infoFromProto (infoToProto v) = map_option (ci_ChanRole_update (\<lambda>_. 0)) v" for v
    by (cases v) (auto simp: infoFromProto_def infoToProto_def)
  have fro: "infoToProto (infoFromProto v) = v" for v
    by (cases v) (auto simp: infoFromProto_def infoToProto_def)
  show ?thesis
    by (cases pub; cases wire) (simp_all add: pubFromProto_def pubToProto_def to fro)
qed

section \<open>Hub and broker stay in step\<close>

text \<open>What the node relies on of a broker: a successful \<open>Subscribe\<close> makes the channel's messages
  arrive, and no call takes another channel's subscription away.  A precise broker moreover changes
  nothing on an error and leaves the channel on a successful \<open>Unsubscribe\<close>.\<close>

locale broker_contract =
  fixes B :: "'b broker" and subscribed :: "'b \<Rightarrow> string \<Rightarrow> bool"
  assumes Subscribe_ok: "br_Subscribe B ch b = (None, b') \<Longrightarrow> subscribed b' ch"
    and Subscribe_keeps: "br_Subscribe B ch b = (e, b') \<Longrightarrow> subscribed b x \<Longrightarrow> subscribed b' x"
    and Unsubscribe_keeps: "br_Unsubscribe B ch b = (e, b') \<Longrightarrow> x \<noteq> ch \<Longrightarrow> subscribed b x \<Longrightarrow> subscribed b' x"

definition precise_broker :: "'b broker \<Rightarrow> ('b \<Rightarrow> string \<Rightarrow> bool) \<Rightarrow> bool" where
  "precise_broker B subscribed \<longleftrightarrow> broker_contract B subscribed
     \<and> (\<forall>ch b e b' x. br_Subscribe B ch b = (e, b') \<longrightarrow> subscribed b' x \<longrightarrow> subscribed b x \<or> e = None \<and> x = ch)
     \<and> (\<forall>ch b e b' x. br_Unsubscribe B ch b = (e, b') \<longrightarrow> subscribed b' x \<longrightarrow> subscribed b x)
     \<and> (\<forall>ch b b'. br_Unsubscribe B ch b = (None, b') \<longrightarrow> \<not> subscribed b' ch)"

lemma precise_brokerD:
  assumes "precise_broker B subscribed"
  shows "broker_contract B subscribed"
    and "br_Subscribe B ch b = (e, b') \<Longrightarrow> subscribed b' x \<Longrightarrow> subscribed b x \<or> e = None \<and> x = ch"
    and "br_Unsubscribe B ch b = (e, b') \<Longrightarrow> subscribed b' x \<Longrightarrow> subscribed b x"
    and "br_Unsubscribe B ch b = (None, b') \<Longrightarrow> \<not> subscribed b' ch"
  using assms unfolding precise_broker_def by blast+

text \<open>The steps that touch subscriptions, as the channel locks let them interleave: clients
  subscribe and unsubscribe; a dissolver worker takes a job from the queue, and later runs it; a
  job that fails goes back to the queue.\<close>

inductive node_step :: "'b broker \<Rightarrow> 'b node \<Rightarrow> 'b node \<Rightarrow> bool" for B where
  step_add: "addSubscription B ch c n = (e, n') \<Longrightarrow> node_step B n n'"
| step_remove: "removeSubscription ch c n = Some n' \<Longrightarrow> node_step B n n'"
| step_take: "queueImpl_Remove (ds_queue (nd_subDissolver n)) = Some ((Some ch, True), q) \<Longrightarrow>
    node_step B n (n\<lparr>nd_subDissolver := nd_subDissolver n\<lparr>ds_queue := q\<rparr>, nd_running := nd_running n @ [ch]\<rparr>)"
| step_done: "ch \<in> set (nd_running n) \<Longrightarrow> dissolve_job B ch n = (None, n') \<Longrightarrow>
    node_step B n (n'\<lparr>nd_running := remove1 ch (nd_running n')\<rparr>)"
| step_retry: "ch \<in> set (nd_running n) \<Longrightarrow> dissolve_job B ch n = (Some e, n') \<Longrightarrow>
    queueImpl_Add (Some ch) (ds_queue (nd_subDissolver n')) = Some (ok, q) \<Longrightarrow>
    node_step B n (n'\<lparr>nd_subDissolver := nd_subDissolver n'\<lparr>ds_queue := q\<rparr>, nd_running := remove1 ch (nd_running n')\<rparr>)"

inductive node_reachable :: "'b broker \<Rightarrow> 'b node \<Rightarrow> 'b node \<Rightarrow> bool" for B n0 where
  reach_refl: "node_reachable B n0 n0"
| reach_step: "node_reachable B n0 n \<Longrightarrow> node_step B n n' \<Longrightarrow> node_reachable B n0 n'"

definition pending_jobs :: "('b, 'm) node_scheme \<Rightarrow> string set" where
  "pending_jobs n = set (nd_running n) \<union> {ch. Some ch \<in> set (ring_items (ds_queue (nd_subDissolver n)))}"

definition node_fresh :: "('b, 'm) node_scheme \<Rightarrow> bool" where
  "node_fresh n \<longleftrightarrow> nd_hub n = newHub \<and> (\<exists>w. nd_subDissolver n = Dissolver_New w) \<and> nd_running n = []"

definition node_inv :: "('b \<Rightarrow> string \<Rightarrow> bool) \<Rightarrow> (string \<times> string) set \<Rightarrow> ('b, 'm) node_scheme \<Rightarrow> bool" where
  "node_inv subscribed S n \<longleftrightarrow> hub_subs_rep S (nd_hub n) \<and> ring_wf (ds_queue (nd_subDissolver n))
     \<and> \<not> q_closed (ds_queue (nd_subDissolver n)) \<and> (\<forall>ch i. (ch, i) \<in> S \<longrightarrow> subscribed (nd_broker n) ch)"

definition node_tight :: "('b \<Rightarrow> string \<Rightarrow> bool) \<Rightarrow> (string \<times> string) set \<Rightarrow> ('b, 'm) node_scheme \<Rightarrow> bool" where
  "node_tight subscribed S n \<longleftrightarrow> (\<forall>ch. subscribed (nd_broker n) ch \<longrightarrow> (\<exists>i. (ch, i) \<in> S) \<or> ch \<in> pending_jobs n)"

lemma queueImpl_Add_someD:
  assumes "ring_wf q" "\<not> q_closed q" "queueImpl_Add i q = Some (ok, q')"
  shows "ok" "ring_wf q'" "ring_items q' = ring_items q @ [i]" "\<not> q_closed q'"
  using queueImpl_Add_open[OF assms(1,2), of i] assms(3) by auto

lemma Dissolver_Submit_open:
  assumes "ring_wf (ds_queue d)" "\<not> q_closed (ds_queue d)"
  obtains d' where "Dissolver_Submit j d = Some (None, d')" "ring_wf (ds_queue d')" "\<not> q_closed (ds_queue d')"
    "ring_items (ds_queue d') = ring_items (ds_queue d) @ [Some j]"
  using queueImpl_Add_open[OF assms, of "Some j"] that by (auto simp: Dissolver_Submit_def)

lemma queueImpl_Remove_someD:
  assumes "ring_wf q" "queueImpl_Remove q = Some ((x, True), q')"
  shows "ring_wf q'" "\<not> q_closed q'" "ring_items q = x # ring_items q'"
proof -
  have "ring_items q \<noteq> []"
    using assms(2) by (auto simp: queueImpl_Remove_def ring_items_empty_iff split: if_splits)
  then obtain y ys where "ring_items q = y # ys" by (cases "ring_items q") auto
  with queueImpl_Remove_cons[OF assms(1) this] assms(2)
  show "ring_wf q'" "\<not> q_closed q'" "ring_items q = x # ring_items q'" by auto
qed

lemma hub_no_subscribers:
  assumes "hub_subs_rep S h"
  shows "hub_NumSubscribers ch h = 0 \<longleftrightarrow> (\<forall>i. (ch, i) \<notin> S)"
proof -
  have "finite {i. (ch, i) \<in> S}"
    by (rule finite_subset[of _ "snd ` S"]) (use assms in \<open>force simp: hub_subs_rep_def\<close>)+
  then have "card {i. (ch, i) \<in> S} = 0 \<longleftrightarrow> {i. (ch, i) \<in> S} = {}" by (rule card_0_eq)
  then show ?thesis by (simp only: hub_subs_counts(3)[OF assms] Collect_empty_eq)
qed

context broker_contract
begin

lemma addSubscription_inv:
  assumes "node_inv subscribed S n" "addSubscription B ch c n = (e, n')"
  shows "node_inv subscribed (if e = None then insert (ch, cr_ID c) S else S) n'
    \<and> (e \<noteq> None \<longrightarrow> (\<forall>i. (ch, i) \<notin> S))"
proof -
  obtain first h1 where a: "hub_addSub ch c (nd_hub n) = (first, h1)" by fastforce
  have r1: "hub_subs_rep (insert (ch, cr_ID c) S) h1" and f: "first \<longleftrightarrow> (\<forall>i. (ch, i) \<notin> S)"
    using assms(1) hub_addSub_rep[of S "nd_hub n" ch c] by (auto simp: node_inv_def a)
  show ?thesis
  proof (cases first)
    case False
    then have "e = None" "n' = n\<lparr>nd_hub := h1\<rparr>" using assms(2) by (auto simp: addSubscription_def a)
    then show ?thesis using assms(1) r1 False f by (auto simp: node_inv_def)
  next
    case True
    obtain e1 b1 where s: "br_Subscribe B ch (nd_broker n) = (e1, b1)" by fastforce
    have keep: "subscribed (nd_broker n) x \<Longrightarrow> subscribed b1 x" for x by (rule Subscribe_keeps[OF s])
    show ?thesis
    proof (cases e1)
      case None
      then have "e = None" "n' = n\<lparr>nd_hub := h1, nd_broker := b1\<rparr>" using assms(2) True s by (auto simp: addSubscription_def a)
      then show ?thesis using assms(1) r1 keep Subscribe_ok[of ch "nd_broker n" b1] s None by (auto simp: node_inv_def)
    next
      case (Some err)
      then have "e = Some err" "n' = n\<lparr>nd_hub := snd (hub_removeSub ch c h1), nd_broker := b1\<rparr>"
        using assms(2) True s by (auto simp: addSubscription_def a)
      moreover have "hub_subs_rep S (snd (hub_removeSub ch c h1))"
        using hub_removeSub_rep[OF r1, of ch c] True f by simp
      ultimately show ?thesis using assms(1) keep True f by (auto simp: node_inv_def)
    qed
  qed
qed

lemma removeSubscription_inv:
  assumes "node_inv subscribed S n"
  obtains n' where "removeSubscription ch c n = Some n'" "node_inv subscribed (S - {(ch, cr_ID c)}) n'"
    "nd_broker n' = nd_broker n" "pending_jobs n \<subseteq> pending_jobs n'"
    "(\<exists>i. (ch, i) \<in> S - {(ch, cr_ID c)}) \<or> ch \<in> pending_jobs n'"
proof -
  obtain emp h1 where a: "hub_removeSub ch c (nd_hub n) = (emp, h1)" by fastforce
  have r1: "hub_subs_rep (S - {(ch, cr_ID c)}) h1"
    and f: "emp \<longleftrightarrow> (ch, cr_ID c) \<notin> S \<or> (\<forall>i. (ch, i) \<notin> S - {(ch, cr_ID c)})"
    using assms hub_removeSub_rep[of S "nd_hub n" ch c] by (auto simp: node_inv_def a)
  show ?thesis
  proof (cases emp)
    case False
    with f have "\<exists>i. (ch, i) \<in> S - {(ch, cr_ID c)}" by blast
    moreover have "removeSubscription ch c n = Some (n\<lparr>nd_hub := h1\<rparr>)" using False by (simp add: removeSubscription_def a)
    ultimately show ?thesis using that[of "n\<lparr>nd_hub := h1\<rparr>"] assms r1 by (auto simp: node_inv_def pending_jobs_def)
  next
    case True
    obtain d where d: "Dissolver_Submit ch (nd_subDissolver n) = Some (None, d)" "ring_wf (ds_queue d)" "\<not> q_closed (ds_queue d)"
      "ring_items (ds_queue d) = ring_items (ds_queue (nd_subDissolver n)) @ [Some ch]"
      using assms Dissolver_Submit_open[of "nd_subDissolver n" ch] by (auto simp: node_inv_def)
    have "removeSubscription ch c n = Some (n\<lparr>nd_hub := h1, nd_subDissolver := d\<rparr>)"
      using True d(1) by (simp add: removeSubscription_def a)
    then show ?thesis
      using that[of "n\<lparr>nd_hub := h1, nd_subDissolver := d\<rparr>"] assms r1 d(2-) by (auto simp: node_inv_def pending_jobs_def)
  qed
qed

lemma dissolve_job_inv:
  assumes "node_inv subscribed S n" "dissolve_job B ch n = (e, n')"
  shows "node_inv subscribed S n'" "nd_running n' = nd_running n" "nd_subDissolver n' = nd_subDissolver n"
proof -
  have rep: "hub_subs_rep S (nd_hub n)" using assms(1) by (simp add: node_inv_def)
  obtain e1 b1 where s: "br_Unsubscribe B ch (nd_broker n) = (e1, b1)" by fastforce
  have "(\<forall>i. (ch, i) \<notin> S) \<and> n' = n\<lparr>nd_broker := b1\<rparr> \<or> n' = n"
    using assms(2) s by (auto simp: dissolve_job_def hub_no_subscribers[OF rep] split: if_splits)
  moreover have "subscribed b1 x" if "(x, i) \<in> S" "\<forall>i. (ch, i) \<notin> S" for x i
    using that assms(1) Unsubscribe_keeps[OF s, of x] by (metis node_inv_def)
  ultimately show "node_inv subscribed S n'" "nd_running n' = nd_running n" "nd_subDissolver n' = nd_subDissolver n"
    using assms(1) by (auto simp: node_inv_def)
qed

lemma node_step_inv:
  assumes "node_step B n n'" "node_inv subscribed S n"
  shows "\<exists>S'. node_inv subscribed S' n'"
  using assms
proof cases
  case (step_add ch c e)
  then show ?thesis using addSubscription_inv[OF assms(2)] by blast
next
  case (step_remove ch c)
  then show ?thesis using removeSubscription_inv[OF assms(2), of ch c] by (metis option.inject)
next
  case (step_take ch q)
  then show ?thesis using assms(2) queueImpl_Remove_someD[of "ds_queue (nd_subDissolver n)" "Some ch" q]
    by (auto simp: node_inv_def)
next
  case (step_done ch m)
  then show ?thesis using dissolve_job_inv(1)[OF assms(2), of ch None m] by (auto simp: node_inv_def)
next
  case (step_retry ch e m ok q)
  note m = dissolve_job_inv[OF assms(2) step_retry(3)]
  have "ring_wf q \<and> \<not> q_closed q"
    using m(1) queueImpl_Add_someD[OF _ _ step_retry(4)] by (auto simp: node_inv_def)
  then show ?thesis using m(1) step_retry(1) by (auto simp: node_inv_def)
qed

end

lemma addSubscription_tight:
  assumes "precise_broker B subscribed" "node_inv subscribed S n" "node_tight subscribed S n"
    "addSubscription B ch c n = (e, n')"
  shows "\<exists>S'. node_inv subscribed S' n' \<and> node_tight subscribed S' n'"
proof -
  note B = precise_brokerD[OF assms(1)]
  have p: "pending_jobs n' = pending_jobs n"
    using assms(4) by (auto simp: addSubscription_def pending_jobs_def Let_def split: prod.splits if_splits option.splits)
  obtain e1 b1 where s: "br_Subscribe B ch (nd_broker n) = (e1, b1)" by fastforce
  have "nd_broker n' = nd_broker n \<or> nd_broker n' = b1 \<and> e = e1"
    using assms(4) by (auto simp: addSubscription_def Let_def s split: prod.splits if_splits option.splits)
  then have "subscribed (nd_broker n') x \<Longrightarrow> subscribed (nd_broker n) x \<or> e = None \<and> x = ch" for x
    using B(2)[OF s, of x] by auto
  then have "node_tight subscribed (if e = None then insert (ch, cr_ID c) S else S) n'"
    using assms(3) by (auto simp: node_tight_def p)
  then show ?thesis using broker_contract.addSubscription_inv[OF B(1) assms(2,4)] by blast
qed

lemma removeSubscription_tight:
  assumes "precise_broker B subscribed" "node_inv subscribed S n" "node_tight subscribed S n"
    "removeSubscription ch c n = Some n'"
  shows "\<exists>S'. node_inv subscribed S' n' \<and> node_tight subscribed S' n'"
proof -
  note B = precise_brokerD[OF assms(1)]
  obtain m where m: "removeSubscription ch c n = Some m" "node_inv subscribed (S - {(ch, cr_ID c)}) m"
    "nd_broker m = nd_broker n" "pending_jobs n \<subseteq> pending_jobs m"
    "(\<exists>i. (ch, i) \<in> S - {(ch, cr_ID c)}) \<or> ch \<in> pending_jobs m"
    by (rule broker_contract.removeSubscription_inv[OF B(1) assms(2)])
  have "(\<exists>i. (x, i) \<in> S - {(ch, cr_ID c)}) \<or> x \<in> pending_jobs m" if "subscribed (nd_broker m) x" for x
    using that assms(3) m(3-5) by (cases "x = ch") (auto simp: node_tight_def)
  then have "node_tight subscribed (S - {(ch, cr_ID c)}) m" unfolding node_tight_def by blast
  moreover have "n' = m" using m(1) assms(4) by simp
  ultimately show ?thesis using m(2) by blast
qed

lemma dissolve_job_tight:
  assumes "precise_broker B subscribed" "node_inv subscribed S n" "node_tight subscribed S n"
    "dissolve_job B ch n = (e, n')" "subscribed (nd_broker n') x"
  shows "(\<exists>i. (x, i) \<in> S) \<or> x \<in> pending_jobs n" "e = None \<Longrightarrow> x = ch \<Longrightarrow> \<exists>i. (x, i) \<in> S"
proof -
  note B = precise_brokerD[OF assms(1)]
  have rep: "hub_subs_rep S (nd_hub n)" using assms(2) by (simp add: node_inv_def)
  have "subscribed (nd_broker n) x \<and> (e = None \<longrightarrow> x = ch \<longrightarrow> (\<exists>i. (ch, i) \<in> S))"
    using assms(4,5) B(4)[of ch "nd_broker n"] B(3)[of ch "nd_broker n"]
    by (auto simp: dissolve_job_def hub_no_subscribers[OF rep] split: prod.splits if_splits)
  then show "(\<exists>i. (x, i) \<in> S) \<or> x \<in> pending_jobs n" "e = None \<Longrightarrow> x = ch \<Longrightarrow> \<exists>i. (x, i) \<in> S"
    using assms(3) by (auto simp: node_tight_def)
qed

lemma node_step_tight:
  assumes "node_step B n n'" "node_inv subscribed S n" "node_tight subscribed S n" "precise_broker B subscribed"
  shows "\<exists>S'. node_inv subscribed S' n' \<and> node_tight subscribed S' n'"
  using assms(1)
proof cases
  case (step_take ch q)
  have q: "ring_wf q" "\<not> q_closed q" "ring_items (ds_queue (nd_subDissolver n)) = Some ch # ring_items q"
    using assms(2) queueImpl_Remove_someD[OF _ step_take(2)] by (auto simp: node_inv_def)
  then have "pending_jobs n' = pending_jobs n" by (auto simp: pending_jobs_def step_take(1))
  then have "node_tight subscribed S n'" using assms(3) by (simp add: node_tight_def step_take(1))
  moreover have "node_inv subscribed S n'" using assms(2) q by (simp add: node_inv_def step_take(1))
  ultimately show ?thesis by blast
next
  case (step_done ch m)
  note m = broker_contract.dissolve_job_inv[OF precise_brokerD(1)[OF assms(4)] assms(2) step_done(3)]
  have "x = ch \<or> x \<in> pending_jobs n'" if "x \<in> pending_jobs n" for x
    using that by (auto simp: pending_jobs_def step_done(1) m(2,3) in_set_remove1)
  then have "node_tight subscribed S n'"
    using dissolve_job_tight[OF assms(4,2,3) step_done(3)] unfolding node_tight_def step_done(1) by simp blast
  moreover have "node_inv subscribed S n'" using m(1) by (simp add: node_inv_def step_done(1))
  ultimately show ?thesis by blast
next
  case (step_retry ch e m ok q)
  note m = broker_contract.dissolve_job_inv[OF precise_brokerD(1)[OF assms(4)] assms(2) step_retry(3)]
  have q: "ring_wf q" "\<not> q_closed q" "ring_items q = ring_items (ds_queue (nd_subDissolver m)) @ [Some ch]"
    using m(1) queueImpl_Add_someD[OF _ _ step_retry(4)] by (auto simp: node_inv_def)
  have "x \<in> pending_jobs n'" if "x \<in> pending_jobs n" for x
    using that q(3) by (cases "x = ch") (auto simp: pending_jobs_def step_retry(1) m(2,3) in_set_remove1)
  then have "node_tight subscribed S n'"
    using dissolve_job_tight(1)[OF assms(4,2,3) step_retry(3)] unfolding node_tight_def step_retry(1) by simp blast
  moreover have "node_inv subscribed S n'" using m(1) q by (simp add: node_inv_def step_retry(1))
  ultimately show ?thesis by blast
qed (fact addSubscription_tight[OF assms(4,2,3)] removeSubscription_tight[OF assms(4,2,3)])+

lemma node_fresh_inv:
  assumes "node_fresh n"
  shows "node_inv subscribed {} n"
  using assms hub_subs_rep_new by (auto simp: node_fresh_def node_inv_def Dissolver_New_def)

lemma node_reachable_inv:
  assumes "broker_contract B subscribed" "node_fresh n0" "node_reachable B n0 n"
  shows "\<exists>S. node_inv subscribed S n"
  using assms(3)
proof induction
  case reach_refl
  then show ?case using node_fresh_inv[OF assms(2)] by blast
next
  case (reach_step n n')
  then show ?case using broker_contract.node_step_inv[OF assms(1)] by blast
qed

lemma node_reachable_tight:
  assumes "precise_broker B subscribed" "node_fresh n0" "\<forall>ch. \<not> subscribed (nd_broker n0) ch" "node_reachable B n0 n"
  shows "\<exists>S. node_inv subscribed S n \<and> node_tight subscribed S n"
  using assms(4)
proof induction
  case reach_refl
  then show ?case using node_fresh_inv[OF assms(2)] assms(3) by (auto simp: node_tight_def)
next
  case (reach_step n n')
  then show ?case using node_step_tight[OF _ _ _ assms(1)] by blast
qed

text \<open>The in-memory broker hands every publication to the node whatever was subscribed.\<close>

interpretation memb: broker_contract MemoryBroker "\<lambda>_ _. True"
  by unfold_locales simp_all

text \<open>C15.  However subscribing, unsubscribing and the background jobs interleave, a channel that
  has a subscriber in the hub is subscribed at the broker: the deferred \<open>Unsubscribe\<close> of a
  channel left by its last client never hits a channel that was joined again.  With a precise
  broker no subscription leaks either: a channel subscribed at the broker has a subscriber, or a
  job to leave it is queued or running.\<close>

theorem broker_subscription_safety:
  assumes "broker_contract B subscribed" "node_fresh n0" "node_reachable B n0 n"
  shows "(0 < hub_NumSubscribers ch (nd_hub n) \<longrightarrow> subscribed (nd_broker n) ch)
    \<and> (precise_broker B subscribed \<and> (\<forall>x. \<not> subscribed (nd_broker n0) x) \<longrightarrow> subscribed (nd_broker n) ch
        \<longrightarrow> 0 < hub_NumSubscribers ch (nd_hub n) \<or> ch \<in> pending_jobs n)"
proof (intro conjI impI)
  obtain S where "node_inv subscribed S n" using node_reachable_inv[OF assms] by blast
  then show "subscribed (nd_broker n) ch" if "0 < hub_NumSubscribers ch (nd_hub n)"
    using that hub_no_subscribers[of S "nd_hub n" ch] by (auto simp: node_inv_def)
next
  assume "precise_broker B subscribed \<and> (\<forall>x. \<not> subscribed (nd_broker n0) x)" and s: "subscribed (nd_broker n) ch"
  then obtain S where S: "node_inv subscribed S n" "node_tight subscribed S n"
    using node_reachable_tight[OF _ assms(2) _ assms(3)] by blast
  show "0 < hub_NumSubscribers ch (nd_hub n) \<or> ch \<in> pending_jobs n"
    using S s hub_no_subscribers[of S "nd_hub n" ch] by (auto simp: node_inv_def node_tight_def)
qed

definition list_broker :: "string list broker" where
  "list_broker = \<lparr>br_Subscribe = (\<lambda>ch b. (None, ch # b)), br_Unsubscribe = (\<lambda>ch b. (None, filter ((\<noteq>) ch) b))\<rparr>"

lemma node_fresh_NewNode [simp]: "node_fresh (NewNode uid hostname b c)"
  by (auto simp: node_fresh_def NewNode_def)

definition zero_config :: config where
  "zero_config = \<lparr>cf_Version = [], cf_Name = [], cf_ClientPresenceUpdateInterval = 0, cf_ClientExpiredCloseDelay = 0,
     cf_ClientExpiredSubCloseDelay = 0, cf_ClientStaleCloseDelay = 0, cf_ClientChannelPositionCheckDelay = 0,
     cf_ClientQueueMaxSize = 0, cf_ClientChannelLimit = 0, cf_UserConnectionLimit = 0, cf_ChannelMaxLength = 0,
     cf_UseSingleFlight = False\<rparr>"

lemma list_broker_precise: "precise_broker list_broker (\<lambda>b x. x \<in> set b)"
  by (auto simp: precise_broker_def broker_contract_def list_broker_def split: if_splits)

lemma broker_example:
  defines "n0 \<equiv> NewNode ''n'' ''h'' [] zero_config"
    and "n \<equiv> snd (addSubscription list_broker ''room'' \<lparr>cr_ID = ''c1'', cr_UserID = ''u''\<rparr> (NewNode ''n'' ''h'' [] zero_config))"
  shows "node_reachable list_broker n0 n" "0 < hub_NumSubscribers ''room'' (nd_hub n)"
proof -
  show "node_reachable list_broker n0 n"
    unfolding n0_def n_def by (rule reach_step[OF reach_refl], rule step_add, rule prod.collapse[symmetric])
  obtain e where e: "addSubscription list_broker ''room'' \<lparr>cr_ID = ''c1'', cr_UserID = ''u''\<rparr> n0 = (e, n)"
    unfolding n_def n0_def by (metis prod.collapse)
  have "e = None" using e by (auto simp: addSubscription_def list_broker_def Let_def split: prod.splits if_splits)
  moreover have "node_inv (\<lambda>b x. x \<in> set b) {} n0" unfolding n0_def by (rule node_fresh_inv) simp
  ultimately have "hub_subs_rep {(''room'', ''c1'')} (nd_hub n)"
    using broker_contract.addSubscription_inv[OF precise_brokerD(1)[OF list_broker_precise] _ e] by (simp add: node_inv_def)
  then show "0 < hub_NumSubscribers ''room'' (nd_hub n)" using hub_no_subscribers[of _ "nd_hub n" "''room''"] by auto
qed

theorem broker_subscription_safety_witness:
  "\<exists>n. node_reachable list_broker (NewNode ''n'' ''h'' [] zero_config) n
     \<and> 0 < hub_NumSubscribers ''room'' (nd_hub n) \<and> ''room'' \<in> set (nd_broker n)"
proof -
  have f: "node_fresh (NewNode ''n'' ''h'' ([] :: string list) zero_config)" by simp
  show ?thesis
    using broker_example broker_subscription_safety[OF precise_brokerD(1)[OF list_broker_precise] f broker_example(1), of "''room''"]
    by blast
qed

end
