(* ===== verification/Client_State.thy ===== *)
theory Client_State
  imports Node Writer Go_Strings
begin

text \<open>
  A client connection of the message server: \<open>server/deliverer/client.go\<close>.

  The state of a connection is the record \<open>client\<close>; every operation also takes and returns the
  node it belongs to.  The record carries, besides the fields of the Go struct:
  \<^item> \<open>c_transport\<close>, the state of the transport, on which the transport's functions in \<open>env\<close> act;
  \<^item> \<open>c_closing\<close>, the disconnects that a goroutine started by an operation will later call
    \<open>close\<close> with, in the order they were started;
  \<^item> \<open>c_events\<close>, the calls of the application's event handlers;
  \<^item> \<open>c_runArgs\<close>, the arguments of the running writer goroutine;
  \<^item> \<open>c_timer\<close>, the delay of the pending timer.
  An application handler gets an event and a callback; the callback is an operation of its own
  (\<open>\<dots>_cb\<close>), since the application may call it at any later time.  Encoding a reply is generated
  code and an argument (\<open>ev_encode\<close>, \<open>None\<close> an error).  Nothing in the repository starts buffering
  in a client's \<open>PubSubSync\<close>, so that \<open>StopBuffering\<close> has no effect and \<open>SyncPublication\<close> runs its
  function at once (see \<open>Pub_Sub_Sync\<close>).  Times are nanoseconds since the epoch.
\<close>

section \<open>Channel flags\<close>

abbreviation flagSubscribed :: byte where "flagSubscribed \<equiv> 1"
abbreviation flagEmitPresence :: byte where "flagEmitPresence \<equiv> 2"
abbreviation flagEmitJoinLeave :: byte where "flagEmitJoinLeave \<equiv> 4"
abbreviation flagPushJoinLeave :: byte where "flagPushJoinLeave \<equiv> 8"
abbreviation flagServerSide :: byte where "flagServerSide \<equiv> 16"
abbreviation flagClientSideRefresh :: byte where "flagClientSideRefresh \<equiv> 32"

record channelContext =
  cc_info :: bytes
  cc_expireAt :: int
  cc_positionCheckTime :: int
  cc_flags :: byte
  cc_role :: int
  cc_Source :: byte

unbundle bit_operations_syntax

definition channelHasFlag :: "byte \<Rightarrow> byte \<Rightarrow> bool" where
  "channelHasFlag flags flag \<longleftrightarrow> flags AND flag \<noteq> 0"

definition zero_channelContext :: channelContext where
  "zero_channelContext = \<lparr>cc_info = [], cc_expireAt = 0, cc_positionCheckTime = 0, cc_flags = 0, cc_role = 0, cc_Source = 0\<rparr>"

datatype status = statusConnecting | statusConnected | statusClosed

datatype timerOp = timerOpNone | timerOpStale | timerOpPresence | timerOpExpire | timerOpPing

section \<open>Replies, events and errors\<close>

datatype err = EDisconnect disconnect | EError error | EOther string

record subscribeResult =
  sr_Expires :: bool
  sr_Ttl :: "32 word"
  sr_Data :: bytes

record connectResult =
  cn_Client :: string
  cn_Expires :: bool
  cn_Ttl :: "32 word"
  cn_Data :: bytes
  cn_Subs :: "(string, subscribeResult) fmap"
  cn_Ping :: "32 word"

datatype push =
    PublicationPush protoPublication
  | UnsubscribePush unsubscribe
  | MessagePush bytes
  | SubscribePush bytes
  | DisconnectPush disconnect
  | RefreshPush bool "32 word"

datatype reply_body =
    PingReply
  | ErrorReply error
  | PushReply string push
  | ConnectRes connectResult
  | SubscribeRes subscribeResult
  | UnsubscribeRes
  | PublishRes
  | PresenceRes "(string, protoClientInfo option) fmap"
  | PresenceStatsRes "32 word" "32 word"
  | RefreshRes bool "32 word"

record reply =
  rp_Id :: "32 word"
  rp_Body :: reply_body

datatype event =
    EvAlive
  | EvConnect
  | EvSubscribe string string bytes
  | EvUnsubscribe string bool unsubscribe "disconnect option"
  | EvPublish string bytes clientInfo
  | EvPresence string
  | EvPresenceStats string
  | EvRefresh bool string
  | EvMessage bytes
  | EvDisconnect disconnect

text \<open>Which handlers the application has set.\<close>

record eventHub =
  eh_alive :: bool
  eh_subscribe :: bool
  eh_unsubscribe :: bool
  eh_publish :: bool
  eh_presence :: bool
  eh_presenceStats :: bool
  eh_refresh :: bool
  eh_message :: bool
  eh_disconnect :: bool

definition toClientErr :: "err \<Rightarrow> error" where
  "toClientErr e = (case e of EError clientErr \<Rightarrow> clientErr | _ \<Rightarrow> ErrorInternal)"

definition extractUnidirectionalDisconnect :: "err \<Rightarrow> disconnect" where
  "extractUnidirectionalDisconnect e =
     (case e of
        EDisconnect d \<Rightarrow> d
      | EError t \<Rightarrow> if e_Code t = e_Code ErrorExpired then DisconnectExpired
                    else if e_Code t = e_Code ErrorPermissionDenied then DisconnectPermissionDenied
                    else DisconnectServerError
      | EOther _ \<Rightarrow> DisconnectServerError)"

section \<open>The connection\<close>

record 't env =
  ev_write :: "bytes \<Rightarrow> 't \<Rightarrow> write_error option \<times> 't"
  ev_writeMany :: "bytes list \<Rightarrow> 't \<Rightarrow> write_error option \<times> 't"
  ev_transportClose :: "disconnect \<Rightarrow> 't \<Rightarrow> 't"
  ev_transportPingPong :: pingPongConfig
  ev_transportWriteHandler :: "(item \<Rightarrow> bool) option"
  ev_encode :: "reply \<Rightarrow> bytes option"
  ev_channelLabel :: bool
  ev_channelLabelForSent :: bool

record 't client =
  c_uid :: string
  c_user :: string
  c_info :: bytes
  c_exp :: int
  c_channels :: "(string, channelContext) fmap"
  c_messageWriter :: "('t \<times> disconnect list) writer option"
  c_runArgs :: "(int \<times> int) option"
  c_authenticated :: bool
  c_clientSideRefresh :: bool
  c_status :: status
  c_timerOp :: timerOp
  c_timer :: "int option"
  c_nextPresence :: int
  c_nextExpire :: int
  c_nextPing :: int
  c_lastPing :: int
  c_pingInterval :: int
  c_pongTimeout :: int
  c_replyWithoutQueue :: bool
  c_unusable :: bool
  c_ctxDone :: bool
  c_eventHub :: eventHub
  c_transport :: 't
  c_closing :: "disconnect list"
  c_events :: "event list"

definition client_ref_of :: "'t client \<Rightarrow> client_ref" where
  "client_ref_of c = \<lparr>cr_ID = c_uid c, cr_UserID = c_user c\<rparr>"

definition no_handlers :: eventHub where
  "no_handlers = \<lparr>eh_alive = False, eh_subscribe = False, eh_unsubscribe = False, eh_publish = False,
     eh_presence = False, eh_presenceStats = False, eh_refresh = False, eh_message = False, eh_disconnect = False\<rparr>"

definition NewClient :: "string \<Rightarrow> config \<Rightarrow> 't \<Rightarrow> 't client" where
  "NewClient uid config t =
     \<lparr>c_uid = uid, c_user = '''', c_info = [], c_exp = 0, c_channels = fmempty, c_messageWriter = None,
      c_runArgs = None, c_authenticated = False, c_clientSideRefresh = False, c_status = statusConnecting,
      c_timerOp = (if cf_ClientStaleCloseDelay config > 0 then timerOpStale else timerOpNone),
      c_timer = (if cf_ClientStaleCloseDelay config > 0 then Some (cf_ClientStaleCloseDelay config) else None),
      c_nextPresence = 0, c_nextExpire = 0, c_nextPing = 0, c_lastPing = 0, c_pingInterval = 0, c_pongTimeout = 0,
      c_replyWithoutQueue = False, c_unusable = False, c_ctxDone = False, c_eventHub = no_handlers,
      c_transport = t, c_closing = [], c_events = []\<rparr>"

end
