(* ===== verification/Client.thy ===== *)
theory Client
  imports Client_State
begin

text \<open>
  The operations of a connection that do not depend on a client command: the writer, timers,
  presence, unsubscribing and closing (\<open>server/deliverer/client.go\<close>).
\<close>

section \<open>Writing\<close>

text \<open>\<open>startWriter\<close> runs its body once.\<close>

definition client_startWriter :: "'t env \<Rightarrow> config \<Rightarrow> int \<Rightarrow> int \<Rightarrow> nat \<Rightarrow> 't client \<Rightarrow> 't client" where
  "client_startWriter E config batchDelay maxMessagesInFrame queueInitialCap c =
     (if c_messageWriter c \<noteq> None then c
      else c\<lparr>c_messageWriter := Some (startWriter (ev_transportWriteHandler E) (ev_write E) (ev_writeMany E)
               (cf_ClientQueueMaxSize config) queueInitialCap),
             c_runArgs := Some (batchDelay, maxMessagesInFrame)\<rparr>)"

text \<open>A call on a writer that was never started dereferences a nil pointer.  The boolean says that
  the result is \<open>io.EOF\<close>.\<close>

definition transportEnqueue :: "'t env \<Rightarrow> bytes \<Rightarrow> string \<Rightarrow> byte \<Rightarrow> 't client \<Rightarrow> (bool \<times> 't client) go" where
  "transportEnqueue E data ch frameType c = do {
     w \<leftarrow> c_messageWriter c;
     (disconnect, w1) \<leftarrow> writer_enqueue \<lparr>it_Data = data, it_Channel = (if ev_channelLabel E then ch else ''''), it_FrameType = frameType\<rparr> w;
     let c1 = c\<lparr>c_messageWriter := Some w1\<rparr>;
     (case disconnect of
        Some d \<Rightarrow> Some (True, c1\<lparr>c_closing := c_closing c1 @ [d]\<rparr>)
      | None \<Rightarrow> Some (False, c1))
   }"

definition encodeReply :: "'t env \<Rightarrow> reply_body \<Rightarrow> bytes option" where
  "encodeReply E body = ev_encode E \<lparr>rp_Id = 0, rp_Body = body\<rparr>"

text \<open>\<open>Send\<close>: the first component is the error it returns.\<close>

definition client_Send :: "'t env \<Rightarrow> bytes \<Rightarrow> 't client \<Rightarrow> (err option \<times> 't client) go" where
  "client_Send E data c =
     (case encodeReply E (PushReply '''' (MessagePush data)) of
        None \<Rightarrow> Some (Some (EOther ''encode''), c)
      | Some replyData \<Rightarrow> do {
          (eof, c1) \<leftarrow> transportEnqueue E replyData '''' FrameTypePushMessage c;
          Some (if eof then Some (EOther ''EOF'') else None, c1)
        })"

definition sendUnsubscribe :: "'t env \<Rightarrow> string \<Rightarrow> unsubscribe \<Rightarrow> 't client \<Rightarrow> (err option \<times> 't client) go" where
  "sendUnsubscribe E ch unsub c =
     (case encodeReply E (PushReply ch (UnsubscribePush unsub)) of
        None \<Rightarrow> Some (Some (EOther ''encode''), c)
      | Some replyData \<Rightarrow> do {
          (_, c1) \<leftarrow> transportEnqueue E replyData ch FrameTypePushUnsubscribe c;
          Some (None, c1)
        })"

definition writeEncodedCommandReply ::
  "'t env \<Rightarrow> string \<Rightarrow> byte \<Rightarrow> 32 word \<Rightarrow> reply_body \<Rightarrow> 't client \<Rightarrow> 't client go" where
  "writeEncodedCommandReply E ch frameType cmdId body c =
     (case ev_encode E \<lparr>rp_Id = cmdId, rp_Body = body\<rparr> of
        None \<Rightarrow> Some (c\<lparr>c_closing := c_closing c @ [DisconnectInappropriateProtocol]\<rparr>)
      | Some replyData \<Rightarrow> do {
          let item = \<lparr>it_Data = replyData,
                      it_Channel = (if ch \<noteq> '''' \<and> ev_channelLabel E \<and> ev_channelLabelForSent E then ch else ''''),
                      it_FrameType = frameType\<rparr>;
          w \<leftarrow> c_messageWriter c;
          if c_replyWithoutQueue c then
            (case WriteFn (w_config w) item (c_transport c, c_closing c) of
               (e, (t1, closing1)) \<Rightarrow>
                 Some (c\<lparr>c_transport := t1,
                         c_closing := closing1 @ (if e \<noteq> None then [DisconnectWriteError] else [])\<rparr>))
          else do {
            (disconnect, w1) \<leftarrow> writer_enqueue item w;
            Some (c\<lparr>c_messageWriter := Some w1,
                    c_closing := c_closing c @ (case disconnect of None \<Rightarrow> [] | Some d \<Rightarrow> [d])\<rparr>)
          }
        })"

definition writeDisconnectOrErrorFlush ::
  "'t env \<Rightarrow> string \<Rightarrow> byte \<Rightarrow> 32 word \<Rightarrow> err \<Rightarrow> 't client \<Rightarrow> 't client go" where
  "writeDisconnectOrErrorFlush E ch frameType cmdId replyError c =
     (case replyError of
        EDisconnect t \<Rightarrow> Some (c\<lparr>c_closing := c_closing c @ [t]\<rparr>)
      | _ \<Rightarrow> writeEncodedCommandReply E ch frameType cmdId (ErrorReply (toClientErr replyError)) c)"

text \<open>\<open>writePublication\<close> and \<open>writePublicationUpdatePosition\<close>.\<close>

definition writePublication :: "'t env \<Rightarrow> int \<Rightarrow> string \<Rightarrow> bytes \<Rightarrow> 't client \<Rightarrow> 't client go" where
  "writePublication E now ch data c =
     (case fmlookup (c_channels c) ch of
        None \<Rightarrow> Some c
      | Some channelContext \<Rightarrow>
          if \<not> channelHasFlag (cc_flags channelContext) flagSubscribed then Some c
          else do {
            let c1 = c\<lparr>c_channels := fmupd ch (channelContext\<lparr>cc_positionCheckTime := now div Second\<rparr>) (c_channels c)\<rparr>;
            (_, c2) \<leftarrow> transportEnqueue E data ch FrameTypePushPublication c1;
            Some c2
          })"

section \<open>Unsubscribing and closing\<close>

definition unsubscribe_presence :: "string \<Rightarrow> channelContext \<Rightarrow> 't client \<Rightarrow> ('b, 'm) node_scheme \<Rightarrow> ('b, 'm) node_scheme" where
  "unsubscribe_presence channel chCtx c n =
     (if channelHasFlag (cc_flags chCtx) flagEmitPresence \<and> channelHasFlag (cc_flags chCtx) flagSubscribed
      then n\<lparr>nd_presence := presenceHub_remove channel (c_uid c) (nd_presence n)\<rparr> else n)"

definition client_unsubscribe ::
  "string \<Rightarrow> unsubscribe \<Rightarrow> disconnect option \<Rightarrow> ('b, 'm) node_scheme \<Rightarrow> 't client \<Rightarrow> (('b, 'm) node_scheme \<times> 't client) go" where
  "client_unsubscribe channel unsub disconnect n c =
     (case fmlookup (c_channels c) channel of
        None \<Rightarrow> Some (n, c)
      | Some chCtx \<Rightarrow> do {
          let serverSide = channelHasFlag (cc_flags chCtx) flagServerSide;
          let c1 = c\<lparr>c_channels := fmdrop channel (c_channels c)\<rparr>;
          n2 \<leftarrow> removeSubscription channel (client_ref_of c1) (unsubscribe_presence channel chCtx c1 n);
          Some (n2, if channelHasFlag (cc_flags chCtx) flagSubscribed \<and> eh_unsubscribe (c_eventHub c1)
                    then c1\<lparr>c_events := c_events c1 @ [EvUnsubscribe channel serverSide unsub disconnect]\<rparr> else c1)
        })"

text \<open>The loop of \<open>close\<close> over the channels, in the order \<open>order\<close> of the map iteration.\<close>

fun close_channels ::
  "disconnect \<Rightarrow> string list \<Rightarrow> ('b, 'm) node_scheme \<Rightarrow> 't client \<Rightarrow> (('b, 'm) node_scheme \<times> 't client) go" where
  "close_channels disconnect [] n c = Some (n, c)"
| "close_channels disconnect (channel # order) n c = do {
     (n1, c1) \<leftarrow> client_unsubscribe channel unsubscribeDisconnect (Some disconnect) n c;
     close_channels disconnect order n1 c1
   }"

definition close_notify :: "'t env \<Rightarrow> disconnect \<Rightarrow> 't client \<Rightarrow> 't client go" where
  "close_notify E disconnect c =
     (if d_Code disconnect \<noteq> d_Code DisconnectConnectionClosed then
        (case encodeReply E (PushReply '''' (DisconnectPush disconnect)) of
           None \<Rightarrow> Some c
         | Some replyData \<Rightarrow> do {
             (_, c1) \<leftarrow> transportEnqueue E replyData '''' FrameTypePushDisconnect c;
             Some c1
           })
      else Some c)"

definition close_transport :: "'t env \<Rightarrow> disconnect \<Rightarrow> 't client \<Rightarrow> 't client go" where
  "close_transport E disconnect c = do {
     w \<leftarrow> c_messageWriter c;
     (w1, t1, closing1) \<leftarrow> writer_close (disconnect \<noteq> DisconnectConnectionClosed \<and> disconnect \<noteq> DisconnectSlow) w
        (c_transport c, c_closing c);
     Some (c\<lparr>c_messageWriter := Some w1, c_transport := ev_transportClose E disconnect t1, c_closing := closing1\<rparr>)
   }"

definition client_close ::
  "'t env \<Rightarrow> string list \<Rightarrow> disconnect \<Rightarrow> ('b, 'm) node_scheme \<Rightarrow> 't client \<Rightarrow> (('b, 'm) node_scheme \<times> 't client) go" where
  "client_close E order disconnect n c0 =
     (let c = client_startWriter E (nd_config n) 0 0 0 c0 in
      if c_status c = statusClosed then Some (n, c)
      else do {
        let prevStatus = c_status c;
        (n1, c1) \<leftarrow> close_channels disconnect order n (c\<lparr>c_status := statusClosed, c_timer := None\<rparr>);
        let n2 = (if c_authenticated c1 then n1\<lparr>nd_hub := hub_remove (client_ref_of c1) (nd_hub n1)\<rparr> else n1);
        c2 \<leftarrow> close_notify E disconnect c1;
        c3 \<leftarrow> close_transport E disconnect c2;
        Some (n2, if eh_disconnect (c_eventHub c3) \<and> prevStatus = statusConnected
                  then c3\<lparr>c_events := c_events c3 @ [EvDisconnect disconnect]\<rparr> else c3)
      })"

section \<open>Timers\<close>

definition scheduleNextTimer :: "int \<Rightarrow> 't client \<Rightarrow> 't client" where
  "scheduleNextTimer now c =
     (if c_status c = statusClosed then c
      else
        (let c = c\<lparr>c_timer := None\<rparr>;
             (op0, min0, need0) = (if c_nextExpire c > 0 then (timerOpExpire, c_nextExpire c, True) else (timerOpNone, 0, False));
             (op1, min1, need1) = (if c_nextPresence c > 0 \<and> (min0 = 0 \<or> c_nextPresence c < min0)
                                   then (timerOpPresence, c_nextPresence c, True) else (op0, min0, need0));
             (op2, min2, need2) = (if c_nextPing c > 0 \<and> (min1 = 0 \<or> c_nextPing c < min1)
                                   then (timerOpPing, c_nextPing c, True) else (op1, min1, need1))
         in if need2 then c\<lparr>c_timerOp := op2, c_timer := Some (min2 - now)\<rparr> else c))"

text \<open>\<open>random\<close> is what \<open>randSource.Int63n\<close> returned; it panics for a bound that is not positive.\<close>

definition addPingUpdate :: "int \<Rightarrow> int \<Rightarrow> bool \<Rightarrow> 't client \<Rightarrow> 't client go" where
  "addPingUpdate now random isFirst c =
     (if isFirst \<and> c_pingInterval c \<le> 0 then None
      else (let delay = (if isFirst then random else c_pingInterval c)
            in Some (scheduleNextTimer now (c\<lparr>c_nextPing := now + delay\<rparr>))))"

definition addPresenceUpdate :: "config \<Rightarrow> int \<Rightarrow> 't client \<Rightarrow> 't client" where
  "addPresenceUpdate config now c =
     scheduleNextTimer now (c\<lparr>c_nextPresence := now + cf_ClientPresenceUpdateInterval config\<rparr>)"

definition addExpireUpdate :: "int \<Rightarrow> int \<Rightarrow> 't client \<Rightarrow> 't client" where
  "addExpireUpdate now after c = scheduleNextTimer now (c\<lparr>c_nextExpire := now + after\<rparr>)"

text \<open>The encoded ping reply is a constant of the package, here \<open>jsonPingReply\<close>.\<close>

definition sendPing :: "'t env \<Rightarrow> bytes \<Rightarrow> int \<Rightarrow> 't client \<Rightarrow> 't client go" where
  "sendPing E jsonPingReply now c = do {
     (_, c1) \<leftarrow> transportEnqueue E jsonPingReply '''' FrameTypeServerPing (c\<lparr>c_lastPing := now div Second\<rparr>);
     addPingUpdate now 0 False c1
   }"

definition closeStale ::
  "'t env \<Rightarrow> string list \<Rightarrow> ('b, 'm) node_scheme \<Rightarrow> 't client \<Rightarrow> (('b, 'm) node_scheme \<times> 't client) go" where
  "closeStale E order n c =
     (if (\<not> c_authenticated c \<or> c_unusable c) \<and> c_status c \<noteq> statusClosed
      then client_close E order DisconnectStale n c else Some (n, c))"

text \<open>The goroutines an operation starts besides the ones that only close the connection.\<close>

datatype spawned = SpawnAsyncUnsubscribe string unsubscribe | SpawnCloseStale

definition updateChannelPresence :: "string \<Rightarrow> channelContext \<Rightarrow> 't client \<Rightarrow> ('b, 'm) node_scheme \<Rightarrow> ('b, 'm) node_scheme" where
  "updateChannelPresence ch chCtx c n =
     (if \<not> channelHasFlag (cc_flags chCtx) flagEmitPresence then n
      else if fmlookup (c_channels c) ch = None then n
      else n\<lparr>nd_presence := presenceHub_add ch (c_uid c)
               \<lparr>ci_ClientID = c_uid c, ci_UserID = c_user c, ci_ConnInfo = c_info c, ci_ChanInfo = cc_info chCtx,
                ci_ChanRole = 0\<rparr> (nd_presence n)\<rparr>)"

text \<open>\<open>None\<close>: the result callback is not called.\<close>

definition checkSubscriptionExpiration :: "int \<Rightarrow> channelContext \<Rightarrow> int \<Rightarrow> bool option" where
  "checkSubscriptionExpiration now channelContext delay =
     (let expireAt = cc_expireAt channelContext;
          clientSideRefresh = channelHasFlag (cc_flags channelContext) flagClientSideRefresh
      in if expireAt > 0 \<and> now div Second > expireAt + delay div Second
         then (if clientSideRefresh then Some False else None)
         else Some True)"

definition updatePresence_channel ::
  "int \<Rightarrow> (string \<times> channelContext) \<Rightarrow> spawned list \<times> ('b, 'm) node_scheme \<times> 't client
     \<Rightarrow> spawned list \<times> ('b, 'm) node_scheme \<times> 't client" where
  "updatePresence_channel now = (\<lambda>(channel, channelContext) (sp, n, c).
     (let n1 = updateChannelPresence channel channelContext c n
      in if checkSubscriptionExpiration now channelContext (cf_ClientExpiredSubCloseDelay (nd_config n)) = Some False
         then (if \<not> channelHasFlag (cc_flags channelContext) flagServerSide
               then (sp @ [SpawnAsyncUnsubscribe channel unsubscribeExpired], n1, c)
               else (sp, n1, c\<lparr>c_closing := c_closing c @ [DisconnectSubExpired]\<rparr>))
         else (sp, n1, c)))"

definition updatePresence ::
  "int \<Rightarrow> string list \<Rightarrow> ('b, 'm) node_scheme \<Rightarrow> 't client \<Rightarrow> spawned list \<times> ('b, 'm) node_scheme \<times> 't client" where
  "updatePresence now order n c =
     (if c_status c = statusClosed then ([], n, c)
      else
        (let channels = [(ch, the (fmlookup (c_channels c) ch)). ch \<leftarrow> order,
               channelHasFlag (cc_flags (the (fmlookup (c_channels c) ch))) flagSubscribed]
         in if c_unusable c then ([SpawnCloseStale], n, c)
            else
              (let c1 = (if eh_alive (c_eventHub c) then c\<lparr>c_events := c_events c @ [EvAlive]\<rparr> else c);
                   (sp, n2, c2) = fold (updatePresence_channel now) channels ([], n, c1)
               in (sp, n2, addPresenceUpdate (nd_config n2) now c2))))"

definition checkExpired ::
  "'t env \<Rightarrow> int \<Rightarrow> string list \<Rightarrow> ('b, 'm) node_scheme \<Rightarrow> 't client \<Rightarrow> (('b, 'm) node_scheme \<times> 't client) go" where
  "checkExpired E now order n c =
     (if c_status c = statusClosed \<or> c_exp c = 0 then Some (n, c)
      else
        (let ttl = c_exp c - now div Second;
             c1 = (if \<not> c_clientSideRefresh c \<and> eh_refresh (c_eventHub c) \<and> ttl > 0
                   then addExpireUpdate now (ttl * Second) c else c)
         in if ttl > 0 then Some (n, c1) else client_close E order DisconnectExpired n c1))"

definition client_expire ::
  "'t env \<Rightarrow> int \<Rightarrow> string list \<Rightarrow> ('b, 'm) node_scheme \<Rightarrow> 't client \<Rightarrow> (('b, 'm) node_scheme \<times> 't client) go" where
  "client_expire E now order n c =
     (if c_status c = statusClosed \<or> c_exp c = 0 then Some (n, c)
      else if \<not> c_clientSideRefresh c \<and> eh_refresh (c_eventHub c)
      then Some (n, c\<lparr>c_events := c_events c @ [EvRefresh False '''']\<rparr>)
      else checkExpired E now order n c)"

record refreshReply =
  rr_Expired :: bool
  rr_ExpireAt :: int
  rr_Info :: "bytes option"

definition expire_cb ::
  "'t env \<Rightarrow> int \<Rightarrow> string list \<Rightarrow> refreshReply \<Rightarrow> err option \<Rightarrow> ('b, 'm) node_scheme \<Rightarrow> 't client
     \<Rightarrow> (('b, 'm) node_scheme \<times> 't client) go" where
  "expire_cb E now order reply e n c =
     (case e of
        Some (EDisconnect t) \<Rightarrow> client_close E order t n c
      | Some _ \<Rightarrow> client_close E order DisconnectServerError n c
      | None \<Rightarrow>
          if rr_Expired reply then client_close E order DisconnectExpired n c
          else checkExpired E now order n
            (if rr_ExpireAt reply > 0
             then c\<lparr>c_exp := rr_ExpireAt reply,
                    c_info := (case rr_Info reply of None \<Rightarrow> c_info c | Some info \<Rightarrow> info)\<rparr>
             else c))"

definition onTimerOp ::
  "'t env \<Rightarrow> bytes \<Rightarrow> int \<Rightarrow> string list \<Rightarrow> ('b, 'm) node_scheme \<Rightarrow> 't client
     \<Rightarrow> (spawned list \<times> ('b, 'm) node_scheme \<times> 't client) go" where
  "onTimerOp E jsonPingReply now order n c =
     (if c_status c = statusClosed then Some ([], n, c)
      else (case c_timerOp c of
              timerOpStale \<Rightarrow> do { (n1, c1) \<leftarrow> closeStale E order n c; Some ([], n1, c1) }
            | timerOpPresence \<Rightarrow> Some (updatePresence now order n c)
            | timerOpExpire \<Rightarrow> do { (n1, c1) \<leftarrow> client_expire E now order n c; Some ([], n1, c1) }
            | timerOpPing \<Rightarrow> do { c1 \<leftarrow> sendPing E jsonPingReply now c; Some ([], n, c1) }
            | timerOpNone \<Rightarrow> Some ([], n, c)))"

section \<open>Server-side calls\<close>

definition client_Channels :: "'t client \<Rightarrow> string fset" where
  "client_Channels c = fmdom (fmfilter (\<lambda>ch. channelHasFlag (cc_flags (the (fmlookup (c_channels c) ch))) flagSubscribed) (c_channels c))"

definition IsSubscribed :: "string \<Rightarrow> 't client \<Rightarrow> bool" where
  "IsSubscribed ch c =
     (case fmlookup (c_channels c) ch of None \<Rightarrow> False | Some ctx \<Rightarrow> channelHasFlag (cc_flags ctx) flagSubscribed)"

definition clientInfo_of :: "string \<Rightarrow> 't client \<Rightarrow> clientInfo option" where
  "clientInfo_of ch c =
     (case fmlookup (c_channels c) ch of
        None \<Rightarrow> None
      | Some channelContext \<Rightarrow>
          Some \<lparr>ci_ClientID = c_uid c, ci_UserID = c_user c, ci_ConnInfo = c_info c,
                ci_ChanInfo = (if channelHasFlag (cc_flags channelContext) flagSubscribed then cc_info channelContext else []),
                ci_ChanRole = cc_role channelContext\<rparr>)"

text \<open>\<open>Unsubscribe\<close>; the optional argument defaults to \<open>unsubscribeServer\<close>.\<close>

definition client_Unsubscribe ::
  "'t env \<Rightarrow> string \<Rightarrow> unsubscribe option \<Rightarrow> ('b, 'm) node_scheme \<Rightarrow> 't client \<Rightarrow> (('b, 'm) node_scheme \<times> 't client) go" where
  "client_Unsubscribe E ch arg n c =
     (if c_status c = statusClosed then Some (n, c)
      else do {
        let unsub = (case arg of None \<Rightarrow> unsubscribeServer | Some u \<Rightarrow> u);
        (n1, c1) \<leftarrow> client_unsubscribe ch unsub None n c;
        (_, c2) \<leftarrow> sendUnsubscribe E ch unsub c1;
        Some (n1, c2)
      })"

definition handleAsyncUnsubscribe ::
  "'t env \<Rightarrow> string list \<Rightarrow> string \<Rightarrow> unsubscribe \<Rightarrow> ('b, 'm) node_scheme \<Rightarrow> 't client \<Rightarrow> (('b, 'm) node_scheme \<times> 't client) go" where
  "handleAsyncUnsubscribe E order ch unsub n c = do {
     (n1, c1) \<leftarrow> client_unsubscribe ch unsub None n c;
     (e, c2) \<leftarrow> sendUnsubscribe E ch unsub c1;
     if e \<noteq> None then client_close E order DisconnectWriteError n1 c2 else Some (n1, c2)
   }"

text \<open>\<open>Disconnect\<close> only starts the goroutine that closes.\<close>

definition client_Disconnect :: "disconnect option \<Rightarrow> 't client \<Rightarrow> 't client" where
  "client_Disconnect arg c =
     c\<lparr>c_closing := c_closing c @ [case arg of None \<Rightarrow> DisconnectForceNoReconnect | Some d \<Rightarrow> d]\<rparr>"

record refreshOptions =
  ro_Expired :: bool
  ro_ExpireAt :: int
  ro_Info :: bytes
  ro_clientID :: string

definition client_Refresh ::
  "'t env \<Rightarrow> config \<Rightarrow> int \<Rightarrow> refreshOptions \<Rightarrow> 't client \<Rightarrow> (err option \<times> 't client) go" where
  "client_Refresh E config now opts c =
     (if ro_Expired opts then Some (None, c\<lparr>c_closing := c_closing c @ [DisconnectExpired]\<rparr>)
      else
        (let expireAt = ro_ExpireAt opts; ttl = expireAt - now div Second;
             res = RefreshPush (expireAt > 0) (if ttl > 0 then word_of_int ttl else 0)
         in if expireAt > 0 \<and> ttl \<le> 0 then Some (None, c\<lparr>c_closing := c_closing c @ [DisconnectExpired]\<rparr>)
            else
              (let c1 = (if expireAt > 0
                         then addExpireUpdate now (ttl * Second + cf_ClientExpiredCloseDelay config)
                                (c\<lparr>c_exp := expireAt, c_info := (if ro_Info opts \<noteq> [] then ro_Info opts else c_info c)\<rparr>)
                         else c\<lparr>c_exp := 0\<rparr>)
               in case encodeReply E (PushReply '''' res) of
                    None \<Rightarrow> Some (Some (EOther ''encode''), c1)
                  | Some replyData \<Rightarrow> do {
                      (eof, c2) \<leftarrow> transportEnqueue E replyData '''' FrameTypePushRefresh c1;
                      Some (if eof then Some (EOther ''EOF'') else None, c2)
                    })))"

end
