(* ===== verification/Client_Commands.thy ===== *)
theory Client_Commands
  imports Client
begin

text \<open>
  Commands of a connected client: connecting, subscribing, unsubscribing, publishing, presence,
  refresh and messages, and their dispatch (\<open>server/deliverer/client.go\<close>).

  The server-side subscriptions of \<open>connectCmd\<close> run in goroutines of their own; they are taken one
  after the other, in any order \<open>subOrder\<close>.  \<open>order\<close> is the order in which the iteration over the
  client's channels visits them.
\<close>

section \<open>Subscribing\<close>

record subscribeOptions =
  so_ExpireAt :: int
  so_ChannelInfo :: bytes
  so_EmitPresence :: bool
  so_EmitJoinLeave :: bool
  so_PushJoinLeave :: bool
  so_Data :: bytes
  so_clientID :: string
  so_Source :: byte
  so_Role :: int

record subscribeReply =
  sy_Options :: subscribeOptions
  sy_ClientSideRefresh :: bool

record subscribeContext =
  sx_result :: "subscribeResult option"
  sx_err :: "error option"
  sx_disconnect :: "disconnect option"
  sx_channelContext :: channelContext

definition errorDisconnectContext :: "error option \<Rightarrow> disconnect option \<Rightarrow> subscribeContext" where
  "errorDisconnectContext replyError disconnect =
     \<lparr>sx_result = None, sx_err = (if disconnect \<noteq> None then None else replyError), sx_disconnect = disconnect,
      sx_channelContext = zero_channelContext\<rparr>"

text \<open>The result is the error and the disconnect.\<close>

definition validateSubscribeRequest ::
  "config \<Rightarrow> string \<Rightarrow> 't client \<Rightarrow> (error option \<times> disconnect option) \<times> 't client" where
  "validateSubscribeRequest config channel c =
     (if channel = '''' then ((None, Some DisconnectBadRequest), c)
      else if cf_ChannelMaxLength config > 0 \<and> int (length channel) > cf_ChannelMaxLength config
      then ((Some ErrorBadRequest, None), c)
      else if fmlookup (c_channels c) channel \<noteq> None then ((Some ErrorAlreadySubscribed, None), c)
      else if cf_ClientChannelLimit config > 0 \<and> int (fm_len (c_channels c)) \<ge> cf_ClientChannelLimit config
      then ((Some ErrorLimitExceeded, None), c)
      else ((None, None), c\<lparr>c_channels := fmupd channel zero_channelContext (c_channels c)\<rparr>))"

text \<open>The translation of a channel \<open>name:topic\<close> to \<open>name-id:topic\<close>, where \<open>name-id\<close> is a channel of
  the client; the outer option is the panic of \<open>pre[1]\<close>, the inner one the denial.\<close>

definition resolveChannel ::
  "string list \<Rightarrow> (string, channelContext) fmap \<Rightarrow> string \<Rightarrow> int \<Rightarrow> (string \<times> int) option go" where
  "resolveChannel order channels channel role =
     (if CHR '':'' \<notin> set channel then Some (Some (channel, role))
      else do {
        let item = go_split CHR '':'' channel;
        item0 \<leftarrow> go_index item 0;
        (case find (\<lambda>k. hd (go_split CHR ''-'' k) = item0) order of
           None \<Rightarrow> Some None
         | Some k \<Rightarrow> do {
             pre1 \<leftarrow> go_index (go_split CHR ''-'' k) 1;
             item1 \<leftarrow> go_index item 1;
             Some (Some (item0 @ ''-'' @ pre1 @ '':'' @ item1, cc_role (the (fmlookup channels k))))
           })
      })"

definition channelFlags :: "bool \<Rightarrow> subscribeReply \<Rightarrow> byte" where
  "channelFlags serverSide reply =
     flagSubscribed
     OR (if serverSide then flagServerSide else 0)
     OR (if sy_ClientSideRefresh reply then flagClientSideRefresh else 0)
     OR (if so_EmitPresence (sy_Options reply) then flagEmitPresence else 0)
     OR (if so_EmitJoinLeave (sy_Options reply) then flagEmitJoinLeave else 0)
     OR (if so_PushJoinLeave (sy_Options reply) then flagPushJoinLeave else 0)"

definition subscribeCmd ::
  "'t env \<Rightarrow> 'b broker \<Rightarrow> int \<Rightarrow> string list \<Rightarrow> string \<Rightarrow> subscribeReply \<Rightarrow> 32 word \<Rightarrow> bool
     \<Rightarrow> ('b, 'm) node_scheme \<Rightarrow> 't client \<Rightarrow> (subscribeContext \<times> ('b, 'm) node_scheme \<times> 't client) go" where
  "subscribeCmd E B now order reqChannel reply cmdId serverSide n c =
     (let opts = sy_Options reply; ttl = so_ExpireAt opts - now div Second in
      if so_ExpireAt opts > 0 \<and> ttl \<le> 0 then Some (errorDisconnectContext (Some ErrorExpired) None, n, c)
      else do {
        let refresh = (so_ExpireAt opts > 0 \<and> sy_ClientSideRefresh reply);
        let res = \<lparr>sr_Expires = refresh, sr_Ttl = (if refresh then word_of_int ttl else 0), sr_Data = so_Data opts\<rparr>;
        r \<leftarrow> resolveChannel order (c_channels c) reqChannel (so_Role opts);
        (case r of
           None \<Rightarrow> Some (\<lparr>sx_result = None, sx_err = Some ErrorPermissionDenied, sx_disconnect = Some DisconnectBadRequest,
                          sx_channelContext = zero_channelContext\<rparr>, n, c)
         | Some (channel, role) \<Rightarrow>
             (case addSubscription B channel (client_ref_of c) n of
                (Some (BErrClient clientErr), n1) \<Rightarrow>
                  Some (if clientErr \<noteq> ErrorInternal then errorDisconnectContext (Some clientErr) None
                        else errorDisconnectContext None (Some DisconnectServerError), n1, c)
              | (Some BErrOther, n1) \<Rightarrow> Some (errorDisconnectContext None (Some DisconnectServerError), n1, c)
              | (None, n1) \<Rightarrow> do {
                  let info = \<lparr>ci_ClientID = c_uid c, ci_UserID = c_user c, ci_ConnInfo = c_info c,
                              ci_ChanInfo = so_ChannelInfo opts, ci_ChanRole = role\<rparr>;
                  let n2 = (if so_EmitPresence opts
                            then n1\<lparr>nd_presence := presenceHub_add channel (c_uid c) info (nd_presence n1)\<rparr> else n1);
                  c1 \<leftarrow> (if \<not> serverSide then writeEncodedCommandReply E channel FrameTypeSubscribe cmdId (SubscribeRes res) c
                         else Some c);
                  let channelContext = \<lparr>cc_info = so_ChannelInfo opts, cc_expireAt = so_ExpireAt opts, cc_positionCheckTime = 0,
                        cc_flags = channelFlags serverSide reply, cc_role = role, cc_Source = so_Source opts\<rparr>;
                  let c2 = (if \<not> serverSide then c1\<lparr>c_channels := fmupd channel channelContext (c_channels c1)\<rparr> else c1);
                  Some (\<lparr>sx_result = Some res, sx_err = None, sx_disconnect = None, sx_channelContext = channelContext\<rparr>, n2, c2)
                }))
      })"

definition onSubscribeError ::
  "string \<Rightarrow> ('b, 'm) node_scheme \<Rightarrow> 't client \<Rightarrow> (('b, 'm) node_scheme \<times> 't client) go" where
  "onSubscribeError channel n c = do {
     let c1 = c\<lparr>c_channels := fmdrop channel (c_channels c)\<rparr>;
     n1 \<leftarrow> (if fmlookup (c_channels c) channel \<noteq> None then removeSubscription channel (client_ref_of c1) n else Some n);
     Some (n1, c1)
   }"

definition handleSubscribe ::
  "config \<Rightarrow> string \<Rightarrow> string \<Rightarrow> bytes \<Rightarrow> 't client \<Rightarrow> err option \<times> 't client" where
  "handleSubscribe config channel token data c =
     (if \<not> eh_subscribe (c_eventHub c) then (Some (EError ErrorNotAvailable), c)
      else (case validateSubscribeRequest config channel c of
              ((_, Some disconnect), c1) \<Rightarrow> (Some (EDisconnect disconnect), c1)
            | ((Some replyError, None), c1) \<Rightarrow> (Some (EError replyError), c1)
            | ((None, None), c1) \<Rightarrow> (None, c1\<lparr>c_events := c_events c1 @ [EvSubscribe channel token data]\<rparr>)))"

definition handleSubscribe_cb ::
  "'t env \<Rightarrow> 'b broker \<Rightarrow> int \<Rightarrow> string list \<Rightarrow> string \<Rightarrow> 32 word \<Rightarrow> subscribeReply \<Rightarrow> err option
     \<Rightarrow> ('b, 'm) node_scheme \<Rightarrow> 't client \<Rightarrow> (('b, 'm) node_scheme \<times> 't client) go" where
  "handleSubscribe_cb E B now order channel cmdId reply e n c =
     (case e of
        Some er \<Rightarrow> do {
          (n1, c1) \<leftarrow> onSubscribeError channel n c;
          c2 \<leftarrow> writeDisconnectOrErrorFlush E channel FrameTypeSubscribe cmdId er c1;
          Some (n1, c2)
        }
      | None \<Rightarrow> do {
          (ctx, n1, c1) \<leftarrow> subscribeCmd E B now order channel reply cmdId False n c;
          (case (sx_disconnect ctx, sx_err ctx) of
             (Some d, _) \<Rightarrow> do {
               (n2, c2) \<leftarrow> onSubscribeError channel n1 c1;
               c3 \<leftarrow> writeDisconnectOrErrorFlush E channel FrameTypeSubscribe cmdId (EDisconnect d) c2;
               Some (n2, c3)
             }
           | (None, Some er) \<Rightarrow> do {
               (n2, c2) \<leftarrow> onSubscribeError channel n1 c1;
               c3 \<leftarrow> writeDisconnectOrErrorFlush E channel FrameTypeSubscribe cmdId (EError er) c2;
               Some (n2, c3)
             }
           | (None, None) \<Rightarrow> Some (n1, c1))
        })"

text \<open>\<open>Client.Subscribe\<close>, a subscription on behalf of the server.  A disconnect in the subscribe
  context is not looked at: the result is then nil, and reading its \<open>Data\<close> panics.\<close>

definition client_Subscribe ::
  "'t env \<Rightarrow> 'b broker \<Rightarrow> int \<Rightarrow> string list \<Rightarrow> string \<Rightarrow> subscribeOptions
     \<Rightarrow> ('b, 'm) node_scheme \<Rightarrow> 't client \<Rightarrow> (err option \<times> ('b, 'm) node_scheme \<times> 't client) go" where
  "client_Subscribe E B now order channel opts n c =
     (if channel = '''' then Some (Some (EOther ''channel is empty''), n, c)
      else if cf_ClientChannelLimit (nd_config n) > 0 \<and> int (fm_len (c_channels c)) \<ge> cf_ClientChannelLimit (nd_config n)
      then Some (None, n, c\<lparr>c_closing := c_closing c @ [DisconnectChannelLimit]\<rparr>)
      else do {
        (subCtx, n1, c1) \<leftarrow> subscribeCmd E B now order channel \<lparr>sy_Options = opts, sy_ClientSideRefresh = False\<rparr> 0 True n c;
        (case sx_err subCtx of
           Some er \<Rightarrow> do { (n2, c2) \<leftarrow> onSubscribeError channel n1 c1; Some (Some (EError er), n2, c2) }
         | None \<Rightarrow> do {
             let c2 = c1\<lparr>c_channels := fmupd channel (sx_channelContext subCtx) (c_channels c1)\<rparr>;
             res \<leftarrow> sx_result subCtx;
             (case encodeReply E (PushReply channel (SubscribePush (sr_Data res))) of
                None \<Rightarrow> Some (Some (EOther ''encode''), n1, c2)
              | Some replyData \<Rightarrow> do {
                  (eof, c3) \<leftarrow> transportEnqueue E replyData channel FrameTypePushSubscribe c2;
                  Some (if eof then Some (EOther ''EOF'') else None, n1, c3)
                })
           })
      })"

section \<open>Connecting\<close>

record credentials =
  cd_UserID :: string
  cd_ExpireAt :: int
  cd_Info :: bytes

text \<open>The reply of the application's connecting handler.  \<open>cy_Context\<close> is a context that replaces
  the client's: whether it is done and the credentials it carries.\<close>

record connectReply =
  cy_Context :: "(bool \<times> credentials option) option"
  cy_Credentials :: "credentials option"
  cy_Data :: "bytes option"
  cy_Subscriptions :: "(string, subscribeOptions) fmap"
  cy_ClientSideRefresh :: bool
  cy_MaxMessagesInFrame :: int
  cy_WriteDelay :: int
  cy_ReplyWithoutQueue :: bool
  cy_QueueInitialCap :: nat
  cy_PingPongConfig :: "pingPongConfig option"

text \<open>The part of \<open>connectCmd\<close> that asks the connecting handler: \<open>None\<close> in \<open>handler\<close> is no handler,
  \<open>Inl\<close> the handler's error.  On success it gives the credentials found, the data, the
  subscriptions and whether the client refreshes.\<close>

definition connect_handler ::
  "'t env \<Rightarrow> config \<Rightarrow> (err + connectReply) option \<Rightarrow> credentials option \<Rightarrow> 't client
     \<Rightarrow> (err + credentials option \<times> bytes \<times> (string, subscribeOptions) fmap \<times> bool) \<times> 't client" where
  "connect_handler E config handler ctxCred c =
     (case handler of
        Some (Inl e) \<Rightarrow> (Inl e, client_startWriter E config 0 0 0 c)
      | Some (Inr reply) \<Rightarrow>
          (let (pingInterval, pongTimeout) = getPingPongPeriodValues
                 (case cy_PingPongConfig reply of Some p \<Rightarrow> p | None \<Rightarrow> ev_transportPingPong E);
               c1 = client_startWriter E config (cy_WriteDelay reply) (cy_MaxMessagesInFrame reply) (cy_QueueInitialCap reply)
                      (c\<lparr>c_pingInterval := pingInterval, c_pongTimeout := pongTimeout,
                         c_replyWithoutQueue := cy_ReplyWithoutQueue reply\<rparr>);
               (c2, cred0) = (case cy_Context reply of
                                None \<Rightarrow> (c1, ctxCred)
                              | Some (isDone, cr) \<Rightarrow> (c1\<lparr>c_ctxDone := isDone\<rparr>, cr))
           in (Inr (case cy_Credentials reply of Some cr \<Rightarrow> Some cr | None \<Rightarrow> cred0,
                    case cy_Data reply of None \<Rightarrow> [] | Some d \<Rightarrow> d,
                    fmdrop '''' (cy_Subscriptions reply), cy_ClientSideRefresh reply), c2))
      | None \<Rightarrow>
          (let (pingInterval, pongTimeout) = getPingPongPeriodValues (ev_transportPingPong E)
           in (Inr (ctxCred, [], fmempty, False),
               (client_startWriter E config 0 0 0 c)\<lparr>c_pingInterval := pingInterval, c_pongTimeout := pongTimeout\<rparr>)))"

text \<open>The checks between the handler's answer and \<open>addClient\<close>, among them whether the connection was
  closed while the handler ran.  On success: the client with its user and expiration set, and the
  result to send.\<close>

definition connect_check ::
  "('b, 'm) node_scheme \<Rightarrow> int \<Rightarrow> credentials option \<Rightarrow> bytes \<Rightarrow> (string, subscribeOptions) fmap \<Rightarrow> bool \<Rightarrow> 't client
     \<Rightarrow> (err + connectResult) \<times> 't client" where
  "connect_check n now credentials authData subscriptions clientSideRefresh c =
     (if cf_ClientChannelLimit (nd_config n) > 0 \<and> int (fm_len subscriptions) > cf_ClientChannelLimit (nd_config n)
      then (Inl (EDisconnect DisconnectChannelLimit), c)
      else (let c1 = c\<lparr>c_clientSideRefresh := clientSideRefresh\<rparr> in
        case credentials of
          None \<Rightarrow> (Inl (EDisconnect DisconnectBadRequest), c1)
        | Some cred \<Rightarrow>
            (let c2 = c1\<lparr>c_user := cd_UserID cred, c_info := cd_Info cred, c_exp := cd_ExpireAt cred\<rparr> in
             if c_status c2 = statusClosed then (Inl (EDisconnect DisconnectConnectionClosed), c2)
             else if cf_UserConnectionLimit (nd_config n) > 0 \<and> c_user c2 \<noteq> ''''
                \<and> int (fm_len (hub_UserConnections (c_user c2) (nd_hub n))) \<ge> cf_UserConnectionLimit (nd_config n)
             then (Inl (EDisconnect DisconnectConnectionLimit), c2)
             else if c_exp c2 > 0 \<and> c_exp c2 < now div Second then (Inl (EError ErrorExpired), c2)
             else
               (Inr \<lparr>cn_Client = c_uid c2,
                     cn_Expires = (c_exp c2 > 0 \<and> clientSideRefresh),
                     cn_Ttl = (if c_exp c2 > 0 \<and> clientSideRefresh then word_of_int (c_exp c2 - now div Second) else 0),
                     cn_Data = authData, cn_Subs = fmempty,
                     cn_Ping = (if c_pingInterval c2 > 0 then word_of_int (c_pingInterval c2 div Second) else 0)\<rparr>,
                c2))))"

record subAcc =
  sa_subs :: "(string, subscribeResult) fmap"
  sa_ctxs :: "(string \<times> subscribeContext) list"
  sa_disconnect :: "disconnect option"
  sa_err :: "error option"

fun connect_subscribe ::
  "'t env \<Rightarrow> 'b broker \<Rightarrow> int \<Rightarrow> string list \<Rightarrow> (string, subscribeOptions) fmap \<Rightarrow> string list \<Rightarrow> subAcc
     \<Rightarrow> ('b, 'm) node_scheme \<Rightarrow> 't client \<Rightarrow> (subAcc \<times> ('b, 'm) node_scheme \<times> 't client) go" where
  "connect_subscribe E B now order subscriptions [] a n c = Some (a, n, c)"
| "connect_subscribe E B now order subscriptions (ch # chs) a n c =
     (case fmlookup subscriptions ch of
        None \<Rightarrow> connect_subscribe E B now order subscriptions chs a n c
      | Some opts \<Rightarrow> do {
          (subCtx, n1, c1) \<leftarrow> subscribeCmd E B now order ch \<lparr>sy_Options = opts, sy_ClientSideRefresh = False\<rparr> 0 True n c;
          connect_subscribe E B now order subscriptions chs
            (a\<lparr>sa_subs := (case sx_result subCtx of None \<Rightarrow> sa_subs a | Some r \<Rightarrow> fmupd ch r (sa_subs a)),
               sa_ctxs := sa_ctxs a @ [(ch, subCtx)],
               sa_disconnect := (if sx_disconnect subCtx \<noteq> None then sx_disconnect subCtx else sa_disconnect a),
               sa_err := (if sx_err subCtx \<noteq> None then sx_err subCtx else sa_err a)\<rparr>) n1 c1
        })"

fun connect_rollback ::
  "(string \<times> subscribeContext) list \<Rightarrow> ('b, 'm) node_scheme \<Rightarrow> 't client \<Rightarrow> (('b, 'm) node_scheme \<times> 't client) go" where
  "connect_rollback [] n c = Some (n, c)"
| "connect_rollback ((ch, _) # rest) n c = do {
     (n1, c1) \<leftarrow> onSubscribeError ch n c;
     connect_rollback rest n1 c1
   }"

text \<open>The rest of \<open>connectCmd\<close>, from the answer of the connecting handler on.  The handler is code
  of the application and runs without the client's lock, so the state \<open>c\<close> in which the answer arrives
  need not be the one in which the command began.\<close>

definition connectCmd_answered ::
  "'t env \<Rightarrow> 'b broker \<Rightarrow> int \<Rightarrow> string list \<Rightarrow> string list \<Rightarrow> (err + connectReply) option \<Rightarrow> credentials option \<Rightarrow> 32 word
     \<Rightarrow> ('b, 'm) node_scheme \<Rightarrow> 't client \<Rightarrow> ((err + connectResult) \<times> ('b, 'm) node_scheme \<times> 't client) go" where
  "connectCmd_answered E B now order subOrder handler ctxCred cmdId n c =
     (case connect_handler E (nd_config n) handler ctxCred c of
        (Inl e, c1) \<Rightarrow> Some (Inl e, n, c1)
      | (Inr (cred, authData, subscriptions, clientSideRefresh), c1) \<Rightarrow>
          (case connect_check n now cred authData subscriptions clientSideRefresh c1 of
             (Inl e, c2) \<Rightarrow> Some (Inl e, n, c2)
           | (Inr res, c2) \<Rightarrow> do {
               let c3 = c2\<lparr>c_authenticated := True\<rparr>;
               let n1 = n\<lparr>nd_hub := hub_add (client_ref_of c3) (nd_hub n)\<rparr>;
               (a, n2, c4) \<leftarrow> connect_subscribe E B now order subscriptions subOrder
                  \<lparr>sa_subs = fmempty, sa_ctxs = [], sa_disconnect = None, sa_err = None\<rparr> n1 c3;
               (case (sa_disconnect a, sa_err a) of
                  (None, None) \<Rightarrow> do {
                    let res1 = res\<lparr>cn_Subs := sa_subs a\<rparr>;
                    c5 \<leftarrow> writeEncodedCommandReply E '''' FrameTypeConnect cmdId (ConnectRes res1) c4;
                    Some (Inr res1, n2,
                          c5\<lparr>c_channels := fold (\<lambda>(ch, ctx) m. fmupd ch (sx_channelContext ctx) m) (sa_ctxs a) (c_channels c5)\<rparr>)
                  }
                | (d, e) \<Rightarrow> do {
                    (n3, c5) \<leftarrow> connect_rollback (sa_ctxs a) n2 c4;
                    Some (Inl (case d of Some dd \<Rightarrow> EDisconnect dd | None \<Rightarrow> EError (the e)), n3, c5)
                  })
             }))"

definition connectCmd ::
  "'t env \<Rightarrow> 'b broker \<Rightarrow> int \<Rightarrow> string list \<Rightarrow> string list \<Rightarrow> (err + connectReply) option \<Rightarrow> credentials option \<Rightarrow> 32 word
     \<Rightarrow> ('b, 'm) node_scheme \<Rightarrow> 't client \<Rightarrow> ((err + connectResult) \<times> ('b, 'm) node_scheme \<times> 't client) go" where
  "connectCmd E B now order subOrder handler ctxCred cmdId n c =
     (if c_status c = statusClosed then Some (Inl (EDisconnect DisconnectConnectionClosed), n, c)
      else if c_authenticated c then Some (Inl (EDisconnect DisconnectBadRequest), n, c)
      else connectCmd_answered E B now order subOrder handler ctxCred cmdId n c)"

text \<open>\<open>triggerConnect\<close>; \<open>connectHandler\<close> says that the node has a connect handler.\<close>

definition triggerConnect :: "bool \<Rightarrow> 't client \<Rightarrow> 't client" where
  "triggerConnect connectHandler c =
     (if c_status c \<noteq> statusConnecting then c
      else if \<not> connectHandler then c\<lparr>c_status := statusConnected\<rparr>
      else c\<lparr>c_events := c_events c @ [EvConnect], c_status := statusConnected\<rparr>)"

definition scheduleOnConnectTimers :: "config \<Rightarrow> int \<Rightarrow> int \<Rightarrow> 't client \<Rightarrow> 't client go" where
  "scheduleOnConnectTimers config now random c =
     (let c1 = addPresenceUpdate config now c;
          c2 = (if c_exp c1 > 0
                then (let expireAfter = (c_exp c1 - now div Second) * Second;
                          expireAfter = (if c_clientSideRefresh c1 then expireAfter + cf_ClientExpiredCloseDelay config else expireAfter)
                      in addExpireUpdate now expireAfter c1)
                else c1)
      in if c_pingInterval c2 > 0 then addPingUpdate now random True c2 else Some c2)"

text \<open>\<open>handleConnect\<close>; the part after \<open>connectCmd\<close> gets the result of the latter.\<close>

definition connect_finish ::
  "int \<Rightarrow> int \<Rightarrow> bool \<Rightarrow> (err + connectResult) \<times> ('b, 'm) node_scheme \<times> 't client
     \<Rightarrow> (err option \<times> ('b, 'm) node_scheme \<times> 't client) go" where
  "connect_finish now random connectHandler = (\<lambda>(r, n1, c1).
     (case r of
        Inl e \<Rightarrow> Some (Some e, n1, c1)
      | Inr _ \<Rightarrow> do {
          c2 \<leftarrow> scheduleOnConnectTimers (nd_config n1) now random (triggerConnect connectHandler c1);
          Some (None, n1, c2)
        }))"

definition handleConnect ::
  "'t env \<Rightarrow> 'b broker \<Rightarrow> int \<Rightarrow> int \<Rightarrow> string list \<Rightarrow> string list \<Rightarrow> (err + connectReply) option \<Rightarrow> credentials option \<Rightarrow> bool \<Rightarrow> 32 word
     \<Rightarrow> ('b, 'm) node_scheme \<Rightarrow> 't client \<Rightarrow> (err option \<times> ('b, 'm) node_scheme \<times> 't client) go" where
  "handleConnect E B now random order subOrder handler ctxCred connectHandler cmdId n c = do {
     x \<leftarrow> connectCmd E B now order subOrder handler ctxCred cmdId n c;
     connect_finish now random connectHandler x
   }"

section \<open>The other commands\<close>

abbreviation ReadRole :: int where "ReadRole \<equiv> 1"
abbreviation WriteRole :: int where "WriteRole \<equiv> 2"
abbreviation ReadWriteRole :: int where "ReadWriteRole \<equiv> 3"

definition handleUnsubscribe ::
  "'t env \<Rightarrow> string \<Rightarrow> 32 word \<Rightarrow> ('b, 'm) node_scheme \<Rightarrow> 't client \<Rightarrow> (err option \<times> ('b, 'm) node_scheme \<times> 't client) go" where
  "handleUnsubscribe E channel cmdId n c =
     (if channel = '''' then Some (Some (EDisconnect DisconnectBadRequest), n, c)
      else do {
        (n1, c1) \<leftarrow> client_unsubscribe channel unsubscribeClient None n c;
        c2 \<leftarrow> writeEncodedCommandReply E channel FrameTypeUnsubscribe cmdId UnsubscribeRes c1;
        Some (None, n1, c2)
      })"

definition handlePublish :: "string \<Rightarrow> bytes \<Rightarrow> 't client \<Rightarrow> err option \<times> 't client" where
  "handlePublish channel data c =
     (if \<not> eh_publish (c_eventHub c) then (Some (EError ErrorNotAvailable), c)
      else if channel = '''' \<or> data = [] then (Some (EDisconnect DisconnectBadRequest), c)
      else (case clientInfo_of channel c of
              None \<Rightarrow> (Some (EError ErrorPermissionDenied), c)
            | Some info \<Rightarrow>
                if ci_ChanRole info \<noteq> WriteRole \<and> ci_ChanRole info \<noteq> ReadWriteRole
                then (Some (EError ErrorPermissionDenied), c)
                else (None, c\<lparr>c_events := c_events c @ [EvPublish channel data info]\<rparr>)))"

definition handlePublish_cb :: "'t env \<Rightarrow> string \<Rightarrow> 32 word \<Rightarrow> err option \<Rightarrow> 't client \<Rightarrow> 't client go" where
  "handlePublish_cb E channel cmdId e c =
     (case e of
        Some er \<Rightarrow> writeDisconnectOrErrorFlush E channel FrameTypePublish cmdId er c
      | None \<Rightarrow> writeEncodedCommandReply E channel FrameTypePublish cmdId PublishRes c)"

definition handlePresence :: "string \<Rightarrow> 't client \<Rightarrow> err option \<times> 't client" where
  "handlePresence channel c =
     (if \<not> eh_presence (c_eventHub c) then (Some (EError ErrorNotAvailable), c)
      else if channel = '''' then (Some (EDisconnect DisconnectBadRequest), c)
      else (None, c\<lparr>c_events := c_events c @ [EvPresence channel]\<rparr>))"

text \<open>The presence callbacks; \<open>result\<close> is what the application supplied, if anything.  The presence
  manager of the node is the memory one, whose lookups return no error.\<close>

definition handlePresence_cb ::
  "'t env \<Rightarrow> string \<Rightarrow> 32 word \<Rightarrow> (string, clientInfo) fmap option \<Rightarrow> err option \<Rightarrow> ('b, 'm) node_scheme \<Rightarrow> 't client \<Rightarrow> 't client go" where
  "handlePresence_cb E channel cmdId result e n c =
     (case e of
        Some er \<Rightarrow> writeDisconnectOrErrorFlush E channel FrameTypePresence cmdId er c
      | None \<Rightarrow>
          (let presence = (case result of
                             None \<Rightarrow> (case presenceHub_get channel (nd_presence n) of None \<Rightarrow> fmempty | Some p \<Rightarrow> p)
                           | Some p \<Rightarrow> p)
           in writeEncodedCommandReply E channel FrameTypePresence cmdId
                (PresenceRes (fmmap (\<lambda>v. infoToProto (Some v)) presence)) c))"

definition handlePresenceStats :: "string \<Rightarrow> 't client \<Rightarrow> err option \<times> 't client" where
  "handlePresenceStats channel c =
     (if \<not> eh_presenceStats (c_eventHub c) then (Some (EError ErrorNotAvailable), c)
      else if channel = '''' then (Some (EDisconnect DisconnectBadRequest), c)
      else (None, c\<lparr>c_events := c_events c @ [EvPresenceStats channel]\<rparr>))"

definition handlePresenceStats_cb ::
  "'t env \<Rightarrow> string \<Rightarrow> 32 word \<Rightarrow> presenceStats option \<Rightarrow> err option \<Rightarrow> ('b, 'm) node_scheme \<Rightarrow> 't client \<Rightarrow> 't client go" where
  "handlePresenceStats_cb E channel cmdId result e n c =
     (case e of
        Some er \<Rightarrow> writeDisconnectOrErrorFlush E channel FrameTypePresenceStats cmdId er c
      | None \<Rightarrow>
          (let stats = (case result of None \<Rightarrow> presenceHub_getStats channel (nd_presence n) | Some s \<Rightarrow> s)
           in writeEncodedCommandReply E channel FrameTypePresenceStats cmdId
                (PresenceStatsRes (of_nat (pst_NumClients stats)) (of_nat (pst_NumUsers stats))) c))"

definition handleRefresh :: "string \<Rightarrow> 't client \<Rightarrow> err option \<times> 't client" where
  "handleRefresh token c =
     (if \<not> eh_refresh (c_eventHub c) then (Some (EError ErrorNotAvailable), c)
      else if token = '''' then (Some (EDisconnect DisconnectBadRequest), c)
      else if \<not> c_clientSideRefresh c then (Some (EDisconnect DisconnectBadRequest), c)
      else (None, c\<lparr>c_events := c_events c @ [EvRefresh True token]\<rparr>))"

definition handleRefresh_cb ::
  "'t env \<Rightarrow> config \<Rightarrow> int \<Rightarrow> 32 word \<Rightarrow> refreshReply \<Rightarrow> err option \<Rightarrow> 't client \<Rightarrow> 't client go" where
  "handleRefresh_cb E config now cmdId reply e c =
     (case e of
        Some er \<Rightarrow> writeDisconnectOrErrorFlush E '''' FrameTypeRefresh cmdId er c
      | None \<Rightarrow>
          if rr_Expired reply then writeDisconnectOrErrorFlush E '''' FrameTypeRefresh cmdId (EDisconnect DisconnectExpired) c
          else
            (let expireAt = rr_ExpireAt reply; ttl = expireAt - now div Second;
                 info = (case rr_Info reply of None \<Rightarrow> [] | Some i \<Rightarrow> i)
             in if expireAt > 0 \<and> ttl \<le> 0
                then writeDisconnectOrErrorFlush E '''' FrameTypeRefresh cmdId (EError ErrorExpired) c
                else
                  (let c1 = (if expireAt > 0
                             then addExpireUpdate now (ttl * Second + cf_ClientExpiredCloseDelay config)
                                    (c\<lparr>c_exp := expireAt, c_info := (if info \<noteq> [] then info else c_info c)\<rparr>)
                             else c)
                   in writeEncodedCommandReply E '''' FrameTypeRefresh cmdId
                        (RefreshRes (expireAt > 0) (if ttl > 0 then word_of_int ttl else 0)) c1)))"

definition handleSend :: "bytes \<Rightarrow> 't client \<Rightarrow> err option \<times> 't client" where
  "handleSend data c =
     (if \<not> eh_message (c_eventHub c) then (Some (EDisconnect DisconnectNotAvailable), c)
      else (None, c\<lparr>c_events := c_events c @ [EvMessage data]\<rparr>))"

section \<open>Dispatch\<close>

record connectRequest =
  cq_Token :: string
  cq_Data :: bytes
  cq_Name :: string
  cq_Subs :: "string fset"

record command =
  cmd_Id :: "32 word"
  cmd_Connect :: "connectRequest option"
  cmd_Subscribe :: "(string \<times> string \<times> bytes) option"
  cmd_Unsubscribe :: "string option"
  cmd_Publish :: "(string \<times> bytes) option"
  cmd_Presence :: "string option"
  cmd_PresenceStats :: "string option"
  cmd_Send :: "bytes option"
  cmd_Refresh :: "string option"
  cmd_SubRefresh :: "string option"

text \<open>What the outside contributes to the handling of one command: the time, a random number, the
  iteration orders, and the node's handlers.\<close>

record outside =
  ou_now :: int
  ou_random :: int
  ou_order :: "string list"
  ou_subOrder :: "string list"
  ou_connecting :: "(connectRequest \<Rightarrow> err + connectReply) option"
  ou_ctxCred :: "credentials option"
  ou_connect :: bool
  ou_commandRead :: "(command \<Rightarrow> err option) option"

definition handleCommandDispatchError ::
  "'t env \<Rightarrow> string \<Rightarrow> command \<Rightarrow> byte \<Rightarrow> err \<Rightarrow> 't client \<Rightarrow> ((disconnect option \<times> bool) \<times> 't client) go" where
  "handleCommandDispatchError E ch cmd frameType e c =
     (case e of
        EDisconnect t \<Rightarrow> Some ((Some t, False), c)
      | _ \<Rightarrow> do {
          let c1 = (if cmd_Connect cmd \<noteq> None then c\<lparr>c_unusable := True\<rparr> else c);
          c2 \<leftarrow> writeEncodedCommandReply E ch frameType (cmd_Id cmd) (ErrorReply (toClientErr e)) c1;
          Some ((None, cmd_Connect cmd = None), c2)
        })"

text \<open>The channel and frame type a command is accounted under; \<open>None\<close> for an empty command.\<close>

definition command_frame :: "command \<Rightarrow> (string \<times> byte) option" where
  "command_frame cmd =
     (if cmd_Connect cmd \<noteq> None then Some ('''', FrameTypeConnect)
      else case cmd_Subscribe cmd of Some (ch, _) \<Rightarrow> Some (ch, FrameTypeSubscribe)
      | None \<Rightarrow> case cmd_Unsubscribe cmd of Some ch \<Rightarrow> Some (ch, FrameTypeUnsubscribe)
      | None \<Rightarrow> case cmd_Publish cmd of Some (ch, _) \<Rightarrow> Some (ch, FrameTypePublish)
      | None \<Rightarrow> case cmd_Presence cmd of Some ch \<Rightarrow> Some (ch, FrameTypePresence)
      | None \<Rightarrow> case cmd_PresenceStats cmd of Some ch \<Rightarrow> Some (ch, FrameTypePresenceStats)
      | None \<Rightarrow> if cmd_Send cmd \<noteq> None then Some ('''', FrameTypeSend)
      else if cmd_Refresh cmd \<noteq> None then Some ('''', FrameTypeRefresh)
      else case cmd_SubRefresh cmd of Some ch \<Rightarrow> Some (ch, FrameTypeSubRefresh) | None \<Rightarrow> None)"

text \<open>The chain of handlers; \<open>None\<close> in the first component is the command no handler is for.\<close>

definition dispatch_handle ::
  "'t env \<Rightarrow> 'b broker \<Rightarrow> outside \<Rightarrow> command \<Rightarrow> ('b, 'm) node_scheme \<Rightarrow> 't client
     \<Rightarrow> (err option option \<times> ('b, 'm) node_scheme \<times> 't client) go" where
  "dispatch_handle E B ou cmd n c =
     (case cmd_Connect cmd of Some req \<Rightarrow> do {
         (e, n1, c1) \<leftarrow> handleConnect E B (ou_now ou) (ou_random ou) (ou_order ou) (ou_subOrder ou)
            (map_option (\<lambda>h. h req) (ou_connecting ou)) (ou_ctxCred ou) (ou_connect ou) (cmd_Id cmd) n c;
         Some (Some e, n1, c1) }
      | None \<Rightarrow> case cmd_Subscribe cmd of Some (ch, token, data) \<Rightarrow>
         (case handleSubscribe (nd_config n) ch token data c of (e, c1) \<Rightarrow> Some (Some e, n, c1))
      | None \<Rightarrow> case cmd_Unsubscribe cmd of Some ch \<Rightarrow> do {
         (e, n1, c1) \<leftarrow> handleUnsubscribe E ch (cmd_Id cmd) n c; Some (Some e, n1, c1) }
      | None \<Rightarrow> case cmd_Publish cmd of Some (ch, data) \<Rightarrow>
         (case handlePublish ch data c of (e, c1) \<Rightarrow> Some (Some e, n, c1))
      | None \<Rightarrow> case cmd_Presence cmd of Some ch \<Rightarrow> (case handlePresence ch c of (e, c1) \<Rightarrow> Some (Some e, n, c1))
      | None \<Rightarrow> case cmd_PresenceStats cmd of Some ch \<Rightarrow> (case handlePresenceStats ch c of (e, c1) \<Rightarrow> Some (Some e, n, c1))
      | None \<Rightarrow> case cmd_Send cmd of Some data \<Rightarrow> (case handleSend data c of (e, c1) \<Rightarrow> Some (Some e, n, c1))
      | None \<Rightarrow> case cmd_Refresh cmd of Some token \<Rightarrow> (case handleRefresh token c of (e, c1) \<Rightarrow> Some (Some e, n, c1))
      | None \<Rightarrow> Some (None, n, c))"

definition dispatchCommand ::
  "'t env \<Rightarrow> 'b broker \<Rightarrow> outside \<Rightarrow> command \<Rightarrow> ('b, 'm) node_scheme \<Rightarrow> 't client
     \<Rightarrow> ((disconnect option \<times> bool) \<times> ('b, 'm) node_scheme \<times> 't client) go" where
  "dispatchCommand E B ou cmd n c =
     (if c_status c = statusClosed then Some ((None, False), n, c)
      else if \<not> c_authenticated c \<and> cmd_Connect cmd = None then Some ((Some DisconnectBadRequest, False), n, c)
      else if cmd_Id cmd = 0 \<and> cmd_Send cmd = None then Some ((Some DisconnectBadRequest, False), n, c)
      else (case command_frame cmd of
              None \<Rightarrow> Some ((Some DisconnectBadRequest, False), n, c)
            | Some (metricChannel, frameType) \<Rightarrow>
                (case (case ou_commandRead ou of None \<Rightarrow> None | Some h \<Rightarrow> h cmd) of
                   Some e \<Rightarrow> do {
                     (r, c1) \<leftarrow> handleCommandDispatchError E metricChannel cmd frameType e c;
                     Some (r, n, c1)
                   }
                 | None \<Rightarrow> do {
                     (h, n1, c1) \<leftarrow> dispatch_handle E B ou cmd n c;
                     (case h of
                        None \<Rightarrow> Some ((Some DisconnectBadRequest, False), n1, c1)
                      | Some None \<Rightarrow> Some ((None, True), n1, c1)
                      | Some (Some e) \<Rightarrow> do {
                          (r, c2) \<leftarrow> handleCommandDispatchError E metricChannel cmd frameType e c1;
                          Some (r, n1, c2)
                        })
                   })))"

definition HandleCommand ::
  "'t env \<Rightarrow> 'b broker \<Rightarrow> outside \<Rightarrow> command \<Rightarrow> ('b, 'm) node_scheme \<Rightarrow> 't client
     \<Rightarrow> (bool \<times> ('b, 'm) node_scheme \<times> 't client) go" where
  "HandleCommand E B ou cmd n c =
     (if c_status c = statusClosed then Some (False, n, c)
      else if c_unusable c then Some (False, n, c\<lparr>c_closing := c_closing c @ [DisconnectBadRequest]\<rparr>)
      else if c_ctxDone c then Some (False, n, c)
      else do {
        ((disconnect, proceed), n1, c1) \<leftarrow> dispatchCommand E B ou cmd n c;
        if c_ctxDone c1 then Some (False, n1, c1)
        else (case disconnect of
                Some d \<Rightarrow> Some (False, n1, c1\<lparr>c_closing := c_closing c1 @ [d]\<rparr>)
              | None \<Rightarrow> Some (proceed, n1, c1))
      })"

end
