(* ===== verification/Client_Life.thy ===== *)
theory Client_Life
  imports Client_Commands
begin

text \<open>
  The life of a connection: what the operations of \<open>Client\<close> and \<open>Client_Commands\<close> keep, that
  closing releases everything the connection holds, who may publish, and when a timer fires.
\<close>

section \<open>Writing leaves the rest of the connection alone\<close>

definition writer_inv :: "'t client \<Rightarrow> bool" where
  "writer_inv c \<longleftrightarrow> (case c_messageWriter c of None \<Rightarrow> True | Some w \<Rightarrow> writer_wf w)"

lemma writer_inv_cong: "c_messageWriter c' = c_messageWriter c \<Longrightarrow> writer_inv c' = writer_inv c"
  by (simp add: writer_inv_def)

lemma writer_inv_update [simp]:
  "writer_inv (c\<lparr>c_closing := xclosing\<rparr>) = writer_inv c"
  "writer_inv (c\<lparr>c_channels := xchannels\<rparr>) = writer_inv c"
  "writer_inv (c\<lparr>c_events := xevents\<rparr>) = writer_inv c"
  "writer_inv (c\<lparr>c_unusable := xunusable\<rparr>) = writer_inv c"
  "writer_inv (c\<lparr>c_status := xstatus\<rparr>) = writer_inv c"
  "writer_inv (c\<lparr>c_timer := xtimer\<rparr>) = writer_inv c"
  "writer_inv (c\<lparr>c_timerOp := xtimerOp\<rparr>) = writer_inv c"
  "writer_inv (c\<lparr>c_exp := xexp\<rparr>) = writer_inv c"
  "writer_inv (c\<lparr>c_info := xinfo\<rparr>) = writer_inv c"
  "writer_inv (c\<lparr>c_user := xuser\<rparr>) = writer_inv c"
  "writer_inv (c\<lparr>c_authenticated := xauthenticated\<rparr>) = writer_inv c"
  "writer_inv (c\<lparr>c_clientSideRefresh := xclientSideRefresh\<rparr>) = writer_inv c"
  "writer_inv (c\<lparr>c_nextExpire := xnextExpire\<rparr>) = writer_inv c"
  "writer_inv (c\<lparr>c_nextPing := xnextPing\<rparr>) = writer_inv c"
  "writer_inv (c\<lparr>c_nextPresence := xnextPresence\<rparr>) = writer_inv c"
  "writer_inv (c\<lparr>c_lastPing := xlastPing\<rparr>) = writer_inv c"
  "writer_inv (c\<lparr>c_pingInterval := xpingInterval\<rparr>) = writer_inv c"
  "writer_inv (c\<lparr>c_pongTimeout := xpongTimeout\<rparr>) = writer_inv c"
  "writer_inv (c\<lparr>c_replyWithoutQueue := xreplyWithoutQueue\<rparr>) = writer_inv c"
  "writer_inv (c\<lparr>c_ctxDone := xctxDone\<rparr>) = writer_inv c"
  "writer_inv (c\<lparr>c_transport := xtransport\<rparr>) = writer_inv c"
  by (simp_all add: writer_inv_def)

definition keeps :: "'t client \<Rightarrow> 't client \<Rightarrow> bool" where
  "keeps c c' \<longleftrightarrow> c_uid c' = c_uid c \<and> c_user c' = c_user c \<and> c_channels c' = c_channels c
     \<and> c_status c' = c_status c \<and> c_authenticated c' = c_authenticated c \<and> c_events c' = c_events c
     \<and> c_eventHub c' = c_eventHub c \<and> c_timer c' = c_timer c \<and> c_unusable c' = c_unusable c
     \<and> (writer_inv c \<longrightarrow> writer_inv c')"

lemma keeps_refl [simp]: "keeps c c"
  by (simp add: keeps_def)

lemma keeps_trans: "keeps c c1 \<Longrightarrow> keeps c1 c2 \<Longrightarrow> keeps c c2"
  by (simp add: keeps_def)

lemma keeps_ref: "keeps c c' \<Longrightarrow> client_ref_of c' = client_ref_of c"
  by (simp add: keeps_def client_ref_of_def)

lemma client_ref_fields [simp]: "cr_ID (client_ref_of c) = c_uid c" "cr_UserID (client_ref_of c) = c_user c"
  by (simp_all add: client_ref_of_def)

lemma startWriter_inv [inv_intros]: "writer_inv c \<Longrightarrow> writer_inv (client_startWriter E config d m q c)"
  by (auto simp: writer_inv_def client_startWriter_def startWriter_def split: option.splits)

lemma startWriter_keeps [simp]: "keeps c (client_startWriter E config d m q c)"
  using startWriter_inv[of c E config d m q] by (simp add: keeps_def client_startWriter_def)

lemma startWriter_started [simp]: "c_messageWriter (client_startWriter E config d m q c) \<noteq> None"
  by (simp add: client_startWriter_def)

lemma writer_enqueue_wf:
  assumes "writer_wf w"
  obtains d w' where "writer_enqueue i w = Some (d, w')" "writer_wf w'" "w_config w' = w_config w"
proof (cases "q_closed (w_messages w)")
  case True
  then show ?thesis using that[of "Some DisconnectConnectionClosed" w] assms mq.add_closed[OF True, of i]
    by (simp add: writer_enqueue_def)
next
  case False
  then obtain q' where "writer_enqueue i w = Some (if 0 < MaxQueueSize (w_config w)
      \<and> MaxQueueSize (w_config w) < items_bytes (ring_items (w_messages w) @ [i]) then Some DisconnectSlow else None,
      w\<lparr>w_messages := q'\<rparr>)" "queue_wf q'"
    using writer_enqueue_open[of w i] assms by (auto simp: writer_wf_def)
  then show ?thesis using that assms by (simp add: writer_wf_def)
qed

lemma writer_close_wf:
  assumes "writer_wf w"
  obtains w' world' where "writer_close b w world = Some (w', world')" "writer_wf w'" "w_closed w'"
proof -
  obtain q' where "queue_CloseRemaining (w_messages w) = Some (ring_items (w_messages w), q')" "queue_wf q'"
    using queue_CloseRemaining_ok[of "w_messages w"] assms by (auto simp: writer_wf_def)
  moreover have "queue_wf (queue_Close (w_messages w))"
    by (simp add: queue_Close_def queue_wf_def ring_wf_def ring_items_def items_bytes_def)
  ultimately show ?thesis using that assms by (cases "w_closed w"; cases b) (auto simp: writer_close_def writer_wf_def)
qed

lemma writer_enqueue_wfD:
  assumes "writer_enqueue i w = Some (d, w')" "writer_wf w"
  shows "writer_wf w'"
  by (rule writer_enqueue_wf[OF assms(2), of i]) (use assms(1) in simp)

lemma transportEnqueue_keeps: "transportEnqueue E d ch f c = Some (e, c') \<Longrightarrow> keeps c c'"
  by (auto simp: transportEnqueue_def keeps_def writer_inv_def Let_def split: bind_splits option.splits)
    (erule (1) writer_enqueue_wfD)+

lemma transportEnqueue_ok:
  assumes "writer_inv c" "c_messageWriter c \<noteq> None"
  obtains e c' where "transportEnqueue E d ch f c = Some (e, c')" "keeps c c'" "writer_inv c'" "c_messageWriter c' \<noteq> None"
proof -
  obtain w where w: "c_messageWriter c = Some w" "writer_wf w" using assms by (auto simp: writer_inv_def)
  obtain dd w' where en: "writer_enqueue \<lparr>it_Data = d, it_Channel = (if ev_channelLabel E then ch else ''''), it_FrameType = f\<rparr> w = Some (dd, w')"
    "writer_wf w'" using writer_enqueue_wf[OF w(2)] by metis
  have "\<exists>e c'. transportEnqueue E d ch f c = Some (e, c') \<and> writer_inv c' \<and> c_messageWriter c' \<noteq> None"
    using w(1) en by (cases dd) (auto simp: transportEnqueue_def Let_def writer_inv_def)
  then show ?thesis using that transportEnqueue_keeps by blast
qed

lemma writeEncodedCommandReply_keeps:
  assumes "writeEncodedCommandReply E ch f i b c = Some c'"
  shows "keeps c c'"
proof (cases "ev_encode E \<lparr>rp_Id = i, rp_Body = b\<rparr>")
  case None
  then show ?thesis using assms by (auto simp: writeEncodedCommandReply_def keeps_def)
next
  case (Some data)
  then obtain w where w: "c_messageWriter c = Some w" using assms by (auto simp: writeEncodedCommandReply_def Let_def split: bind_splits)
  show ?thesis
  proof (cases "c_replyWithoutQueue c")
    case True
    then have "c_messageWriter c' = c_messageWriter c" using assms Some w
      by (auto simp: writeEncodedCommandReply_def Let_def split: prod.splits)
    then have "writer_inv c' = writer_inv c" by (rule writer_inv_cong)
    then show ?thesis using assms Some w True by (auto simp: writeEncodedCommandReply_def keeps_def Let_def split: prod.splits)
  next
    case False
    then obtain dd w' i where w': "writer_enqueue i w = Some (dd, w')" and
      c': "c' = c\<lparr>c_messageWriter := Some w', c_closing := c_closing c @ (case dd of None \<Rightarrow> [] | Some d \<Rightarrow> [d])\<rparr>"
      using assms Some w by (auto simp: writeEncodedCommandReply_def Let_def split: bind_splits)
    show ?thesis using writer_enqueue_wfD[OF w'] w by (simp add: c' keeps_def writer_inv_def)
  qed
qed

lemma writeDisconnectOrErrorFlush_keeps: "writeDisconnectOrErrorFlush E ch f i e c = Some c' \<Longrightarrow> keeps c c'"
  by (auto simp: writeDisconnectOrErrorFlush_def keeps_def split: err.splits dest!: writeEncodedCommandReply_keeps)

lemma sendUnsubscribe_keeps: "sendUnsubscribe E ch u c = Some (e, c') \<Longrightarrow> keeps c c'"
  by (auto simp: sendUnsubscribe_def split: bind_splits option.splits dest: transportEnqueue_keeps)

lemma handleCommandDispatchError_keeps:
  "handleCommandDispatchError E ch cmd f e c = Some (r, c') \<Longrightarrow>
     c_uid c' = c_uid c \<and> c_channels c' = c_channels c \<and> c_events c' = c_events c \<and> c_status c' = c_status c
     \<and> (writer_inv c \<longrightarrow> writer_inv c')"
  by (auto simp: handleCommandDispatchError_def keeps_def Let_def split: bind_splits err.splits if_splits
      dest!: writeEncodedCommandReply_keeps)

section \<open>Closing releases what the connection holds\<close>

text \<open>The node's state read as sets, whatever the broker does: the subscriptions \<open>S\<close> and the
  connected clients \<open>U\<close>.\<close>

abbreviation node_ok :: "(string \<times> string) set \<Rightarrow> ('b, 'm) node_scheme \<Rightarrow> bool" where
  "node_ok S n \<equiv> node_inv (\<lambda>_ _. True) S n"

lemma any_broker: "broker_contract B (\<lambda>_ _. True)"
  by unfold_locales simp_all

lemmas addSubscription_ok = broker_contract.addSubscription_inv[OF any_broker]
lemmas removeSubscription_ok = broker_contract.removeSubscription_inv[OF any_broker]

lemma hub_sub_ops_connShards [simp]:
  "h_connShards (snd (hub_addSub ch r h)) = h_connShards h"
  "h_connShards (snd (hub_removeSub ch r h)) = h_connShards h"
  by (auto simp: hub_addSub_def hub_removeSub_def Let_def split: prod.splits)

lemma hub_sub_ops_connShardsD:
  "hub_addSub ch r h = (b, h') \<Longrightarrow> h_connShards h' = h_connShards h"
  "hub_removeSub ch r h = (b, h') \<Longrightarrow> h_connShards h' = h_connShards h"
  using hub_sub_ops_connShards[of ch r h] by auto

lemma hub_conn_ops_subShards [simp]:
  "h_subShards (hub_add r h) = h_subShards h" "h_subShards (hub_remove r h) = h_subShards h"
  by (simp_all add: hub_add_def hub_remove_def Let_def)

lemma hub_subs_rep_conn [simp]:
  "hub_subs_rep S (hub_add r h) = hub_subs_rep S h" "hub_subs_rep S (hub_remove r h) = hub_subs_rep S h"
  by (simp_all add: hub_subs_rep_def)

lemma hub_conns_rep_cong: "h_connShards h' = h_connShards h \<Longrightarrow> hub_conns_rep user_of U h' = hub_conns_rep user_of U h"
  by (simp add: hub_conns_rep_def)

definition same_node :: "('b, 'm) node_scheme \<Rightarrow> ('b, 'm) node_scheme \<Rightarrow> bool" where
  "same_node n n' \<longleftrightarrow> h_connShards (nd_hub n') = h_connShards (nd_hub n) \<and> nd_config n' = nd_config n"

lemma same_node_trans: "same_node n n1 \<Longrightarrow> same_node n1 n2 \<Longrightarrow> same_node n n2"
  by (simp add: same_node_def)

lemma same_node_refl [simp]: "same_node n n"
  by (simp add: same_node_def)

lemma removeSubscription_same:
  "removeSubscription ch r n = Some n' \<Longrightarrow> same_node n n' \<and> nd_presence n' = nd_presence n"
  by (auto simp: removeSubscription_def same_node_def Let_def split: prod.splits if_splits bind_splits
      dest: hub_sub_ops_connShardsD)

lemma addSubscription_same:
  "addSubscription B ch r n = (e, n') \<Longrightarrow> same_node n n' \<and> nd_presence n' = nd_presence n"
  by (auto simp: addSubscription_def same_node_def Let_def split: prod.splits if_splits option.splits
      dest: hub_sub_ops_connShardsD)

text \<open>What a channel of the client with the presence flag leaves in the presence table.\<close>

definition emits :: "'t client \<Rightarrow> string \<Rightarrow> bool" where
  "emits c ch = (case fmlookup (c_channels c) ch of None \<Rightarrow> False
     | Some x \<Rightarrow> channelHasFlag (cc_flags x) flagEmitPresence \<and> channelHasFlag (cc_flags x) flagSubscribed)"

lemma client_unsubscribe_ok:
  assumes "node_ok S n"
  obtains n' c' where "client_unsubscribe ch u d n c = Some (n', c')" "same_node n n'"
    "node_ok (if ch |\<in>| fmdom (c_channels c) then S - {(ch, c_uid c)} else S) n'"
    "c_channels c' = fmdrop ch (c_channels c)" "keeps (c\<lparr>c_channels := c_channels c', c_events := c_events c'\<rparr>) c'"
    "c_messageWriter c' = c_messageWriter c"
    "\<forall>x i. bk_look (nd_presence n') x i = (if x = ch \<and> i = c_uid c \<and> emits c ch then None else bk_look (nd_presence n) x i)"
proof (cases "fmlookup (c_channels c) ch")
  case None
  then have "fmdrop ch (c_channels c) = c_channels c" by (intro fmap_ext) simp
  then show ?thesis
    using None that[of n c] assms by (simp add: client_unsubscribe_def fmdom_notI emits_def)
next
  case (Some x)
  let ?c1 = "c\<lparr>c_channels := fmdrop ch (c_channels c)\<rparr>"
  let ?n1 = "unsubscribe_presence ch x ?c1 n"
  have ok: "node_ok S ?n1" using assms by (simp add: unsubscribe_presence_def node_inv_def)
  obtain n' where n1: "removeSubscription ch (client_ref_of ?c1) ?n1 = Some n'"
    "node_ok (S - {(ch, cr_ID (client_ref_of ?c1))}) n'"
    by (rule removeSubscription_ok[OF ok, of ch "client_ref_of ?c1"])
  then have n': "removeSubscription ch (client_ref_of ?c1) ?n1 = Some n'" "node_ok (S - {(ch, c_uid c)}) n'" by simp_all
  have same: "same_node n n'" "nd_presence n' = nd_presence ?n1"
    using removeSubscription_same[OF n'(1)] by (simp_all add: same_node_def unsubscribe_presence_def split: if_splits)
  have "bk_look (nd_presence n') y i = (if y = ch \<and> i = c_uid c \<and> emits c ch then None else bk_look (nd_presence n) y i)" for y i
    using Some by (auto simp: same(2) unsubscribe_presence_def presence.look_del emits_def)
  moreover define c' where "c' = (if channelHasFlag (cc_flags x) flagSubscribed \<and> eh_unsubscribe (c_eventHub ?c1)
      then ?c1\<lparr>c_events := c_events ?c1 @ [EvUnsubscribe ch (channelHasFlag (cc_flags x) flagServerSide) u d]\<rparr> else ?c1)"
  then have "client_unsubscribe ch u d n c = Some (n', c')" using n'(1) Some by (simp add: client_unsubscribe_def Let_def)
  moreover have c': "c_channels c' = fmdrop ch (c_channels c)" "c_messageWriter c' = c_messageWriter c" by (simp_all add: c'_def)
  moreover have "keeps (c\<lparr>c_channels := c_channels c', c_events := c_events c'\<rparr>) c'"
    using writer_inv_cong[of c' "c\<lparr>c_channels := c_channels c', c_events := c_events c'\<rparr>"] by (simp add: keeps_def c'_def)
  moreover have "node_ok (if ch |\<in>| fmdom (c_channels c) then S - {(ch, c_uid c)} else S) n'"
    using n'(2) Some by (simp add: fmdomI)
  ultimately show ?thesis using that same(1) by blast
qed

lemma close_channels_ok:
  assumes "node_ok S n"
  shows "\<exists>n' c'. close_channels d order n c = Some (n', c') \<and> same_node n n'
     \<and> node_ok (S - {(ch, c_uid c) |ch. ch \<in> set order \<and> ch |\<in>| fmdom (c_channels c)}) n'
     \<and> c_channels c' = fmdrop_set (set order) (c_channels c)
     \<and> keeps (c\<lparr>c_channels := c_channels c', c_events := c_events c'\<rparr>) c' \<and> c_messageWriter c' = c_messageWriter c
     \<and> (\<forall>x i. bk_look (nd_presence n') x i =
           (if x \<in> set order \<and> i = c_uid c \<and> emits c x then None else bk_look (nd_presence n) x i))"
  using assms
proof (induction order arbitrary: S n c)
  case Nil
  then show ?case by simp
next
  case (Cons ch order)
  obtain n1 c1 where 1: "client_unsubscribe ch unsubscribeDisconnect (Some d) n c = Some (n1, c1)" "same_node n n1"
    "node_ok (if ch |\<in>| fmdom (c_channels c) then S - {(ch, c_uid c)} else S) n1"
    "c_channels c1 = fmdrop ch (c_channels c)" "keeps (c\<lparr>c_channels := c_channels c1, c_events := c_events c1\<rparr>) c1"
    "c_messageWriter c1 = c_messageWriter c"
    "\<forall>x i. bk_look (nd_presence n1) x i = (if x = ch \<and> i = c_uid c \<and> emits c ch then None else bk_look (nd_presence n) x i)"
    by (rule client_unsubscribe_ok[OF Cons.prems, of ch unsubscribeDisconnect "Some d" c])
  have uid: "c_uid c1 = c_uid c" using 1(5) by (simp add: keeps_def)
  have emits1: "emits c1 x \<longleftrightarrow> x \<noteq> ch \<and> emits c x" for x by (simp add: emits_def 1(4))
  let ?S1 = "if ch |\<in>| fmdom (c_channels c) then S - {(ch, c_uid c)} else S"
  obtain n2 c2 where 2: "close_channels d order n1 c1 = Some (n2, c2)" "same_node n1 n2"
    "node_ok (?S1 - {(x, c_uid c1) |x. x \<in> set order \<and> x |\<in>| fmdom (c_channels c1)}) n2"
    "c_channels c2 = fmdrop_set (set order) (c_channels c1)"
    "keeps (c1\<lparr>c_channels := c_channels c2, c_events := c_events c2\<rparr>) c2" "c_messageWriter c2 = c_messageWriter c1"
    "\<forall>x i. bk_look (nd_presence n2) x i = (if x \<in> set order \<and> i = c_uid c1 \<and> emits c1 x then None else bk_look (nd_presence n1) x i)"
    using Cons.IH[OF 1(3), of c1] by blast
  have "?S1 - {(x, c_uid c1) |x. x \<in> set order \<and> x |\<in>| fmdom (c_channels c1)}
      = S - {(x, c_uid c) |x. x \<in> set (ch # order) \<and> x |\<in>| fmdom (c_channels c)}"
    by (auto simp: uid 1(4))
  moreover have "c_channels c2 = fmdrop_set (set (ch # order)) (c_channels c)"
    by (intro fmap_ext) (simp add: 2(4) 1(4))
  moreover have "keeps (c\<lparr>c_channels := c_channels c2, c_events := c_events c2\<rparr>) c2" using 1(5,6) 2(5,6) by (simp add: keeps_def)
  moreover have "bk_look (nd_presence n2) x i = (if x \<in> set (ch # order) \<and> i = c_uid c \<and> emits c x then None else bk_look (nd_presence n) x i)" for x i
    using 2(7) 1(7) by (auto simp: uid emits1)
  ultimately show ?case
    using 1(1,6) 2(1,3,6) same_node_trans[OF 1(2) 2(2)] by auto
qed

lemma close_notify_ok:
  assumes "writer_inv c" "c_messageWriter c \<noteq> None"
  obtains c' where "close_notify E d c = Some c'" "keeps c c'" "writer_inv c'" "c_messageWriter c' \<noteq> None"
proof (cases "d_Code d \<noteq> d_Code DisconnectConnectionClosed \<and> encodeReply E (PushReply '''' (DisconnectPush d)) \<noteq> None")
  case True
  then obtain x where x: "encodeReply E (PushReply '''' (DisconnectPush d)) = Some x" by blast
  obtain e c' where "transportEnqueue E x '''' FrameTypePushDisconnect c = Some (e, c')" "keeps c c'" "writer_inv c'" "c_messageWriter c' \<noteq> None"
    by (rule transportEnqueue_ok[OF assms])
  then show ?thesis using that True x by (simp add: close_notify_def)
next
  case False
  then show ?thesis using that[of c] assms by (auto simp: close_notify_def split: option.splits)
qed

lemma close_transport_ok:
  assumes "writer_inv c" "c_messageWriter c \<noteq> None"
  obtains c' w where "close_transport E d c = Some c'" "keeps c c'" "c_messageWriter c' = Some w" "w_closed w" "writer_wf w"
proof -
  obtain w where w: "c_messageWriter c = Some w" "writer_wf w" using assms by (auto simp: writer_inv_def)
  obtain w' world' where "writer_close (d \<noteq> DisconnectConnectionClosed \<and> d \<noteq> DisconnectSlow) w (c_transport c, c_closing c) = Some (w', world')"
    "writer_wf w'" "w_closed w'"
    by (rule writer_close_wf[OF w(2)])
  then show ?thesis using that w(1) by (cases world') (auto simp: close_transport_def keeps_def writer_inv_def)
qed

lemma client_close_ok:
  assumes "node_ok S n" "writer_inv c" "c_status c \<noteq> statusClosed" "set order = fset (fmdom (c_channels c))"
  shows "\<exists>n' c' w. client_close E order d n c = Some (n', c')
     \<and> c_status c' = statusClosed \<and> c_channels c' = fmempty \<and> c_timer c' = None \<and> c_uid c' = c_uid c \<and> c_user c' = c_user c
     \<and> c_messageWriter c' = Some w \<and> w_closed w \<and> writer_wf w
     \<and> node_ok (S - {(ch, c_uid c) |ch. ch |\<in>| fmdom (c_channels c)}) n'
     \<and> h_connShards (nd_hub n') = h_connShards (if c_authenticated c then hub_remove (client_ref_of c) (nd_hub n) else nd_hub n)
     \<and> (\<forall>x i. bk_look (nd_presence n') x i = (if i = c_uid c \<and> emits c x then None else bk_look (nd_presence n) x i))"
proof -
  let ?c = "client_startWriter E (nd_config n) 0 0 0 c"
  let ?cs = "?c\<lparr>c_status := statusClosed, c_timer := None\<rparr>"
  have k0: "keeps c ?c" by simp
  have st: "c_status ?c \<noteq> statusClosed" using k0 assms(3) by (simp add: keeps_def)
  have same: "c_channels ?cs = c_channels c" "c_uid ?cs = c_uid c" "emits ?cs = emits c"
    using k0 by (auto simp: keeps_def emits_def)
  obtain n1 c1 where 1: "close_channels d order n ?cs = Some (n1, c1)" "same_node n n1"
    "node_ok (S - {(ch, c_uid ?cs) |ch. ch \<in> set order \<and> ch |\<in>| fmdom (c_channels ?cs)}) n1"
    "c_channels c1 = fmdrop_set (set order) (c_channels ?cs)"
    "keeps (?cs\<lparr>c_channels := c_channels c1, c_events := c_events c1\<rparr>) c1" "c_messageWriter c1 = c_messageWriter ?cs"
    "\<forall>x i. bk_look (nd_presence n1) x i = (if x \<in> set order \<and> i = c_uid ?cs \<and> emits ?cs x then None else bk_look (nd_presence n) x i)"
    using close_channels_ok[OF assms(1), of d order ?cs] by blast
  have w1: "writer_inv c1" "c_messageWriter c1 \<noteq> None"
    using 1(6) startWriter_inv[OF assms(2), of E "nd_config n" 0 0 0] by (simp_all add: writer_inv_def)
  obtain c2 where 2: "close_notify E d c1 = Some c2" "keeps c1 c2" "writer_inv c2" "c_messageWriter c2 \<noteq> None"
    by (rule close_notify_ok[OF w1])
  obtain c3 w where 3: "close_transport E d c2 = Some c3" "keeps c2 c3" "c_messageWriter c3 = Some w" "w_closed w" "writer_wf w"
    by (rule close_transport_ok[OF 2(3,4)])
  let ?nf = "if c_authenticated c1 then n1\<lparr>nd_hub := hub_remove (client_ref_of c1) (nd_hub n1)\<rparr> else n1"
  let ?c' = "if eh_disconnect (c_eventHub c3) \<and> c_status ?c = statusConnected
                  then c3\<lparr>c_events := c_events c3 @ [EvDisconnect d]\<rparr> else c3"
  have run: "client_close E order d n c = Some (?nf, ?c')"
    using st 1(1) 2(1) 3(1) by (simp add: client_close_def Let_def)
  have chans: "fmdrop_set (set order) (c_channels c) = fmempty"
    using assms(4) by (intro fmap_ext) (simp add: fmdom_notD)
  have c3: "c_status ?c' = statusClosed" "c_channels ?c' = fmempty" "c_timer ?c' = None" "c_uid ?c' = c_uid c" "c_user ?c' = c_user c"
    "c_messageWriter ?c' = Some w"
    using 1(4,5) 2(2) 3(2,3) k0 chans by (simp_all add: keeps_def)
  have auth: "c_authenticated c1 = c_authenticated c" "client_ref_of c1 = client_ref_of c"
    using 1(5) k0 by (simp_all add: keeps_def client_ref_of_def)
  have "node_ok (S - {(ch, c_uid c) |ch. ch |\<in>| fmdom (c_channels c)}) ?nf"
    using 1(3) assms(4) same by (simp add: node_inv_def)
  moreover have "h_connShards (nd_hub ?nf) = h_connShards (if c_authenticated c then hub_remove (client_ref_of c) (nd_hub n) else nd_hub n)"
    using 1(2) by (simp add: auth same_node_def hub_remove_def Let_def)
  moreover have "bk_look (nd_presence ?nf) x i = (if i = c_uid c \<and> emits c x then None else bk_look (nd_presence n) x i)" for x i
  proof -
    have "emits c x \<Longrightarrow> x \<in> set order" using assms(4) by (auto simp: emits_def fmdomI split: option.splits)
    then show ?thesis using 1(7) by (auto simp: same)
  qed
  ultimately show ?thesis using run c3 3(4,5) by blast
qed

text \<open>C16.  Closing a connection that is not closed yet never panics and releases everything the
  connection holds, whatever the broker does and in whatever order its channels are visited: its
  status is closed, it has no channel and no timer left, its writer is closed, the node has lost
  exactly its subscriptions, its presence entries and, if it was authenticated, its registration;
  other clients keep theirs.  Closing again changes nothing.\<close>

theorem client_close_releases:
  assumes "node_ok S n" "hub_conns_rep user_of U (nd_hub n)" "user_of (c_uid c) = c_user c"
    and "writer_inv c" "c_status c \<noteq> statusClosed" "set order = fset (fmdom (c_channels c))"
  shows "\<exists>n' c' w. client_close E order d n c = Some (n', c')
     \<and> c_status c' = statusClosed \<and> c_channels c' = fmempty \<and> c_timer c' = None
     \<and> c_messageWriter c' = Some w \<and> w_closed w
     \<and> hub_subs_rep (S - {(ch, c_uid c) |ch. ch |\<in>| fmdom (c_channels c)}) (nd_hub n')
     \<and> hub_conns_rep user_of (if c_authenticated c then U - {c_uid c} else U) (nd_hub n')
     \<and> (\<forall>x i. bk_look (nd_presence n') x i = (if i = c_uid c \<and> emits c x then None else bk_look (nd_presence n) x i))
     \<and> client_close E order' d' n' c' = Some (n', c')"
proof -
  obtain n' c' w where 1: "client_close E order d n c = Some (n', c')"
    "c_status c' = statusClosed" "c_channels c' = fmempty" "c_timer c' = None" "c_messageWriter c' = Some w" "w_closed w"
    "node_ok (S - {(ch, c_uid c) |ch. ch |\<in>| fmdom (c_channels c)}) n'"
    "h_connShards (nd_hub n') = h_connShards (if c_authenticated c then hub_remove (client_ref_of c) (nd_hub n) else nd_hub n)"
    "\<forall>x i. bk_look (nd_presence n') x i = (if i = c_uid c \<and> emits c x then None else bk_look (nd_presence n) x i)"
    using client_close_ok[OF assms(1,4,5,6), of E d] by blast
  have "hub_conns_rep user_of (if c_authenticated c then U - {c_uid c} else U) (nd_hub n')"
    using hub_remove_rep[OF assms(2), of "client_ref_of c"] assms(2,3) hub_conns_rep_cong[OF 1(8)] by simp
  moreover have "client_close E order' d' n' c' = Some (n', c')"
    using 1(2,5) by (simp add: client_close_def client_startWriter_def Let_def)
  moreover have "hub_subs_rep (S - {(ch, c_uid c) |ch. ch |\<in>| fmdom (c_channels c)}) (nd_hub n')"
    using 1(7) by (simp add: node_inv_def)
  ultimately show ?thesis using 1(1-6,9) by (intro exI[of _ n'] exI[of _ c'] exI[of _ w] conjI)
qed

definition null_env :: "bytes list env" where
  "null_env = \<lparr>ev_write = (\<lambda>b t. (None, t @ [b])), ev_writeMany = (\<lambda>bs t. (None, t @ bs)), ev_transportClose = (\<lambda>_ t. t),
     ev_transportPingPong = \<lparr>pp_PingInterval = 0, pp_PongTimeout = 0\<rparr>, ev_transportWriteHandler = None,
     ev_encode = (\<lambda>r. Some [ucast (rp_Id r)]), ev_channelLabel = False, ev_channelLabelForSent = False\<rparr>"

theorem client_close_releases_witness:
  "\<exists>n' c' w. client_close null_env [] DisconnectStale (NewNode ''n'' ''h'' () zero_config) (NewClient ''c1'' zero_config []) = Some (n', c')
     \<and> c_status c' = statusClosed \<and> c_channels c' = fmempty \<and> c_timer c' = None
     \<and> c_messageWriter c' = Some w \<and> w_closed w
     \<and> hub_subs_rep {} (nd_hub n') \<and> hub_conns_rep (\<lambda>_. '''') {} (nd_hub n')
     \<and> client_close null_env [] DisconnectSlow n' c' = Some (n', c')"
proof -
  let ?n = "NewNode ''n'' ''h'' () zero_config" and ?c = "NewClient ''c1'' zero_config ([] :: bytes list)"
  have n: "node_ok {} ?n" by (rule node_fresh_inv) simp
  have h: "hub_conns_rep (\<lambda>_. '''') {} (nd_hub ?n)" by (simp add: NewNode_def hub_conns_rep_new)
  have w: "writer_inv ?c" by (simp add: NewClient_def writer_inv_def)
  have c: "c_channels ?c = fmempty" "c_status ?c \<noteq> statusClosed" "c_uid ?c = ''c1''" "c_user ?c = ''''" "\<not> c_authenticated ?c"
    by (simp_all add: NewClient_def)
  have "set [] = fset (fmdom (c_channels ?c))" by (simp add: c)
  from client_close_releases[OF n h _ w c(2) this, of null_env DisconnectStale "[]" DisconnectSlow] show ?thesis
    unfolding c(1,3) using c(4,5) by simp blast
qed

section \<open>Timers\<close>

definition deadlines :: "'t client \<Rightarrow> (timerOp \<times> int) list" where
  "deadlines c = filter (\<lambda>(_, t). 0 < t)
     [(timerOpExpire, c_nextExpire c), (timerOpPresence, c_nextPresence c), (timerOpPing, c_nextPing c)]"

text \<open>C17.  \<open>scheduleNextTimer\<close> arms the timer of an open connection for the earliest of the pending
  expiration, presence and ping deadlines, with the operation that belongs to that deadline; with no
  deadline pending no timer is left running.\<close>

theorem scheduleNextTimer_earliest:
  assumes "c_status c \<noteq> statusClosed"
  shows "(deadlines c = [] \<longleftrightarrow> c_timer (scheduleNextTimer now c) = None)
     \<and> (deadlines c \<noteq> [] \<longrightarrow> (\<exists>t. c_timer (scheduleNextTimer now c) = Some (t - now)
          \<and> (c_timerOp (scheduleNextTimer now c), t) \<in> set (deadlines c) \<and> (\<forall>(op, u) \<in> set (deadlines c). t \<le> u)))"
  using assms by (auto simp: scheduleNextTimer_def deadlines_def Let_def)

theorem scheduleNextTimer_earliest_witness:
  "let c = (NewClient ''c1'' zero_config ())\<lparr>c_nextExpire := 900, c_nextPing := 700\<rparr>
   in c_timer (scheduleNextTimer 500 c) = Some 200 \<and> c_timerOp (scheduleNextTimer 500 c) = timerOpPing"
  using scheduleNextTimer_earliest[of "(NewClient ''c1'' zero_config ())\<lparr>c_nextExpire := 900, c_nextPing := 700\<rparr>" 500]
  by (auto simp: deadlines_def NewClient_def)

section \<open>The subscriptions of a connection are tracked\<close>

text \<open>Everything the hub holds for the connection is among the connection's channels, if \<open>t\<close> says
  that it is tracked; \<open>others\<close> says that an operation leaves the subscriptions of the other clients
  alone.\<close>

definition conn_inv :: "bool \<Rightarrow> (string \<times> string) set \<Rightarrow> ('b, 'm) node_scheme \<Rightarrow> 't client \<Rightarrow> bool" where
  "conn_inv t S n c \<longleftrightarrow> node_ok S n \<and> writer_inv c
     \<and> (t \<longrightarrow> (\<forall>ch. (ch, c_uid c) \<in> S \<longrightarrow> fmlookup (c_channels c) ch \<noteq> None))"

definition others :: "string \<Rightarrow> (string \<times> string) set \<Rightarrow> (string \<times> string) set \<Rightarrow> bool" where
  "others u S S' \<longleftrightarrow> (\<forall>ch i. i \<noteq> u \<longrightarrow> ((ch, i) \<in> S' \<longleftrightarrow> (ch, i) \<in> S))"

definition conn_to :: "bool \<Rightarrow> (string \<times> string) set \<Rightarrow> 't client \<Rightarrow> ('b, 'm) node_scheme \<Rightarrow> 't client \<Rightarrow> bool" where
  "conn_to t S c n' c' \<longleftrightarrow> (\<exists>S'. conn_inv t S' n' c' \<and> c_uid c' = c_uid c \<and> others (c_uid c) S S')"

lemma others_simps [simp]:
  "others u S S" "others u S (insert (ch, u) S)" "others u S (S - {(ch, u)})"
  by (auto simp: others_def)

lemma others_trans: "others u S S1 \<Longrightarrow> others u S1 S2 \<Longrightarrow> others u S S2"
  by (simp add: others_def)

lemma conn_to_trans: "conn_to t S c n1 c1 \<Longrightarrow> (\<And>S1. conn_inv t S1 n1 c1 \<Longrightarrow> conn_to t S1 c1 n2 c2) \<Longrightarrow> conn_to t S c n2 c2"
  unfolding conn_to_def using others_trans by metis

lemma conn_inv_core:
  "conn_inv t S n c \<Longrightarrow> writer_inv c' \<Longrightarrow> c_uid c' = c_uid c \<Longrightarrow> c_channels c' = c_channels c \<Longrightarrow> conn_inv t S n c'"
  by (simp add: conn_inv_def)

lemma conn_to_core:
  "conn_inv t S n c \<Longrightarrow> writer_inv c' \<Longrightarrow> c_uid c' = c_uid c \<Longrightarrow> c_channels c' = c_channels c \<Longrightarrow> conn_to t S c n c'"
  unfolding conn_to_def by (intro exI[of _ S]) (simp add: conn_inv_def)

lemma conn_to_keeps: "conn_inv t S n c \<Longrightarrow> keeps c c' \<Longrightarrow> conn_to t S c n c'"
  by (rule conn_to_core) (simp_all add: keeps_def conn_inv_def)

lemma conn_inv_writer: "conn_inv t S n c \<Longrightarrow> writer_inv c"
  by (simp add: conn_inv_def)

lemma node_ok_presence [simp]: "node_ok S (n\<lparr>nd_presence := p\<rparr>) = node_ok S n"
  by (simp add: node_inv_def)

lemma conn_inv_presence [simp]: "conn_inv t S (n\<lparr>nd_presence := p\<rparr>) c = conn_inv t S n c"
  by (simp add: conn_inv_def)

lemma client_unsubscribe_to:
  assumes "conn_inv t S n c" "client_unsubscribe ch u d n c = Some (n', c')"
  shows "conn_to t S c n' c'" "c_messageWriter c' = c_messageWriter c" "c_status c' = c_status c"
proof -
  have ok: "node_ok S n" using assms(1) by (simp add: conn_inv_def)
  obtain m cc where 1: "client_unsubscribe ch u d n c = Some (m, cc)"
    "node_ok (if ch |\<in>| fmdom (c_channels c) then S - {(ch, c_uid c)} else S) m"
    "c_channels cc = fmdrop ch (c_channels c)" "keeps (c\<lparr>c_channels := c_channels cc, c_events := c_events cc\<rparr>) cc"
    "c_messageWriter cc = c_messageWriter c"
    by (rule client_unsubscribe_ok[OF ok, of ch u d c])
  have eq: "m = n'" "cc = c'" using 1(1) assms(2) by simp_all
  let ?S = "if ch |\<in>| fmdom (c_channels c) then S - {(ch, c_uid c)} else S"
  have uid: "c_uid c' = c_uid c" using 1(4) by (simp add: keeps_def eq)
  have "writer_inv c' = writer_inv c" using 1(5) by (intro writer_inv_cong) (simp add: eq)
  then have "conn_inv t ?S n' c'"
    using 1(2,3) assms(1) by (auto simp: conn_inv_def eq uid fmdom_notI fmdomI dest: fmdomI)
  then show "conn_to t S c n' c'" unfolding conn_to_def using uid by (intro exI[of _ ?S]) simp
  show "c_messageWriter c' = c_messageWriter c" "c_status c' = c_status c" using 1(4,5) by (simp_all add: keeps_def eq)
qed

lemma onSubscribeError_to:
  assumes "conn_inv t S n c" "onSubscribeError ch n c = Some (n', c')"
  shows "conn_to t S c n' c'"
proof -
  have ok: "node_ok S n" using assms(1) by (simp add: conn_inv_def)
  let ?c1 = "c\<lparr>c_channels := fmdrop ch (c_channels c)\<rparr>"
  show ?thesis
  proof (cases "fmlookup (c_channels c) ch")
    case None
    then have "n' = n" "c' = ?c1" using assms(2) by (simp_all add: onSubscribeError_def Let_def)
    then show ?thesis unfolding conn_to_def using assms(1) None by (intro exI[of _ S]) (auto simp: conn_inv_def)
  next
    case (Some x)
    obtain m where m: "removeSubscription ch (client_ref_of ?c1) n = Some m" "node_ok (S - {(ch, cr_ID (client_ref_of ?c1))}) m"
      by (rule removeSubscription_ok[OF ok, of ch "client_ref_of ?c1"])
    have "n' = m" "c' = ?c1" using assms(2) m(1) Some by (simp_all add: onSubscribeError_def Let_def)
    then show ?thesis unfolding conn_to_def using assms(1) m(2)
      by (intro exI[of _ "S - {(ch, c_uid c)}"]) (auto simp: conn_inv_def)
  qed
qed

lemma resolveChannel_plain [simp]: "CHR '':'' \<notin> set ch \<Longrightarrow> resolveChannel order m ch role = Some (Some (ch, role))"
  by (simp add: resolveChannel_def)

text \<open>What \<open>subscribeCmd\<close> does: either it fails and changes nothing of the subscriptions, or it
  adds one, under the requested name if that holds no colon.\<close>

definition sub_failed :: "subscribeContext \<Rightarrow> bool" where
  "sub_failed x \<longleftrightarrow> sx_err x \<noteq> None \<or> sx_disconnect x \<noteq> None"

lemma subscribeCmd_cases:
  assumes ok: "node_ok S n"
    and run: "subscribeCmd E B now order ch reply i serverSide n c = Some (x, n', c')"
  obtains (failed) "sub_failed x" "node_ok S n'" "same_node n n'" "c' = c" "sx_result x = None"
  | (added) ch' where "\<not> sub_failed x" "CHR '':'' \<notin> set ch \<longrightarrow> ch' = ch" "node_ok (insert (ch', c_uid c) S) n'" "same_node n n'"
      "c_channels c' = (if serverSide then c_channels c else fmupd ch' (sx_channelContext x) (c_channels c))"
      "keeps (c\<lparr>c_channels := c_channels c'\<rparr>) c'" "serverSide \<longrightarrow> c' = c" "sx_result x \<noteq> None"
proof -
  let ?expired = "so_ExpireAt (sy_Options reply) > 0 \<and> so_ExpireAt (sy_Options reply) - now div Second \<le> 0"
  show ?thesis
  proof (cases "?expired \<or> resolveChannel order (c_channels c) ch (so_Role (sy_Options reply)) = Some None")
    case True
    then show ?thesis
      using failed run ok by (auto simp: subscribeCmd_def Let_def sub_failed_def errorDisconnectContext_def split: if_splits)
  next
    case False
    then obtain ch' role where r: "resolveChannel order (c_channels c) ch (so_Role (sy_Options reply)) = Some (Some (ch', role))"
      using run by (auto simp: subscribeCmd_def Let_def split: if_splits bind_splits option.splits)
    obtain e n1 where a: "addSubscription B ch' (client_ref_of c) n = (e, n1)" by fastforce
    have n1: "node_ok (if e = None then insert (ch', c_uid c) S else S) n1" using addSubscription_ok[OF ok a] by (cases e) simp_all
    have same: "same_node n n1" using addSubscription_same[OF a] by simp
    show ?thesis
    proof (cases e)
      case (Some err)
      then show ?thesis
        using failed run ok n1 same False r a
        by (auto simp: subscribeCmd_def Let_def sub_failed_def errorDisconnectContext_def split: if_splits broker_error.splits)
    next
      case None
      have plain: "CHR '':'' \<notin> set ch \<longrightarrow> ch' = ch" using r by auto
      have e0: "?expired = False" using False by blast
      let ?o = "sy_Options reply"
      let ?refresh = "so_ExpireAt ?o > 0 \<and> sy_ClientSideRefresh reply"
      let ?res = "\<lparr>sr_Expires = ?refresh, sr_Ttl = (if ?refresh then word_of_int (so_ExpireAt ?o - now div Second) else 0), sr_Data = so_Data ?o\<rparr>"
      let ?info = "\<lparr>ci_ClientID = c_uid c, ci_UserID = c_user c, ci_ConnInfo = c_info c, ci_ChanInfo = so_ChannelInfo ?o, ci_ChanRole = role\<rparr>"
      let ?n2 = "if so_EmitPresence ?o then n1\<lparr>nd_presence := presenceHub_add ch' (c_uid c) ?info (nd_presence n1)\<rparr> else n1"
      let ?cc = "\<lparr>cc_info = so_ChannelInfo ?o, cc_expireAt = so_ExpireAt ?o, cc_positionCheckTime = 0,
                        cc_flags = channelFlags serverSide reply, cc_role = role, cc_Source = so_Source ?o\<rparr>"
      let ?w = "if \<not> serverSide then writeEncodedCommandReply E ch' FrameTypeSubscribe i (SubscribeRes ?res) c else Some c"
      have "do { c1 \<leftarrow> ?w; Some (\<lparr>sx_result = Some ?res, sx_err = None, sx_disconnect = None, sx_channelContext = ?cc\<rparr>, ?n2,
          if \<not> serverSide then c1\<lparr>c_channels := fmupd ch' ?cc (c_channels c1)\<rparr> else c1) } = Some (x, n', c')"
        using run unfolding subscribeCmd_def Let_def e0 if_False by (simp add: r a None)
      then obtain c1 where c1: "?w = Some c1"
        and x0: "x = \<lparr>sx_result = Some ?res, sx_err = None, sx_disconnect = None, sx_channelContext = ?cc\<rparr>" and n': "n' = ?n2"
        and c0: "c' = (if \<not> serverSide then c1\<lparr>c_channels := fmupd ch' ?cc (c_channels c1)\<rparr> else c1)"
        by (cases ?w) simp_all
      have x: "\<not> sub_failed x" "sx_result x \<noteq> None" by (simp_all add: x0 sub_failed_def)
      have c': "c' = (if \<not> serverSide then c1\<lparr>c_channels := fmupd ch' (sx_channelContext x) (c_channels c1)\<rparr> else c1)"
        by (simp add: c0 x0)
      have k: "keeps c c1" using c1 by (auto dest: writeEncodedCommandReply_keeps split: if_splits)
      have "node_ok (insert (ch', c_uid c) S) n'" "same_node n n'"
        using n' n1 same None by (auto simp: same_node_def)
      moreover have "c_channels c' = (if serverSide then c_channels c else fmupd ch' (sx_channelContext x) (c_channels c))"
        "keeps (c\<lparr>c_channels := c_channels c'\<rparr>) c'" "serverSide \<longrightarrow> c' = c"
        using k c' c1 by (auto simp: keeps_def)
      ultimately show ?thesis using added[OF x(1) plain] x(2) by blast
    qed
  qed
qed

lemma conn_to_fail: "conn_inv t S n c \<Longrightarrow> node_ok S n' \<Longrightarrow> conn_to t S c n' c"
  unfolding conn_to_def by (intro exI[of _ S]) (simp add: conn_inv_def)

lemma subscribeCmd_to:
  assumes "conn_inv t S n c" "subscribeCmd E B now order ch reply i False n c = Some (x, n', c')"
  shows "conn_to t S c n' c'"
proof -
  have ok: "node_ok S n" using assms(1) by (simp add: conn_inv_def)
  show ?thesis
    using ok assms(2)
  proof (cases rule: subscribeCmd_cases)
    case failed
    then show ?thesis using conn_to_fail[OF assms(1)] by simp
  next
    case (added ch')
    have "conn_inv t (insert (ch', c_uid c) S) n' c'"
      using added(3,5,6) assms(1) by (auto simp: conn_inv_def keeps_def)
    then show ?thesis unfolding conn_to_def using added(6)
      by (intro exI[of _ "insert (ch', c_uid c) S"]) (simp add: keeps_def)
  qed
qed

lemma handleSubscribe_to:
  assumes "conn_inv t S n c" "handleSubscribe config ch token data c = (e, c')"
  shows "conn_to t S c n c'"
proof -
  have "c_uid c' = c_uid c" "c_messageWriter c' = c_messageWriter c"
    "c_channels c' = c_channels c \<or> c_channels c' = fmupd ch zero_channelContext (c_channels c)"
    using assms(2) by (auto simp: handleSubscribe_def validateSubscribeRequest_def split: if_splits)
  then show ?thesis
    unfolding conn_to_def using assms(1) writer_inv_cong[of c' c]
    by (intro exI[of _ S]) (auto simp: conn_inv_def)
qed

lemma error_then_flush:
  assumes "conn_inv t S n c" "do { (n1, c1) \<leftarrow> onSubscribeError ch n c; c2 \<leftarrow> writeDisconnectOrErrorFlush E ch f i er c1; Some (n1, c2) } = Some (n', c')"
  shows "conn_to t S c n' c'"
proof -
  obtain c1 where 1: "onSubscribeError ch n c = Some (n', c1)" "writeDisconnectOrErrorFlush E ch f i er c1 = Some c'"
    using assms(2) by (auto split: bind_splits)
  show ?thesis
    by (rule conn_to_trans[OF onSubscribeError_to[OF assms(1) 1(1)]])
      (rule conn_to_keeps[OF _ writeDisconnectOrErrorFlush_keeps[OF 1(2)]])
qed

lemma handleSubscribe_cb_to:
  assumes "conn_inv t S n c" "handleSubscribe_cb E B now order ch i reply e n c = Some (n', c')"
  shows "conn_to t S c n' c'"
proof (cases e)
  case (Some er)
  then show ?thesis using error_then_flush[OF assms(1)] assms(2) by (simp add: handleSubscribe_cb_def)
next
  case None
  obtain x n1 c1 where 1: "subscribeCmd E B now order ch reply i False n c = Some (x, n1, c1)"
    using assms(2) None by (auto simp: handleSubscribe_cb_def split: bind_splits)
  have "conn_to t S1 c1 n' c'" if "conn_inv t S1 n1 c1" for S1
    using assms(2) None 1 error_then_flush[OF that] conn_to_core[OF that conn_inv_writer[OF that]]
    by (auto simp: handleSubscribe_cb_def split: option.splits)
  then show ?thesis by (rule conn_to_trans[OF subscribeCmd_to[OF assms(1) 1]])
qed

lemma client_Subscribe_to:
  assumes "conn_inv t S n c" "t \<longrightarrow> CHR '':'' \<notin> set ch" "client_Subscribe E B now order ch opts n c = Some (e, n', c')"
  shows "conn_to t S c n' c'"
proof -
  have ok: "node_ok S n" using assms(1) by (simp add: conn_inv_def)
  let ?limit = "cf_ClientChannelLimit (nd_config n) > 0 \<and> int (fm_len (c_channels c)) \<ge> cf_ClientChannelLimit (nd_config n)"
  have w: "writer_inv c" by (rule conn_inv_writer[OF assms(1)])
  consider "ch = ''''" | "ch \<noteq> ''''" ?limit | "(ch = '''') = False" "?limit = False" by blast
  then show ?thesis
  proof cases
    case 1
    show ?thesis
      using assms(3) conn_to_core[OF assms(1) w] unfolding client_Subscribe_def if_P[OF 1] by simp
  next
    case 2
    show ?thesis
      using assms(3) conn_to_core[OF assms(1), of "c\<lparr>c_closing := c_closing c @ [DisconnectChannelLimit]\<rparr>"] w
      unfolding client_Subscribe_def if_not_P[OF 2(1)] if_P[OF 2(2)] by auto
  next
    case f: 3
    note body = assms(3)[unfolded client_Subscribe_def f if_False]
    obtain x n1 c1 where 1: "subscribeCmd E B now order ch \<lparr>sy_Options = opts, sy_ClientSideRefresh = False\<rparr> 0 True n c = Some (x, n1, c1)"
      using body by (cases "subscribeCmd E B now order ch \<lparr>sy_Options = opts, sy_ClientSideRefresh = False\<rparr> 0 True n c") auto
    show ?thesis
    proof (cases "sx_err x")
      case (Some er)
      then have 2: "onSubscribeError ch n1 c1 = Some (n', c')"
        using body 1 by (auto split: bind_splits)
      have f: "sub_failed x" using Some by (simp add: sub_failed_def)
      have "node_ok S n1 \<and> c1 = c" using ok 1 by (cases rule: subscribeCmd_cases) (simp_all add: f)
      then show ?thesis using onSubscribeError_to[of t S n1 c1, OF _ 2] assms(1) by (simp add: conn_inv_def)
    next
      case None
      let ?c2 = "c1\<lparr>c_channels := fmupd ch (sx_channelContext x) (c_channels c1)\<rparr>"
      have "keeps ?c2 c' \<and> n' = n1 \<and> sx_result x \<noteq> None"
        using body unfolding 1 Let_def
        by (simp add: None split: bind_splits option.splits) (auto dest: transportEnqueue_keeps)
      then have "keeps ?c2 c'" and n': "n' = n1" and res: "sx_result x \<noteq> None" by blast+
      moreover have "\<exists>ch'. conn_inv t (insert (ch', c_uid c) S) n1 ?c2 \<and> c1 = c"
        using ok 1
      proof (cases rule: subscribeCmd_cases)
        case failed
        then show ?thesis using res by simp
      next
        case (added ch')
        then show ?thesis using assms(1,2) by (intro exI[of _ ch']) (auto simp: conn_inv_def)
      qed
      then obtain ch' where "conn_inv t (insert (ch', c_uid c) S) n1 ?c2" "c1 = c" by blast
      ultimately show ?thesis
        unfolding conn_to_def by (intro exI[of _ "insert (ch', c_uid c) S"]) (auto simp: conn_inv_def keeps_def)
    qed
  qed
qed

lemma connect_subscribe_cases:
  assumes "node_ok S n" "t \<longrightarrow> (\<forall>ch |\<in>| fmdom subs. CHR '':'' \<notin> set ch)"
    and "connect_subscribe E B now order subs chs a n c = Some (a', n', c')"
  shows "\<exists>S'. node_ok S' n' \<and> same_node n n' \<and> c' = c \<and> others (c_uid c) S S'
     \<and> (t \<longrightarrow> (\<forall>ch. (ch, c_uid c) \<in> S' \<longrightarrow> (ch, c_uid c) \<in> S \<or> ch \<in> fst ` set (sa_ctxs a'))) \<and> set (sa_ctxs a) \<subseteq> set (sa_ctxs a')"
  using assms(1,3)
proof (induction chs arbitrary: S a n)
  case Nil
  then show ?case by (intro exI[of _ S]) simp
next
  case (Cons ch chs)
  show ?case
  proof (cases "fmlookup subs ch")
    case None
    then show ?thesis using Cons by simp
  next
    case (Some opts)
    then have plain: "t \<longrightarrow> CHR '':'' \<notin> set ch" using assms(2) by (simp add: fmdomI)
    let ?reply = "\<lparr>sy_Options = opts, sy_ClientSideRefresh = False\<rparr>"
    obtain x n1 c1 where 1: "subscribeCmd E B now order ch ?reply 0 True n c = Some (x, n1, c1)"
      using Cons.prems(2) Some by (cases "subscribeCmd E B now order ch ?reply 0 True n c") auto
    define a1 where "a1 = a\<lparr>sa_subs := (case sx_result x of None \<Rightarrow> sa_subs a | Some r \<Rightarrow> fmupd ch r (sa_subs a)),
               sa_ctxs := sa_ctxs a @ [(ch, x)],
               sa_disconnect := (if sx_disconnect x \<noteq> None then sx_disconnect x else sa_disconnect a),
               sa_err := (if sx_err x \<noteq> None then sx_err x else sa_err a)\<rparr>"
    have rest: "connect_subscribe E B now order subs chs a1 n1 c1 = Some (a', n', c')"
      using Cons.prems(2) Some 1 by (simp add: a1_def)
    obtain S1 ch' where S1: "node_ok S1 n1" "same_node n n1" "c1 = c" "S1 = S \<or> S1 = insert (ch', c_uid c) S" "t \<longrightarrow> ch' = ch"
      using Cons.prems(1) 1 by (cases rule: subscribeCmd_cases) (use plain in auto)
    obtain S' where S': "node_ok S' n'" "same_node n1 n'" "c' = c" "others (c_uid c) S1 S'"
      "t \<longrightarrow> (\<forall>ch. (ch, c_uid c) \<in> S' \<longrightarrow> (ch, c_uid c) \<in> S1 \<or> ch \<in> fst ` set (sa_ctxs a'))" "set (sa_ctxs a1) \<subseteq> set (sa_ctxs a')"
      using Cons.IH[OF S1(1), of a1] rest S1(3) by auto
    have "ch \<in> fst ` set (sa_ctxs a')" using S'(6) by (force simp: a1_def)
    then have "t \<longrightarrow> (\<forall>y. (y, c_uid c) \<in> S' \<longrightarrow> (y, c_uid c) \<in> S \<or> y \<in> fst ` set (sa_ctxs a'))" using S'(5) S1(4,5) by auto
    moreover have "others (c_uid c) S S'" using S'(4) S1(4) others_simps(2) others_trans by blast
    moreover have "set (sa_ctxs a) \<subseteq> set (sa_ctxs a')" using S'(6) by (simp add: a1_def)
    ultimately show ?thesis using S'(1,3) same_node_trans[OF S1(2) S'(2)] by blast
  qed
qed

lemma startWriter_fields [simp]:
  "c_uid (client_startWriter E config d m q c) = c_uid c"
  "c_channels (client_startWriter E config d m q c) = c_channels c"
  "c_events (client_startWriter E config d m q c) = c_events c"
  "c_authenticated (client_startWriter E config d m q c) = c_authenticated c"
  "c_status (client_startWriter E config d m q c) = c_status c"
  by (simp_all add: client_startWriter_def)

lemma connect_handler_core:
  assumes "connect_handler E config h cred c = (r, c')"
  shows "c_uid c' = c_uid c \<and> c_channels c' = c_channels c \<and> c_events c' = c_events c
     \<and> c_authenticated c' = c_authenticated c \<and> c_status c' = c_status c \<and> (writer_inv c \<longrightarrow> writer_inv c')"
proof -
  consider "h = None" | e where "h = Some (Inl e)" | reply where "h = Some (Inr reply)" by (metis not_None_eq obj_sumE)
  then show ?thesis
  proof cases
    case 1
    then show ?thesis using assms by (auto simp: connect_handler_def inv_intros split: prod.splits)
  next
    case 2
    then show ?thesis using assms by (auto simp: connect_handler_def inv_intros)
  next
    case 3
    then show ?thesis using assms by (auto simp: connect_handler_def inv_intros Let_def split: prod.splits option.splits)
  qed
qed
lemma connect_check_fields:
  "c_uid (snd (connect_check n now cred d subs r c)) = c_uid c"
  "c_channels (snd (connect_check n now cred d subs r c)) = c_channels c"
  "c_events (snd (connect_check n now cred d subs r c)) = c_events c"
  "c_authenticated (snd (connect_check n now cred d subs r c)) = c_authenticated c"
  "c_status (snd (connect_check n now cred d subs r c)) = c_status c"
  "c_messageWriter (snd (connect_check n now cred d subs r c)) = c_messageWriter c"
  by (cases cred; simp add: connect_check_def Let_def)+

lemma connect_check_core:
  "connect_check n now cred d subs r c = (x, c') \<Longrightarrow> c_uid c' = c_uid c \<and> c_channels c' = c_channels c \<and> c_events c' = c_events c
     \<and> c_authenticated c' = c_authenticated c \<and> c_status c' = c_status c \<and> (writer_inv c \<longrightarrow> writer_inv c')"
  using connect_check_fields[of n now cred d subs r c] writer_inv_cong[of c' c] by simp
lemma fold_fmupd_dom:
  "fmdom (fold (\<lambda>(ch, x) m. fmupd ch (g x) m) xs m) = fmdom m |\<union>| fset_of_list (map fst xs)"
  by (induction xs arbitrary: m) (auto split: prod.splits)

definition plain_subs :: "(err + connectReply) option \<Rightarrow> bool" where
  "plain_subs h \<longleftrightarrow> (case h of Some (Inr reply) \<Rightarrow> fBall (fmdom (cy_Subscriptions reply)) (\<lambda>ch. CHR '':'' \<notin> set ch) | _ \<Rightarrow> True)"

lemma connect_handler_subs:
  assumes "plain_subs h" "connect_handler E config h cred0 c = (Inr (cred, d, subs, r), c')"
  shows "\<forall>ch |\<in>| fmdom subs. CHR '':'' \<notin> set ch"
proof -
  consider "h = None" | e where "h = Some (Inl e)" | reply where "h = Some (Inr reply)" by (metis not_None_eq obj_sumE)
  then show ?thesis
  proof cases
    case 3
    then have "subs = fmdrop '''' (cy_Subscriptions reply)" using assms(2) by (auto simp: connect_handler_def Let_def split: prod.splits)
    then show ?thesis using assms(1) 3 by (simp add: plain_subs_def)
  qed (use assms(2) in \<open>auto simp: connect_handler_def split: prod.splits\<close>)
qed

lemma connect_check_open:
  "connect_check n now cred d subs csr c = (Inr res, c') \<Longrightarrow> c_status c \<noteq> statusClosed"
  by (cases cred) (auto simp: connect_check_def Let_def split: if_splits)

text \<open>A connect command is refused before the client counts as authenticated, fails while it
  subscribes the client to the channels of the reply, or succeeds.\<close>

lemma connectCmd_answered_cases:
  assumes run: "connectCmd_answered E B now order subOrder h ctxCred i n c = Some (r, n', c')"
  obtains (refused) e where "r = Inl e" "n' = n" "c_uid c' = c_uid c" "c_channels c' = c_channels c" "c_events c' = c_events c"
      "c_authenticated c' = c_authenticated c" "writer_inv c \<longrightarrow> writer_inv c'"
  | (checked) cred d subs csr c1 res c2 a n2 c4 where "c_status c \<noteq> statusClosed"
      "connect_handler E (nd_config n) h ctxCred c = (Inr (cred, d, subs, csr), c1)"
      "connect_check n now cred d subs csr c1 = (Inr res, c2)"
      "connect_subscribe E B now order subs subOrder \<lparr>sa_subs = fmempty, sa_ctxs = [], sa_disconnect = None, sa_err = None\<rparr>
         (n\<lparr>nd_hub := hub_add (client_ref_of (c2\<lparr>c_authenticated := True\<rparr>)) (nd_hub n)\<rparr>) (c2\<lparr>c_authenticated := True\<rparr>) = Some (a, n2, c4)"
      "case (sa_disconnect a, sa_err a) of
         (None, None) \<Rightarrow> (\<exists>c5. writeEncodedCommandReply E '''' FrameTypeConnect i (ConnectRes (res\<lparr>cn_Subs := sa_subs a\<rparr>)) c4 = Some c5
            \<and> r = Inr (res\<lparr>cn_Subs := sa_subs a\<rparr>) \<and> n' = n2
            \<and> c' = c5\<lparr>c_channels := fold (\<lambda>(ch, ctx) m. fmupd ch (sx_channelContext ctx) m) (sa_ctxs a) (c_channels c5)\<rparr>)
       | _ \<Rightarrow> connect_rollback (sa_ctxs a) n2 c4 = Some (n', c') \<and> isl r"
proof -
  note body = run[unfolded connectCmd_answered_def]
  obtain hr c1 where h: "connect_handler E (nd_config n) h ctxCred c = (hr, c1)" by fastforce
  show ?thesis
  proof (cases hr)
    case (Inl e)
    then have "r = Inl e" "n' = n" "c' = c1" using body h by auto
    then show ?thesis using refused connect_handler_core[OF h] by blast
  next
    case (Inr y)
    obtain cred d subs csr where y: "y = (cred, d, subs, csr)" by (cases y)
    obtain cr c2 where k: "connect_check n now cred d subs csr c1 = (cr, c2)" by fastforce
    show ?thesis
    proof (cases cr)
      case (Inl e)
      then have "r = Inl e" "n' = n" "c' = c2" using body h k \<open>hr = Inr y\<close> y by auto
      then show ?thesis using refused connect_handler_core[OF h] connect_check_core[OF k] by auto
    next
      case (Inr res)
      let ?c3 = "c2\<lparr>c_authenticated := True\<rparr>"
      let ?sub = "connect_subscribe E B now order subs subOrder \<lparr>sa_subs = fmempty, sa_ctxs = [], sa_disconnect = None, sa_err = None\<rparr>
         (n\<lparr>nd_hub := hub_add (client_ref_of ?c3) (nd_hub n)\<rparr>) ?c3"
      note body2 = body[unfolded h \<open>hr = Inr y\<close> y k Inr Let_def prod.case sum.case]
      obtain a n2 c4 where s: "?sub = Some (a, n2, c4)" using body2 by (cases ?sub) auto
      have "case (sa_disconnect a, sa_err a) of
         (None, None) \<Rightarrow> (\<exists>c5. writeEncodedCommandReply E '''' FrameTypeConnect i (ConnectRes (res\<lparr>cn_Subs := sa_subs a\<rparr>)) c4 = Some c5
            \<and> r = Inr (res\<lparr>cn_Subs := sa_subs a\<rparr>) \<and> n' = n2
            \<and> c' = c5\<lparr>c_channels := fold (\<lambda>(ch, ctx) m. fmupd ch (sx_channelContext ctx) m) (sa_ctxs a) (c_channels c5)\<rparr>)
       | _ \<Rightarrow> connect_rollback (sa_ctxs a) n2 c4 = Some (n', c') \<and> isl r"
        using body2 unfolding s by (auto split: option.splits bind_splits)
      moreover have "c_status c \<noteq> statusClosed"
        using connect_check_open[OF k[unfolded Inr]] connect_handler_core[OF h] by simp
      ultimately show ?thesis using checked[OF _ h[unfolded \<open>hr = Inr y\<close> y] k[unfolded Inr] s] by blast
    qed
  qed
qed

lemma connectCmd_cases:
  assumes run: "connectCmd E B now order subOrder h ctxCred i n c = Some (r, n', c')"
  obtains (refused) e where "r = Inl e" "n' = n" "c_uid c' = c_uid c" "c_channels c' = c_channels c" "c_events c' = c_events c"
      "c_authenticated c' = c_authenticated c" "writer_inv c \<longrightarrow> writer_inv c'"
  | (checked) cred d subs csr c1 res c2 a n2 c4 where "\<not> c_authenticated c" "c_status c \<noteq> statusClosed"
      "connect_handler E (nd_config n) h ctxCred c = (Inr (cred, d, subs, csr), c1)"
      "connect_check n now cred d subs csr c1 = (Inr res, c2)"
      "connect_subscribe E B now order subs subOrder \<lparr>sa_subs = fmempty, sa_ctxs = [], sa_disconnect = None, sa_err = None\<rparr>
         (n\<lparr>nd_hub := hub_add (client_ref_of (c2\<lparr>c_authenticated := True\<rparr>)) (nd_hub n)\<rparr>) (c2\<lparr>c_authenticated := True\<rparr>) = Some (a, n2, c4)"
      "case (sa_disconnect a, sa_err a) of
         (None, None) \<Rightarrow> (\<exists>c5. writeEncodedCommandReply E '''' FrameTypeConnect i (ConnectRes (res\<lparr>cn_Subs := sa_subs a\<rparr>)) c4 = Some c5
            \<and> r = Inr (res\<lparr>cn_Subs := sa_subs a\<rparr>) \<and> n' = n2
            \<and> c' = c5\<lparr>c_channels := fold (\<lambda>(ch, ctx) m. fmupd ch (sx_channelContext ctx) m) (sa_ctxs a) (c_channels c5)\<rparr>)
       | _ \<Rightarrow> connect_rollback (sa_ctxs a) n2 c4 = Some (n', c') \<and> isl r"
proof (cases "c_status c = statusClosed \<or> c_authenticated c")
  case True
  then have "isl r" "n' = n" "c' = c" using run by (auto simp: connectCmd_def split: if_splits)
  then show ?thesis using refused by (cases r) auto
next
  case False
  then have "connectCmd_answered E B now order subOrder h ctxCred i n c = Some (r, n', c')" using run by (simp add: connectCmd_def)
  then show ?thesis
    by (cases rule: connectCmd_answered_cases) (use refused checked False in \<open>blast+\<close>)
qed

lemma connect_subscribe_same:
  assumes "node_ok S n" "connect_subscribe E B now order subs chs a n c = Some (a', n', c')"
  shows "(\<exists>S'. node_ok S' n') \<and> same_node n n' \<and> c' = c"
  using assms
proof (induction chs arbitrary: S a n)
  case (Cons ch chs)
  show ?case
  proof (cases "fmlookup subs ch")
    case None
    then show ?thesis using Cons by simp
  next
    case (Some opts)
    let ?reply = "\<lparr>sy_Options = opts, sy_ClientSideRefresh = False\<rparr>"
    obtain x n1 c1 where 1: "subscribeCmd E B now order ch ?reply 0 True n c = Some (x, n1, c1)"
      using Cons.prems(2) Some by (cases "subscribeCmd E B now order ch ?reply 0 True n c") auto
    obtain S1 where S1: "node_ok S1 n1" "same_node n n1" "c1 = c"
      using Cons.prems(1) 1 by (cases rule: subscribeCmd_cases) auto
    obtain a1 where "connect_subscribe E B now order subs chs a1 n1 c = Some (a', n', c')"
      using Cons.prems(2) Some 1 S1(3) by auto
    then show ?thesis using Cons.IH[OF S1(1)] same_node_trans[OF S1(2)] by blast
  qed
qed auto

lemma connect_rollback_same:
  assumes "node_ok S n" "connect_rollback xs n c = Some (n', c')"
  shows "same_node n n' \<and> c_uid c' = c_uid c \<and> c_user c' = c_user c \<and> c_authenticated c' = c_authenticated c \<and> c_events c' = c_events c"
  using assms
proof (induction xs arbitrary: S n c)
  case (Cons y xs)
  obtain ch x where y: "y = (ch, x)" by (cases y)
  let ?c1 = "c\<lparr>c_channels := fmdrop ch (c_channels c)\<rparr>"
  obtain n1 c1 where 1: "onSubscribeError ch n c = Some (n1, c1)" "connect_rollback xs n1 c1 = Some (n', c')"
    using Cons.prems(2) by (auto simp: y split: bind_splits)
  have c1: "c1 = ?c1" using 1(1) by (auto simp: onSubscribeError_def Let_def split: bind_splits if_splits)
  obtain m where m: "removeSubscription ch (client_ref_of ?c1) n = Some m" "node_ok (S - {(ch, cr_ID (client_ref_of ?c1))}) m"
    by (rule removeSubscription_ok[OF Cons.prems(1), of ch "client_ref_of ?c1"])
  have "n1 = n \<or> n1 = m" using 1(1) m(1) by (auto simp: onSubscribeError_def Let_def split: if_splits)
  then obtain S1 where "node_ok S1 n1" "same_node n n1" using m Cons.prems(1) removeSubscription_same[OF m(1)] by auto
  then show ?case using Cons.IH[of S1 n1 c1] 1(2) same_node_trans[of n n1 n'] by (simp add: c1)
qed auto

lemma user_connections_card:
  assumes "hub_conns_rep user_of U h"
  shows "fm_len (hub_UserConnections u h) = card {i \<in> U. user_of i = u}"
proof -
  have "fset (fmdom (hub_UserConnections u h)) = {i \<in> U. user_of i = u}"
    using hub_conns_counts(3)[OF assms, of u] by (auto simp: fmlookup_dom_iff split: if_splits)
  then show ?thesis by (simp add: fcard.rep_eq)
qed

lemma hub_conns_rep_new_user:
  assumes "hub_conns_rep user_of U h" "x \<notin> U"
  shows "hub_conns_rep (user_of(x := u)) U h"
proof -
  have e: "(user_of(x := u)) i = user_of i" if "i \<in> U" for i using that assms(2) by auto
  show ?thesis using assms(1) unfolding hub_conns_rep_def by (simp add: e del: fun_upd_apply cong: conj_cong if_cong)
qed

lemma connect_check_passed:
  assumes "connect_check n now cred d subs csr c = (Inr res, c')"
  obtains cr where "cred = Some cr" "c_user c' = cd_UserID cr"
    "\<not> (cf_UserConnectionLimit (nd_config n) > 0 \<and> cd_UserID cr \<noteq> ''''
        \<and> int (fm_len (hub_UserConnections (cd_UserID cr) (nd_hub n))) \<ge> cf_UserConnectionLimit (nd_config n))"
    "\<not> (cd_ExpireAt cr > 0 \<and> cd_ExpireAt cr < now div Second)"
proof (cases cred)
  case None
  then show ?thesis using assms by (simp add: connect_check_def Let_def split: if_splits)
next
  case (Some cr)
  let ?a = "cf_ClientChannelLimit (nd_config n) > 0 \<and> int (fm_len subs) > cf_ClientChannelLimit (nd_config n)"
  let ?l = "cf_UserConnectionLimit (nd_config n) > 0 \<and> cd_UserID cr \<noteq> ''''
        \<and> int (fm_len (hub_UserConnections (cd_UserID cr) (nd_hub n))) \<ge> cf_UserConnectionLimit (nd_config n)"
  let ?x = "cd_ExpireAt cr > 0 \<and> cd_ExpireAt cr < now div Second"
  have op: "c_status c \<noteq> statusClosed" by (rule connect_check_open[OF assms])
  have "\<not> ?a \<and> \<not> ?l \<and> \<not> ?x"
    using assms Some op by (cases ?a; cases ?l; cases ?x) (simp_all add: connect_check_def Let_def)
  moreover from this have "c_user c' = cd_UserID cr" using assms Some op by (auto simp: connect_check_def Let_def)
  ultimately show ?thesis using that Some by blast
qed

text \<open>C18.  A connect command authenticates the connection only with credentials that the
  connecting handler or the context supplied, when the user is below its connection limit and the
  credentials have not expired; the connection is then registered in the hub under that user.  If
  it is not authenticated the command returned an error and left the node untouched.\<close>

theorem connectCmd_authenticates:
  assumes "connectCmd E B now order subOrder h ctxCred i n c = Some (r, n', c')"
    and "\<not> c_authenticated c" "node_ok S n" "hub_conns_rep user_of U (nd_hub n)" "c_uid c \<notin> U"
  shows "if c_authenticated c' then
      (\<exists>cred d subs csr c1. connect_handler E (nd_config n) h ctxCred c = (Inr (Some cred, d, subs, csr), c1)
        \<and> \<not> (cf_UserConnectionLimit (nd_config n) > 0 \<and> cd_UserID cred \<noteq> ''''
             \<and> cf_UserConnectionLimit (nd_config n) \<le> int (card {j \<in> U. user_of j = cd_UserID cred}))
        \<and> \<not> (0 < cd_ExpireAt cred \<and> cd_ExpireAt cred < now div Second)
        \<and> c_user c' = cd_UserID cred
        \<and> hub_conns_rep (user_of(c_uid c := cd_UserID cred)) (insert (c_uid c) U) (nd_hub n'))
    else isl r \<and> n' = n"
  using assms(1)
proof (cases rule: connectCmd_cases)
  case (refused e)
  then show ?thesis using assms(2) by simp
next
  case (checked cred d subs csr c1 res c2 a n2 c4)
  obtain cr where cr: "cred = Some cr" "c_user c2 = cd_UserID cr"
    "\<not> (cf_UserConnectionLimit (nd_config n) > 0 \<and> cd_UserID cr \<noteq> ''''
        \<and> int (fm_len (hub_UserConnections (cd_UserID cr) (nd_hub n))) \<ge> cf_UserConnectionLimit (nd_config n))"
    "\<not> (cd_ExpireAt cr > 0 \<and> cd_ExpireAt cr < now div Second)"
    by (rule connect_check_passed[OF checked(4)])
  let ?c3 = "c2\<lparr>c_authenticated := True\<rparr>" and ?user = "user_of(c_uid c := cd_UserID cr)"
  let ?n1 = "n\<lparr>nd_hub := hub_add (client_ref_of ?c3) (nd_hub n)\<rparr>"
  have uid: "c_uid ?c3 = c_uid c" using connect_check_core[OF checked(4)] connect_handler_core[OF checked(3)] by simp
  have "node_ok S ?n1" using assms(3) by (simp add: node_inv_def)
  then obtain S2 where S2: "node_ok S2 n2" "same_node ?n1 n2" "c4 = ?c3" using connect_subscribe_same checked(5) by blast
  have "same_node n2 n' \<and> c_uid c' = c_uid c4 \<and> c_user c' = c_user c4 \<and> c_authenticated c' = c_authenticated c4"
  proof (cases "sa_disconnect a = None \<and> sa_err a = None")
    case True
    then show ?thesis using checked(6) by (auto dest!: writeEncodedCommandReply_keeps simp: keeps_def)
  next
    case False
    then show ?thesis using checked(6) connect_rollback_same[OF S2(1)] by (auto split: option.splits)
  qed
  then have same: "h_connShards (nd_hub n') = h_connShards (hub_add (client_ref_of ?c3) (nd_hub n))"
    and c': "c_authenticated c'" "c_user c' = cd_UserID cr"
    using S2 cr(2) by (simp_all add: same_node_def)
  have "hub_conns_rep ?user U (nd_hub n)" by (rule hub_conns_rep_new_user[OF assms(4,5)])
  from hub_add_rep[OF this, of "client_ref_of ?c3"] uid cr(2)
  have "hub_conns_rep ?user (insert (c_uid c) U) (hub_add (client_ref_of ?c3) (nd_hub n))" by simp
  then have "hub_conns_rep ?user (insert (c_uid c) U) (nd_hub n')" using hub_conns_rep_cong[OF same] by blast
  then show ?thesis
    unfolding if_P[OF c'(1)] using checked(3) cr(1,3,4) c'(2) user_connections_card[OF assms(4)] by auto
qed

lemma writeEncodedCommandReply_ok:
  assumes "writer_inv c" "c_messageWriter c \<noteq> None"
  obtains c' where "writeEncodedCommandReply E ch f i b c = Some c'"
proof (cases "ev_encode E \<lparr>rp_Id = i, rp_Body = b\<rparr>")
  case None
  then show ?thesis using that by (simp add: writeEncodedCommandReply_def)
next
  case (Some data)
  obtain w where w: "c_messageWriter c = Some w" "writer_wf w" using assms by (auto simp: writer_inv_def)
  define it where "it = \<lparr>it_Data = data, it_Channel = (if ch \<noteq> '''' \<and> ev_channelLabel E \<and> ev_channelLabelForSent E then ch else ''''),
      it_FrameType = f\<rparr>"
  obtain dd w' where "writer_enqueue it w = Some (dd, w')" by (rule writer_enqueue_wf[OF w(2), of it])
  moreover obtain e t1 closing1 where "WriteFn (w_config w) it (c_transport c, c_closing c) = (e, t1, closing1)"
    by (cases "WriteFn (w_config w) it (c_transport c, c_closing c)") auto
  ultimately show ?thesis
    using that Some w(1) by (cases "c_replyWithoutQueue c") (simp_all add: writeEncodedCommandReply_def Let_def it_def[symmetric])
qed

theorem connectCmd_authenticates_witness:
  "\<exists>r n' c'. connectCmd null_env MemoryBroker 0 [] [] None (Some \<lparr>cd_UserID = ''u'', cd_ExpireAt = 0, cd_Info = []\<rparr>) 1
       (NewNode ''n'' ''h'' () zero_config) (NewClient ''c1'' zero_config []) = Some (r, n', c')
     \<and> c_authenticated c' \<and> c_user c' = ''u'' \<and> hub_conns_rep ((\<lambda>_. '''')(''c1'' := ''u'')) {''c1''} (nd_hub n')"
proof -
  let ?n = "NewNode ''n'' ''h'' () zero_config" and ?c = "NewClient ''c1'' zero_config ([] :: bytes list)"
  let ?cred = "\<lparr>cd_UserID = ''u'', cd_ExpireAt = 0, cd_Info = []\<rparr>"
  let ?run = "connectCmd null_env MemoryBroker 0 [] [] None (Some ?cred) 1 ?n ?c"
  have n: "node_ok {} ?n" by (rule node_fresh_inv) simp
  have h: "hub_conns_rep (\<lambda>_. '''') {} (nd_hub ?n)" by (simp add: NewNode_def hub_conns_rep_new)
  have c: "\<not> c_authenticated ?c" "c_uid ?c = ''c1''" "c_uid ?c \<notin> {}" "c_status ?c = statusConnecting" "writer_inv ?c"
    by (simp_all add: NewClient_def writer_inv_def)
  define c1 where "c1 = snd (connect_handler null_env (nd_config ?n) None (Some ?cred) ?c)"
  have h1: "connect_handler null_env (nd_config ?n) None (Some ?cred) ?c = (Inr (Some ?cred, [], fmempty, False), c1)"
    by (simp add: c1_def connect_handler_def split: prod.splits)
  have "c_status c1 \<noteq> statusClosed" using connect_handler_core[OF h1] c(4) by simp
  then have k: "\<exists>res c2. connect_check ?n 0 (Some ?cred) [] fmempty False c1 = (Inr res, c2)"
    by (simp add: connect_check_def NewNode_def NewNode_config_def zero_config_def Let_def fcard_fempty)
  then obtain res c2 where k: "connect_check ?n 0 (Some ?cred) [] fmempty False c1 = (Inr res, c2)" by blast
  have w: "writer_inv (c2\<lparr>c_authenticated := True\<rparr>)" "c_messageWriter (c2\<lparr>c_authenticated := True\<rparr>) \<noteq> None"
    using connect_check_core[OF k] connect_handler_core[OF h1] c(5) connect_check_fields(6)[of ?n 0 "Some ?cred" "[]" fmempty False c1]
    by (simp_all add: k) (simp add: c1_def connect_handler_def client_startWriter_def split: prod.splits)
  obtain c5 where c5: "writeEncodedCommandReply null_env '''' FrameTypeConnect 1 (ConnectRes (res\<lparr>cn_Subs := fmempty\<rparr>)) (c2\<lparr>c_authenticated := True\<rparr>) = Some c5"
    by (rule writeEncodedCommandReply_ok[OF w])
  then have run: "\<exists>r n' c'. ?run = Some (r, n', c') \<and> c_authenticated c'"
    using writeEncodedCommandReply_keeps[OF c5] c(1,4) h1 k by (simp add: connectCmd_def connectCmd_answered_def keeps_def)
  then obtain r n' c' where run: "?run = Some (r, n', c')" "c_authenticated c'" by blast
  from connectCmd_authenticates[OF run(1) c(1) n h c(3)] show ?thesis
    unfolding if_P[OF run(2)] using run h1 c(2) by auto
qed

end
