(* ===== verification/Client_Run.thy ===== *)
theory Client_Run
  imports Client_Life
begin

text \<open>
  Whole runs of a connection: every operation the server performs on it as a step, with the
  invariant that the hub's subscriptions of the connection are all tracked by it, and what a
  command may make the application do.
\<close>

section \<open>Each operation keeps the subscriptions tracked\<close>










lemma scheduleNextTimer_fields [simp]:
  "c_uid (scheduleNextTimer now c) = c_uid c" "c_channels (scheduleNextTimer now c) = c_channels c"
  "c_messageWriter (scheduleNextTimer now c) = c_messageWriter c" "c_events (scheduleNextTimer now c) = c_events c"
  "c_status (scheduleNextTimer now c) = c_status c" "c_authenticated (scheduleNextTimer now c) = c_authenticated c"
  by (simp_all add: scheduleNextTimer_def Let_def)


lemma triggerConnect_core [simp]:
  "c_uid (triggerConnect b c) = c_uid c" "c_channels (triggerConnect b c) = c_channels c"
  "c_messageWriter (triggerConnect b c) = c_messageWriter c" "c_authenticated (triggerConnect b c) = c_authenticated c"
  by (simp_all add: triggerConnect_def)





text \<open>A command whose connect part, if it has one, only names channels without a colon and does not
  fail half way.\<close>

definition connect_clean :: "'t env \<Rightarrow> 'b broker \<Rightarrow> outside \<Rightarrow> command \<Rightarrow> ('b, 'm) node_scheme \<Rightarrow> 't client \<Rightarrow> bool" where
  "connect_clean E B ou cmd n c \<longleftrightarrow> (case cmd_Connect cmd of None \<Rightarrow> True | Some req \<Rightarrow>
     (let h = map_option (\<lambda>h. h req) (ou_connecting ou) in plain_subs h
       \<and> (case connectCmd E B (ou_now ou) (ou_order ou) (ou_subOrder ou) h (ou_ctxCred ou) (cmd_Id cmd) n c of
            Some (Inl _, _, c1) \<Rightarrow> c_authenticated c1 = c_authenticated c | _ \<Rightarrow> True)))"

lemma dispatch_handle_simps:
  assumes "cmd_Connect cmd = None"
  shows "cmd_Subscribe cmd = Some (ch, tk, d) \<Longrightarrow> dispatch_handle E B ou cmd n c =
      (case handleSubscribe (nd_config n) ch tk d c of (e, c1) \<Rightarrow> Some (Some e, n, c1))"
    and "cmd_Subscribe cmd = None \<Longrightarrow> cmd_Unsubscribe cmd = Some ch \<Longrightarrow> dispatch_handle E B ou cmd n c =
      do { (e, n1, c1) \<leftarrow> handleUnsubscribe E ch (cmd_Id cmd) n c; Some (Some e, n1, c1) }"
    and "cmd_Subscribe cmd = None \<Longrightarrow> cmd_Unsubscribe cmd = None \<Longrightarrow> cmd_Publish cmd = Some (ch, data) \<Longrightarrow>
      dispatch_handle E B ou cmd n c = (case handlePublish ch data c of (e, c1) \<Rightarrow> Some (Some e, n, c1))"
    and "cmd_Subscribe cmd = None \<Longrightarrow> cmd_Unsubscribe cmd = None \<Longrightarrow> cmd_Publish cmd = None \<Longrightarrow> cmd_Presence cmd = Some ch \<Longrightarrow>
      dispatch_handle E B ou cmd n c = (case handlePresence ch c of (e, c1) \<Rightarrow> Some (Some e, n, c1))"
    and "cmd_Subscribe cmd = None \<Longrightarrow> cmd_Unsubscribe cmd = None \<Longrightarrow> cmd_Publish cmd = None \<Longrightarrow> cmd_Presence cmd = None \<Longrightarrow>
      cmd_PresenceStats cmd = Some ch \<Longrightarrow>
      dispatch_handle E B ou cmd n c = (case handlePresenceStats ch c of (e, c1) \<Rightarrow> Some (Some e, n, c1))"
    and "cmd_Subscribe cmd = None \<Longrightarrow> cmd_Unsubscribe cmd = None \<Longrightarrow> cmd_Publish cmd = None \<Longrightarrow> cmd_Presence cmd = None \<Longrightarrow>
      cmd_PresenceStats cmd = None \<Longrightarrow> cmd_Send cmd = Some data \<Longrightarrow>
      dispatch_handle E B ou cmd n c = (case handleSend data c of (e, c1) \<Rightarrow> Some (Some e, n, c1))"
    and "cmd_Subscribe cmd = None \<Longrightarrow> cmd_Unsubscribe cmd = None \<Longrightarrow> cmd_Publish cmd = None \<Longrightarrow> cmd_Presence cmd = None \<Longrightarrow>
      cmd_PresenceStats cmd = None \<Longrightarrow> cmd_Send cmd = None \<Longrightarrow> cmd_Refresh cmd = Some tk \<Longrightarrow>
      dispatch_handle E B ou cmd n c = (case handleRefresh tk c of (e, c1) \<Rightarrow> Some (Some e, n, c1))"
    and "cmd_Subscribe cmd = None \<Longrightarrow> cmd_Unsubscribe cmd = None \<Longrightarrow> cmd_Publish cmd = None \<Longrightarrow> cmd_Presence cmd = None \<Longrightarrow>
      cmd_PresenceStats cmd = None \<Longrightarrow> cmd_Send cmd = None \<Longrightarrow> cmd_Refresh cmd = None \<Longrightarrow>
      dispatch_handle E B ou cmd n c = Some (None, n, c)"
  using assms by (simp_all add: dispatch_handle_def)








section \<open>Publishing needs the write role\<close>

text \<open>Who may publish: the decision the code spreads over \<open>HandleCommand\<close>, \<open>dispatchCommand\<close> and
  \<open>handlePublish\<close>.\<close>

definition publish_grant :: "outside \<Rightarrow> command \<Rightarrow> string \<Rightarrow> bytes \<Rightarrow> 't client \<Rightarrow> clientInfo option" where
  "publish_grant ou cmd ch data c =
     (if c_status c = statusClosed \<or> c_unusable c \<or> c_ctxDone c \<or> \<not> c_authenticated c
         \<or> (cmd_Id cmd = 0 \<and> cmd_Send cmd = None) \<or> (case ou_commandRead ou of None \<Rightarrow> None | Some h \<Rightarrow> h cmd) \<noteq> None
         \<or> \<not> eh_publish (c_eventHub c) \<or> ch = '''' \<or> data = []
      then None
      else (case clientInfo_of ch c of
              None \<Rightarrow> None
            | Some info \<Rightarrow> if ci_ChanRole info \<in> {WriteRole, ReadWriteRole} then Some info else None))"

abbreviation grant_events :: "string \<Rightarrow> bytes \<Rightarrow> clientInfo option \<Rightarrow> event list" where
  "grant_events ch data g \<equiv> (case g of None \<Rightarrow> [] | Some info \<Rightarrow> [EvPublish ch data info])"

lemma handlePublish_events:
  assumes "handlePublish ch data c = (e, c')"
    and "c_status c \<noteq> statusClosed" "\<not> c_unusable c" "\<not> c_ctxDone c" "c_authenticated c"
    and "\<not> (cmd_Id cmd = 0 \<and> cmd_Send cmd = None)" "(case ou_commandRead ou of None \<Rightarrow> None | Some h \<Rightarrow> h cmd) = None"
  shows "c_events c' = c_events c @ grant_events ch data (publish_grant ou cmd ch data c)"
proof (cases "eh_publish (c_eventHub c) \<and> ch \<noteq> '''' \<and> data \<noteq> []")
  case True
  then have "publish_grant ou cmd ch data c = (case clientInfo_of ch c of None \<Rightarrow> None
      | Some info \<Rightarrow> if ci_ChanRole info \<in> {WriteRole, ReadWriteRole} then Some info else None)"
    unfolding publish_grant_def using assms(2-7) by auto
  then show ?thesis using assms(1) True by (auto simp: handlePublish_def split: if_splits option.splits)
next
  case False
  then have "publish_grant ou cmd ch data c = None" by (auto simp: publish_grant_def)
  then show ?thesis using assms(1) False by (auto simp: handlePublish_def split: if_splits)
qed

lemma dispatchCommand_publish:
  assumes cmd: "cmd_Connect cmd = None" "cmd_Subscribe cmd = None" "cmd_Unsubscribe cmd = None" "cmd_Publish cmd = Some (ch, data)"
    and open_conn: "c_status c \<noteq> statusClosed" "\<not> c_unusable c" "\<not> c_ctxDone c"
    and run: "dispatchCommand E B ou cmd n c = Some (r, n', c')"
  shows "n' = n \<and> c_events c' = c_events c @ grant_events ch data (publish_grant ou cmd ch data c)"
proof -
  have d: "dispatch_handle E B ou cmd n c = (case handlePublish ch data c of (e, c1) \<Rightarrow> Some (Some e, n, c1))"
    by (rule dispatch_handle_simps(3)[OF cmd])
  have fr: "command_frame cmd = Some (ch, FrameTypePublish)" using cmd by (simp add: command_frame_def)
  define hk where "hk = (case ou_commandRead ou of None \<Rightarrow> None | Some h \<Rightarrow> h cmd)"
  show ?thesis
  proof (cases "c_authenticated c \<and> \<not> (cmd_Id cmd = 0 \<and> cmd_Send cmd = None)")
    case False
    have "publish_grant ou cmd ch data c = None" using False by (auto simp: publish_grant_def)
    moreover have "n' = n \<and> c' = c" using run False cmd(1) unfolding dispatchCommand_def by (auto split: if_splits)
    ultimately show ?thesis by simp
  next
    case True
    note a = if_not_P[OF open_conn(1)]
    have b: "\<not> (\<not> c_authenticated c \<and> cmd_Connect cmd = None)" "\<not> (cmd_Id cmd = 0 \<and> cmd_Send cmd = None)" using True by blast+
    note body = run[unfolded dispatchCommand_def a if_not_P[OF b(1)] if_not_P[OF b(2)] fr option.case prod.case hk_def[symmetric]]
    show ?thesis
    proof (cases hk)
      case (Some e)
      have "publish_grant ou cmd ch data c = None" using Some by (auto simp: publish_grant_def hk_def)
      moreover have "handleCommandDispatchError E ch cmd FrameTypePublish e c = Some (r, c') \<and> n' = n"
        using body unfolding Some option.case by (auto split: bind_splits)
      ultimately show ?thesis using handleCommandDispatchError_keeps by fastforce
    next
      case None
      obtain e c1 where p: "handlePublish ch data c = (e, c1)" by (cases "handlePublish ch data c")
      have ev: "c_events c1 = c_events c @ grant_events ch data (publish_grant ou cmd ch data c)"
        by (rule handlePublish_events[OF p open_conn]) (use True None in \<open>auto simp: hk_def\<close>)
      note body2 = body[unfolded None option.case d p prod.case bind_simps]
      show ?thesis
      proof (cases e)
        case None
        then show ?thesis using body2 ev by simp
      next
        case (Some er)
        have "handleCommandDispatchError E ch cmd FrameTypePublish er c1 = Some (r, c') \<and> n' = n"
          using body2 unfolding Some option.case by (auto split: bind_splits)
        then show ?thesis using handleCommandDispatchError_keeps ev by fastforce
      qed
    qed
  qed
qed

text \<open>C19.  A publish command reaches the application's publish handler exactly when the connection
  is open, usable and authenticated, the command has an id, the read hook let it pass, channel and data
  are not empty and the client holds the channel with the write or the read-write role; then the
  handler gets the channel, the data and the client's own information.  In every other case no
  handler is called, and the node is the same in all of them.\<close>

theorem publish_needs_write_role:
  assumes "cmd_Connect cmd = None" "cmd_Subscribe cmd = None" "cmd_Unsubscribe cmd = None" "cmd_Publish cmd = Some (ch, data)"
    and "HandleCommand E B ou cmd n c = Some (r, n', c')"
  shows "n' = n \<and> c_events c' = c_events c @ grant_events ch data (publish_grant ou cmd ch data c)"
proof (cases "c_status c = statusClosed \<or> c_unusable c \<or> c_ctxDone c")
  case True
  then have "publish_grant ou cmd ch data c = None" by (auto simp: publish_grant_def)
  moreover have "n' = n \<and> c_events c' = c_events c"
    using assms(5) True unfolding HandleCommand_def by (auto split: if_splits)
  ultimately show ?thesis by simp
next
  case False
  then have f: "c_status c \<noteq> statusClosed" "\<not> c_unusable c" "\<not> c_ctxDone c" by blast+
  obtain d p n1 c1 where 1: "dispatchCommand E B ou cmd n c = Some ((d, p), n1, c1)"
    using assms(5) f unfolding HandleCommand_def by (cases "dispatchCommand E B ou cmd n c") auto
  have "n' = n1 \<and> c_events c' = c_events c1"
    using assms(5) f 1 by (auto simp: HandleCommand_def split: if_splits option.splits)
  then show ?thesis using dispatchCommand_publish[OF assms(1-4) f 1] by simp
qed

definition publish_example_client :: "int \<Rightarrow> bytes list client" where
  "publish_example_client role = (NewClient ''c1'' zero_config [])\<lparr>c_user := ''u'', c_authenticated := True,
     c_status := statusConnected, c_eventHub := no_handlers\<lparr>eh_publish := True\<rparr>,
     c_channels := fmupd ''ch'' (zero_channelContext\<lparr>cc_role := role, cc_flags := flagSubscribed\<rparr>) fmempty\<rparr>"

definition publish_example_command :: command where
  "publish_example_command = \<lparr>cmd_Id = 1, cmd_Connect = None, cmd_Subscribe = None, cmd_Unsubscribe = None,
     cmd_Publish = Some (''ch'', [7]), cmd_Presence = None, cmd_PresenceStats = None, cmd_Send = None, cmd_Refresh = None,
     cmd_SubRefresh = None\<rparr>"

definition quiet_outside :: outside where
  "quiet_outside = \<lparr>ou_now = 0, ou_random = 0, ou_order = [], ou_subOrder = [], ou_connecting = None, ou_ctxCred = None,
     ou_connect = False, ou_commandRead = None\<rparr>"

theorem publish_needs_write_role_witness:
  "\<exists>c'. HandleCommand null_env MemoryBroker quiet_outside publish_example_command (NewNode ''n'' ''h'' () zero_config)
      (publish_example_client WriteRole) = Some (True, NewNode ''n'' ''h'' () zero_config, c')
    \<and> c_events c' = [EvPublish ''ch'' [7] \<lparr>ci_ClientID = ''c1'', ci_UserID = ''u'', ci_ConnInfo = [], ci_ChanInfo = [], ci_ChanRole = 2\<rparr>]"
proof -
  let ?cmd = publish_example_command and ?n = "NewNode ''n'' ''h'' () zero_config" and ?c = "publish_example_client WriteRole"
  note defs = publish_example_command_def publish_example_client_def quiet_outside_def NewClient_def no_handlers_def clientInfo_of_def
    zero_channelContext_def
  have cmd: "cmd_Connect ?cmd = None" "cmd_Subscribe ?cmd = None" "cmd_Unsubscribe ?cmd = None" "cmd_Publish ?cmd = Some (''ch'', [7])"
    by (simp_all add: publish_example_command_def)
  obtain c' where run: "HandleCommand null_env MemoryBroker quiet_outside ?cmd ?n ?c = Some (True, ?n, c')"
    by (simp add: HandleCommand_def dispatchCommand_def command_frame_def dispatch_handle_def handlePublish_def defs)
  have ev: "c_events ?c = []" by (simp add: defs)
  have "publish_grant quiet_outside ?cmd ''ch'' [7] ?c
      = Some \<lparr>ci_ClientID = ''c1'', ci_UserID = ''u'', ci_ConnInfo = [], ci_ChanInfo = [], ci_ChanRole = 2\<rparr>"
    by (simp add: publish_grant_def defs)
  then show ?thesis using run publish_needs_write_role[OF cmd run] by (simp add: ev)
qed

section \<open>The other operations of a connection\<close>










lemma updateChannelPresence_inv [simp]: "conn_inv t S (updateChannelPresence ch x c1 n) c = conn_inv t S n c"
  by (simp add: updateChannelPresence_def)











section \<open>Connections that share a node\<close>

text \<open>One step of one connection: a command the client sent, an answer or a callback of the
  application, a call from the server side, a timer, a publication of the broker, or a close.  An
  answer of the connecting handler may arrive in any state of the connection.  The map iterations of
  the steps that may close run over the channels the connection has then.  The flag of a step says
  that it kept the connection tracked: a server-side subscription to a name with a colon is
  registered under another name than the connection records, and a connect command that fails after
  the client counted as authenticated leaves the subscriptions it had made.\<close>

inductive conn_step :: "'t env \<Rightarrow> 'b broker \<Rightarrow> bool \<Rightarrow> ('b, 'm) node_scheme \<times> 't client \<Rightarrow> ('b, 'm) node_scheme \<times> 't client \<Rightarrow> bool"
  for E :: "'t env" and B :: "'b broker" where
  command: "HandleCommand E B ou cmd n c = Some (r, n', c') \<Longrightarrow> conn_step E B (connect_clean E B ou cmd n c) (n, c) (n', c')"
| connecting: "connectCmd_answered E B now order subOrder h ctxCred i n c = Some (x, n1, c1) \<Longrightarrow>
    connect_finish now random hasHandler (x, n1, c1) = Some (e, n', c') \<Longrightarrow>
    conn_step E B (plain_subs h \<and> (isl x \<longrightarrow> \<not> c_authenticated c1)) (n, c) (n', c')"
| dispatch_error: "handleCommandDispatchError E ch cmd f er c = Some (y, c') \<Longrightarrow> conn_step E B True (n, c) (n, c')"
| subscribed: "handleSubscribe_cb E B now order ch i reply e n c = Some (n', c') \<Longrightarrow> conn_step E B True (n, c) (n', c')"
| published: "handlePublish_cb E ch i e c = Some c' \<Longrightarrow> conn_step E B True (n, c) (n, c')"
| presence: "handlePresence_cb E ch i p e n c = Some c' \<Longrightarrow> conn_step E B True (n, c) (n, c')"
| presenceStats: "handlePresenceStats_cb E ch i s e n c = Some c' \<Longrightarrow> conn_step E B True (n, c) (n, c')"
| refreshed: "handleRefresh_cb E (nd_config n) now i reply2 e c = Some c' \<Longrightarrow> conn_step E B True (n, c) (n, c')"
| expired: "expire_cb E now order reply2 e n c = Some (n', c') \<Longrightarrow> set order = fset (fmdom (c_channels c)) \<Longrightarrow>
    conn_step E B True (n, c) (n', c')"
| server_subscribe: "client_Subscribe E B now order ch opts n c = Some (e, n', c') \<Longrightarrow>
    conn_step E B (CHR '':'' \<notin> set ch) (n, c) (n', c')"
| server_unsubscribe: "client_Unsubscribe E ch u n c = Some (n', c') \<Longrightarrow> conn_step E B True (n, c) (n', c')"
| async_unsubscribe: "handleAsyncUnsubscribe E order ch v n c = Some (n', c') \<Longrightarrow>
    set order = fset (fmdom (c_channels c)) - {ch} \<Longrightarrow> conn_step E B True (n, c) (n', c')"
| server_refresh: "client_Refresh E (nd_config n) now ropts c = Some (e, c') \<Longrightarrow> conn_step E B True (n, c) (n, c')"
| server_send: "client_Send E data c = Some (e, c') \<Longrightarrow> conn_step E B True (n, c) (n, c')"
| server_disconnect: "conn_step E B True (n, c) (n, client_Disconnect d c)"
| publication: "writePublication E now ch data c = Some c' \<Longrightarrow> conn_step E B True (n, c) (n, c')"
| timer: "onTimerOp E ping now order n c = Some (sp, n', c') \<Longrightarrow> set order = fset (fmdom (c_channels c)) \<Longrightarrow>
    conn_step E B True (n, c) (n', c')"
| closed: "client_close E order disc n c = Some (n', c') \<Longrightarrow> set order = fset (fmdom (c_channels c)) \<Longrightarrow>
    conn_step E B True (n, c) (n', c')"


inductive dissolver_step :: "'b broker \<Rightarrow> 'b node \<Rightarrow> 'b node \<Rightarrow> bool" for B :: "'b broker" where
  take_job: "queueImpl_Remove (ds_queue (nd_subDissolver n)) = Some ((Some ch, True), q) \<Longrightarrow>
    dissolver_step B n (n\<lparr>nd_subDissolver := nd_subDissolver n\<lparr>ds_queue := q\<rparr>, nd_running := nd_running n @ [ch]\<rparr>)"
| job_done: "ch \<in> set (nd_running n) \<Longrightarrow> dissolve_job B ch n = (None, n') \<Longrightarrow>
    dissolver_step B n (n'\<lparr>nd_running := remove1 ch (nd_running n')\<rparr>)"
| job_retry: "ch \<in> set (nd_running n) \<Longrightarrow> dissolve_job B ch n = (Some e, n') \<Longrightarrow>
    queueImpl_Add (Some ch) (ds_queue (nd_subDissolver n')) = Some (ok, q) \<Longrightarrow>
    dissolver_step B n (n'\<lparr>nd_subDissolver := nd_subDissolver n'\<lparr>ds_queue := q\<rparr>, nd_running := remove1 ch (nd_running n')\<rparr>)"



text \<open>All connections of a node, interleaved with each other and with the workers of the dissolver: a
  new connection gets an id no connection has, a step of a connection changes that connection and
  the node.  The last component holds the connections that made an untracked step.\<close>

inductive sys_reachable ::
  "(string \<Rightarrow> 't env) \<Rightarrow> 'b broker \<Rightarrow> 'b node \<Rightarrow> 'b node \<times> (string, 't client) fmap \<times> string set \<Rightarrow> bool"
  for E :: "string \<Rightarrow> 't env" and B :: "'b broker" and n0 :: "'b node" where
  start: "sys_reachable E B n0 (n0, fmempty, {})"
| accept: "sys_reachable E B n0 (n, cs, stray) \<Longrightarrow> fmlookup cs i = None \<Longrightarrow>
    sys_reachable E B n0 (n, fmupd i (NewClient i (nd_config n) t) cs, stray)"
| conn: "sys_reachable E B n0 (n, cs, stray) \<Longrightarrow> fmlookup cs i = Some c \<Longrightarrow> conn_step (E i) B ok (n, c) (n', c') \<Longrightarrow>
    sys_reachable E B n0 (n', fmupd i c' cs, if ok then stray else insert i stray)"
| dissolver: "sys_reachable E B n0 (n, cs, stray) \<Longrightarrow> dissolver_step B n n' \<Longrightarrow> sys_reachable E B n0 (n', cs, stray)"











text \<open>Operations of one connection that overlap are not steps of that relation, and there the code
  does leave a subscription: when a close runs between the registration in the hub and the update of
  \<open>c.channels\<close> in \<open>subscribeCmd\<close>, nothing removes the registration any more.\<close>

lemma subscribe_close_race:
  assumes "node_ok S n" "writer_inv c" "c_status c \<noteq> statusClosed" "set order = fset (fmdom (c_channels c))"
    and "ch |\<notin>| fmdom (c_channels c)" "addSubscription B ch (client_ref_of c) n = (None, n1)"
  shows "\<exists>n2 c2 S'. client_close E order d n1 c = Some (n2, c2) \<and> c_status c2 = statusClosed
     \<and> hub_subs_rep S' (nd_hub n2) \<and> (ch, c_uid c) \<in> S'"
proof -
  have ok: "node_ok (insert (ch, c_uid c) S) n1" using addSubscription_ok[OF assms(1,6)] by simp
  show ?thesis using client_close_ok[OF ok assms(2-4), of E d] assms(5) by (force simp: node_inv_def)
qed

text \<open>A client that holds a channel \<open>x\<close> without a dash makes \<open>subscribeCmd\<close> index \<open>pre[1]\<close> out of
  range by asking for \<open>x:y\<close>.\<close>

lemma resolveChannel_panics: "resolveChannel (''x'' # order) channels ''x:y'' role = None"
  by (simp add: resolveChannel_def go_index_def)

text \<open>A colon name is subscribed under another name than the one the server side records.\<close>

lemma resolveChannel_renames:
  "resolveChannel [''x-7''] (fmupd ''x-7'' ctx fmempty) ''x:y'' role = Some (Some (''x-7:y'', cc_role ctx))"
  by (simp add: resolveChannel_def go_index_def)

end
