(* ===== verification/Server.thy ===== *)
theory Server
  imports Client_Run "HOL-Library.List_Lexorder" "HOL-Library.Char_ord"
begin

text \<open>
  The operations of the node that act on connections: delivery of publications, the calls that
  address all connections of a user, and the control messages nodes exchange
  (\<open>server/deliverer/hub.go\<close>, \<open>node.go\<close> and \<open>broker_memory.go\<close>).

  The hub of the code holds pointers to connections; here it holds their ids, and the connections
  themselves are a finite map from ids, the store of the pointers.  The goroutines a call starts, one per
  connection, are taken one after the other; \<open>iter m\<close> is the order in which the iteration over a map \<open>m\<close>
  of connections delivers its keys.
  Control messages a node sends are a result of the operations: sending them is up to the broker.
\<close>

type_synonym 't conns = "(string, 't client) fmap"
type_synonym iteration = "(string, client_ref) fmap \<Rightarrow> string list"

abbreviation ReadRole :: int where "ReadRole \<equiv> 1"

section \<open>Delivery of a publication\<close>

text \<open>The guard of the loop of \<open>broadcastPublication\<close>.\<close>

definition mayRead :: "string \<Rightarrow> 't client \<Rightarrow> bool" where
  "mayRead channel c =
     (case fmlookup (c_channels c) channel of
        None \<Rightarrow> False
      | Some channelContext \<Rightarrow>
          cc_role channelContext = ReadRole \<or> cc_role channelContext = ReadWriteRole
          \<or> HasPrefix channel ''kairosdeamon'')"

text \<open>The loop; \<open>enc\<close> is the JSON encoder of the replies and \<open>cached\<close> the encoded reply of an earlier
  round, \<open>failed\<close> that encoding has failed in one.\<close>

fun broadcast_loop ::
  "(string \<Rightarrow> 't env) \<Rightarrow> (reply \<Rightarrow> bytes option) \<Rightarrow> int \<Rightarrow> string \<Rightarrow> protoPublication \<Rightarrow> string list \<Rightarrow> bytes option \<Rightarrow> bool
     \<Rightarrow> 't conns \<Rightarrow> 't conns go" where
  "broadcast_loop E enc now channel pub [] cached failed cs = Some cs"
| "broadcast_loop E enc now channel pub (i # order) cached failed cs = do {
     c \<leftarrow> fmlookup cs i;
     if \<not> mayRead channel c then broadcast_loop E enc now channel pub order cached failed cs
     else if failed then
       broadcast_loop E enc now channel pub order cached failed
         (fmupd i (client_Disconnect (Some DisconnectInappropriateProtocol) c) cs)
     else
       (case (case cached of Some reply \<Rightarrow> Some reply
              | None \<Rightarrow> enc \<lparr>rp_Id = 0, rp_Body = PushReply channel (PublicationPush pub)\<rparr>) of
          None \<Rightarrow> broadcast_loop E enc now channel pub order cached True
                    (fmupd i (client_Disconnect (Some DisconnectInappropriateProtocol) c) cs)
        | Some jsonReply \<Rightarrow> do {
            c1 \<leftarrow> writePublication (E i) now channel jsonReply c;
            broadcast_loop E enc now channel pub order (Some jsonReply) failed (fmupd i c1 cs)
          })
   }"

definition broadcastPublication ::
  "(string \<Rightarrow> 't env) \<Rightarrow> (reply \<Rightarrow> bytes option) \<Rightarrow> int \<Rightarrow> iteration \<Rightarrow> string \<Rightarrow> protoPublication \<Rightarrow> subShard \<Rightarrow> 't conns \<Rightarrow> 't conns go" where
  "broadcastPublication E enc now iter channel pub h cs =
     (case fmlookup (sb_subs h) channel of
        None \<Rightarrow> Some cs
      | Some channelSubscribers \<Rightarrow> broadcast_loop E enc now channel pub (iter channelSubscribers) None False cs)"

definition hub_BroadcastPublication ::
  "(string \<Rightarrow> 't env) \<Rightarrow> (reply \<Rightarrow> bytes option) \<Rightarrow> int \<Rightarrow> iteration \<Rightarrow> string \<Rightarrow> publication \<Rightarrow> hub \<Rightarrow> 't conns \<Rightarrow> 't conns go" where
  "hub_BroadcastPublication E enc now iter ch pub h cs =
     broadcastPublication E enc now iter ch (the (pubToProto (Some pub))) (h_subShards h ! index ch numHubShards) cs"

definition handlePublication ::
  "(string \<Rightarrow> 't env) \<Rightarrow> (reply \<Rightarrow> bytes option) \<Rightarrow> int \<Rightarrow> iteration \<Rightarrow> string \<Rightarrow> publication
     \<Rightarrow> ('b, 'm) node_scheme \<Rightarrow> 't conns \<Rightarrow> 't conns go" where
  "handlePublication E enc now iter ch pub n cs =
     (let numSubscribers = hub_NumSubscribers ch (nd_hub n)
      in if \<not> numSubscribers > 0 then Some cs else hub_BroadcastPublication E enc now iter ch pub (nd_hub n) cs)"

definition HandlePublication ::
  "(string \<Rightarrow> 't env) \<Rightarrow> (reply \<Rightarrow> bytes option) \<Rightarrow> int \<Rightarrow> iteration \<Rightarrow> string \<Rightarrow> publication option
     \<Rightarrow> ('b, 'm) node_scheme \<Rightarrow> 't conns \<Rightarrow> 't conns go" where
  "HandlePublication E enc now iter ch pub n cs =
     (case pub of None \<Rightarrow> None | Some p \<Rightarrow> handlePublication E enc now iter ch p n cs)"

record publishOptions =
  po_ClientInfo :: "clientInfo option"
  po_Tags :: "(string, string) fmap"

definition MemoryBroker_Publish ::
  "(string \<Rightarrow> 't env) \<Rightarrow> (reply \<Rightarrow> bytes option) \<Rightarrow> int \<Rightarrow> iteration \<Rightarrow> string \<Rightarrow> bytes \<Rightarrow> publishOptions
     \<Rightarrow> ('b, 'm) node_scheme \<Rightarrow> 't conns \<Rightarrow> 't conns go" where
  "MemoryBroker_Publish E enc now iter ch data opts n cs =
     HandlePublication E enc now iter ch
       (Some \<lparr>pb_Data = data, pb_Info = po_ClientInfo opts, pb_Tags = po_Tags opts\<rparr>) n cs"

text \<open>\<open>Publish\<close> of a node that runs on the memory broker: the options are applied in turn.\<close>

definition node_Publish ::
  "(string \<Rightarrow> 't env) \<Rightarrow> (reply \<Rightarrow> bytes option) \<Rightarrow> int \<Rightarrow> iteration \<Rightarrow> string \<Rightarrow> bytes \<Rightarrow> (publishOptions \<Rightarrow> publishOptions) list
     \<Rightarrow> unit node \<Rightarrow> 't conns \<Rightarrow> 't conns go" where
  "node_Publish E enc now iter channel data opts n cs =
     MemoryBroker_Publish E enc now iter channel data (fold (\<lambda>opt o0. opt o0) opts \<lparr>po_ClientInfo = None, po_Tags = fmempty\<rparr>) n cs"

section \<open>Calls for all connections of a user\<close>

fun stringInSlice :: "string \<Rightarrow> string list \<Rightarrow> bool" where
  "stringInSlice str [] = False"
| "stringInSlice str (s # strs) = (if s = str then True else stringInSlice str strs)"

text \<open>The loop the calls share: \<open>order\<close> lists the connections of the user, \<open>skip\<close> says which to leave out,
  \<open>call\<close> is what runs for a connection.  The first error that is not \<open>io.EOF\<close> is the result.\<close>

fun user_loop ::
  "(string \<Rightarrow> bool) \<Rightarrow> (string \<Rightarrow> ('b, 'm) node_scheme \<Rightarrow> 't client \<Rightarrow> (err option \<times> ('b, 'm) node_scheme \<times> 't client) go)
     \<Rightarrow> string list \<Rightarrow> err option \<Rightarrow> ('b, 'm) node_scheme \<Rightarrow> 't conns \<Rightarrow> (err option \<times> ('b, 'm) node_scheme \<times> 't conns) go" where
  "user_loop skip call [] firstErr n cs = Some (firstErr, n, cs)"
| "user_loop skip call (i # order) firstErr n cs =
     (if skip i then user_loop skip call order firstErr n cs
      else do {
        c \<leftarrow> fmlookup cs i;
        (e, n1, c1) \<leftarrow> call i n c;
        user_loop skip call order
          (if e \<noteq> None \<and> e \<noteq> Some (EOther ''EOF'') \<and> firstErr = None then e else firstErr) n1 (fmupd i c1 cs)
      })"

definition otherClient :: "string \<Rightarrow> string \<Rightarrow> bool" where
  "otherClient clientID i \<longleftrightarrow> clientID \<noteq> '''' \<and> i \<noteq> clientID"

text \<open>\<open>chOrder\<close> gives the order of the iteration over the channels of a connection.\<close>

definition connShard_subscribe ::
  "(string \<Rightarrow> 't env) \<Rightarrow> 'b broker \<Rightarrow> int \<Rightarrow> (string \<Rightarrow> string list) \<Rightarrow> iteration \<Rightarrow> string \<Rightarrow> string \<Rightarrow> string \<Rightarrow> subscribeOptions
     \<Rightarrow> ('b, 'm) node_scheme \<Rightarrow> 't conns \<Rightarrow> (err option \<times> ('b, 'm) node_scheme \<times> 't conns) go" where
  "connShard_subscribe E B now chOrder iter user ch clientID opts n cs =
     user_loop (otherClient clientID) (\<lambda>i. client_Subscribe (E i) B now (chOrder i) ch opts) (iter (hub_UserConnections user (nd_hub n))) None n cs"

definition connShard_refresh ::
  "(string \<Rightarrow> 't env) \<Rightarrow> int \<Rightarrow> iteration \<Rightarrow> string \<Rightarrow> string \<Rightarrow> refreshOptions
     \<Rightarrow> ('b, 'm) node_scheme \<Rightarrow> 't conns \<Rightarrow> (err option \<times> ('b, 'm) node_scheme \<times> 't conns) go" where
  "connShard_refresh E now iter user clientID opts n cs =
     user_loop (otherClient clientID)
       (\<lambda>i n c. do { (e, c1) \<leftarrow> client_Refresh (E i) (nd_config n) now opts c; Some (e, n, c1) }) (iter (hub_UserConnections user (nd_hub n))) None n cs"

definition connShard_unsubscribe ::
  "(string \<Rightarrow> 't env) \<Rightarrow> iteration \<Rightarrow> string \<Rightarrow> string \<Rightarrow> unsubscribe \<Rightarrow> string
     \<Rightarrow> ('b, 'm) node_scheme \<Rightarrow> 't conns \<Rightarrow> (err option \<times> ('b, 'm) node_scheme \<times> 't conns) go" where
  "connShard_unsubscribe E iter user ch unsub clientID n cs =
     user_loop (otherClient clientID)
       (\<lambda>i n c. do { (n1, c1) \<leftarrow> client_Unsubscribe (E i) ch (Some unsub) n c; Some (None, n1, c1) }) (iter (hub_UserConnections user (nd_hub n))) None n cs"

text \<open>The call \<open>cc.close(disconnect)\<close> of the two loops below; its error is always nil.\<close>

definition close_call ::
  "(string \<Rightarrow> 't env) \<Rightarrow> (string \<Rightarrow> string list) \<Rightarrow> disconnect \<Rightarrow> string
     \<Rightarrow> ('b, 'm) node_scheme \<Rightarrow> 't client \<Rightarrow> (err option \<times> ('b, 'm) node_scheme \<times> 't client) go" where
  "close_call E chOrder disconnect i n c = do {
     (n1, c1) \<leftarrow> client_close (E i) (chOrder i) disconnect n c;
     Some (None, n1, c1)
   }"

definition connShard_disconnect ::
  "(string \<Rightarrow> 't env) \<Rightarrow> (string \<Rightarrow> string list) \<Rightarrow> iteration \<Rightarrow> string \<Rightarrow> disconnect \<Rightarrow> string \<Rightarrow> string list
     \<Rightarrow> ('b, 'm) node_scheme \<Rightarrow> 't conns \<Rightarrow> (err option \<times> ('b, 'm) node_scheme \<times> 't conns) go" where
  "connShard_disconnect E chOrder iter user disconnect clientID whitelist n cs =
     user_loop (\<lambda>i. stringInSlice i whitelist \<or> otherClient clientID i)
       (close_call E chOrder disconnect) (iter (hub_UserConnections user (nd_hub n))) None n cs"

text \<open>\<open>shutdown\<close> of the shard \<open>k\<close> closes every connection it has; the context is not cancelled.\<close>

definition connShard_shutdown ::
  "(string \<Rightarrow> 't env) \<Rightarrow> (string \<Rightarrow> string list) \<Rightarrow> iteration \<Rightarrow> nat
     \<Rightarrow> ('b, 'm) node_scheme \<Rightarrow> 't conns \<Rightarrow> (err option \<times> ('b, 'm) node_scheme \<times> 't conns) go" where
  "connShard_shutdown E chOrder iter k n cs =
     user_loop (\<lambda>_. False)
       (close_call E chOrder DisconnectShutdown) (iter (cs_conns (h_connShards (nd_hub n) ! k))) None n cs"

section \<open>Control messages\<close>

record controlUnsubscribe =
  ku_Channel :: string
  ku_User :: string
  ku_Code :: "32 word"
  ku_Reason :: string
  ku_Client :: string
  ku_Session :: string

record controlSubscribe =
  ks_User :: string
  ks_Channel :: string
  ks_EmitPresence :: bool
  ks_EmitJoinLeave :: bool
  ks_PushJoinLeave :: bool
  ks_ChannelInfo :: bytes
  ks_ExpireAt :: int
  ks_Client :: string
  ks_Data :: bytes
  ks_Source :: "32 word"

record controlDisconnect =
  kd_User :: string
  kd_Whitelist :: "string list"
  kd_Code :: "32 word"
  kd_Reason :: string
  kd_Client :: string

record controlRefresh =
  kr_User :: string
  kr_Expired :: bool
  kr_ExpireAt :: int
  kr_Client :: string
  kr_Session :: string
  kr_Info :: bytes

record controlCommand =
  k_Uid :: string
  k_Node :: "nodeMsg option"
  k_Shutdown :: bool
  k_Unsubscribe :: "controlUnsubscribe option"
  k_Subscribe :: "controlSubscribe option"
  k_Disconnect :: "controlDisconnect option"
  k_Refresh :: "controlRefresh option"

definition controlCommand_for :: "string \<Rightarrow> controlCommand" where
  "controlCommand_for uid = \<lparr>k_Uid = uid, k_Node = None, k_Shutdown = False, k_Unsubscribe = None, k_Subscribe = None,
     k_Disconnect = None, k_Refresh = None\<rparr>"

text \<open>The node message of \<open>pubNode\<close>; \<open>now\<close> and \<open>startedAt\<close> in seconds.\<close>

definition nodeMsg_of :: "int \<Rightarrow> int \<Rightarrow> ('b, 'm) node_scheme \<Rightarrow> nodeMsg" where
  "nodeMsg_of now startedAt n =
     \<lparr>n_Uid = nd_uid n, n_Name = cf_Name (nd_config n), n_Version = cf_Version (nd_config n),
      n_NumClients = of_nat (hub_NumClients (nd_hub n)), n_NumUsers = of_nat (hub_NumUsers (nd_hub n)),
      n_NumChannels = of_nat (hub_NumChannels (nd_hub n)), n_Uptime = word_of_int (now - startedAt), n_Metrics = None,
      n_Data = [], n_NumSubs = of_nat (hub_NumSubscriptions (nd_hub n))\<rparr>"

text \<open>\<open>pubNode\<close>, where the \<open>nodeCmd\<close> it calls on its own message only registers; the result is the
  message sent and the node it is sent to.\<close>

definition pubNode :: "int \<Rightarrow> int \<Rightarrow> string \<Rightarrow> ('b, 'm) node_scheme \<Rightarrow> (controlCommand \<times> string) list \<times> ('b, 'm) node_scheme" where
  "pubNode now startedAt nodeID n =
     (let node = nodeMsg_of now startedAt n
      in ([((controlCommand_for (nd_uid n))\<lparr>k_Node := Some node\<rparr>, nodeID)],
          n\<lparr>nd_nodes := snd (nodeRegistry_add now node (nd_nodes n))\<rparr>))"

definition nodeCmd :: "int \<Rightarrow> int \<Rightarrow> nodeMsg \<Rightarrow> ('b, 'm) node_scheme \<Rightarrow> (controlCommand \<times> string) list \<times> ('b, 'm) node_scheme" where
  "nodeCmd now startedAt node n =
     (let (isNewNode, r) = nodeRegistry_add now node (nd_nodes n); n1 = n\<lparr>nd_nodes := r\<rparr>
      in if isNewNode \<and> n_Uid node \<noteq> nd_uid n1 then pubNode now startedAt (n_Uid node) n1 else ([], n1))"

definition shutdownCmd :: "string \<Rightarrow> ('b, 'm) node_scheme \<Rightarrow> ('b, 'm) node_scheme" where
  "shutdownCmd nodeID n = n\<lparr>nd_nodes := nodeRegistry_remove nodeID (nd_nodes n)\<rparr>"

text \<open>The surroundings of an operation on users: the connections' environments, the broker, the time, the
  start of the node, and the orders of the iterations over connections and over the channels of one.\<close>

record ('b, 't) cluster_env =
  ce_env :: "string \<Rightarrow> 't env"
  ce_broker :: "'b broker"
  ce_now :: int
  ce_startedAt :: int
  ce_chOrder :: "string \<Rightarrow> string list"
  ce_iter :: iteration

type_synonym ('b, 'm, 't) node_call =
  "('b, 'm) node_scheme \<Rightarrow> 't conns \<Rightarrow> (err option \<times> (controlCommand \<times> string) list \<times> ('b, 'm) node_scheme \<times> 't conns) go"

text \<open>A call that sends nothing.\<close>

definition local_call :: "(err option \<times> ('b, 'm) node_scheme \<times> 't conns) go
    \<Rightarrow> (err option \<times> (controlCommand \<times> string) list \<times> ('b, 'm) node_scheme \<times> 't conns) go" where
  "local_call r = do { (e, n1, cs1) \<leftarrow> r; Some (e, [], n1, cs1) }"

text \<open>\<open>handleControl\<close> of a decoded message; the options that \<open>WithExpireAt\<close> and the others set, all the
  others are zero.\<close>

definition handleControl :: "('b, 't) cluster_env \<Rightarrow> controlCommand \<Rightarrow> ('b, 'm, 't) node_call" where
  "handleControl K cmd n cs =
     (if k_Uid cmd = nd_uid n then Some (None, [], n, cs)
      else case k_Node cmd of Some node \<Rightarrow>
          (case nodeCmd (ce_now K div Second) (ce_startedAt K) node n of (sent, n1) \<Rightarrow> Some (None, sent, n1, cs))
      | None \<Rightarrow> if k_Shutdown cmd then Some (None, [], shutdownCmd (k_Uid cmd) n, cs)
      else case k_Unsubscribe cmd of Some u \<Rightarrow>
          local_call (connShard_unsubscribe (ce_env K) (ce_iter K) (ku_User u) (ku_Channel u)
            \<lparr>u_Code = ku_Code u, u_Reason = ku_Reason u\<rparr> (ku_Client u) n cs)
      | None \<Rightarrow> case k_Subscribe cmd of Some s \<Rightarrow>
          local_call (connShard_subscribe (ce_env K) (ce_broker K) (ce_now K) (ce_chOrder K) (ce_iter K) (ks_User s) (ks_Channel s) (ks_Client s)
            \<lparr>so_ExpireAt = ks_ExpireAt s, so_ChannelInfo = ks_ChannelInfo s, so_EmitPresence = ks_EmitPresence s,
             so_EmitJoinLeave = ks_EmitJoinLeave s, so_PushJoinLeave = ks_PushJoinLeave s, so_Data = ks_Data s,
             so_clientID = '''', so_Source = ucast (ks_Source s), so_Role = 0\<rparr> n cs)
      | None \<Rightarrow> case k_Disconnect cmd of Some d \<Rightarrow>
          local_call (connShard_disconnect (ce_env K) (ce_chOrder K) (ce_iter K) (kd_User d)
            \<lparr>d_Code = kd_Code d, d_Reason = kd_Reason d\<rparr> (kd_Client d) (kd_Whitelist d) n cs)
      | None \<Rightarrow> case k_Refresh cmd of Some r \<Rightarrow>
          local_call (connShard_refresh (ce_env K) (ce_now K) (ce_iter K) (kr_User r) (kr_Client r)
            \<lparr>ro_Expired = kr_Expired r, ro_ExpireAt = kr_ExpireAt r, ro_Info = kr_Info r, ro_clientID = ''''\<rparr> n cs)
      | None \<Rightarrow> Some (None, [], n, cs))"

text \<open>The calls of the node's interface: the connections of this node first, then the message for
  the other nodes.\<close>

definition after_local :: "(err option \<times> ('b, 'm) node_scheme \<times> 't conns) go \<Rightarrow> controlCommand
    \<Rightarrow> (err option \<times> (controlCommand \<times> string) list \<times> ('b, 'm) node_scheme \<times> 't conns) go" where
  "after_local r cmd = do {
     (e, n1, cs1) \<leftarrow> r;
     (if e \<noteq> None then Some (e, [], n1, cs1) else Some (None, [(cmd, '''')], n1, cs1))
   }"

definition pubSubscribe :: "string \<Rightarrow> string \<Rightarrow> string \<Rightarrow> subscribeOptions \<Rightarrow> controlCommand" where
  "pubSubscribe uid user ch opts = (controlCommand_for uid)\<lparr>k_Subscribe := Some
     \<lparr>ks_User = user, ks_Channel = ch, ks_EmitPresence = so_EmitPresence opts, ks_EmitJoinLeave = so_EmitJoinLeave opts,
      ks_PushJoinLeave = so_PushJoinLeave opts, ks_ChannelInfo = so_ChannelInfo opts, ks_ExpireAt = so_ExpireAt opts,
      ks_Client = so_clientID opts, ks_Data = so_Data opts, ks_Source = ucast (so_Source opts)\<rparr>\<rparr>"

definition pubRefresh :: "string \<Rightarrow> string \<Rightarrow> string \<Rightarrow> refreshOptions \<Rightarrow> controlCommand" where
  "pubRefresh uid user sessionID opts = (controlCommand_for uid)\<lparr>k_Refresh := Some
     \<lparr>kr_User = user, kr_Expired = ro_Expired opts, kr_ExpireAt = ro_ExpireAt opts, kr_Client = ro_clientID opts,
      kr_Session = sessionID, kr_Info = ro_Info opts\<rparr>\<rparr>"

definition pubUnsubscribe :: "string \<Rightarrow> string \<Rightarrow> string \<Rightarrow> unsubscribe \<Rightarrow> string \<Rightarrow> string \<Rightarrow> controlCommand" where
  "pubUnsubscribe uid user ch unsub clientID sessionID = (controlCommand_for uid)\<lparr>k_Unsubscribe := Some
     \<lparr>ku_Channel = ch, ku_User = user, ku_Code = u_Code unsub, ku_Reason = u_Reason unsub, ku_Client = clientID,
      ku_Session = sessionID\<rparr>\<rparr>"

definition pubDisconnect :: "string \<Rightarrow> string \<Rightarrow> disconnect \<Rightarrow> string \<Rightarrow> string list \<Rightarrow> controlCommand" where
  "pubDisconnect uid user d clientID whitelist = (controlCommand_for uid)\<lparr>k_Disconnect := Some
     \<lparr>kd_User = user, kd_Whitelist = whitelist, kd_Code = d_Code d, kd_Reason = d_Reason d, kd_Client = clientID\<rparr>\<rparr>"

definition node_Subscribe :: "('b, 't) cluster_env \<Rightarrow> string \<Rightarrow> string \<Rightarrow> subscribeOptions \<Rightarrow> ('b, 'm, 't) node_call" where
  "node_Subscribe K userID channel opts n cs =
     after_local (connShard_subscribe (ce_env K) (ce_broker K) (ce_now K) (ce_chOrder K) (ce_iter K) userID channel
       (so_clientID opts) opts n cs) (pubSubscribe (nd_uid n) userID channel opts)"

definition node_Unsubscribe ::
  "('b, 't) cluster_env \<Rightarrow> string \<Rightarrow> string \<Rightarrow> unsubscribe option \<Rightarrow> string \<Rightarrow> string \<Rightarrow> ('b, 'm, 't) node_call" where
  "node_Unsubscribe K userID channel custom clientID sessionID n cs =
     (let customUnsubscribe = (case custom of None \<Rightarrow> unsubscribeServer | Some u \<Rightarrow> u)
      in after_local (connShard_unsubscribe (ce_env K) (ce_iter K) userID channel customUnsubscribe clientID n cs)
           (pubUnsubscribe (nd_uid n) userID channel customUnsubscribe clientID sessionID))"

definition node_Disconnect ::
  "('b, 't) cluster_env \<Rightarrow> string \<Rightarrow> disconnect option \<Rightarrow> string \<Rightarrow> string list \<Rightarrow> ('b, 'm, 't) node_call" where
  "node_Disconnect K userID custom clientID whitelist n cs =
     (let customDisconnect = (case custom of None \<Rightarrow> DisconnectForceNoReconnect | Some d \<Rightarrow> d)
      in after_local (connShard_disconnect (ce_env K) (ce_chOrder K) (ce_iter K) userID customDisconnect clientID whitelist n cs)
           (pubDisconnect (nd_uid n) userID customDisconnect clientID whitelist))"

definition node_Refresh :: "('b, 't) cluster_env \<Rightarrow> string \<Rightarrow> string \<Rightarrow> refreshOptions \<Rightarrow> ('b, 'm, 't) node_call" where
  "node_Refresh K userID sessionID opts n cs =
     after_local (connShard_refresh (ce_env K) (ce_now K) (ce_iter K) userID (ro_clientID opts) opts n cs)
       (pubRefresh (nd_uid n) userID sessionID opts)"

text \<open>\<open>shutdown\<close> of the hub: the shards one after the other.\<close>

fun hub_shutdown ::
  "(string \<Rightarrow> 't env) \<Rightarrow> (string \<Rightarrow> string list) \<Rightarrow> iteration \<Rightarrow> nat list
     \<Rightarrow> ('b, 'm) node_scheme \<Rightarrow> 't conns \<Rightarrow> (('b, 'm) node_scheme \<times> 't conns) go" where
  "hub_shutdown E chOrder iter [] n cs = Some (n, cs)"
| "hub_shutdown E chOrder iter (k # shards) n cs = do {
     (_, n1, cs1) \<leftarrow> connShard_shutdown E chOrder iter k n cs;
     hub_shutdown E chOrder iter shards n1 cs1
   }"

section \<open>What a publication reaches\<close>

text \<open>What one reader gets: the encoded publication, or the disconnect of a publication that has no
  encoding.\<close>

definition receives ::
  "(string \<Rightarrow> 't env) \<Rightarrow> (reply \<Rightarrow> bytes option) \<Rightarrow> int \<Rightarrow> string \<Rightarrow> protoPublication \<Rightarrow> string \<Rightarrow> 't client \<Rightarrow> 't client go" where
  "receives E enc now ch pub i c =
     (case enc \<lparr>rp_Id = 0, rp_Body = PushReply ch (PublicationPush pub)\<rparr> of
        None \<Rightarrow> Some (client_Disconnect (Some DisconnectInappropriateProtocol) c)
      | Some data \<Rightarrow> writePublication (E i) now ch data c)"

lemma writePublication_ok:
  assumes "writer_inv c" "c_messageWriter c \<noteq> None"
  obtains c' where "writePublication E now ch data c = Some c'"
proof (cases "\<exists>x. fmlookup (c_channels c) ch = Some x \<and> channelHasFlag (cc_flags x) flagSubscribed")
  case True
  then obtain x where x: "fmlookup (c_channels c) ch = Some x" "channelHasFlag (cc_flags x) flagSubscribed" by blast
  let ?c = "c\<lparr>c_channels := fmupd ch (x\<lparr>cc_positionCheckTime := now div Second\<rparr>) (c_channels c)\<rparr>"
  have w: "writer_inv ?c" "c_messageWriter ?c \<noteq> None" using assms by simp_all
  obtain e c2 where "transportEnqueue E data ch FrameTypePushPublication ?c = Some (e, c2)" by (rule transportEnqueue_ok[OF w])
  then show ?thesis using that x by (simp add: writePublication_def)
next
  case False
  then show ?thesis using that[of c] by (auto simp: writePublication_def split: option.splits)
qed

lemma broadcast_loop_spec:
  assumes "distinct order" and "\<And>i. i \<in> set order \<Longrightarrow> \<exists>c. fmlookup cs i = Some c \<and> writer_inv c \<and> c_messageWriter c \<noteq> None"
    and "enc \<lparr>rp_Id = 0, rp_Body = PushReply ch (PublicationPush pub)\<rparr> = r" "cached \<noteq> None \<longrightarrow> cached = r" "failed \<longrightarrow> r = None"
  shows "\<exists>cs'. broadcast_loop E enc now ch pub order cached failed cs = Some cs'
     \<and> (\<forall>i. fmlookup cs' i = (case fmlookup cs i of None \<Rightarrow> None
           | Some c \<Rightarrow> if i \<in> set order \<and> mayRead ch c then receives E enc now ch pub i c else Some c))"
  using assms
proof (induction order arbitrary: cs cached failed)
  case Nil
  then show ?case by (auto split: option.splits)
next
  case (Cons i order)
  obtain c where c: "fmlookup cs i = Some c" "writer_inv c" "c_messageWriter c \<noteq> None" using Cons.prems(2)[of i] by auto
  have rest: "\<exists>c. fmlookup (fmupd i c1 cs) j = Some c \<and> writer_inv c \<and> c_messageWriter c \<noteq> None" if "j \<in> set order" for j c1
    using Cons.prems(1) Cons.prems(2)[of j] that by (cases "j = i") auto
  have step: "\<exists>cs'. broadcast_loop E enc now ch pub order cached' failed' (fmupd i c1 cs) = Some cs'
     \<and> (\<forall>j. fmlookup cs' j = (case fmlookup cs j of None \<Rightarrow> None
           | Some c \<Rightarrow> if j \<in> set (i # order) \<and> mayRead ch c then receives E enc now ch pub j c else Some c))"
    if h: "cached' \<noteq> None \<longrightarrow> cached' = r" "failed' \<longrightarrow> r = None" "mayRead ch c" "receives E enc now ch pub i c = Some c1" for cached' failed' c1
  proof -
    obtain cs' where 1: "broadcast_loop E enc now ch pub order cached' failed' (fmupd i c1 cs) = Some cs'"
      "\<forall>j. fmlookup cs' j = (case fmlookup (fmupd i c1 cs) j of None \<Rightarrow> None
           | Some c \<Rightarrow> if j \<in> set order \<and> mayRead ch c then receives E enc now ch pub j c else Some c)"
      using Cons.IH[OF _ rest Cons.prems(3) h(1,2), of c1] Cons.prems(1) by auto
    have "fmlookup cs' j = (case fmlookup cs j of None \<Rightarrow> None
           | Some c \<Rightarrow> if j \<in> set (i # order) \<and> mayRead ch c then receives E enc now ch pub j c else Some c)" for j
      using 1(2) h(3,4) c(1) Cons.prems(1) by (cases "j = i") (auto split: option.splits)
    then show ?thesis using 1(1) by blast
  qed
  show ?case
  proof (cases "mayRead ch c")
    case False
    obtain cs' where "broadcast_loop E enc now ch pub order cached failed cs = Some cs'"
      "\<forall>j. fmlookup cs' j = (case fmlookup cs j of None \<Rightarrow> None
           | Some c \<Rightarrow> if j \<in> set order \<and> mayRead ch c then receives E enc now ch pub j c else Some c)"
      using Cons.IH[OF _ Cons.prems(2) Cons.prems(3,4,5)] Cons.prems(1) by auto
    then show ?thesis using c(1) False by (auto split: option.splits)
  next
    case True
    show ?thesis
    proof (cases r)
      case None
      then have "receives E enc now ch pub i c = Some (client_Disconnect (Some DisconnectInappropriateProtocol) c)"
        using Cons.prems(3) by (simp add: receives_def)
      moreover have "cached = None" using Cons.prems(4) None by blast
      ultimately show ?thesis
        using step[of cached True] step[of cached failed] c(1) True None Cons.prems(3) by (cases failed) auto
    next
      case (Some data)
      obtain c1 where c1: "writePublication (E i) now ch data c = Some c1" by (rule writePublication_ok[OF c(2,3)])
      then have "receives E enc now ch pub i c = Some c1" using Cons.prems(3) Some by (simp add: receives_def)
      moreover have "\<not> failed" using Cons.prems(5) Some by auto
      moreover have "cached = None \<or> cached = Some data" using Cons.prems(4) Some by (cases cached) auto
      ultimately show ?thesis
        using step[of "Some data" failed c1] c(1) True Some Cons.prems(3) c1 by (elim disjE) simp_all
    qed
  qed
qed

text \<open>An iteration visits every key of the map once.\<close>

definition visits_all :: "iteration \<Rightarrow> bool" where
  "visits_all iter \<longleftrightarrow> (\<forall>m. distinct (iter m) \<and> set (iter m) = fset (fmdom m))"

text \<open>The publication on the wire, with the options applied.\<close>

definition wire_publication :: "bytes \<Rightarrow> (publishOptions \<Rightarrow> publishOptions) list \<Rightarrow> protoPublication" where
  "wire_publication data opts =
     (let opt = fold (\<lambda>opt o0. opt o0) opts \<lparr>po_ClientInfo = None, po_Tags = fmempty\<rparr>
      in the (pubToProto (Some \<lparr>pb_Data = data, pb_Info = po_ClientInfo opt, pb_Tags = po_Tags opt\<rparr>)))"

text \<open>Publishing runs \<open>receives\<close> on exactly the subscribers that pass the guard of the loop, and
  nothing panics, in whatever order they are visited.\<close>

lemma publication_receivers:
  assumes "visits_all iter" "hub_subs_rep S (nd_hub n)"
    and "\<And>i. (ch, i) \<in> S \<Longrightarrow> \<exists>c. fmlookup cs i = Some c \<and> writer_inv c \<and> c_messageWriter c \<noteq> None"
  shows "\<exists>cs'. node_Publish E enc now iter ch data opts n cs = Some cs'
     \<and> (\<forall>i. fmlookup cs' i = (case fmlookup cs i of None \<Rightarrow> None
           | Some c \<Rightarrow> if (ch, i) \<in> S \<and> mayRead ch c
                then receives E enc now ch (wire_publication data opts) i c else Some c))"
proof -
  let ?pub = "wire_publication data opts" and ?sh = "h_subShards (nd_hub n) ! index ch numHubShards"
  have look: "bk_look (sb_subs ?sh) ch i \<noteq> None \<longleftrightarrow> (ch, i) \<in> S" for i
    using hub_subs_shard(2)[OF assms(2)] by simp
  have run: "node_Publish E enc now iter ch data opts n cs = (if hub_NumSubscribers ch (nd_hub n) > 0 then
      broadcastPublication E enc now iter ch ?pub ?sh cs else Some cs)"
    by (simp add: node_Publish_def MemoryBroker_Publish_def HandlePublication_def handlePublication_def hub_BroadcastPublication_def Let_def
        wire_publication_def)
  show ?thesis
  proof (cases "hub_NumSubscribers ch (nd_hub n) > 0")
    case False
    then have "(ch, i) \<notin> S" for i using hub_no_subscribers[OF assms(2), of ch] by simp
    then show ?thesis using False by (intro exI[of _ cs]) (auto simp: run split: option.splits)
  next
    case True
    then obtain m where m: "fmlookup (sb_subs ?sh) ch = Some m"
      by (auto simp: hub_NumSubscribers_def subShard_NumSubscribers_def split: option.splits)
    have it: "distinct (iter m)" "i \<in> set (iter m) \<longleftrightarrow> (ch, i) \<in> S" for i
      using assms(1) look[of i] m by (auto simp: visits_all_def bk_look_def fmlookup_dom_iff)
    have ready: "\<exists>c. fmlookup cs i = Some c \<and> writer_inv c \<and> c_messageWriter c \<noteq> None" if "i \<in> set (iter m)" for i
      using assms(3) that it(2) by blast
    obtain cs' where "broadcast_loop E enc now ch ?pub (iter m) None False cs = Some cs'"
      "\<forall>i. fmlookup cs' i = (case fmlookup cs i of None \<Rightarrow> None
           | Some c \<Rightarrow> if i \<in> set (iter m) \<and> mayRead ch c then receives E enc now ch ?pub i c else Some c)"
      using broadcast_loop_spec[OF it(1) ready refl, where cached = None and failed = False and ch = ch and pub = ?pub and enc = enc and E = E and now = now]
      by (simp only: not_False_eq_True simp_thms) blast
    then show ?thesis unfolding run it(2) if_P[OF True] broadcastPublication_def m option.case by blast
  qed
qed

text \<open>The messages that wait in the writer of a connection, and whether it takes more.\<close>

definition waiting :: "'t client \<Rightarrow> item list" where
  "waiting c = (case c_messageWriter c of None \<Rightarrow> [] | Some w \<Rightarrow> ring_items (w_messages w))"

definition takes_messages :: "'t client \<Rightarrow> bool" where
  "takes_messages c = (case c_messageWriter c of None \<Rightarrow> False | Some w \<Rightarrow> \<not> q_closed (w_messages w))"

lemma transportEnqueue_waiting:
  assumes "writer_inv c" "transportEnqueue E data ch f c = Some (e, c')"
  shows "waiting c' = waiting c @ (if takes_messages c
      then [\<lparr>it_Data = data, it_Channel = (if ev_channelLabel E then ch else []), it_FrameType = f\<rparr>] else [])"
proof -
  let ?i = "\<lparr>it_Data = data, it_Channel = (if ev_channelLabel E then ch else []), it_FrameType = f\<rparr>"
  obtain w where w: "c_messageWriter c = Some w" using assms(2) by (auto simp: transportEnqueue_def split: bind_splits)
  then have wf: "queue_wf (w_messages w)" using assms(1) by (simp add: writer_inv_def writer_wf_def)
  obtain d w' where 1: "writer_enqueue ?i w = Some (d, w')"
    "ring_items (w_messages w') = (if q_closed (w_messages w) then [] else ring_items (w_messages w) @ [?i])"
    using writer_enqueue_limits[OF wf, of ?i] by blast
  have "c_messageWriter c' = Some w'" using assms(2) w 1(1) by (cases d) (auto simp: transportEnqueue_def)
  then show ?thesis using w 1(2) mq.closed_nil[OF wf] by (auto simp: waiting_def takes_messages_def)
qed

lemma writePublication_waiting:
  assumes "writer_inv c" "writePublication E now ch data c = Some c'"
  shows "waiting c' = waiting c @ (if takes_messages c
      \<and> (\<exists>x. fmlookup (c_channels c) ch = Some x \<and> channelHasFlag (cc_flags x) flagSubscribed)
      then [\<lparr>it_Data = data, it_Channel = (if ev_channelLabel E then ch else []), it_FrameType = FrameTypePushPublication\<rparr>] else [])"
    and "fmdom (c_channels c') = fmdom (c_channels c)" "c_status c' = c_status c"
proof -
  have "(waiting c' = waiting c @ (if takes_messages c
      \<and> (\<exists>x. fmlookup (c_channels c) ch = Some x \<and> channelHasFlag (cc_flags x) flagSubscribed)
      then [\<lparr>it_Data = data, it_Channel = (if ev_channelLabel E then ch else []), it_FrameType = FrameTypePushPublication\<rparr>] else []))
    \<and> fmdom (c_channels c') = fmdom (c_channels c) \<and> c_status c' = c_status c"
  proof (cases "\<exists>x. fmlookup (c_channels c) ch = Some x \<and> channelHasFlag (cc_flags x) flagSubscribed")
    case False
    then have "c' = c" using assms(2) by (auto simp: writePublication_def split: option.splits if_splits bind_splits)
    then show ?thesis using False by simp
  next
    case True
    then obtain x where x: "fmlookup (c_channels c) ch = Some x" "channelHasFlag (cc_flags x) flagSubscribed" by blast
    let ?c = "c\<lparr>c_channels := fmupd ch (x\<lparr>cc_positionCheckTime := now div Second\<rparr>) (c_channels c)\<rparr>"
    obtain e where e: "transportEnqueue E data ch FrameTypePushPublication ?c = Some (e, c')"
      using assms(2) x by (auto simp: writePublication_def split: bind_splits)
    have w: "writer_inv ?c" using assms(1) by simp
    have "waiting ?c = waiting c" "takes_messages ?c = takes_messages c" by (simp_all add: waiting_def takes_messages_def)
    moreover have "fmdom (c_channels ?c) = fmdom (c_channels c)" using x(1) by (simp add: fmdomI finsert_absorb)
    ultimately show ?thesis
      using transportEnqueue_waiting[OF w e] transportEnqueue_keeps[OF e] True by (simp add: keeps_def)
  qed
  then show "waiting c' = waiting c @ (if takes_messages c
      \<and> (\<exists>x. fmlookup (c_channels c) ch = Some x \<and> channelHasFlag (cc_flags x) flagSubscribed)
      then [\<lparr>it_Data = data, it_Channel = (if ev_channelLabel E then ch else []), it_FrameType = FrameTypePushPublication\<rparr>] else [])"
    "fmdom (c_channels c') = fmdom (c_channels c)" "c_status c' = c_status c" by simp_all
qed

text \<open>C21.  Publishing on a node with the memory broker reaches exactly the readers, in whatever order
  the subscribers are visited, and never panics.  A reader is a connection that the hub has as a
  subscriber of the channel and that holds the channel with role 1 (read) or 3 (read and write), or with
  any role when the channel's name begins with \<open>kairosdeamon\<close>.  At the end of the queue of every reader
  that holds the channel as subscribed, and whose writer takes messages, stands one publication frame
  with the encoded publication; a publication that has no encoding instead schedules a disconnect of
  every reader and queues nothing.  All other connections stay as they are.\<close>

theorem publication_reaches_readers:
  assumes "visits_all iter" "hub_subs_rep S (nd_hub n)"
    and "\<And>i. (ch, i) \<in> S \<Longrightarrow> \<exists>c. fmlookup cs i = Some c \<and> writer_inv c \<and> c_messageWriter c \<noteq> None"
  shows "\<exists>cs'. node_Publish E enc now iter ch data opts n cs = Some cs' \<and> fmdom cs' = fmdom cs
     \<and> (\<forall>i c. fmlookup cs i = Some c \<longrightarrow> (\<exists>c'. fmlookup cs' i = Some c' \<and>
           (if (ch, i) \<in> S \<and> (\<exists>x. fmlookup (c_channels c) ch = Some x
                 \<and> (cc_role x = 1 \<or> cc_role x = 3 \<or> take 12 ch = ''kairosdeamon''))
            then (case enc \<lparr>rp_Id = 0, rp_Body = PushReply ch (PublicationPush (wire_publication data opts))\<rparr> of
                    None \<Rightarrow> c' = c\<lparr>c_closing := c_closing c @ [DisconnectInappropriateProtocol]\<rparr>
                  | Some reply \<Rightarrow> fmdom (c_channels c') = fmdom (c_channels c) \<and> c_status c' = c_status c
                      \<and> waiting c' = waiting c @ (if takes_messages c
                            \<and> (\<exists>x. fmlookup (c_channels c) ch = Some x \<and> channelHasFlag (cc_flags x) flagSubscribed)
                          then [\<lparr>it_Data = reply, it_Channel = (if ev_channelLabel (E i) then ch else []),
                                 it_FrameType = FrameTypePushPublication\<rparr>] else []))
            else c' = c)))"
proof -
  let ?pub = "wire_publication data opts"
  obtain cs' where run: "node_Publish E enc now iter ch data opts n cs = Some cs'"
    and look: "\<And>i. fmlookup cs' i = (case fmlookup cs i of None \<Rightarrow> None
           | Some c \<Rightarrow> if (ch, i) \<in> S \<and> mayRead ch c then receives E enc now ch ?pub i c else Some c)"
    using publication_receivers[OF assms] by blast
  have len: "length ''kairosdeamon'' = 12" by simp
  have reader: "mayRead ch c \<longleftrightarrow> (\<exists>x. fmlookup (c_channels c) ch = Some x
      \<and> (cc_role x = 1 \<or> cc_role x = 3 \<or> take 12 ch = ''kairosdeamon''))" for c :: "'a client"
    unfolding mayRead_def HasPrefix_def len by (auto split: option.splits)
  have each: "\<exists>c'. fmlookup cs' i = Some c' \<and> (if (ch, i) \<in> S \<and> mayRead ch c
       then (case enc \<lparr>rp_Id = 0, rp_Body = PushReply ch (PublicationPush ?pub)\<rparr> of
               None \<Rightarrow> c' = c\<lparr>c_closing := c_closing c @ [DisconnectInappropriateProtocol]\<rparr>
             | Some reply \<Rightarrow> fmdom (c_channels c') = fmdom (c_channels c) \<and> c_status c' = c_status c
                 \<and> waiting c' = waiting c @ (if takes_messages c
                            \<and> (\<exists>x. fmlookup (c_channels c) ch = Some x \<and> channelHasFlag (cc_flags x) flagSubscribed)
                          then [\<lparr>it_Data = reply, it_Channel = (if ev_channelLabel (E i) then ch else []),
                                 it_FrameType = FrameTypePushPublication\<rparr>] else []))
       else c' = c)" if c: "fmlookup cs i = Some c" for i c
  proof (cases "(ch, i) \<in> S \<and> mayRead ch c")
    case False
    have "fmlookup cs' i = Some c" unfolding look c option.case if_not_P[OF False] ..
    then show ?thesis unfolding if_not_P[OF False] by blast
  next
    case True
    then have w: "writer_inv c" "c_messageWriter c \<noteq> None" using assms(3)[of i] c by auto
    show ?thesis
    proof (cases "enc \<lparr>rp_Id = 0, rp_Body = PushReply ch (PublicationPush ?pub)\<rparr>")
      case None
      then have "fmlookup cs' i = Some (c\<lparr>c_closing := c_closing c @ [DisconnectInappropriateProtocol]\<rparr>)"
        unfolding look c option.case if_P[OF True] by (simp add: receives_def client_Disconnect_def)
      then show ?thesis unfolding if_P[OF True] None option.case by blast
    next
      case (Some reply)
      obtain c' where c': "writePublication (E i) now ch reply c = Some c'" by (rule writePublication_ok[OF w])
      then have "fmlookup cs' i = Some c'" unfolding look c option.case if_P[OF True] by (simp add: receives_def Some)
      then show ?thesis unfolding if_P[OF True] Some option.case using writePublication_waiting[OF w(1) c'] by blast
    qed
  qed
  have "fmlookup cs' i = None \<longleftrightarrow> fmlookup cs i = None" for i using each[of i] look[of i] by (cases "fmlookup cs i") auto
  then have "i |\<in>| fmdom cs' \<longleftrightarrow> i |\<in>| fmdom cs" for i by (metis fmdom_notD fmdom_notI)
  then have "fmdom cs' = fmdom cs" by blast
  then show ?thesis using run each unfolding reader by (intro exI[of _ cs'] conjI allI impI)
qed

text \<open>Visiting the keys in ascending order is an iteration.\<close>

definition sorted_iter :: iteration where
  "sorted_iter m = sorted_list_of_fset (fmdom m)"

lemma sorted_iter_visits_all: "visits_all sorted_iter"
  by (simp add: visits_all_def sorted_iter_def sorted_list_of_fset.rep_eq)

definition reader_example :: "int \<Rightarrow> bytes list client" where
  "reader_example role = client_startWriter null_env zero_config 0 0 0 (publish_example_client role)"

lemma reader_example_ready: "writer_inv (reader_example role)" "c_messageWriter (reader_example role) \<noteq> None"
  using startWriter_inv[of "publish_example_client role" null_env zero_config 0 0 0]
  by (simp_all add: reader_example_def publish_example_client_def NewClient_def writer_inv_def)

lemma reader_example_channels: "c_channels (reader_example role) = c_channels (publish_example_client role)"
  by (simp add: reader_example_def client_startWriter_def split: option.splits)

lemma reader_example_waiting: "waiting (reader_example role) = []" "takes_messages (reader_example role)"
  by (simp_all add: reader_example_def client_startWriter_def publish_example_client_def NewClient_def waiting_def takes_messages_def
      startWriter_def)

theorem publication_reaches_readers_witness:
  "\<exists>cs' c' c2'. node_Publish (\<lambda>_. null_env) (\<lambda>_. Some [1, 2]) 0 sorted_iter ''ch'' [7] []
        ((NewNode ''n'' ''h'' () zero_config)\<lparr>nd_hub :=
           snd (hub_addSub ''ch'' \<lparr>cr_ID = ''c2'', cr_UserID = ''u''\<rparr> (snd (hub_addSub ''ch'' \<lparr>cr_ID = ''c1'', cr_UserID = ''u''\<rparr> newHub)))\<rparr>)
        (fmupd ''c2'' (reader_example 2) (fmupd ''c1'' (reader_example 1) fmempty)) = Some cs'
     \<and> fmlookup cs' ''c1'' = Some c'
     \<and> waiting c' = [\<lparr>it_Data = [1, 2], it_Channel = [], it_FrameType = FrameTypePushPublication\<rparr>]
     \<and> fmlookup cs' ''c2'' = Some c2' \<and> waiting c2' = []"
proof -
  let ?h = "snd (hub_addSub ''ch'' \<lparr>cr_ID = ''c1'', cr_UserID = ''u''\<rparr> newHub)"
  let ?n = "(NewNode ''n'' ''h'' () zero_config)\<lparr>nd_hub := snd (hub_addSub ''ch'' \<lparr>cr_ID = ''c2'', cr_UserID = ''u''\<rparr> ?h)\<rparr>"
  let ?cs = "fmupd ''c2'' (reader_example 2) (fmupd ''c1'' (reader_example 1) fmempty)"
  have h: "hub_subs_rep {(''ch'', ''c1'')} ?h"
    using hub_addSub_rep[OF hub_subs_rep_new, of "''ch''" "\<lparr>cr_ID = ''c1'', cr_UserID = ''u''\<rparr>"] by simp
  have S: "hub_subs_rep {(''ch'', ''c2''), (''ch'', ''c1'')} (nd_hub ?n)"
    using hub_addSub_rep[OF h, of "''ch''" "\<lparr>cr_ID = ''c2'', cr_UserID = ''u''\<rparr>"] by simp
  have ready: "\<exists>c. fmlookup ?cs i = Some c \<and> writer_inv c \<and> c_messageWriter c \<noteq> None"
    if "(''ch'', i) \<in> {(''ch'', ''c2''), (''ch'', ''c1'')}" for i
    using that reader_example_ready by auto
  have "\<exists>cs'. node_Publish (\<lambda>_. null_env) (\<lambda>_. Some [1, 2]) 0 sorted_iter ''ch'' [7] [] ?n ?cs = Some cs' \<and> fmdom cs' = fmdom ?cs
     \<and> (\<forall>i c. fmlookup ?cs i = Some c \<longrightarrow> (\<exists>c'. fmlookup cs' i = Some c' \<and>
       (if (''ch'', i) \<in> {(''ch'', ''c2''), (''ch'', ''c1'')} \<and> (\<exists>x. fmlookup (c_channels c) ''ch'' = Some x
                 \<and> (cc_role x = 1 \<or> cc_role x = 3 \<or> take 12 ''ch'' = ''kairosdeamon''))
        then fmdom (c_channels c') = fmdom (c_channels c) \<and> c_status c' = c_status c
            \<and> waiting c' = waiting c @ (if takes_messages c
                 \<and> (\<exists>x. fmlookup (c_channels c) ''ch'' = Some x \<and> channelHasFlag (cc_flags x) flagSubscribed)
               then [\<lparr>it_Data = [1, 2], it_Channel = (if ev_channelLabel null_env then ''ch'' else []),
                      it_FrameType = FrameTypePushPublication\<rparr>] else [])
        else c' = c)))"
    by (rule publication_reaches_readers[where ch = "''ch''" and E = "\<lambda>_. null_env" and enc = "\<lambda>_. Some [1, 2]" and opts = "[]",
          OF sorted_iter_visits_all S, unfolded option.case]) (rule ready)
  then obtain cs' where run: "node_Publish (\<lambda>_. null_env) (\<lambda>_. Some [1, 2]) 0 sorted_iter ''ch'' [7] [] ?n ?cs = Some cs'"
    and each: "\<forall>i c. fmlookup ?cs i = Some c \<longrightarrow> (\<exists>c'. fmlookup cs' i = Some c' \<and>
       (if (''ch'', i) \<in> {(''ch'', ''c2''), (''ch'', ''c1'')} \<and> (\<exists>x. fmlookup (c_channels c) ''ch'' = Some x
                 \<and> (cc_role x = 1 \<or> cc_role x = 3 \<or> take 12 ''ch'' = ''kairosdeamon''))
        then fmdom (c_channels c') = fmdom (c_channels c) \<and> c_status c' = c_status c
            \<and> waiting c' = waiting c @ (if takes_messages c
                 \<and> (\<exists>x. fmlookup (c_channels c) ''ch'' = Some x \<and> channelHasFlag (cc_flags x) flagSubscribed)
               then [\<lparr>it_Data = [1, 2], it_Channel = (if ev_channelLabel null_env then ''ch'' else []),
                      it_FrameType = FrameTypePushPublication\<rparr>] else [])
        else c' = c))"
    by (elim exE conjE)
  have chan: "fmlookup (c_channels (reader_example role)) ''ch'' = Some (zero_channelContext\<lparr>cc_role := role, cc_flags := flagSubscribed\<rparr>)" for role
    by (simp add: reader_example_channels publish_example_client_def)
  have "channelHasFlag flagSubscribed flagSubscribed" by (simp add: channelHasFlag_def)
  moreover have "\<exists>c'. fmlookup cs' ''c2'' = Some c' \<and> waiting c' = []"
    using each[rule_format, of "''c2''" "reader_example 2"] by (simp add: chan reader_example_waiting)
  ultimately show ?thesis
    using run each[rule_format, of "''c1''" "reader_example 1"] by (auto simp: chan reader_example_waiting null_env_def)
qed

section \<open>Disconnecting a user\<close>

text \<open>The registered connections and the node agree: the connections with the ids in \<open>U\<close> are open and
  authenticated as the users the hub has them under, and hold the channels they are subscribed to.\<close>

definition registered :: "(string \<Rightarrow> string) \<Rightarrow> (string \<Rightarrow> string list) \<Rightarrow> (string \<times> string) set \<Rightarrow> 't conns \<Rightarrow> string \<Rightarrow> bool" where
  "registered user_of chOrder S cs i \<longleftrightarrow> (\<exists>c. fmlookup cs i = Some c \<and> c_uid c = i \<and> c_user c = user_of i \<and> c_authenticated c
     \<and> c_status c \<noteq> statusClosed \<and> writer_inv c \<and> set (chOrder i) = fset (fmdom (c_channels c))
     \<and> (\<forall>ch. (ch, i) \<in> S \<longrightarrow> ch |\<in>| fmdom (c_channels c)))"

definition agree ::
  "(string \<Rightarrow> string) \<Rightarrow> (string \<Rightarrow> string list) \<Rightarrow> string set \<Rightarrow> (string \<times> string) set \<Rightarrow> ('b, 'm) node_scheme \<Rightarrow> 't conns \<Rightarrow> bool" where
  "agree user_of chOrder U S n cs \<longleftrightarrow> node_ok S n \<and> hub_conns_rep user_of U (nd_hub n)
     \<and> (\<forall>i\<in>U. registered user_of chOrder S cs i)"

lemma registered_mono:
  assumes "registered user_of chOrder S cs j" "fmlookup cs' j = fmlookup cs j" "\<And>ch. (ch, j) \<in> S' \<Longrightarrow> (ch, j) \<in> S"
  shows "registered user_of chOrder S' cs' j"
  using assms(1) unfolding registered_def assms(2) by (elim exE conjE) (intro exI conjI, assumption+, use assms(3) in blast)

lemma registeredE:
  assumes "registered user_of chOrder S cs i"
  obtains c where "fmlookup cs i = Some c" "c_uid c = i" "c_user c = user_of i" "c_authenticated c" "c_status c \<noteq> statusClosed"
    "writer_inv c" "set (chOrder i) = fset (fmdom (c_channels c))" "\<forall>ch. (ch, i) \<in> S \<longrightarrow> ch |\<in>| fmdom (c_channels c)"
  using assms unfolding registered_def by (elim exE conjE)

lemma close_one:
  assumes "agree user_of chOrder U S n cs" "i \<in> U"
  obtains c n1 c1 where "fmlookup cs i = Some c" "client_close E (chOrder i) d n c = Some (n1, c1)"
    "c_status c1 = statusClosed" "agree user_of chOrder (U - {i}) {(ch, j) \<in> S. j \<noteq> i} n1 (fmupd i c1 cs)"
proof -
  obtain c where c: "fmlookup cs i = Some c" "c_uid c = i" "c_user c = user_of i" "c_authenticated c" "c_status c \<noteq> statusClosed"
    "writer_inv c" "set (chOrder i) = fset (fmdom (c_channels c))" "\<forall>ch. (ch, i) \<in> S \<longrightarrow> ch |\<in>| fmdom (c_channels c)"
    by (rule registeredE[of user_of chOrder S cs i]) (use assms in \<open>simp add: agree_def\<close>)
  have ok: "node_ok S n" and rep: "hub_conns_rep user_of U (nd_hub n)" using assms(1) by (simp_all add: agree_def)
  obtain n1 c1 where 1: "client_close E (chOrder i) d n c = Some (n1, c1)" "c_status c1 = statusClosed"
    "node_ok (S - {(ch, i) |ch. ch |\<in>| fmdom (c_channels c)}) n1"
    "h_connShards (nd_hub n1) = h_connShards (hub_remove (client_ref_of c) (nd_hub n))"
    using client_close_ok[OF ok c(6,5,7), of E d] c(2,4) by auto
  have S: "S - {(ch, i) |ch. ch |\<in>| fmdom (c_channels c)} = {(ch, j) \<in> S. j \<noteq> i}" using c(8) by blast
  have "hub_conns_rep user_of (U - {i}) (nd_hub n1)"
    using hub_remove_rep[OF rep, of "client_ref_of c"] c(2,3) hub_conns_rep_cong[OF 1(4)] by simp
  moreover have "registered user_of chOrder {(ch, j) \<in> S. j \<noteq> i} (fmupd i c1 cs) j" if "j \<in> U - {i}" for j
    by (rule registered_mono[of user_of chOrder S cs]) (use assms(1) that in \<open>auto simp: agree_def\<close>)
  ultimately have "agree user_of chOrder (U - {i}) {(ch, j) \<in> S. j \<noteq> i} n1 (fmupd i c1 cs)"
    using 1(3) by (simp add: agree_def S)
  then show ?thesis using that c(1) 1(1,2) by blast
qed

lemma close_loop:
  assumes "distinct order" "set order \<subseteq> U" "agree user_of chOrder U S n cs"
  shows "\<exists>n' cs'. user_loop skip (close_call E chOrder d) order None n cs
       = Some (None, n', cs')
     \<and> agree user_of chOrder (U - {i \<in> set order. \<not> skip i}) {(ch, j) \<in> S. \<not> (j \<in> set order \<and> \<not> skip j)} n' cs'
     \<and> (\<forall>i. if i \<in> set order \<and> \<not> skip i then \<exists>c'. fmlookup cs' i = Some c' \<and> c_status c' = statusClosed
            else fmlookup cs' i = fmlookup cs i)"
  using assms
proof (induction order arbitrary: U S n cs)
  case Nil
  then show ?case by simp
next
  case (Cons i order)
  show ?case
  proof (cases "skip i")
    case True
    have "{k \<in> set (i # order). \<not> skip k} = {k \<in> set order. \<not> skip k}"
      "{(ch, j). (ch, j) \<in> S \<and> \<not> (j \<in> set (i # order) \<and> \<not> skip j)} = {(ch, j). (ch, j) \<in> S \<and> \<not> (j \<in> set order \<and> \<not> skip j)}"
      using True by auto
    then show ?thesis using Cons.IH[OF _ _ Cons.prems(3)] Cons.prems(1,2) True by auto
  next
    case False
    obtain c n1 c1 where 1: "fmlookup cs i = Some c" "client_close (E i) (chOrder i) d n c = Some (n1, c1)" "c_status c1 = statusClosed"
      "agree user_of chOrder (U - {i}) {(ch, j) \<in> S. j \<noteq> i} n1 (fmupd i c1 cs)"
      by (rule close_one[OF Cons.prems(3), of i "E i" d]) (use Cons.prems(2) in simp_all)
    have sub: "distinct order" "set order \<subseteq> U - {i}" using Cons.prems(1,2) by auto
    obtain n' cs' where 2: "user_loop skip (close_call E chOrder d) order None n1 (fmupd i c1 cs)
       = Some (None, n', cs')"
      "agree user_of chOrder (U - {i} - {i \<in> set order. \<not> skip i}) {(ch, j). (ch, j) \<in> {(ch, j) \<in> S. j \<noteq> i} \<and> \<not> (j \<in> set order \<and> \<not> skip j)} n' cs'"
      "\<forall>k. if k \<in> set order \<and> \<not> skip k then \<exists>c'. fmlookup cs' k = Some c' \<and> c_status c' = statusClosed
            else fmlookup cs' k = fmlookup (fmupd i c1 cs) k"
      using Cons.IH[OF sub 1(4)] by blast
    have sets: "U - {k \<in> set (i # order). \<not> skip k} = U - {i} - {k \<in> set order. \<not> skip k}"
      "{(ch, j). (ch, j) \<in> S \<and> \<not> (j \<in> set (i # order) \<and> \<not> skip j)}
         = {(ch, j). (ch, j) \<in> {(ch, j) \<in> S. j \<noteq> i} \<and> \<not> (j \<in> set order \<and> \<not> skip j)}"
      using False by auto
    have "if k \<in> set (i # order) \<and> \<not> skip k then \<exists>c'. fmlookup cs' k = Some c' \<and> c_status c' = statusClosed
            else fmlookup cs' k = fmlookup cs k" for k
      using 2(3)[rule_format, of k] 1(3) Cons.prems(1) False by (cases "k = i") (auto split: if_splits)
    moreover have "user_loop skip (close_call E chOrder d) (i # order) None n cs = Some (None, n', cs')"
      using 1(1) 2(1) False close_call_def[of E chOrder d i n c] 1(2) by simp
    ultimately show ?thesis using 2(2) unfolding sets by blast
  qed
qed

lemma stringInSlice_iff [simp]: "stringInSlice str strs \<longleftrightarrow> str \<in> set strs"
  by (induction strs) auto

definition addressed :: "(string \<Rightarrow> string) \<Rightarrow> string set \<Rightarrow> string \<Rightarrow> string \<Rightarrow> string list \<Rightarrow> string set" where
  "addressed user_of U user clientID whitelist =
     {i \<in> U. user_of i = user \<and> i \<notin> set whitelist \<and> (clientID = '''' \<or> i = clientID)}"

text \<open>C22.  Disconnecting a user closes exactly the user's connections that are not on the whitelist
  (only the one named, if a client id is given), without a panic or an error: those connections end
  up closed, unregistered and without subscriptions, every other connection is untouched, and the
  other nodes of the cluster are told the same.\<close>

theorem disconnect_closes_user:
  assumes "visits_all (ce_iter K)" "agree user_of (ce_chOrder K) U S n cs"
  shows "\<exists>n' cs'. node_Disconnect K user custom clientID whitelist n cs
         = Some (None, [(pubDisconnect (nd_uid n) user (case custom of None \<Rightarrow> DisconnectForceNoReconnect | Some d \<Rightarrow> d) clientID whitelist, '''')], n', cs')
     \<and> hub_conns_rep user_of (U - addressed user_of U user clientID whitelist) (nd_hub n') \<and> hub_subs_rep {(ch, i) \<in> S. i \<notin> addressed user_of U user clientID whitelist} (nd_hub n')
     \<and> (\<forall>i. if i \<in> addressed user_of U user clientID whitelist then \<exists>c'. fmlookup cs' i = Some c' \<and> c_status c' = statusClosed
            else fmlookup cs' i = fmlookup cs i)"
proof -
  let ?d = "case custom of None \<Rightarrow> DisconnectForceNoReconnect | Some d \<Rightarrow> d" and ?gone = "addressed user_of U user clientID whitelist"
  let ?m = "hub_UserConnections user (nd_hub n)" and ?skip = "\<lambda>i. stringInSlice i whitelist \<or> otherClient clientID i"
  have rep: "hub_conns_rep user_of U (nd_hub n)" using assms(2) by (simp add: agree_def)
  have set: "set (ce_iter K ?m) = {i \<in> U. user_of i = user}" and dist: "distinct (ce_iter K ?m)"
    using assms(1) hub_conns_counts(3)[OF rep, of user] by (auto simp: visits_all_def fmlookup_dom_iff split: if_splits)
  have gone: "i \<in> ?gone \<longleftrightarrow> i \<in> set (ce_iter K ?m) \<and> \<not> ?skip i" for i by (auto simp: set addressed_def otherClient_def)
  obtain n' cs' where 1: "user_loop ?skip (close_call (ce_env K) (ce_chOrder K) ?d)
       (ce_iter K ?m) None n cs = Some (None, n', cs')"
    "agree user_of (ce_chOrder K) (U - {i \<in> set (ce_iter K ?m). \<not> ?skip i}) {(ch, j) \<in> S. \<not> (j \<in> set (ce_iter K ?m) \<and> \<not> ?skip j)} n' cs'"
    "\<forall>i. if i \<in> set (ce_iter K ?m) \<and> \<not> ?skip i then \<exists>c'. fmlookup cs' i = Some c' \<and> c_status c' = statusClosed
            else fmlookup cs' i = fmlookup cs i"
    using close_loop[OF dist _ assms(2), of ?skip "ce_env K" ?d] set by blast
  have sets: "{i \<in> set (ce_iter K ?m). \<not> ?skip i} = ?gone"
    "{(ch, j) \<in> S. \<not> (j \<in> set (ce_iter K ?m) \<and> \<not> ?skip j)} = {(ch, i) \<in> S. i \<notin> ?gone}"
    using gone by blast+
  have "node_Disconnect K user custom clientID whitelist n cs
      = Some (None, [(pubDisconnect (nd_uid n) user ?d clientID whitelist, '''')], n', cs')"
    unfolding node_Disconnect_def connShard_disconnect_def Let_def 1(1) by (simp add: after_local_def)
  moreover note 1(2)[unfolded sets] 1(3)[folded gone]
  ultimately show ?thesis unfolding agree_def node_inv_def by blast
qed

theorem disconnect_closes_user_witness:
  "\<exists>sent n' cs'. node_Disconnect \<lparr>ce_env = \<lambda>_. null_env, ce_broker = MemoryBroker, ce_now = 0, ce_startedAt = 0,
          ce_chOrder = (\<lambda>_. [''ch'']), ce_iter = sorted_iter\<rparr> ''u'' None '''' []
        ((NewNode ''n'' ''h'' () zero_config)\<lparr>nd_hub := hub_add \<lparr>cr_ID = ''c1'', cr_UserID = ''u''\<rparr> newHub\<rparr>)
        (fmupd ''c1'' (reader_example 1) fmempty) = Some (None, sent, n', cs')
     \<and> hub_conns_rep (\<lambda>_. ''u'') {} (nd_hub n') \<and> (\<exists>c'. fmlookup cs' ''c1'' = Some c' \<and> c_status c' = statusClosed)"
proof -
  let ?n = "(NewNode ''n'' ''h'' () zero_config)\<lparr>nd_hub := hub_add \<lparr>cr_ID = ''c1'', cr_UserID = ''u''\<rparr> newHub\<rparr>"
  let ?K = "\<lparr>ce_env = \<lambda>_. null_env, ce_broker = MemoryBroker, ce_now = 0, ce_startedAt = 0, ce_chOrder = (\<lambda>_. [''ch'']), ce_iter = sorted_iter\<rparr>"
  let ?cs = "fmupd ''c1'' (reader_example 1) fmempty"
  have "node_ok {} (NewNode ''n'' ''h'' () zero_config)" by (rule node_fresh_inv) simp
  then have "node_ok {} ?n" by (simp add: node_inv_def hub_subs_rep_def hub_add_def Let_def NewNode_def)
  moreover have "hub_conns_rep (\<lambda>_. ''u'') {''c1''} (nd_hub ?n)"
    using hub_add_rep[OF hub_conns_rep_new, of "\<lparr>cr_ID = ''c1'', cr_UserID = ''u''\<rparr>" "\<lambda>_. ''u''"] by simp
  moreover have "registered (\<lambda>_. ''u'') (ce_chOrder ?K) {} ?cs ''c1''"
    using reader_example_ready(1)[of 1]
    by (simp add: registered_def reader_example_channels) (simp add: reader_example_def publish_example_client_def NewClient_def client_startWriter_def)
  ultimately have "agree (\<lambda>_. ''u'') (ce_chOrder ?K) {''c1''} {} ?n ?cs" by (simp add: agree_def)
  from disconnect_closes_user[OF _ this, of "''u''" None "''''" "[]"] show ?thesis
    using sorted_iter_visits_all by (fastforce simp: addressed_def)
qed

section \<open>Calls across the cluster\<close>

lemma ucast_byte_roundtrip: "ucast (ucast (x :: 8 word) :: 32 word) = x"
  by (rule bit_word_eqI) (auto simp: bit_ucast_iff)

lemma client_Subscribe_clientID: "client_Subscribe E B now order ch (opts\<lparr>so_clientID := i\<rparr>) = client_Subscribe E B now order ch opts"
  by (intro ext, cases opts) (simp only: client_Subscribe_def subscribeCmd_def channelFlags_def subscribeOptions.simps subscribeReply.simps
      subscribeOptions.update_convs Let_def cong del: if_weak_cong option.case_cong_weak)

lemma client_Refresh_clientID: "client_Refresh E config now (opts\<lparr>ro_clientID := i\<rparr>) = client_Refresh E config now opts"
  by (intro ext, cases opts) (simp only: client_Refresh_def refreshOptions.simps refreshOptions.update_convs cong del: if_weak_cong)

text \<open>C23.  The message a node sends after a call on one of its users makes every other node run the
  same call on its own connections of that user, with the same arguments, except that the channel
  role of a subscription is lost on the way; a node ignores its own messages.\<close>

theorem control_forwards_calls:
  assumes "nd_uid n \<noteq> uid"
  shows "handleControl K (pubUnsubscribe uid user ch u cl ss) n cs
          = local_call (connShard_unsubscribe (ce_env K) (ce_iter K) user ch u cl n cs)
     \<and> handleControl K (pubDisconnect uid user d cl wl) n cs
          = local_call (connShard_disconnect (ce_env K) (ce_chOrder K) (ce_iter K) user d cl wl n cs)
     \<and> handleControl K (pubRefresh uid user ss ropts) n cs
          = local_call (connShard_refresh (ce_env K) (ce_now K) (ce_iter K) user (ro_clientID ropts) ropts n cs)
     \<and> handleControl K (pubSubscribe uid user ch opts) n cs
          = local_call (connShard_subscribe (ce_env K) (ce_broker K) (ce_now K) (ce_chOrder K) (ce_iter K) user ch (so_clientID opts)
              (opts\<lparr>so_Role := 0\<rparr>) n cs)
     \<and> handleControl K (cmd\<lparr>k_Uid := nd_uid n\<rparr>) n cs = Some (None, [], n, cs)"
proof (intro conjI)
  have u: "\<lparr>u_Code = u_Code u, u_Reason = u_Reason u\<rparr> = u" and d: "\<lparr>d_Code = d_Code d, d_Reason = d_Reason d\<rparr> = d" by simp_all
  show "handleControl K (pubUnsubscribe uid user ch u cl ss) n cs
      = local_call (connShard_unsubscribe (ce_env K) (ce_iter K) user ch u cl n cs)"
    "handleControl K (pubDisconnect uid user d cl wl) n cs
      = local_call (connShard_disconnect (ce_env K) (ce_chOrder K) (ce_iter K) user d cl wl n cs)"
    "handleControl K (cmd\<lparr>k_Uid := nd_uid n\<rparr>) n cs = Some (None, [], n, cs)"
    using assms by (simp_all add: handleControl_def pubUnsubscribe_def pubDisconnect_def controlCommand_for_def u d)
  have r: "\<lparr>ro_Expired = ro_Expired ropts, ro_ExpireAt = ro_ExpireAt ropts, ro_Info = ro_Info ropts, ro_clientID = ''''\<rparr>
      = ropts\<lparr>ro_clientID := ''''\<rparr>" by simp
  have s: "\<lparr>so_ExpireAt = so_ExpireAt opts, so_ChannelInfo = so_ChannelInfo opts, so_EmitPresence = so_EmitPresence opts,
       so_EmitJoinLeave = so_EmitJoinLeave opts, so_PushJoinLeave = so_PushJoinLeave opts, so_Data = so_Data opts,
       so_clientID = '''', so_Source = so_Source opts, so_Role = 0\<rparr> = (opts\<lparr>so_Role := 0\<rparr>)\<lparr>so_clientID := ''''\<rparr>" by simp
  show "handleControl K (pubRefresh uid user ss ropts) n cs
      = local_call (connShard_refresh (ce_env K) (ce_now K) (ce_iter K) user (ro_clientID ropts) ropts n cs)"
    using assms by (simp add: handleControl_def pubRefresh_def controlCommand_for_def r connShard_refresh_def client_Refresh_clientID)
  show "handleControl K (pubSubscribe uid user ch opts) n cs
      = local_call (connShard_subscribe (ce_env K) (ce_broker K) (ce_now K) (ce_chOrder K) (ce_iter K) user ch (so_clientID opts)
          (opts\<lparr>so_Role := 0\<rparr>) n cs)"
    using assms
    by (simp add: handleControl_def pubSubscribe_def controlCommand_for_def ucast_byte_roundtrip s connShard_subscribe_def
        client_Subscribe_clientID[where opts = "opts\<lparr>so_Role := 0\<rparr>" and i = "''''"])
qed

theorem control_forwards_calls_witness:
  "handleControl \<lparr>ce_env = \<lambda>_. null_env, ce_broker = MemoryBroker, ce_now = 0, ce_startedAt = 0, ce_chOrder = (\<lambda>_. []), ce_iter = sorted_iter\<rparr>
      (pubDisconnect ''m'' ''u'' DisconnectStale '''' []) (NewNode ''n'' ''h'' () zero_config) fmempty
   = local_call (connShard_disconnect (\<lambda>_. null_env) (\<lambda>_. []) sorted_iter ''u'' DisconnectStale '''' [] (NewNode ''n'' ''h'' () zero_config) fmempty)"
proof -
  have "nd_uid (NewNode ''n'' ''h'' () zero_config) \<noteq> ''m''" by (simp add: NewNode_def)
  from control_forwards_calls[OF this, of "\<lparr>ce_env = \<lambda>_. null_env, ce_broker = MemoryBroker, ce_now = 0, ce_startedAt = 0,
      ce_chOrder = (\<lambda>_. []), ce_iter = sorted_iter\<rparr>" "''u''" _ _ "''''" _ fmempty DisconnectStale "[]"] show ?thesis by simp
qed

end
