(* ===== verification/Framing.thy ===== *)
theory Framing
  imports Kairos_Prelude
begin

text \<open>
  Framing of protocol messages (\<open>pkg/protocol/deliverprotocol\<close>: \<open>encode.go\<close>, \<open>decode.go\<close>,
  \<open>decode_stream.go\<close>, \<open>bpool.go\<close>, \<open>raw.go\<close>): newline-separated JSON messages and
  length-prefixed protobuf messages, decoded from a byte slice or from a stream, and the pool of byte
  buffers of the stream decoder.

  How one message is parsed is up to generated code and the JSON library: \<open>parse\<close> is an argument
  (\<open>None\<close> is its error).  A stream is the bytes still to be read; a read at the end gives \<open>EOF\<close>.
\<close>

unbundle bit_operations_syntax

datatype io_error = EOF | ErrUnexpectedEOF | ErrShortBuffer | ErrOverflow | ErrParse

definition newline :: byte where "newline = 10"

section \<open>Variable-length integers (\<open>encoding/binary\<close>)\<close>

function uvarint_bytes :: "uint64 \<Rightarrow> bytes" where
  "uvarint_bytes x = (if x \<ge> 0x80 then (ucast x OR 0x80) # uvarint_bytes (drop_bit 7 x) else [ucast x])"
  by auto
termination
proof (relation "measure unat")
  fix x :: uint64 assume "x \<ge> 0x80"
  then have "unat x \<ge> 128" by (simp add: word_le_nat_alt)
  moreover have "unat (drop_bit 7 x) = unat x div 128" unfolding unat_drop_bit_eq by (simp add: drop_bit_eq_div)
  ultimately show "(drop_bit 7 x, x) \<in> measure unat" by simp
qed simp

declare uvarint_bytes.simps [simp del]

text \<open>\<open>PutUvarint\<close> into a buffer of \<open>n\<close> bytes; it panics when the buffer is too short.\<close>

definition PutUvarint :: "nat \<Rightarrow> uint64 \<Rightarrow> bytes go" where
  "PutUvarint n x = (let bs = uvarint_bytes x in if length bs \<le> n then Some bs else None)"

fun Uvarint_loop :: "nat \<Rightarrow> nat \<Rightarrow> uint64 \<Rightarrow> bytes \<Rightarrow> uint64 \<times> int" where
  "Uvarint_loop i s x [] = (0, 0)"
| "Uvarint_loop i s x (b # buf) =
     (if i = 10 then (0, - (int i + 1))
      else if b < 0x80 then
        (if i = 9 \<and> b > 1 then (0, - (int i + 1)) else (x OR push_bit s (ucast b), int i + 1))
      else Uvarint_loop (i + 1) (s + 7) (x OR push_bit s (ucast (b AND 0x7f))) buf)"

definition Uvarint :: "bytes \<Rightarrow> uint64 \<times> int" where
  "Uvarint buf = Uvarint_loop 0 0 0 buf"

fun ReadUvarint_loop :: "nat \<Rightarrow> nat \<Rightarrow> uint64 \<Rightarrow> bytes \<Rightarrow> (io_error + uint64) \<times> bytes" where
  "ReadUvarint_loop i s x [] = (if i = 10 then (Inl ErrOverflow, []) else (Inl (if i > 0 then ErrUnexpectedEOF else EOF), []))"
| "ReadUvarint_loop i s x (b # r) =
     (if i = 10 then (Inl ErrOverflow, b # r)
      else if b < 0x80 then
        (if i = 9 \<and> b > 1 then (Inl ErrOverflow, r) else (Inr (x OR push_bit s (ucast b)), r))
      else ReadUvarint_loop (i + 1) (s + 7) (x OR push_bit s (ucast (b AND 0x7f))) r)"

definition ReadUvarint :: "bytes \<Rightarrow> (io_error + uint64) \<times> bytes" where
  "ReadUvarint r = ReadUvarint_loop 0 0 0 r"

section \<open>Data encoders (\<open>encode.go\<close>)\<close>

record jsonDataEncoder =
  je_count :: nat
  je_buffer :: bytes

definition NewJSONDataEncoder :: jsonDataEncoder where
  "NewJSONDataEncoder = \<lparr>je_count = 0, je_buffer = []\<rparr>"

definition JSONDataEncoder_Reset :: "jsonDataEncoder \<Rightarrow> jsonDataEncoder" where
  "JSONDataEncoder_Reset e = e\<lparr>je_count := 0, je_buffer := []\<rparr>"

definition JSONDataEncoder_Encode :: "bytes \<Rightarrow> jsonDataEncoder \<Rightarrow> jsonDataEncoder" where
  "JSONDataEncoder_Encode data e =
     (let e1 = (if je_count e > 0 then e\<lparr>je_buffer := je_buffer e @ [newline]\<rparr> else e)
      in e1\<lparr>je_buffer := je_buffer e1 @ data, je_count := je_count e1 + 1\<rparr>)"

definition JSONDataEncoder_Finish :: "jsonDataEncoder \<Rightarrow> bytes" where
  "JSONDataEncoder_Finish e = je_buffer e"

type_synonym protobufDataEncoder = bytes

definition ProtobufDataEncoder_Encode :: "bytes \<Rightarrow> protobufDataEncoder \<Rightarrow> protobufDataEncoder go" where
  "ProtobufDataEncoder_Encode data buffer = do {
     bs \<leftarrow> PutUvarint 8 (of_nat (length data));
     Some (buffer @ bs @ data)
   }"

definition ProtobufDataEncoder_Reset :: "protobufDataEncoder \<Rightarrow> protobufDataEncoder" where
  "ProtobufDataEncoder_Reset buffer = []"

definition ProtobufDataEncoder_Finish :: "protobufDataEncoder \<Rightarrow> bytes" where
  "ProtobufDataEncoder_Finish buffer = buffer"

section \<open>Command decoders (\<open>decode.go\<close>)\<close>

record jsonCommandDecoder =
  jd_data :: bytes
  jd_messageCount :: nat
  jd_prevNewLine :: nat
  jd_numMessagesRead :: nat

definition messageCount_of :: "bytes \<Rightarrow> nat" where
  "messageCount_of data =
     (let messageCount = count_list data newline + 1
      in if length data = 0 \<or> last data = newline then messageCount - 1 else messageCount)"

definition NewJSONCommandDecoder :: "bytes \<Rightarrow> jsonCommandDecoder" where
  "NewJSONCommandDecoder data =
     \<lparr>jd_data = data, jd_messageCount = messageCount_of data, jd_prevNewLine = 0, jd_numMessagesRead = 0\<rparr>"

definition JSONCommandDecoder_Reset :: "bytes \<Rightarrow> jsonCommandDecoder \<Rightarrow> jsonCommandDecoder" where
  "JSONCommandDecoder_Reset data d =
     d\<lparr>jd_data := data, jd_messageCount := messageCount_of data, jd_prevNewLine := 0, jd_numMessagesRead := 0\<rparr>"

text \<open>\<open>bytes.Index\<close> of a newline.\<close>

fun index_newline :: "bytes \<Rightarrow> nat option" where
  "index_newline [] = None"
| "index_newline (b # bs) = (if b = newline then Some 0 else map_option Suc (index_newline bs))"

text \<open>\<open>Decode\<close>: the command if there is one, the error if there is one, and the decoder; the outer
  option is the panic of a slice out of range.\<close>

definition JSONCommandDecoder_Decode ::
  "(bytes \<Rightarrow> 'c option) \<Rightarrow> jsonCommandDecoder \<Rightarrow> ('c option \<times> io_error option \<times> jsonCommandDecoder) go" where
  "JSONCommandDecoder_Decode parse d =
     (if jd_messageCount d = 0 then Some (None, Some ErrUnexpectedEOF, d)
      else if jd_messageCount d = 1 then
        (case parse (jd_data d) of None \<Rightarrow> Some (None, Some ErrParse, d) | Some c \<Rightarrow> Some (Some c, Some EOF, d))
      else do {
        r \<leftarrow> (if jd_numMessagesRead d = jd_messageCount d - 1 then do {
                 rest \<leftarrow> go_slice (jd_data d) (jd_prevNewLine d) (length (jd_data d));
                 Some (Some (length rest))
               }
               else if length (jd_data d) > jd_prevNewLine d
               then Some (index_newline (drop (jd_prevNewLine d) (jd_data d)))
               else Some None);
        (case r of
           None \<Rightarrow> Some (None, Some ErrShortBuffer, d)
         | Some nextNewLine \<Rightarrow>
             if length (jd_data d) \<ge> jd_prevNewLine d + nextNewLine then
               (case parse (take nextNewLine (drop (jd_prevNewLine d) (jd_data d))) of
                  None \<Rightarrow> Some (None, Some ErrParse, d)
                | Some c \<Rightarrow>
                    (let d1 = d\<lparr>jd_numMessagesRead := jd_numMessagesRead d + 1,
                                jd_prevNewLine := jd_prevNewLine d + nextNewLine + 1\<rparr>
                     in Some (Some c, if jd_numMessagesRead d1 = jd_messageCount d1 then Some EOF else None, d1)))
             else Some (None, Some ErrShortBuffer, d))
      })"

record protobufDecoder =
  pd_data :: bytes
  pd_offset :: nat

definition NewProtobufCommandDecoder :: "bytes \<Rightarrow> protobufDecoder" where
  "NewProtobufCommandDecoder data = \<lparr>pd_data = data, pd_offset = 0\<rparr>"

definition ProtobufCommandDecoder_Reset :: "bytes \<Rightarrow> protobufDecoder \<Rightarrow> protobufDecoder" where
  "ProtobufCommandDecoder_Reset data d = d\<lparr>pd_data := data, pd_offset := 0\<rparr>"

definition ProtobufCommandDecoder_Decode ::
  "(bytes \<Rightarrow> 'c option) \<Rightarrow> protobufDecoder \<Rightarrow> ('c option \<times> io_error option \<times> protobufDecoder) go" where
  "ProtobufCommandDecoder_Decode parse d =
     (if pd_offset d < length (pd_data d) then
        (let (l, n) = Uvarint (drop (pd_offset d) (pd_data d)) in
         if n \<le> 0 then Some (None, Some EOF, d)
         else
           (let start = int (pd_offset d) + n; stop = i64 (int (pd_offset d) + n + sint l) in
            if stop > 0 \<and> stop \<le> int (length (pd_data d)) then do {
              cmdBytes \<leftarrow> go_slice (pd_data d) (nat start) (nat stop);
              (case parse cmdBytes of
                 None \<Rightarrow> Some (None, Some ErrParse, d)
               | Some c \<Rightarrow>
                   (let d1 = d\<lparr>pd_offset := nat stop\<rparr>
                    in Some (Some c, if pd_offset d1 = length (pd_data d1) then Some EOF else None, d1)))
            } else Some (None, Some ErrShortBuffer, d)))
      else Some (None, Some EOF, d))"

text \<open>The reply decoder slices without a check; \<open>rd_backing\<close> is the array behind the slice, up to its
  capacity, and \<open>rd_len\<close> the length of the slice.\<close>

record replyDecoder =
  rd_backing :: bytes
  rd_len :: nat
  rd_offset :: nat

definition NewProtobufReplyDecoder :: "bytes \<Rightarrow> bytes \<Rightarrow> replyDecoder" where
  "NewProtobufReplyDecoder data spare = \<lparr>rd_backing = data @ spare, rd_len = length data, rd_offset = 0\<rparr>"

definition ProtobufReplyDecoder_Reset :: "bytes \<Rightarrow> bytes \<Rightarrow> replyDecoder \<Rightarrow> replyDecoder" where
  "ProtobufReplyDecoder_Reset data spare d = d\<lparr>rd_backing := data @ spare, rd_len := length data, rd_offset := 0\<rparr>"

definition ProtobufReplyDecoder_Decode ::
  "(bytes \<Rightarrow> 'c option) \<Rightarrow> replyDecoder \<Rightarrow> ('c option \<times> io_error option \<times> replyDecoder) go" where
  "ProtobufReplyDecoder_Decode parse d =
     (if rd_offset d < rd_len d then
        (let (l, n) = Uvarint (take (rd_len d - rd_offset d) (drop (rd_offset d) (rd_backing d)));
             start = int (rd_offset d) + n; stop = i64 (int (rd_offset d) + n + sint l)
         in if start < 0 \<or> stop < 0 then None
            else do {
              replyBytes \<leftarrow> go_slice (rd_backing d) (nat start) (nat stop);
              (case parse replyBytes of
                 None \<Rightarrow> Some (None, Some ErrParse, d)
               | Some c \<Rightarrow> Some (Some c, None, d\<lparr>rd_offset := nat stop\<rparr>))
            })
      else Some (None, Some EOF, d))"

section \<open>Byte buffers (\<open>bpool.go\<close>)\<close>

text \<open>A buffer is its capacity: the code only uses it as scratch space.  A pool may drop what it
  holds, so \<open>hit\<close> says whether \<open>Get\<close> finds a buffer.\<close>

type_synonym pools = "nat list list"

definition maxBufferLength :: nat where
  "maxBufferLength = 262144"

definition numPools :: nat where
  "numPools = 19"

fun bits_Len :: "nat \<Rightarrow> nat" where
  "bits_Len v = (if v = 0 then 0 else Suc (bits_Len (v div 2)))"

declare bits_Len.simps [simp del]

definition nextLogBase2 :: "32 word \<Rightarrow> nat" where
  "nextLogBase2 v = bits_Len (unat (v - 1))"

definition prevLogBase2 :: "32 word \<Rightarrow> nat" where
  "prevLogBase2 num = (let next = nextLogBase2 num in if num = push_bit next 1 then next else next - 1)"

definition getByteBuffer :: "bool \<Rightarrow> int \<Rightarrow> pools \<Rightarrow> (nat \<times> pools) go" where
  "getByteBuffer hit len ps =
     (if len = 0 then Some (0, ps)
      else if len > int maxBufferLength then Some (nat len, ps)
      else do {
        let idx = nextLogBase2 (of_int len);
        pool \<leftarrow> go_index ps idx;
        (case pool of
           bb # rest \<Rightarrow> if hit then Some (bb, ps[idx := rest]) else Some (2 ^ idx, ps)
         | [] \<Rightarrow> Some (2 ^ idx, ps))
      })"

definition putByteBuffer :: "nat \<Rightarrow> pools \<Rightarrow> pools go" where
  "putByteBuffer capacity ps =
     (if capacity = 0 \<or> capacity > maxBufferLength then Some ps
      else do {
        let idx = prevLogBase2 (of_nat capacity);
        pool \<leftarrow> go_index ps idx;
        Some (ps[idx := capacity # pool])
      })"

section \<open>Stream decoders (\<open>decode_stream.go\<close>)\<close>

text \<open>\<open>ReadBytes\<close> of a newline: what was read, whether the delimiter was found, and the rest.\<close>

definition ReadBytes :: "bytes \<Rightarrow> bytes \<times> bool \<times> bytes" where
  "ReadBytes r = (case index_newline r of
      Some i \<Rightarrow> (take (i + 1) r, True, drop (i + 1) r)
    | None \<Rightarrow> (r, False, []))"

definition JSONStreamCommandDecoder_Decode ::
  "(bytes \<Rightarrow> 'c option) \<Rightarrow> bytes \<Rightarrow> ('c option \<times> nat \<times> io_error option) \<times> bytes" where
  "JSONStreamCommandDecoder_Decode parse reader =
     (let (cmdBytes, found, rest) = ReadBytes reader in
      if \<not> found \<and> length cmdBytes = 0 then ((None, 0, Some EOF), rest)
      else (case parse cmdBytes of
              None \<Rightarrow> ((None, 0, Some ErrParse), rest)
            | Some c \<Rightarrow> ((Some c, length cmdBytes, None), rest)))"

text \<open>\<open>ReadFull\<close> into a buffer of \<open>n\<close> bytes.\<close>

definition ReadFull :: "nat \<Rightarrow> bytes \<Rightarrow> (io_error + bytes) \<times> bytes" where
  "ReadFull n r =
     (if n = 0 then (Inr [], r)
      else if r = [] then (Inl EOF, [])
      else if length r < n then (Inl ErrUnexpectedEOF, [])
      else (Inr (take n r), drop n r))"

definition ProtobufStreamCommandDecoder_Decode ::
  "(bytes \<Rightarrow> 'c option) \<Rightarrow> bool \<Rightarrow> bytes \<Rightarrow> pools \<Rightarrow> (('c option \<times> nat \<times> io_error option) \<times> bytes \<times> pools) go" where
  "ProtobufStreamCommandDecoder_Decode parse hit reader ps =
     (case ReadUvarint reader of
        (Inl e, rest) \<Rightarrow> Some ((None, 0, Some e), rest, ps)
      | (Inr msgLength, rest) \<Rightarrow> do {
          (cap, ps1) \<leftarrow> getByteBuffer hit (sint msgLength) ps;
          (if sint msgLength < 0 \<or> sint msgLength > int cap then None
           else do {
             ps2 \<leftarrow> putByteBuffer cap ps1;
             (case ReadFull (unat msgLength) rest of
                (Inl e, rest1) \<Rightarrow> Some ((None, 0, Some e), rest1, ps2)
              | (Inr bs, rest1) \<Rightarrow>
                  (case parse bs of
                     None \<Rightarrow> Some ((None, 0, Some ErrParse), rest1, ps2)
                   | Some c \<Rightarrow> Some ((Some c, unat msgLength + 8, None), rest1, ps2)))
           })
        })"

section \<open>Raw values (\<open>raw.go\<close>)\<close>

text \<open>\<open>None\<close> is the nil slice.\<close>

definition Raw_MarshalJSON :: "bytes option \<Rightarrow> bytes" where
  "Raw_MarshalJSON r =
     (case r of
        None \<Rightarrow> map of_nat [110, 117, 108, 108]
      | Some bs \<Rightarrow> if newline \<notin> set bs then bs else filter (\<lambda>b. b \<noteq> newline) bs)"

definition Raw_UnmarshalJSON :: "bytes \<Rightarrow> bytes option \<Rightarrow> bytes option" where
  "Raw_UnmarshalJSON data r = (if r = None \<and> data = [] then None else Some data)"

section \<open>Reading back a variable-length integer\<close>

lemma uvarint_nonempty: "uvarint_bytes x \<noteq> []"
  by (subst uvarint_bytes.simps) simp

lemma uvarint_length_le: "unat x < 2 ^ (7 * k) \<Longrightarrow> 0 < k \<Longrightarrow> length (uvarint_bytes x) \<le> k"
proof (induction x arbitrary: k rule: uvarint_bytes.induct)
  case (1 x)
  show ?case
  proof (cases "x \<ge> 0x80")
    case True
    then have "unat x \<ge> 128" by (simp add: word_le_nat_alt)
    then obtain j where j: "k = Suc j" "0 < j" using 1(2,3) by (cases k; cases "k - 1") auto
    have "unat (drop_bit 7 x) = unat x div 128" unfolding unat_drop_bit_eq by (simp add: drop_bit_eq_div)
    also have "\<dots> < 2 ^ (7 * j)" using 1(2) j(1) by (simp add: less_mult_imp_div_less power_add)
    finally show ?thesis using 1(1)[OF True _ j(2)] True j(1) by (subst uvarint_bytes.simps) simp
  next
    case False
    then show ?thesis using 1(3) by (subst uvarint_bytes.simps) simp
  qed
qed

lemma byte_masks: "(0x7f :: byte) = mask 7" "(0x80 :: byte) = push_bit 7 1"
  by (simp_all add: mask_eq_exp_minus_1)

lemma low_byte: "(b :: byte) < 0x80 \<longleftrightarrow> take_bit 7 b = b"
  by (simp add: word_less_nat_alt word_unat_eq_iff unsigned_take_bit_eq take_bit_nat_eq_self_iff)

lemma low_uint64: "(x :: uint64) < 0x80 \<longleftrightarrow> take_bit 7 x = x"
  by (simp add: word_less_nat_alt word_unat_eq_iff unsigned_take_bit_eq take_bit_nat_eq_self_iff)

lemma uvarint_more: "\<not> ucast (x :: uint64) OR (0x80 :: byte) < 0x80"
proof
  let ?b = "ucast (x :: uint64) OR (0x80 :: byte)"
  assume "?b < 0x80"
  then have "take_bit 7 ?b = ?b" by (simp only: low_byte)
  moreover have "bit ?b 7" by (simp only: byte_masks) (simp add: bit_simps)
  ultimately show False by (metis bit_take_bit_iff less_irrefl)
qed

lemma bit_0x80: "bit (0x80 :: byte) n \<longleftrightarrow> n = 7"
  unfolding byte_masks(2) by (simp only: bit_push_bit_iff bit_1_iff) auto

lemma uvarint_low: "ucast ((ucast (x :: uint64) OR 0x80 :: byte) AND 0x7f) = take_bit 7 x"
proof -
  have "ucast ((ucast x OR y) AND mask 7) = take_bit 7 x" if "\<And>n. bit y n \<longleftrightarrow> n = 7" for y :: byte
    by (rule bit_word_eqI) (auto simp: bit_simps that)
  then show ?thesis unfolding byte_masks(1) using bit_0x80 by blast
qed

lemma uvarint_last:
  assumes "\<not> (x :: uint64) \<ge> 0x80"
  shows "(ucast x :: byte) < 0x80" "ucast (ucast x :: byte) = x"
proof -
  have "take_bit 7 x = x" using assms by (simp add: low_uint64[symmetric])
  then have b: "bit x n \<Longrightarrow> n < 7" for n by (metis bit_take_bit_iff)
  have "take_bit 7 (ucast x :: byte) = ucast x" by (rule bit_word_eqI) (auto simp: bit_simps dest: b)
  then show "(ucast x :: byte) < 0x80" by (simp only: low_byte)
  show "ucast (ucast x :: byte) = x" by (rule bit_word_eqI) (auto simp: bit_simps dest: b)
qed

lemma uvarint_split:
  "(acc OR push_bit s (take_bit 7 x)) OR push_bit (s + 7) (drop_bit 7 x) = acc OR push_bit s (x :: uint64)"
proof (rule bit_word_eqI)
  fix n assume "n < LENGTH(64)"
  have "s + 7 \<le> n \<Longrightarrow> 7 + (n - (s + 7)) = n - s" by simp
  then show "bit ((acc OR push_bit s (take_bit 7 x)) OR push_bit (s + 7) (drop_bit 7 x)) n = bit (acc OR push_bit s x) n"
    by (cases "s + 7 \<le> n") (auto simp: bit_simps)
qed

lemma Uvarint_loop_bytes:
  assumes "i + length (uvarint_bytes x) \<le> 9"
  shows "Uvarint_loop i s acc (uvarint_bytes x @ rest) = (acc OR push_bit s x, int i + int (length (uvarint_bytes x)))"
  using assms
proof (induction x arbitrary: i s acc rule: uvarint_bytes.induct)
  case (1 x)
  show ?case
  proof (cases "x \<ge> 0x80")
    case True
    have u: "uvarint_bytes x = (ucast x OR 0x80) # uvarint_bytes (drop_bit 7 x)" using True by (subst uvarint_bytes.simps) simp
    have "Uvarint_loop (i + 1) (s + 7) (acc OR push_bit s (take_bit 7 x)) (uvarint_bytes (drop_bit 7 x) @ rest)
        = ((acc OR push_bit s (take_bit 7 x)) OR push_bit (s + 7) (drop_bit 7 x), int (i + 1) + int (length (uvarint_bytes (drop_bit 7 x))))"
      by (rule 1(1)[OF True]) (use 1(2) u in simp)
    then show ?thesis using 1(2) uvarint_more[of x] by (simp add: u uvarint_low uvarint_split)
  next
    case False
    then have u: "uvarint_bytes x = [ucast x]" by (subst uvarint_bytes.simps) simp
    show ?thesis using 1(2) uvarint_last[OF False] by (simp add: u)
  qed
qed

lemma ReadUvarint_loop_bytes:
  assumes "i + length (uvarint_bytes x) \<le> 9"
  shows "ReadUvarint_loop i s acc (uvarint_bytes x @ rest) = (Inr (acc OR push_bit s x), rest)"
  using assms
proof (induction x arbitrary: i s acc rule: uvarint_bytes.induct)
  case (1 x)
  show ?case
  proof (cases "x \<ge> 0x80")
    case True
    have u: "uvarint_bytes x = (ucast x OR 0x80) # uvarint_bytes (drop_bit 7 x)" using True by (subst uvarint_bytes.simps) simp
    have "ReadUvarint_loop (i + 1) (s + 7) (acc OR push_bit s (take_bit 7 x)) (uvarint_bytes (drop_bit 7 x) @ rest)
        = (Inr ((acc OR push_bit s (take_bit 7 x)) OR push_bit (s + 7) (drop_bit 7 x)), rest)"
      by (rule 1(1)[OF True]) (use 1(2) u in simp)
    then show ?thesis using 1(2) uvarint_more[of x] by (simp add: u uvarint_low uvarint_split)
  next
    case False
    then have u: "uvarint_bytes x = [ucast x]" by (subst uvarint_bytes.simps) simp
    show ?thesis using 1(2) uvarint_last[OF False] by (simp add: u)
  qed
qed

section \<open>Round trips\<close>

text \<open>The loops of \<open>WriteMany\<close> over the messages of one frame.\<close>

fun protobuf_encodeMany :: "bytes list \<Rightarrow> protobufDataEncoder \<Rightarrow> protobufDataEncoder go" where
  "protobuf_encodeMany [] e = Some e"
| "protobuf_encodeMany (m # ms) e = do { e1 \<leftarrow> ProtobufDataEncoder_Encode m e; protobuf_encodeMany ms e1 }"

fun json_encodeMany :: "bytes list \<Rightarrow> jsonDataEncoder \<Rightarrow> jsonDataEncoder" where
  "json_encodeMany [] e = e"
| "json_encodeMany (m # ms) e = json_encodeMany ms (JSONDataEncoder_Encode m e)"

definition frame :: "bytes \<Rightarrow> bytes" where
  "frame m = uvarint_bytes (of_nat (length m)) @ m"

lemma protobuf_encodeMany_Some:
  assumes "protobuf_encodeMany ms e = Some data"
  shows "data = e @ concat (map frame ms) \<and> (\<forall>m\<in>set ms. length (uvarint_bytes (of_nat (length m))) \<le> 8)"
  using assms
proof (induction ms arbitrary: e)
  case (Cons m ms)
  then have "length (uvarint_bytes (of_nat (length m))) \<le> 8" "protobuf_encodeMany ms (e @ frame m) = Some data"
    by (auto simp: ProtobufDataEncoder_Encode_def PutUvarint_def frame_def Let_def split: bind_splits if_splits)
  then show ?case using Cons.IH[of "e @ frame m"] by simp
qed simp

lemma protobuf_encodeMany_ok:
  assumes "\<forall>m\<in>set ms. length m < 2 ^ 56"
  shows "protobuf_encodeMany ms e = Some (e @ concat (map frame ms))"
  using assms
proof (induction ms arbitrary: e)
  case (Cons m ms)
  have "unat (of_nat (length m) :: uint64) = length m" using Cons.prems by (simp add: unat_of_nat take_bit_nat_eq_self_iff)
  then have "length (uvarint_bytes (of_nat (length m))) \<le> 8" using Cons.prems by (intro uvarint_length_le) simp_all
  then show ?case using Cons by (simp add: ProtobufDataEncoder_Encode_def PutUvarint_def frame_def)
qed simp

lemma Uvarint_frame:
  assumes "length (uvarint_bytes (of_nat (length m))) \<le> 8"
  shows "Uvarint (frame m @ rest) = (of_nat (length m), int (length (uvarint_bytes (of_nat (length m)))))"
  using assms by (simp add: Uvarint_def frame_def Uvarint_loop_bytes)

lemma sint_length: "n < 2 ^ 63 \<Longrightarrow> sint (of_nat n :: uint64) = int n"
  by (simp add: signed_of_nat signed_take_bit_int_eq_self_iff)

text \<open>Calling \<open>Decode\<close> a number of times.\<close>

fun decode_times :: "('d \<Rightarrow> ('c option \<times> io_error option \<times> 'd) go) \<Rightarrow> nat \<Rightarrow> 'd \<Rightarrow> ('c option \<times> io_error option) list go" where
  "decode_times dec 0 d = Some []"
| "decode_times dec (Suc k) d = do { (c, e, d1) \<leftarrow> dec d; rs \<leftarrow> decode_times dec k d1; Some ((c, e) # rs) }"

text \<open>The results that end with the \<open>EOF\<close> that comes along with the last command.\<close>

fun eof_on_last :: "'c option list \<Rightarrow> ('c option \<times> io_error option) list" where
  "eof_on_last [] = []"
| "eof_on_last [c] = [(c, Some EOF)]"
| "eof_on_last (c # d # cs) = (c, None) # eof_on_last (d # cs)"

lemma ProtobufCommandDecoder_Decode_frame:
  assumes "length (uvarint_bytes (of_nat (length m))) \<le> 8" "length (pre @ frame m @ rest) < 2 ^ 63" "parse m = Some c"
  shows "ProtobufCommandDecoder_Decode parse \<lparr>pd_data = pre @ frame m @ rest, pd_offset = length pre\<rparr>
     = Some (Some c, if rest = [] then Some EOF else None,
             \<lparr>pd_data = pre @ frame m @ rest, pd_offset = length (pre @ frame m)\<rparr>)"
proof -
  let ?u = "uvarint_bytes (of_nat (length m))"
  have len: "length m < 2 ^ 63" "int (length pre) + int (length ?u) + int (length m) < 2 ^ 63" using assms(2) by (simp_all add: frame_def)
  have u: "0 < int (length ?u)" using uvarint_nonempty by simp
  have drop: "drop (length pre) (pre @ frame m @ rest) = frame m @ rest" by simp
  have sl: "go_slice (pre @ frame m @ rest) (length pre + length ?u) (length pre + length ?u + length m) = Some m"
    by (simp add: go_slice_def frame_def)
  have nats: "nat (int (length pre) + int (length ?u)) = length pre + length ?u"
    "nat (int (length pre) + int (length ?u) + int (length m)) = length pre + length ?u + length m" by simp_all
  have st: "i64 (int (length pre) + int (length ?u) + sint (of_nat (length m) :: uint64)) = int (length pre) + int (length ?u) + int (length m)"
    using len by (simp add: sint_length i64_id)
  have guard: "length pre < length (pre @ frame m @ rest)" "\<not> int (length ?u) \<le> 0"
    "0 < int (length pre) + int (length ?u) + int (length m)
      \<and> int (length pre) + int (length ?u) + int (length m) \<le> int (length (pre @ frame m @ rest))"
    using u uvarint_nonempty[of "of_nat (length m)"] uvarint_nonempty[of 0] by (simp_all add: frame_def del: of_nat_0_less_iff)
  show ?thesis
    unfolding ProtobufCommandDecoder_Decode_def protobufDecoder.simps drop Uvarint_frame[OF assms(1)] Let_def prod.case st nats sl
      if_P[OF guard(1)] if_not_P[OF guard(2)] if_P[OF guard(3)]
    using assms(3) by (simp add: frame_def)
qed

lemma ProtobufReplyDecoder_Decode_frame:
  assumes "length (uvarint_bytes (of_nat (length m))) \<le> 8" "length (pre @ frame m @ rest) < 2 ^ 63" "parse m = Some c"
  shows "ProtobufReplyDecoder_Decode parse \<lparr>rd_backing = (pre @ frame m @ rest) @ spare, rd_len = length (pre @ frame m @ rest), rd_offset = length pre\<rparr>
     = Some (Some c, None,
             \<lparr>rd_backing = (pre @ frame m @ rest) @ spare, rd_len = length (pre @ frame m @ rest), rd_offset = length (pre @ frame m)\<rparr>)"
proof -
  let ?u = "uvarint_bytes (of_nat (length m))"
  have len: "length m < 2 ^ 63" "int (length pre) + int (length ?u) + int (length m) < 2 ^ 63" using assms(2) by (simp_all add: frame_def)
  have u: "0 < int (length ?u)" using uvarint_nonempty by simp
  have take: "take (length (pre @ frame m @ rest) - length pre) (drop (length pre) ((pre @ frame m @ rest) @ spare)) = frame m @ rest" by simp
  have sl: "go_slice ((pre @ frame m @ rest) @ spare) (length pre + length ?u) (length pre + length ?u + length m) = Some m"
    by (simp add: go_slice_def frame_def)
  have nats: "nat (int (length pre) + int (length ?u)) = length pre + length ?u"
    "nat (int (length pre) + int (length ?u) + int (length m)) = length pre + length ?u + length m" by simp_all
  have st: "i64 (int (length pre) + int (length ?u) + sint (of_nat (length m) :: uint64)) = int (length pre) + int (length ?u) + int (length m)"
    using len by (simp add: sint_length i64_id)
  show ?thesis
    unfolding ProtobufReplyDecoder_Decode_def replyDecoder.simps take Uvarint_frame[OF assms(1)] Let_def prod.case st nats sl
    using assms(3) u by (simp add: frame_def)
qed

lemma decode_times_frames:
  assumes "\<forall>m\<in>set ms. length (uvarint_bytes (of_nat (length m))) \<le> 8 \<and> parse m \<noteq> None"
    and "length (pre @ concat (map frame ms)) < 2 ^ 63"
  shows "decode_times (ProtobufCommandDecoder_Decode parse) (length ms) \<lparr>pd_data = pre @ concat (map frame ms), pd_offset = length pre\<rparr>
       = Some (eof_on_last (map parse ms))
    \<and> decode_times (ProtobufReplyDecoder_Decode parse) (length ms)
         \<lparr>rd_backing = (pre @ concat (map frame ms)) @ spare, rd_len = length (pre @ concat (map frame ms)), rd_offset = length pre\<rparr>
       = Some (map (\<lambda>m. (parse m, None)) ms)"
  using assms
proof (induction ms arbitrary: pre)
  case (Cons m ms)
  obtain c where c: "parse m = Some c" using Cons.prems by auto
  have u: "length (uvarint_bytes (of_nat (length m))) \<le> 8" using Cons.prems by simp
  have data: "pre @ concat (map frame (m # ms)) = pre @ frame m @ concat (map frame ms)"
    "pre @ concat (map frame (m # ms)) = (pre @ frame m) @ concat (map frame ms)" by simp_all
  have len: "length (pre @ frame m @ concat (map frame ms)) < 2 ^ 63" using Cons.prems(2) by simp
  have ms: "\<forall>m\<in>set ms. length (uvarint_bytes (of_nat (length m))) \<le> 8 \<and> parse m \<noteq> None"
    "length ((pre @ frame m) @ concat (map frame ms)) < 2 ^ 63" using Cons.prems by simp_all
  have empty: "concat (map frame ms) = [] \<longleftrightarrow> ms = []" using uvarint_nonempty by (cases ms) (auto simp: frame_def)
  have tag: "eof_on_last (map parse (m # ms)) = (Some c, if ms = [] then Some EOF else None) # eof_on_last (map parse ms)"
    by (cases ms) (simp_all add: c)
  have "decode_times (ProtobufCommandDecoder_Decode parse) (length (m # ms)) \<lparr>pd_data = pre @ concat (map frame (m # ms)), pd_offset = length pre\<rparr>
      = Some (eof_on_last (map parse (m # ms)))"
    using ProtobufCommandDecoder_Decode_frame[of m pre "concat (map frame ms)" parse c, OF u len c] Cons.IH[OF ms] unfolding data(1) tag by (simp add: empty del: concat_eq_Nil_conv)
  moreover have "decode_times (ProtobufReplyDecoder_Decode parse) (length (m # ms))
         \<lparr>rd_backing = (pre @ concat (map frame (m # ms))) @ spare, rd_len = length (pre @ concat (map frame (m # ms))), rd_offset = length pre\<rparr>
       = Some (map (\<lambda>m. (parse m, None)) (m # ms))"
    using ProtobufReplyDecoder_Decode_frame[of m pre "concat (map frame ms)" parse c spare, OF u len c] Cons.IH[OF ms] unfolding data(1) by (simp add: c)
  ultimately show ?case ..
qed simp

text \<open>C24.  Messages framed by the protobuf data encoder come back one by one, in order and complete,
  from the command decoder, which reports the end together with the last one, and from the reply
  decoder, whatever lies behind the data in memory.  Framing succeeds for messages of less than
  \<open>2\<^sup>5\<^sup>6\<close> bytes.\<close>

theorem protobuf_frames_roundtrip:
  assumes "\<forall>m\<in>set ms. length m < 2 ^ 56 \<and> parse m \<noteq> None" "length (concat (map frame ms)) < 2 ^ 63"
  shows "\<exists>data. protobuf_encodeMany ms [] = Some data
     \<and> decode_times (ProtobufCommandDecoder_Decode parse) (length ms) (NewProtobufCommandDecoder data) = Some (eof_on_last (map parse ms))
     \<and> decode_times (ProtobufReplyDecoder_Decode parse) (length ms) (NewProtobufReplyDecoder data spare)
         = Some (map (\<lambda>m. (parse m, None)) ms)"
proof -
  let ?data = "concat (map frame ms)"
  have enc: "protobuf_encodeMany ms [] = Some ?data" using protobuf_encodeMany_ok[of ms "[]"] assms(1) by simp
  have ms: "\<forall>m\<in>set ms. length (uvarint_bytes (of_nat (length m))) \<le> 8 \<and> parse m \<noteq> None"
    using protobuf_encodeMany_Some[OF enc] assms(1) by blast
  have len: "length ([] @ ?data) < 2 ^ 63" using assms(2) by simp
  show ?thesis
    using enc decode_times_frames[OF ms len, of spare]
    by (auto simp: NewProtobufCommandDecoder_def NewProtobufReplyDecoder_def)
qed

lemma uvarint_small: "x < 0x80 \<Longrightarrow> uvarint_bytes x = [ucast x]"
  by (subst uvarint_bytes.simps) (simp add: not_less[symmetric])

theorem protobuf_frames_roundtrip_witness:
  "\<exists>data. protobuf_encodeMany [[1, 2], []] [] = Some data
     \<and> decode_times (ProtobufCommandDecoder_Decode Some) 2 (NewProtobufCommandDecoder data) = Some [(Some [1, 2], None), (Some [], Some EOF)]
     \<and> decode_times (ProtobufReplyDecoder_Decode Some) 2 (NewProtobufReplyDecoder data [9]) = Some [(Some [1, 2], None), (Some [], None)]"
proof -
  let ?ms = "[[1, 2], []] :: bytes list"
  have "\<forall>m\<in>set ?ms. length m < 2 ^ 56 \<and> Some m \<noteq> None" by simp
  moreover have "length (concat (map frame ?ms)) < 2 ^ 63" by (simp add: frame_def uvarint_small)
  ultimately show ?thesis using protobuf_frames_roundtrip[of ?ms Some "[9]"] by (simp add: numeral_2_eq_2)
qed

text \<open>A length of \<open>2\<^sup>6\<^sup>4 - 1\<close> makes the end of the message lie before its start: the check of \<open>Decode\<close>
  only looks at the end, so the slice panics.  The stream decoder takes the same length as negative and
  indexes the pools out of range.\<close>

definition huge_length :: bytes where
  "huge_length = [255, 255, 255, 255, 255, 255, 255, 255, 255, 1]"

lemma Uvarint_huge_length: "Uvarint huge_length = (- 1, 10)" "ReadUvarint huge_length = (Inr (- 1), [])"
  by (simp_all add: Uvarint_def ReadUvarint_def huge_length_def)

lemma ProtobufCommandDecoder_Decode_panics:
  "ProtobufCommandDecoder_Decode parse (NewProtobufCommandDecoder huge_length) = None"
  by (simp add: ProtobufCommandDecoder_Decode_def NewProtobufCommandDecoder_def Uvarint_huge_length i64_def go_slice_def)
    (simp add: huge_length_def)

lemma ProtobufStreamCommandDecoder_Decode_panics:
  assumes "length ps = numPools"
  shows "ProtobufStreamCommandDecoder_Decode parse hit huge_length ps = None"
proof -
  have "nextLogBase2 (of_int (sint (- 1 :: uint64))) = 32"
  proof -
    have "unat (- 2 :: 32 word) = 4294967294" by simp
    then show ?thesis by (simp add: nextLogBase2_def bits_Len.simps)
  qed
  then show ?thesis
    using assms by (simp add: ProtobufStreamCommandDecoder_Decode_def Uvarint_huge_length getByteBuffer_def maxBufferLength_def go_index_def numPools_def)
qed

text \<open>The reply decoder accepts a truncated length as an empty message and does not move on.\<close>

lemma ProtobufReplyDecoder_Decode_stuck:
  assumes "parse [] = Some c"
  shows "ProtobufReplyDecoder_Decode parse (NewProtobufReplyDecoder [128] spare)
     = Some (Some c, None, NewProtobufReplyDecoder [128] spare)"
  using assms by (simp add: ProtobufReplyDecoder_Decode_def NewProtobufReplyDecoder_def Uvarint_def i64_def go_slice_def)

section \<open>Buffers from the pool are large enough\<close>

definition pools_ok :: "pools \<Rightarrow> bool" where
  "pools_ok ps \<longleftrightarrow> length ps = numPools \<and> (\<forall>i<numPools. \<forall>c\<in>set (ps ! i). 2 ^ i \<le> c \<and> c \<le> maxBufferLength)"

lemma bits_Len_upper: "v < 2 ^ bits_Len v"
proof (induction v rule: bits_Len.induct)
  case (1 v)
  show ?case by (subst bits_Len.simps) (use 1 in auto)
qed

lemma bits_Len_le: "v < 2 ^ k \<Longrightarrow> bits_Len v \<le> k"
proof (induction v arbitrary: k rule: bits_Len.induct)
  case (1 v)
  show ?case
  proof (cases "v = 0")
    case False
    then obtain j where "k = Suc j" using 1(2) by (cases k) auto
    then show ?thesis using 1 False by (subst bits_Len.simps) auto
  qed (simp add: bits_Len.simps)
qed

lemma bits_Len_lower: "0 < v \<Longrightarrow> 2 ^ (bits_Len v - 1) \<le> v"
proof (induction v rule: bits_Len.induct)
  case (1 v)
  show ?case
  proof (cases "v div 2 = 0")
    case True
    then have "v = 1" using 1(2) by auto
    then show ?thesis by (simp add: bits_Len.simps)
  next
    case False
    then obtain k where k: "bits_Len (v div 2) = Suc k" by (subst (asm) bits_Len.simps) (simp add: bits_Len.simps[of "v div 2"])
    have "2 ^ k \<le> v div 2" using 1(1) 1(2) False k by auto
    then show ?thesis using 1(2) k by (subst bits_Len.simps) auto
  qed
qed

lemma nextLogBase2_bounds:
  assumes "0 < n" "n \<le> maxBufferLength"
  shows "n \<le> 2 ^ nextLogBase2 (of_nat n)" "nextLogBase2 (of_nat n) < numPools"
    "n \<noteq> 2 ^ nextLogBase2 (of_nat n) \<Longrightarrow> 2 ^ (nextLogBase2 (of_nat n) - 1) \<le> n"
proof -
  have small: "n < 2 ^ 32" using assms(2) by (simp add: maxBufferLength_def)
  have "(of_nat n :: 32 word) - 1 = of_nat (n - 1)" using assms(1) by (simp add: of_nat_diff)
  moreover have "unat (of_nat (n - 1) :: 32 word) = n - 1" using small by (simp only: unat_of_nat) (simp add: take_bit_nat_eq_self_iff)
  ultimately have idx: "nextLogBase2 (of_nat n) = bits_Len (n - 1)" by (simp only: nextLogBase2_def)
  show "n \<le> 2 ^ nextLogBase2 (of_nat n)" using bits_Len_upper[of "n - 1"] idx by simp
  have "bits_Len (n - 1) \<le> 18" by (rule bits_Len_le) (use assms in \<open>simp add: maxBufferLength_def\<close>)
  then show "nextLogBase2 (of_nat n) < numPools" by (simp add: idx numPools_def)
  show "2 ^ (nextLogBase2 (of_nat n) - 1) \<le> n" if "n \<noteq> 2 ^ nextLogBase2 (of_nat n)"
  proof (cases "n = 1")
    case True
    then show ?thesis unfolding idx by (simp add: bits_Len.simps)
  next
    case False
    then show ?thesis using bits_Len_lower[of "n - 1"] assms(1) idx by simp
  qed
qed

lemma prevLogBase2_bounds:
  assumes "0 < n" "n \<le> maxBufferLength"
  shows "2 ^ prevLogBase2 (of_nat n) \<le> n" "prevLogBase2 (of_nat n) < numPools"
proof -
  note b = nextLogBase2_bounds[OF assms]
  let ?k = "nextLogBase2 (of_nat n)"
  have "(of_nat n :: 32 word) = push_bit ?k 1 \<longleftrightarrow> n = 2 ^ ?k"
  proof -
    have "(2 :: nat) ^ ?k \<le> 2 ^ 18" by (rule power_increasing) (use b(2) in \<open>simp_all add: numPools_def\<close>)
    then have "2 ^ ?k < (2 :: nat) ^ 32" by simp
    moreover have "n < 2 ^ 32" using assms(2) by (simp add: maxBufferLength_def)

    ultimately have "(of_nat n :: 32 word) = of_nat (2 ^ ?k) \<longleftrightarrow> n = 2 ^ ?k"
      unfolding word_unat_eq_iff unat_of_nat by (simp add: take_bit_nat_eq_self)
    then show ?thesis by (simp add: push_bit_eq_mult)
  qed
  then show "2 ^ prevLogBase2 (of_nat n) \<le> n" "prevLogBase2 (of_nat n) < numPools"
    using b by (auto simp: prevLogBase2_def Let_def)
qed

lemma putByteBuffer_ok:
  assumes "pools_ok ps"
  shows "\<exists>ps'. putByteBuffer c ps = Some ps' \<and> pools_ok ps'"
proof (cases "c = 0 \<or> c > maxBufferLength")
  case True
  then show ?thesis using assms by (auto simp: putByteBuffer_def)
next
  case False
  then have c: "0 < c" "c \<le> maxBufferLength" by auto
  let ?k = "prevLogBase2 (of_nat c)"
  note b = prevLogBase2_bounds[OF c]
  have "?k < length ps" using assms b(2) by (simp add: pools_ok_def)
  then have "putByteBuffer c ps = Some (ps[?k := c # ps ! ?k])" using False by (simp add: putByteBuffer_def go_index_def Let_def)
  moreover have "pools_ok (ps[?k := c # ps ! ?k])"
    using assms b c by (auto simp: pools_ok_def nth_list_update)
  ultimately show ?thesis by blast
qed

lemma pool_buffer_fits:
  assumes "pools_ok ps" "0 \<le> len"
  shows "\<exists>cap ps1 ps2. getByteBuffer hit len ps = Some (cap, ps1) \<and> len \<le> int cap \<and> pools_ok ps1
     \<and> putByteBuffer cap ps1 = Some ps2 \<and> pools_ok ps2"
proof -
  have "\<exists>cap ps1. getByteBuffer hit len ps = Some (cap, ps1) \<and> len \<le> int cap \<and> pools_ok ps1"
  proof (cases "len = 0 \<or> len > int maxBufferLength")
    case True
    then show ?thesis using assms by (auto simp: getByteBuffer_def)
  next
    case False
    define n where "n = nat len"
    have n: "0 < n" "n \<le> maxBufferLength" "len = int n" using False assms(2) by (auto simp: n_def)
    let ?k = "nextLogBase2 (of_nat n)"
    note b = nextLogBase2_bounds[OF n(1,2)]
    have k: "?k < length ps" using assms(1) b(2) by (simp add: pools_ok_def)
    have run: "getByteBuffer hit len ps = (case ps ! ?k of bb # rest \<Rightarrow> if hit then Some (bb, ps[?k := rest]) else Some (2 ^ ?k, ps)
        | [] \<Rightarrow> Some (2 ^ ?k, ps))"
      using False k n(3) by (simp add: getByteBuffer_def go_index_def Let_def)
    have fit: "len \<le> int (2 ^ ?k)" using b(1) n(3) by (metis of_nat_le_iff)
    show ?thesis
    proof (cases "hit \<and> ps ! ?k \<noteq> []")
      case True
      then obtain bb rest where r: "ps ! ?k = bb # rest" by (cases "ps ! ?k") auto
      have "2 ^ ?k \<le> bb" using assms(1) b(2) r by (auto simp: pools_ok_def)
      then have "len \<le> int bb" using fit by linarith
      moreover have "pools_ok (ps[?k := rest])" using assms(1) r k by (auto simp: pools_ok_def nth_list_update)
      moreover have "getByteBuffer hit len ps = Some (bb, ps[?k := rest])" unfolding run r using True by simp
      ultimately show ?thesis by blast
    next
      case False
      then have "getByteBuffer hit len ps = Some (2 ^ ?k, ps)" unfolding run by (auto split: list.splits)
      then show ?thesis using fit assms(1) by blast
    qed
  qed
  then show ?thesis using putByteBuffer_ok by blast
qed

text \<open>C25.  A buffer of the stream decoder is always large enough: while every buffer that lies in
  pool \<open>i\<close> has a capacity between \<open>2\<^sup>i\<close> and the maximum, a request for a length that is not negative
  finds its pool, gets a buffer of at least that capacity, whether the pool had one or not, and
  giving the buffer back keeps the pools in order.\<close>

theorem buffers_fit:
  assumes "pools_ok ps" "0 \<le> len"
  shows "\<exists>cap ps1 ps2. getByteBuffer hit len ps = Some (cap, ps1) \<and> len \<le> int cap \<and> pools_ok ps1
     \<and> putByteBuffer cap ps1 = Some ps2 \<and> pools_ok ps2"
  using assms by (rule pool_buffer_fits)

theorem buffers_fit_witness:
  "\<exists>cap ps1 ps2. getByteBuffer True 1000 (replicate 19 []) = Some (cap, ps1) \<and> 1000 \<le> int cap \<and> pools_ok ps1
     \<and> putByteBuffer cap ps1 = Some ps2 \<and> pools_ok ps2"
  by (rule buffers_fit) (simp_all add: pools_ok_def numPools_def)

section \<open>Newline-separated messages\<close>

fun json_join :: "bytes list \<Rightarrow> bytes" where
  "json_join [] = []"
| "json_join [m] = m"
| "json_join (m # m' # ms) = m @ newline # json_join (m' # ms)"

lemma json_encodeMany_more:
  "je_count e > 0 \<Longrightarrow> je_buffer (json_encodeMany ms e) = je_buffer e @ concat (map (\<lambda>m. newline # m) ms)"
  by (induction ms arbitrary: e) (simp_all add: JSONDataEncoder_Encode_def Let_def)

lemma json_join_concat: "json_join (m # ms) = m @ concat (map (\<lambda>m. newline # m) ms)"
  by (induction ms arbitrary: m) simp_all

lemma json_encodeMany_join: "JSONDataEncoder_Finish (json_encodeMany ms NewJSONDataEncoder) = json_join ms"
proof (cases ms)
  case (Cons m ms')
  have "je_count (JSONDataEncoder_Encode m NewJSONDataEncoder) > 0" "je_buffer (JSONDataEncoder_Encode m NewJSONDataEncoder) = m"
    by (simp_all add: JSONDataEncoder_Encode_def NewJSONDataEncoder_def)
  then show ?thesis
    unfolding Cons json_join_concat by (simp add: JSONDataEncoder_Finish_def json_encodeMany_more)
qed (simp add: JSONDataEncoder_Finish_def NewJSONDataEncoder_def)

lemma index_newline_append [simp]: "newline \<notin> set m \<Longrightarrow> index_newline (m @ newline # rest) = Some (length m)"
  by (induction m) auto

lemma index_newline_None [simp]: "newline \<notin> set m \<Longrightarrow> index_newline m = None"
  by (induction m) auto

text \<open>Messages that a JSON frame can carry: none contains a newline and the last is not empty.\<close>

definition json_frame_ok :: "bytes list \<Rightarrow> bool" where
  "json_frame_ok ms \<longleftrightarrow> ms \<noteq> [] \<and> (\<forall>m\<in>set ms. newline \<notin> set m) \<and> last ms \<noteq> []"

lemma messageCount_of_join:
  assumes "json_frame_ok ms"
  shows "messageCount_of (json_join ms) = length ms" "json_join ms \<noteq> []"
proof -
  have "last (json_join ms) = last (last ms)" "json_join ms \<noteq> []" "count_list (json_join ms) newline = length ms - 1"
    using assms unfolding json_frame_ok_def
    by (induction ms rule: json_join.induct) (auto simp: count_list_0_iff split: if_splits)
  moreover have "last (last ms) \<noteq> newline" using assms last_in_set by (fastforce simp: json_frame_ok_def)
  ultimately show "messageCount_of (json_join ms) = length ms" "json_join ms \<noteq> []"
    using assms by (simp_all add: messageCount_of_def json_frame_ok_def Let_def)
qed

lemma json_decode_times:
  assumes "json_frame_ok todo" "\<forall>m\<in>set todo. parse m \<noteq> None" "k + length todo \<ge> 2"
  shows "decode_times (JSONCommandDecoder_Decode parse) (length todo)
      \<lparr>jd_data = pre @ json_join todo, jd_messageCount = k + length todo, jd_prevNewLine = length pre, jd_numMessagesRead = k\<rparr>
    = Some (eof_on_last (map parse todo))"
  using assms
proof (induction todo arbitrary: pre k rule: json_join.induct)
  case (2 m)
  then obtain c where "parse m = Some c" by auto
  then show ?case using 2(3) by (simp add: JSONCommandDecoder_Decode_def go_slice_def)
next
  case (3 m m' ms)
  obtain c where c: "parse m = Some c" using 3(3) by auto
  have ok: "json_frame_ok (m' # ms)" "newline \<notin> set m" using 3(2) by (auto simp: json_frame_ok_def)
  let ?pre = "pre @ m @ [newline]"
  have "decode_times (JSONCommandDecoder_Decode parse) (length (m' # ms))
      \<lparr>jd_data = ?pre @ json_join (m' # ms), jd_messageCount = Suc k + length (m' # ms), jd_prevNewLine = length ?pre, jd_numMessagesRead = Suc k\<rparr>
    = Some (eof_on_last (map parse (m' # ms)))"
    by (rule 3(1)[OF ok(1)]) (use 3(3) in auto)
  moreover have "JSONCommandDecoder_Decode parse
      \<lparr>jd_data = pre @ json_join (m # m' # ms), jd_messageCount = k + length (m # m' # ms), jd_prevNewLine = length pre, jd_numMessagesRead = k\<rparr>
    = Some (Some c, None,
      \<lparr>jd_data = ?pre @ json_join (m' # ms), jd_messageCount = Suc k + length (m' # ms), jd_prevNewLine = length ?pre, jd_numMessagesRead = Suc k\<rparr>)"
    using c ok(2) by (simp add: JSONCommandDecoder_Decode_def Let_def)
  ultimately show ?case using c unfolding list.size(4)[of m "m' # ms"] add_Suc_right add_0_right decode_times.simps
    by (simp del: json_join.simps decode_times.simps)
qed (simp add: json_frame_ok_def)

text \<open>C26.  Messages framed by the JSON data encoder come back one by one and in order from the command
  decoder, which reports the end together with the last one, provided that none of them contains a
  newline and the last is not empty.\<close>

theorem json_frames_roundtrip:
  assumes "json_frame_ok ms" "\<forall>m\<in>set ms. parse m \<noteq> None"
  shows "decode_times (JSONCommandDecoder_Decode parse) (length ms)
      (NewJSONCommandDecoder (JSONDataEncoder_Finish (json_encodeMany ms NewJSONDataEncoder))) = Some (eof_on_last (map parse ms))"
proof -
  note count = messageCount_of_join[OF assms(1)]
  show ?thesis
  proof (cases "length ms \<ge> 2")
    case True
    then show ?thesis using json_decode_times[OF assms, of 0 "[]"]
      by (simp add: json_encodeMany_join NewJSONCommandDecoder_def count)
  next
    case False
    then obtain m where m: "ms = [m]" using assms(1) by (cases ms; cases "tl ms") (auto simp: json_frame_ok_def)
    then obtain c where c: "parse m = Some c" using assms(2) by auto
    have "messageCount_of m = 1" using count m by simp
    then have "decode_times (JSONCommandDecoder_Decode parse) 1 (NewJSONCommandDecoder m) = Some [(Some c, Some EOF)]"
      using c by (simp add: NewJSONCommandDecoder_def JSONCommandDecoder_Decode_def)
    moreover have "JSONDataEncoder_Finish (json_encodeMany ms NewJSONDataEncoder) = m" using json_encodeMany_join[of ms] m by simp
    ultimately show ?thesis using c m by simp
  qed
qed

theorem json_frames_roundtrip_witness:
  "decode_times (JSONCommandDecoder_Decode Some) 2
      (NewJSONCommandDecoder (JSONDataEncoder_Finish (json_encodeMany [[1, 2], [3]] NewJSONDataEncoder)))
    = Some [(Some [1, 2], None), (Some [3], Some EOF)]"
proof -
  let ?ms = "[[1, 2], [3]] :: bytes list"
  have "json_frame_ok ?ms" "\<forall>m\<in>set ?ms. Some m \<noteq> None" by (simp_all add: json_frame_ok_def newline_def)
  from json_frames_roundtrip[OF this] show ?thesis by (simp add: numeral_2_eq_2)
qed

section \<open>Streams\<close>

lemma JSONStream_more:
  "newline \<notin> set m \<Longrightarrow> parse (m @ [newline]) = Some c \<Longrightarrow>
     JSONStreamCommandDecoder_Decode parse (m @ newline # rest) = ((Some c, length m + 1, None), rest)"
  by (simp add: JSONStreamCommandDecoder_Decode_def ReadBytes_def)

lemma JSONStream_last:
  "newline \<notin> set m \<Longrightarrow> m \<noteq> [] \<Longrightarrow> parse m = Some c \<Longrightarrow>
     JSONStreamCommandDecoder_Decode parse m = ((Some c, length m, None), [])"
  by (simp add: JSONStreamCommandDecoder_Decode_def ReadBytes_def)

lemma JSONStream_end: "JSONStreamCommandDecoder_Decode parse [] = ((None, 0, Some EOF), [])"
  by (simp add: JSONStreamCommandDecoder_Decode_def ReadBytes_def)

lemma JSONStream_consumes:
  assumes "JSONStreamCommandDecoder_Decode parse r = ((c, k, None), rest)"
  shows "length rest < length r"
proof (cases r)
  case Nil
  then show ?thesis using assms JSONStream_end[of parse] by simp
next
  case (Cons b bs)
  then show ?thesis
    using assms by (auto simp: JSONStreamCommandDecoder_Decode_def ReadBytes_def Let_def split: option.splits if_splits prod.splits)
qed

lemma ReadUvarint_loop_consumes: "ReadUvarint_loop i s x r = (Inr v, rest) \<Longrightarrow> length rest < length r"
  by (induction i s x r rule: ReadUvarint_loop.induct) (auto split: if_splits)

lemma ProtobufStream_consumes:
  assumes "ProtobufStreamCommandDecoder_Decode parse hit r ps = Some ((c, k, None), rest, ps')"
  shows "length rest < length r"
proof -
  obtain v r1 where v: "ReadUvarint r = (Inr v, r1)" "length r1 < length r"
    using assms ReadUvarint_loop_consumes[of 0 0 0 r]
    by (cases "ReadUvarint r"; cases "fst (ReadUvarint r)") (auto simp: ProtobufStreamCommandDecoder_Decode_def ReadUvarint_def)
  have "length rest \<le> length r1"
    using assms v(1) by (auto simp: ProtobufStreamCommandDecoder_Decode_def ReadFull_def split: bind_splits if_splits option.splits)
  then show ?thesis using v(2) by simp
qed

lemma ProtobufStream_frame:
  assumes "length (uvarint_bytes (of_nat (length m))) \<le> 8" "length m < 2 ^ 63" "parse m = Some c" "pools_ok ps"
  shows "\<exists>ps'. ProtobufStreamCommandDecoder_Decode parse hit (frame m @ rest) ps = Some ((Some c, length m + 8, None), rest, ps') \<and> pools_ok ps'"
proof -
  have r: "ReadUvarint (frame m @ rest) = (Inr (of_nat (length m)), m @ rest)"
    using assms(1) by (simp add: ReadUvarint_def frame_def ReadUvarint_loop_bytes)
  have l: "sint (of_nat (length m) :: uint64) = int (length m)" "unat (of_nat (length m) :: uint64) = length m"
    using assms(2) by (simp_all add: sint_length unat_of_nat take_bit_nat_eq_self_iff)
  obtain cap ps1 ps2 where b: "getByteBuffer hit (int (length m)) ps = Some (cap, ps1)" "int (length m) \<le> int cap"
    "putByteBuffer cap ps1 = Some ps2" "pools_ok ps2"
    using pool_buffer_fits[OF assms(4), of "int (length m)" hit] by auto
  have f: "ReadFull (length m) (m @ rest) = (Inr m, rest)" by (cases m) (simp_all add: ReadFull_def)
  show ?thesis using b by (simp add: ProtobufStreamCommandDecoder_Decode_def r l f assms(3))
qed

end
