(* ===== verification/Websocket.thy ===== *)
theory Websocket
  imports Client_Run Framing
begin

text \<open>
  The websocket handler (\<open>server/deliverer/handler_websocket.go\<close>): reading a frame of commands and
  running them, and the transport that writes frames of replies.

  The websocket library is the environment: \<open>write\<close> sends a message on a connection of type \<open>'w\<close>,
  \<open>control\<close> sends the close message and \<open>conn_close\<close> closes the connection.  Waiting for the grace
  channel or its timer has no effect on the state.
\<close>

datatype protoType = TypeJSON | TypeProtobuf

section \<open>Reading a frame\<close>

text \<open>The decoder for the protocol of the transport; \<open>parse\<close> is the parser of a single message.\<close>

definition stream_Decode ::
  "(bytes \<Rightarrow> command option) \<Rightarrow> protoType \<Rightarrow> bool \<Rightarrow> bytes \<Rightarrow> pools \<Rightarrow> ((command option \<times> nat \<times> io_error option) \<times> bytes \<times> pools) go" where
  "stream_Decode parse t hit reader ps =
     (case t of
        TypeJSON \<Rightarrow> (case JSONStreamCommandDecoder_Decode parse reader of (r, rest) \<Rightarrow> Some (r, rest, ps))
      | TypeProtobuf \<Rightarrow> ProtobufStreamCommandDecoder_Decode parse hit reader ps)"

lemma stream_Decode_consumes:
  "stream_Decode parse t hit reader ps = Some ((cmd, sz, None), rest, ps') \<Longrightarrow> length rest < length reader"
  by (cases t) (auto simp: stream_Decode_def split: prod.splits dest: JSONStream_consumes ProtobufStream_consumes)

text \<open>The loop of \<open>HandleReadFrame\<close>; \<open>ou k\<close> are the surroundings of the \<open>k\<close>-th command.\<close>

function read_loop ::
  "'t env \<Rightarrow> 'b broker \<Rightarrow> (bytes \<Rightarrow> command option) \<Rightarrow> protoType \<Rightarrow> bool \<Rightarrow> (nat \<Rightarrow> outside) \<Rightarrow> nat \<Rightarrow> bool \<Rightarrow> bytes \<Rightarrow> pools
     \<Rightarrow> ('b, 'm) node_scheme \<Rightarrow> 't client \<Rightarrow> (bool \<times> ('b, 'm) node_scheme \<times> 't client \<times> pools) go" where
  "read_loop E B parse t hit ou k hadCommands reader ps n c =
     (case stream_Decode parse t hit reader ps of
        None \<Rightarrow> None
      | Some ((cmd, sz, err), rest, ps1) \<Rightarrow>
          (case (case cmd of None \<Rightarrow> Some (True, n, c) | Some cm \<Rightarrow> HandleCommand E B (ou k) cm n c) of
             None \<Rightarrow> None
           | Some (proceed, n1, c1) \<Rightarrow>
               if \<not> proceed then Some (False, n1, c1, ps1)
               else (case err of
                       None \<Rightarrow> read_loop E B parse t hit ou (Suc k) (hadCommands \<or> cmd \<noteq> None) rest ps1 n1 c1
                     | Some e \<Rightarrow>
                         if e = EOF \<and> (hadCommands \<or> cmd \<noteq> None) then Some (True, n1, c1, ps1)
                         else Some (False, n1, client_Disconnect (Some DisconnectBadRequest) c1, ps1))))"
  by pat_completeness auto
termination
  by (relation "measure (\<lambda>(E, B, parse, t, hit, ou, k, had, reader, ps, n, c). length reader)")
    (auto dest: stream_Decode_consumes)

declare read_loop.simps [simp del]

definition HandleReadFrame ::
  "'t env \<Rightarrow> 'b broker \<Rightarrow> (bytes \<Rightarrow> command option) \<Rightarrow> protoType \<Rightarrow> bool \<Rightarrow> (nat \<Rightarrow> outside) \<Rightarrow> bytes \<Rightarrow> pools
     \<Rightarrow> ('b, 'm) node_scheme \<Rightarrow> 't client \<Rightarrow> (bool \<times> ('b, 'm) node_scheme \<times> 't client \<times> pools) go" where
  "HandleReadFrame E B parse t hit ou r ps n c = read_loop E B parse t hit ou 0 False r ps n c"

section \<open>The transport\<close>

record 'w websocketTransport =
  wt_closed :: bool
  wt_proto :: protoType
  wt_conn :: 'w

record 'w conn_lib =
  cl_write :: "bytes \<Rightarrow> 'w \<Rightarrow> write_error option \<times> 'w"
  cl_control :: "disconnect \<Rightarrow> 'w \<Rightarrow> bool \<times> 'w"
  cl_close :: "'w \<Rightarrow> 'w"

definition writeData :: "'w conn_lib \<Rightarrow> bytes \<Rightarrow> 'w websocketTransport \<Rightarrow> write_error option \<times> 'w websocketTransport" where
  "writeData L data t = (case cl_write L data (wt_conn t) of (e, w) \<Rightarrow> (e, t\<lparr>wt_conn := w\<rparr>))"

text \<open>Encoding a message of \<open>2\<^sup>5\<^sup>6\<close> bytes or more would panic; the option is that panic.\<close>

definition websocketTransport_Write ::
  "'w conn_lib \<Rightarrow> bytes \<Rightarrow> 'w websocketTransport \<Rightarrow> (write_error option \<times> 'w websocketTransport) go" where
  "websocketTransport_Write L message t =
     (if wt_closed t then Some (None, t)
      else (case wt_proto t of
              TypeJSON \<Rightarrow> Some (writeData L message t)
            | TypeProtobuf \<Rightarrow> do {
                e \<leftarrow> ProtobufDataEncoder_Encode message [];
                Some (writeData L (ProtobufDataEncoder_Finish e) t)
              }))"

definition websocketTransport_WriteMany ::
  "'w conn_lib \<Rightarrow> bytes list \<Rightarrow> 'w websocketTransport \<Rightarrow> (write_error option \<times> 'w websocketTransport) go" where
  "websocketTransport_WriteMany L messages t =
     (if wt_closed t then Some (None, t)
      else (case wt_proto t of
              TypeJSON \<Rightarrow> Some (writeData L (JSONDataEncoder_Finish (json_encodeMany messages NewJSONDataEncoder)) t)
            | TypeProtobuf \<Rightarrow> do {
                e \<leftarrow> protobuf_encodeMany messages [];
                Some (writeData L (ProtobufDataEncoder_Finish e) t)
              }))"

definition websocketTransport_Close :: "'w conn_lib \<Rightarrow> disconnect \<Rightarrow> 'w websocketTransport \<Rightarrow> 'w websocketTransport" where
  "websocketTransport_Close L disconnect t =
     (if wt_closed t then t
      else
        (let t1 = t\<lparr>wt_closed := True\<rparr>;
             w = (if d_Code disconnect \<noteq> d_Code DisconnectConnectionClosed then snd (cl_control L disconnect (wt_conn t1)) else wt_conn t1)
         in t1\<lparr>wt_conn := cl_close L w\<rparr>))"

section \<open>A frame runs its commands\<close>

text \<open>What reading a frame should do: run the commands in order until one of them ends the
  connection.\<close>

fun run_commands ::
  "'t env \<Rightarrow> 'b broker \<Rightarrow> (nat \<Rightarrow> outside) \<Rightarrow> nat \<Rightarrow> command list \<Rightarrow> ('b, 'm) node_scheme \<Rightarrow> 't client
     \<Rightarrow> (bool \<times> ('b, 'm) node_scheme \<times> 't client) go" where
  "run_commands E B ou k [] n c = Some (True, n, c)"
| "run_commands E B ou k (cmd # cmds) n c = do {
     (proceed, n1, c1) \<leftarrow> HandleCommand E B (ou k) cmd n c;
     if proceed then run_commands E B ou (Suc k) cmds n1 c1 else Some (False, n1, c1)
   }"

abbreviation without_pools :: "(bool \<times> 'n \<times> 'c \<times> pools) go \<Rightarrow> (bool \<times> 'n \<times> 'c) go" where
  "without_pools r \<equiv> map_option (\<lambda>(p, n, c, ps). (p, n, c)) r"

text \<open>One round of the loop that decodes a command.\<close>

lemma read_loop_command:
  assumes "stream_Decode parse t hit reader ps = Some ((Some cmd, sz, None), rest, ps1)"
  shows "without_pools (read_loop E B parse t hit ou k had reader ps n c) = do {
     (proceed, n1, c1) \<leftarrow> HandleCommand E B (ou k) cmd n c;
     if proceed then without_pools (read_loop E B parse t hit ou (Suc k) True rest ps1 n1 c1) else Some (False, n1, c1)
   }"
  using assms by (subst read_loop.simps) (auto split: option.splits)

lemma read_loop_end:
  assumes "stream_Decode parse t hit reader ps = Some ((None, sz, Some EOF), rest, ps1)"
  shows "without_pools (read_loop E B parse t hit ou k True reader ps n c) = Some (True, n, c)"
  using assms by (subst read_loop.simps) simp

lemma read_loop_json:
  fixes n :: "('b, 'm) node_scheme"
  assumes "json_frame_ok ms" "\<forall>m\<in>set ms. parse m \<noteq> None \<and> parse (m @ [newline]) = parse m"
  shows "without_pools (read_loop E B parse TypeJSON hit ou k had (json_join ms) ps n c)
     = run_commands E B ou k (map (\<lambda>m. the (parse m)) ms) n c"
  using assms
proof (induction ms arbitrary: k had n c rule: json_join.induct)
  case (2 m)
  then obtain cmd where cmd: "parse m = Some cmd" by auto
  have "newline \<notin> set m" "m \<noteq> []" using 2(1) by (auto simp: json_frame_ok_def)
  from JSONStream_last[of m parse cmd, OF this cmd]
  have d: "stream_Decode parse TypeJSON hit m ps = Some ((Some cmd, length m, None), [], ps)"
    by (simp add: stream_Decode_def)
  have e: "stream_Decode parse TypeJSON hit [] ps = Some ((None, 0, Some EOF), [], ps)"
    by (simp add: stream_Decode_def JSONStream_end)
  have cmds: "map (\<lambda>m. the (parse m)) [m] = [cmd]" by (simp add: cmd)
  show ?case by (simp only: json_join.simps read_loop_command[OF d] read_loop_end[OF e] cmds run_commands.simps)
next
  case (3 m m' ms)
  obtain cmd where cmd: "parse m = Some cmd" "parse (m @ [newline]) = Some cmd" using 3(3) by auto
  have ok: "json_frame_ok (m' # ms)" "newline \<notin> set m" using 3(2) by (auto simp: json_frame_ok_def)
  have d: "stream_Decode parse TypeJSON hit (json_join (m # m' # ms)) ps = Some ((Some cmd, length m + 1, None), json_join (m' # ms), ps)"
    by (simp add: stream_Decode_def JSONStream_more[of m parse cmd, OF ok(2) cmd(2)])
  have IH: "without_pools (read_loop E B parse TypeJSON hit ou (Suc k) True (json_join (m' # ms)) ps n1 c1)
      = run_commands E B ou (Suc k) (map (\<lambda>m. the (parse m)) (m' # ms)) n1 c1" for n1 :: "('b, 'm) node_scheme" and c1
    by (rule 3(1)[OF ok(1)]) (use 3(3) in auto)
  have cmds: "map (\<lambda>m. the (parse m)) (m # m' # ms) = cmd # map (\<lambda>m. the (parse m)) (m' # ms)" by (simp add: cmd)
  show ?case by (simp only: read_loop_command[OF d] IH cmds run_commands.simps)
qed (simp add: json_frame_ok_def)

lemma read_loop_protobuf:
  fixes n :: "('b, 'm) node_scheme"
  assumes "had \<or> ms \<noteq> []" "\<forall>m\<in>set ms. length m < 2 ^ 56 \<and> parse m \<noteq> None" "pools_ok ps"
  shows "without_pools (read_loop E B parse TypeProtobuf hit ou k had (concat (map frame ms)) ps n c)
     = run_commands E B ou k (map (\<lambda>m. the (parse m)) ms) n c"
  using assms
proof (induction ms arbitrary: k had ps n c)
  case Nil
  have e: "stream_Decode parse TypeProtobuf hit [] ps = Some ((None, 0, Some EOF), [], ps)"
    by (simp add: stream_Decode_def ProtobufStreamCommandDecoder_Decode_def ReadUvarint_def)
  have "had = True" using Nil(1) by simp
  then show ?case by (simp only: list.map concat.simps read_loop_end[OF e] run_commands.simps)
next
  case (Cons m ms)
  obtain cmd where cmd: "parse m = Some cmd" using Cons.prems(2) by auto
  have "protobuf_encodeMany [m] [] = Some (frame m)" using protobuf_encodeMany_ok[of "[m]" "[]"] Cons.prems(2) by simp
  from protobuf_encodeMany_Some[OF this] have u: "length (uvarint_bytes (of_nat (length m))) \<le> 8" by simp
  have l: "length m < 2 ^ 63" using Cons.prems(2) by auto
  obtain ps' where d: "stream_Decode parse TypeProtobuf hit (concat (map frame (m # ms))) ps
      = Some ((Some cmd, length m + 8, None), concat (map frame ms), ps')" "pools_ok ps'"
    using ProtobufStream_frame[of m parse cmd ps, OF u l cmd Cons.prems(3), of hit "concat (map frame ms)"] by (auto simp: stream_Decode_def)
  have IH: "without_pools (read_loop E B parse TypeProtobuf hit ou (Suc k) True (concat (map frame ms)) ps' n1 c1)
      = run_commands E B ou (Suc k) (map (\<lambda>m. the (parse m)) ms) n1 c1" for n1 :: "('b, 'm) node_scheme" and c1
    by (rule Cons.IH) (use Cons.prems(2) d(2) in auto)
  have cmds: "map (\<lambda>m. the (parse m)) (m # ms) = cmd # map (\<lambda>m. the (parse m)) ms" by (simp add: cmd)
  show ?case by (simp only: read_loop_command[OF d(1)] IH cmds run_commands.simps)
qed

text \<open>C27.  Reading a frame always ends, and a frame written by the data encoder runs exactly the
  commands that were encoded, in order, up to the first that ends the connection: for JSON messages
  without a newline when the JSON parser ignores a newline behind a message, for protobuf messages
  whatever the buffer pools hold.  A frame without a command ends in a bad-request disconnect.\<close>

theorem read_frame_runs_commands:
  assumes "json_frame_ok js" "\<forall>m\<in>set js. parseJSON m \<noteq> None \<and> parseJSON (m @ [newline]) = parseJSON m"
    and "ms \<noteq> []" "\<forall>m\<in>set ms. length m < 2 ^ 56 \<and> parseProto m \<noteq> None" "pools_ok ps"
  shows "without_pools (HandleReadFrame E B parseJSON TypeJSON hit ou (JSONDataEncoder_Finish (json_encodeMany js NewJSONDataEncoder)) ps n c)
       = run_commands E B ou 0 (map (\<lambda>m. the (parseJSON m)) js) n c
     \<and> (\<exists>data. protobuf_encodeMany ms [] = Some data \<and>
          without_pools (HandleReadFrame E B parseProto TypeProtobuf hit ou data ps n c)
            = run_commands E B ou 0 (map (\<lambda>m. the (parseProto m)) ms) n c)
     \<and> HandleReadFrame E B parse t hit ou [] ps n c = Some (False, n, client_Disconnect (Some DisconnectBadRequest) c, ps)"
proof (intro conjI)
  show "without_pools (HandleReadFrame E B parseJSON TypeJSON hit ou (JSONDataEncoder_Finish (json_encodeMany js NewJSONDataEncoder)) ps n c)
      = run_commands E B ou 0 (map (\<lambda>m. the (parseJSON m)) js) n c"
    unfolding HandleReadFrame_def json_encodeMany_join by (rule read_loop_json) (use assms in auto)
  have "protobuf_encodeMany ms [] = Some (concat (map frame ms))" using protobuf_encodeMany_ok[of ms "[]"] assms(4) by simp
  moreover have "without_pools (HandleReadFrame E B parseProto TypeProtobuf hit ou (concat (map frame ms)) ps n c)
      = run_commands E B ou 0 (map (\<lambda>m. the (parseProto m)) ms) n c"
    unfolding HandleReadFrame_def by (rule read_loop_protobuf) (use assms in auto)
  ultimately show "\<exists>data. protobuf_encodeMany ms [] = Some data \<and>
      without_pools (HandleReadFrame E B parseProto TypeProtobuf hit ou data ps n c)
        = run_commands E B ou 0 (map (\<lambda>m. the (parseProto m)) ms) n c"
    by blast
  show "HandleReadFrame E B parse t hit ou [] ps n c = Some (False, n, client_Disconnect (Some DisconnectBadRequest) c, ps)"
    unfolding HandleReadFrame_def
    by (subst read_loop.simps, cases t)
      (simp_all add: stream_Decode_def JSONStream_end ProtobufStreamCommandDecoder_Decode_def ReadUvarint_def)
qed

definition read_example_parse :: "bytes \<Rightarrow> command option" where
  "read_example_parse b = (if b = [] then None else Some publish_example_command)"

text \<open>A parser that, as a binary format does, takes a newline behind a message for a part of it.\<close>

definition read_example_exact :: "bytes \<Rightarrow> command option" where
  "read_example_exact b = (if b = [8, 1] then Some publish_example_command else None)"

theorem read_frame_runs_commands_witness:
  "without_pools (HandleReadFrame null_env MemoryBroker read_example_parse TypeJSON False (\<lambda>_. quiet_outside) [1, newline, 2] (replicate numPools [])
       (NewNode ''n'' ''h'' () zero_config) (publish_example_client WriteRole))
     = run_commands null_env MemoryBroker (\<lambda>_. quiet_outside) 0 [publish_example_command, publish_example_command]
         (NewNode ''n'' ''h'' () zero_config) (publish_example_client WriteRole)
   \<and> (\<exists>data. protobuf_encodeMany [[8, 1]] [] = Some data
     \<and> without_pools (HandleReadFrame null_env MemoryBroker read_example_exact TypeProtobuf False (\<lambda>_. quiet_outside) data (replicate numPools [])
       (NewNode ''n'' ''h'' () zero_config) (publish_example_client WriteRole))
     = run_commands null_env MemoryBroker (\<lambda>_. quiet_outside) 0 [publish_example_command]
         (NewNode ''n'' ''h'' () zero_config) (publish_example_client WriteRole))"
proof -
  have ok: "json_frame_ok [[1], [2]]" by (simp add: json_frame_ok_def newline_def)
  have p: "\<forall>m\<in>set [[1], [2 :: byte]]. read_example_parse m \<noteq> None \<and> read_example_parse (m @ [newline]) = read_example_parse m"
    by (simp add: read_example_parse_def)
  have q: "[[8, 1 :: byte]] \<noteq> []" "\<forall>m\<in>set [[8, 1 :: byte]]. length m < 2 ^ 56 \<and> read_example_exact m \<noteq> None"
    by (simp_all add: read_example_exact_def)
  have f: "JSONDataEncoder_Finish (json_encodeMany [[1], [2]] NewJSONDataEncoder) = [1, newline, 2]"
    unfolding json_encodeMany_join by simp
  have ps: "pools_ok (replicate numPools [])" by (simp add: pools_ok_def)
  have cmds: "map (\<lambda>m. the (read_example_parse m)) [[1], [2]] = [publish_example_command, publish_example_command]"
    "map (\<lambda>m. the (read_example_exact m)) [[8, 1]] = [publish_example_command]"
    by (simp_all add: read_example_parse_def read_example_exact_def)
  show ?thesis
    using read_frame_runs_commands[OF ok p q ps, of null_env MemoryBroker False "\<lambda>_. quiet_outside"
        "NewNode ''n'' ''h'' () zero_config" "publish_example_client WriteRole"]
    unfolding f cmds by blast
qed

end
