(* ===== verification/Pubsub_State.thy ===== *)
theory Pubsub_State
  imports Node
begin

text \<open>
  The state of the client library of the daemon (\<open>kairos-local/kairosdeamon/pubsub\<close>): its wire
  types, errors and codes, the \<open>Subscription\<close> and \<open>Client\<close> structs, and the primitives on them.

  A goroutine is a stack of frames.  Go code runs without interruption up to the point where it waits
  for an application handler; what it does afterwards is the next frame.  Timers, spawned goroutines,
  open channels, sent commands and the calls of application handlers are part of the state:
  a pointer to a subscription is an index into \<open>lc_objs\<close>, and \<open>None\<close> is a panic or a wait that never
  ends (\<open>sync.RWMutex\<close> is not reentrant).
\<close>

type_synonym uint32 = "32 word"

section \<open>Codes and errors\<close>

datatype lib_state = StateDisconnected | StateConnecting | StateConnected | StateClosed

datatype sub_state = SubStateUnsubscribed | SubStateSubscribing | SubStateSubscribed

abbreviation (input) disconnectedDisconnectCalled :: uint32 where "disconnectedDisconnectCalled \<equiv> 0"
abbreviation (input) disconnectedUnauthorized :: uint32 where "disconnectedUnauthorized \<equiv> 1"
abbreviation (input) disconnectBadProtocol :: uint32 where "disconnectBadProtocol \<equiv> 2"
abbreviation (input) disconnectMessageSizeLimit :: uint32 where "disconnectMessageSizeLimit \<equiv> 3"
abbreviation (input) connectingConnectCalled :: uint32 where "connectingConnectCalled \<equiv> 0"
abbreviation (input) connectingTransportClosed :: uint32 where "connectingTransportClosed \<equiv> 1"
abbreviation (input) connectingNoPing :: uint32 where "connectingNoPing \<equiv> 2"
abbreviation (input) connectingSubscribeTimeout :: uint32 where "connectingSubscribeTimeout \<equiv> 3"
abbreviation (input) connectingUnsubscribeError :: uint32 where "connectingUnsubscribeError \<equiv> 4"
abbreviation (input) subscribingSubscribeCalled :: uint32 where "subscribingSubscribeCalled \<equiv> 0"
abbreviation (input) subscribingTransportClosed :: uint32 where "subscribingTransportClosed \<equiv> 1"
abbreviation (input) unsubscribedUnsubscribeCalled :: uint32 where "unsubscribedUnsubscribeCalled \<equiv> 0"
abbreviation (input) unsubscribedUnauthorized :: uint32 where "unsubscribedUnauthorized \<equiv> 1"
abbreviation (input) unsubscribedClientClosed :: uint32 where "unsubscribedClientClosed \<equiv> 2"

text \<open>\<open>ErrWrite\<close> is the \<open>io.EOF\<close> that \<open>send\<close> returns, \<open>ErrCtx\<close> the error of a cancelled context,
  \<open>OtherError\<close> an error made elsewhere.\<close>

datatype lib_error =
    ErrTimeout
  | ErrClientDisconnected
  | ErrClientClosed
  | ErrSubscriptionUnsubscribed
  | ErrDuplicateSubscription
  | ErrUnauthorized
  | ErrWrite
  | ErrCtx
  | ServerError uint32 string
  | OtherError string

datatype lib_error_event = RefreshError lib_error | TransportError | ConfigurationError | ConnectError lib_error

datatype sub_error_event = SubscriptionSubscribeError lib_error | SubscriptionRefreshError lib_error

section \<open>Commands and replies\<close>

datatype lib_params =
    ConnectParams string string bytes bool
  | SubscribeParams string string bytes bool
  | UnsubscribeParams string
  | PublishParams string bytes
  | PresenceParams string
  | PresenceStatsParams string
  | SendParams bytes
  | RefreshParams string
  | SubRefreshParams string string

type_synonym lib_command = "uint32 \<times> lib_params"

record libClientInfo =
  li_Client :: string
  li_User :: string
  li_ConnInfo :: bytes
  li_ChanInfo :: bytes

record libPublication =
  lp_Data :: bytes
  lp_Info :: "libClientInfo option"
  lp_Tags :: "(string, string) fmap"

definition lib_infoFromProto :: "protoClientInfo \<Rightarrow> libClientInfo" where
  "lib_infoFromProto v = \<lparr>li_Client = pi_Client v, li_User = pi_User v,
     li_ConnInfo = (if length (pi_ConnInfo v) > 0 then pi_ConnInfo v else []),
     li_ChanInfo = (if length (pi_ChanInfo v) > 0 then pi_ChanInfo v else [])\<rparr>"

definition lib_pubFromProto :: "protoPublication \<Rightarrow> libPublication" where
  "lib_pubFromProto pub = \<lparr>lp_Data = ppb_Data pub, lp_Info = map_option lib_infoFromProto (ppb_Info pub), lp_Tags = ppb_Tags pub\<rparr>"

record sub_result =
  sb_Expires :: bool
  sb_Ttl :: uint32
  sb_Data :: bytes
  sb_Publications :: "protoPublication list"

text \<open>The map \<open>Subs\<close> of a connect result is a list of its entries in the order of the iteration.\<close>

record connect_result =
  cx_Client :: string
  cx_Data :: bytes
  cx_Expires :: bool
  cx_Ttl :: uint32
  cx_Ping :: uint32
  cx_Subs :: "(string \<times> sub_result) list"

record lib_push =
  lu_Channel :: string
  lu_Message :: "bytes option"
  lu_Unsubscribe :: "unsubscribe option"
  lu_Pub :: "protoPublication option"
  lu_Subscribe :: "bytes option"
  lu_Disconnect :: "disconnect option"

record lib_reply =
  lr_Id :: uint32
  lr_Error :: "(uint32 \<times> string) option"
  lr_Push :: "lib_push option"
  lr_Connect :: "connect_result option"
  lr_Subscribe :: "sub_result option"
  lr_Refresh :: "(bool \<times> uint32) option"
  lr_SubRefresh :: "(bool \<times> uint32) option"
  lr_Presence :: "(string, protoClientInfo) fmap option"
  lr_PresenceStats :: "(uint32 \<times> uint32) option"

definition errorFromProto :: "uint32 \<times> string \<Rightarrow> lib_error" where
  "errorFromProto err = ServerError (fst err) (snd err)"

record lib_disconnect =
  ld_Code :: uint32
  ld_Reason :: string
  ld_Reconnect :: bool

text \<open>Whether a code of the server asks for a new connection.\<close>

definition reconnect_code :: "uint32 \<Rightarrow> bool" where
  "reconnect_code code \<longleftrightarrow> code < 3500 \<or> code \<ge> 5000 \<or> (code \<ge> 4000 \<and> code < 4500)"

text \<open>\<open>closeErr\<close> is the code and text of the close frame if the error is one; \<open>unmarshal\<close> is
  \<open>json.Unmarshal\<close>.  1009 is \<open>websocket.CloseMessageTooBig\<close>.\<close>

definition extractDisconnectWebsocket ::
  "(string \<Rightarrow> lib_disconnect option) \<Rightarrow> (uint32 \<times> string) option \<Rightarrow> lib_disconnect option" where
  "extractDisconnectWebsocket unmarshal closeErr =
     (case closeErr of
        None \<Rightarrow> None
      | Some (closeCode, text) \<Rightarrow>
          (case unmarshal text of
             Some d \<Rightarrow> Some d
           | None \<Rightarrow> Some \<lparr>ld_Code = (if closeCode < 3000 then (if closeCode = 1009 then disconnectMessageSizeLimit else connectingTransportClosed)
                                     else closeCode),
                           ld_Reason = text, ld_Reconnect = reconnect_code closeCode\<rparr>))"

section \<open>Events and callbacks\<close>

datatype sub_event =
    SubscribingEvent uint32 string
  | SubscribedEvent bytes
  | UnsubscribedEvent uint32 string
  | SubscriptionErrorEvent sub_error_event
  | PublicationEvent libPublication

datatype lib_event =
    ConnectingEvent uint32 string
  | ConnectedEvent string bytes
  | DisconnectedEvent uint32 string
  | ErrorEvent lib_error_event
  | MessageEvent bytes
  | ServerPublicationEvent string libPublication
  | ServerSubscribedEvent string bytes
  | ServerSubscribingEvent string
  | ServerUnsubscribedEvent string
  | SubEvent nat sub_event

text \<open>Which handlers the application has set.\<close>

record lib_eventHub =
  on_connected :: bool
  on_disconnected :: bool
  on_connecting :: bool
  on_error :: bool
  on_message :: bool
  on_serverSubscribe :: bool
  on_serverSubscribing :: bool
  on_serverUnsubscribed :: bool
  on_serverPublication :: bool

record subscriptionEventHub =
  on_subscribing :: bool
  on_subscribed :: bool
  on_unsubscribe :: bool
  on_subError :: bool
  on_publication :: bool

text \<open>The closures that wait for a connection, for a subscription, or for the reply to a command.  A
  call of the application is identified by a number, under which its result is recorded.\<close>

type_synonym call = nat

datatype connect_fn =
    SendFn call bytes
  | PublishFn call string bytes
  | PresenceFn call string
  | PresenceStatsFn call string

datatype sub_fn =
    SubPublishFn call bytes
  | SubPresenceFn call
  | SubPresenceStatsFn call

datatype callback =
    ConnectCb nat
  | SubscribeCb nat
  | UnsubscribeCb
  | PublishCb call
  | PresenceCb call
  | PresenceStatsCb call
  | RefreshCb
  | SubRefreshCb nat

datatype call_result =
    Failed lib_error
  | Succeeded
  | PresenceResult "(string, libClientInfo) fmap"
  | PresenceStatsResult int int

datatype timer_action = ReconnectTimer | RefreshTimer | ResubscribeTimer nat | SubRefreshTimer nat

text \<open>The frames: what a goroutine does next.\<close>

datatype frame =
    Emit lib_event
  | StartReconnecting
  | ReconnectLater
  | TokenFailed nat
  | MoveToDisconnected uint32 string
  | ConnectFailed nat lib_error
  | ServerSubFrame string sub_result
  | ServerPubsFrame string "protoPublication list"
  | ServerGoneFrame "string list"
  | ConnectDone uint32 nat
  | RemoveRequest uint32
  | HandleDisconnect "lib_disconnect option"
  | Callback callback lib_error
  | AwaitStart uint32
  | Await uint32 "nat option"
  | Reader nat
  | PingWait nat
  | RefreshFailed
  | ConnectFuture uint64
  | SubFuture nat uint64
  | SubFnFrame nat sub_fn "lib_error option"
  | SubErrorFrame nat sub_error_event
  | SubscribeFailed nat lib_error
  | SubRefreshFailed nat lib_error
  | SubPubsFrame nat "protoPublication list"

section \<open>The structs\<close>

record subscription =
  ls_Channel :: string
  ls_state :: sub_state
  ls_events :: subscriptionEventHub
  ls_futureID :: uint64
  ls_subFutures :: "(uint64, sub_fn) fmap"
  ls_data :: bytes
  ls_joinLeave :: bool
  ls_token :: string
  ls_getToken :: bool
  ls_resubscribeAttempts :: nat
  ls_resubscribeTimer :: "nat option"
  ls_refreshTimer :: "nat option"

record subscriptionConfig =
  sc_Data :: bytes
  sc_Token :: string
  sc_GetToken :: bool

record lib_config =
  lg_Token :: string
  lg_GetToken :: bool
  lg_Data :: bytes
  lg_Name :: string
  lg_ReadTimeout :: int
  lg_WriteTimeout :: int
  lg_HandshakeTimeout :: int
  lg_MaxServerPingDelay :: int

record lib =
  lc_futureID :: uint64
  lc_cmdID :: uint32
  lc_endpoints :: "string list"
  lc_round :: nat
  lc_config :: lib_config
  lc_token :: string
  lc_data :: bytes
  lc_transport :: "nat option"
  lc_state :: lib_state
  lc_subs :: "(string, nat) fmap"
  lc_serverSubs :: "string fset"
  lc_requests :: "(uint32, callback) fmap"
  lc_reconnectAttempts :: nat
  lc_events :: lib_eventHub
  lc_delayPing :: nat
  lc_closeCh :: "nat option"
  lc_connectFutures :: "(uint64, connect_fn) fmap"
  lc_CBQueue :: bool
  lc_reconnectTimer :: "nat option"
  lc_refreshTimer :: "nat option"
  lc_refreshRequired :: bool
  lc_objs :: "(nat, subscription) fmap"
  lc_next :: nat
  lc_timers :: "(nat, int \<times> timer_action) fmap"
  lc_threads :: "frame list list"
  lc_closed :: "nat list"
  lc_readersGone :: "nat list"
  lc_sent :: "(nat \<times> lib_command) list"
  lc_log :: "lib_event list"
  lc_results :: "(call \<times> call_result) list"
  lc_ctxDone :: "call list"

text \<open>What the outside decides during one step: the iteration orders of maps, whether dialling and
  writing succeed, the tokens the application returns, the delays of the backoff package, what the
  transport delivers and which of several channels is ready.\<close>

datatype ping_choice = PingReady | PingTimeout | ReaderClosed

record lib_env =
  le_strings :: "string fset \<Rightarrow> string list"
  le_ids32 :: "uint32 fset \<Rightarrow> uint32 list"
  le_ids64 :: "uint64 fset \<Rightarrow> uint64 list"
  le_dial :: "string \<Rightarrow> bool"
  le_write :: "nat \<Rightarrow> lib_command \<Rightarrow> bool"
  le_connToken :: "lib_error + string"
  le_subToken :: "string \<Rightarrow> lib_error + string"
  le_delay :: "nat \<Rightarrow> int"
  le_read :: "lib_disconnect option + lib_reply"
  le_timeout :: bool
  le_ping :: ping_choice

definition env_ok :: "lib_env \<Rightarrow> bool" where
  "env_ok e \<longleftrightarrow> (\<forall>A. set (le_strings e A) = fset A \<and> distinct (le_strings e A))
     \<and> (\<forall>A. set (le_ids32 e A) = fset A \<and> distinct (le_ids32 e A))
     \<and> (\<forall>A. set (le_ids64 e A) = fset A \<and> distinct (le_ids64 e A))"

section \<open>Primitives\<close>

text \<open>Runs a loop body for the elements of a list.\<close>

primrec iter :: "('x \<Rightarrow> 's \<Rightarrow> 's go) \<Rightarrow> 'x list \<Rightarrow> 's \<Rightarrow> 's go" where
  "iter f [] s = Some s"
| "iter f (x # xs) s = do { s1 \<leftarrow> f x s; iter f xs s1 }"

definition spawn :: "frame list \<Rightarrow> lib \<Rightarrow> lib" where
  "spawn frs c = c\<lparr>lc_threads := lc_threads c @ [frs]\<rparr>"

text \<open>Pushing handler calls on the callback queue; after \<open>Close\<close> the queue is nil.\<close>

definition runHandler :: "bool \<Rightarrow> lib_event list \<Rightarrow> lib \<Rightarrow> lib go" where
  "runHandler registered evs c =
     (if \<not> registered then Some c
      else if lc_CBQueue c then Some (c\<lparr>lc_log := lc_log c @ evs\<rparr>) else None)"

definition afterFunc :: "int \<Rightarrow> timer_action \<Rightarrow> lib \<Rightarrow> nat \<times> lib" where
  "afterFunc d act c = (lc_next c, c\<lparr>lc_timers := fmupd (lc_next c) (d, act) (lc_timers c), lc_next := Suc (lc_next c)\<rparr>)"

definition stopTimer :: "nat option \<Rightarrow> lib \<Rightarrow> lib" where
  "stopTimer t c = (case t of None \<Rightarrow> c | Some i \<Rightarrow> c\<lparr>lc_timers := fmdrop i (lc_timers c)\<rparr>)"

definition closeTransport :: "nat \<Rightarrow> lib \<Rightarrow> lib" where
  "closeTransport t c = c\<lparr>lc_closed := lc_closed c @ [t]\<rparr>"

definition put_sub :: "nat \<Rightarrow> subscription \<Rightarrow> lib \<Rightarrow> lib" where
  "put_sub r s c = c\<lparr>lc_objs := fmupd r s (lc_objs c)\<rparr>"

definition result :: "call \<Rightarrow> call_result \<Rightarrow> lib \<Rightarrow> lib" where
  "result k res c = c\<lparr>lc_results := lc_results c @ [(k, res)]\<rparr>"

definition ctxDone :: "call \<Rightarrow> lib \<Rightarrow> bool" where
  "ctxDone k c \<longleftrightarrow> k \<in> set (lc_ctxDone c)"

end
