(* ===== verification/Pubsub.thy ===== *)
theory Pubsub
  imports Pubsub_State Go_Strings
begin

text \<open>
  The operations of the client library (\<open>pubsub/client.go\<close>, \<open>pubsub/subscription.go\<close>), in the order in
  which they call each other, and the steps of the library as a whole.
\<close>

section \<open>Sending commands\<close>

definition lib_send :: "lib_env \<Rightarrow> lib_command \<Rightarrow> lib \<Rightarrow> lib_error option \<times> lib" where
  "lib_send e cmd c =
     (case lc_transport c of
        None \<Rightarrow> (Some ErrClientDisconnected, c)
      | Some t \<Rightarrow>
          if le_write e t cmd then (None, c\<lparr>lc_sent := lc_sent c @ [(t, cmd)]\<rparr>)
          else (Some ErrWrite,
                spawn [HandleDisconnect (Some \<lparr>ld_Code = connectingTransportClosed, ld_Reason = ''write error'', ld_Reconnect = True\<rparr>)] c))"

definition addRequest :: "uint32 \<Rightarrow> callback \<Rightarrow> lib \<Rightarrow> lib" where
  "addRequest i cb c = c\<lparr>lc_requests := fmupd i cb (lc_requests c)\<rparr>"

definition removeRequest :: "uint32 \<Rightarrow> lib \<Rightarrow> lib" where
  "removeRequest i c = c\<lparr>lc_requests := fmdrop i (lc_requests c)\<rparr>"

definition sendAsync :: "lib_env \<Rightarrow> lib_command \<Rightarrow> callback \<Rightarrow> lib \<Rightarrow> lib_error option \<times> lib" where
  "sendAsync e cmd cb c =
     (case lib_send e cmd (addRequest (fst cmd) cb c) of
        (Some err, c1) \<Rightarrow> (Some err, c1)
      | (None, c1) \<Rightarrow> (None, spawn [AwaitStart (fst cmd)] c1))"

definition nextCmdID :: "lib \<Rightarrow> uint32 \<times> lib" where
  "nextCmdID c = (lc_cmdID c + 1, c\<lparr>lc_cmdID := lc_cmdID c + 1\<rparr>)"

text \<open>A new command with the next id, sent with a callback.\<close>

definition sendCommand :: "lib_env \<Rightarrow> lib_params \<Rightarrow> callback \<Rightarrow> lib \<Rightarrow> lib_error option \<times> lib" where
  "sendCommand e params cb c = (case nextCmdID c of (i, c1) \<Rightarrow> sendAsync e (i, params) cb c1)"

definition sendSubRefresh :: "lib_env \<Rightarrow> string \<Rightarrow> string \<Rightarrow> nat \<Rightarrow> lib \<Rightarrow> lib" where
  "sendSubRefresh e channel token r c = snd (sendCommand e (SubRefreshParams channel token) (SubRefreshCb r) c)"

definition sendConnect :: "lib_env \<Rightarrow> nat \<Rightarrow> lib \<Rightarrow> lib_error option \<times> lib" where
  "sendConnect e t c =
     sendCommand e (ConnectParams (lc_token c) (lg_Name (lc_config c)) (lc_data c) (lc_serverSubs c \<noteq> {||})) (ConnectCb t) c"

definition sendSubscribe ::
  "lib_env \<Rightarrow> string \<Rightarrow> bytes \<Rightarrow> string \<Rightarrow> bool \<Rightarrow> nat \<Rightarrow> lib \<Rightarrow> lib_error option \<times> lib" where
  "sendSubscribe e channel data token joinLeave r c =
     sendCommand e (SubscribeParams channel token data joinLeave) (SubscribeCb r) c"

definition sendPublish :: "lib_env \<Rightarrow> string \<Rightarrow> bytes \<Rightarrow> call \<Rightarrow> lib \<Rightarrow> lib" where
  "sendPublish e channel data k c =
     (case sendCommand e (PublishParams channel data) (PublishCb k) c of
        (None, c1) \<Rightarrow> c1 | (Some err, c1) \<Rightarrow> result k (Failed err) c1)"

definition sendPresence :: "lib_env \<Rightarrow> string \<Rightarrow> call \<Rightarrow> lib \<Rightarrow> lib" where
  "sendPresence e channel k c =
     (case sendCommand e (PresenceParams channel) (PresenceCb k) c of
        (None, c1) \<Rightarrow> c1 | (Some err, c1) \<Rightarrow> result k (Failed err) c1)"

definition sendPresenceStats :: "lib_env \<Rightarrow> string \<Rightarrow> call \<Rightarrow> lib \<Rightarrow> lib" where
  "sendPresenceStats e channel k c =
     (case sendCommand e (PresenceStatsParams channel) (PresenceStatsCb k) c of
        (None, c1) \<Rightarrow> c1 | (Some err, c1) \<Rightarrow> result k (Failed err) c1)"

text \<open>A failed unsubscribe ends in a reconnect.\<close>

definition unsubscribe_failed :: "lib \<Rightarrow> lib" where
  "unsubscribe_failed =
     spawn [HandleDisconnect (Some \<lparr>ld_Code = connectingUnsubscribeError, ld_Reason = ''unsubscribe error'', ld_Reconnect = True\<rparr>)]"

definition lib_sendUnsubscribe :: "lib_env \<Rightarrow> string \<Rightarrow> lib \<Rightarrow> lib" where
  "lib_sendUnsubscribe e channel c =
     (case sendCommand e (UnsubscribeParams channel) UnsubscribeCb c of
        (None, c1) \<Rightarrow> c1 | (Some err, c1) \<Rightarrow> unsubscribe_failed c1)"

definition lib_unsubscribe :: "lib_env \<Rightarrow> string \<Rightarrow> lib \<Rightarrow> lib" where
  "lib_unsubscribe e channel c =
     (if channel |\<notin>| fmdom (lc_subs c) then c
      else if lc_state c \<noteq> StateConnected then c
      else lib_sendUnsubscribe e channel c)"

section \<open>Waiting for the connection or the subscription\<close>

definition connect_fn_call :: "lib_env \<Rightarrow> connect_fn \<Rightarrow> lib_error option \<Rightarrow> lib \<Rightarrow> lib" where
  "connect_fn_call e f err c =
     (case f of
        SendFn k data \<Rightarrow>
          (case err of
             Some er \<Rightarrow> result k (Failed er) c
           | None \<Rightarrow>
               if ctxDone k c then result k (Failed ErrCtx) c
               else (case lib_send e (0, SendParams data) c of
                       (None, c1) \<Rightarrow> result k Succeeded c1
                     | (Some er, c1) \<Rightarrow> result k (Failed er) c1))
      | PublishFn k channel data \<Rightarrow>
          (case err of Some er \<Rightarrow> result k (Failed er) c | None \<Rightarrow> sendPublish e channel data k c)
      | PresenceFn k channel \<Rightarrow>
          if ctxDone k c then result k (Failed ErrCtx) c
          else (case err of Some er \<Rightarrow> result k (Failed er) c | None \<Rightarrow> sendPresence e channel k c)
      | PresenceStatsFn k channel \<Rightarrow>
          if ctxDone k c then result k (Failed ErrCtx) c
          else (case err of Some er \<Rightarrow> result k (Failed er) c | None \<Rightarrow> sendPresenceStats e channel k c))"

definition onConnect :: "lib_env \<Rightarrow> connect_fn \<Rightarrow> lib \<Rightarrow> lib" where
  "onConnect e f c =
     (if lc_state c = StateConnected then connect_fn_call e f None c
      else if lc_state c = StateDisconnected then connect_fn_call e f (Some ErrClientDisconnected) c
      else
        (let i = lc_futureID c + 1
         in spawn [ConnectFuture i] (c\<lparr>lc_futureID := i, lc_connectFutures := fmupd i f (lc_connectFutures c)\<rparr>)))"

definition lib_publish :: "lib_env \<Rightarrow> string \<Rightarrow> bytes \<Rightarrow> call \<Rightarrow> lib \<Rightarrow> lib" where
  "lib_publish e channel data k c = onConnect e (PublishFn k channel data) c"

definition lib_presence :: "lib_env \<Rightarrow> string \<Rightarrow> call \<Rightarrow> lib \<Rightarrow> lib" where
  "lib_presence e channel k c = onConnect e (PresenceFn k channel) c"

definition lib_presenceStats :: "lib_env \<Rightarrow> string \<Rightarrow> call \<Rightarrow> lib \<Rightarrow> lib" where
  "lib_presenceStats e channel k c = onConnect e (PresenceStatsFn k channel) c"

definition resolveConnectFutures :: "lib_env \<Rightarrow> lib_error option \<Rightarrow> lib \<Rightarrow> lib" where
  "resolveConnectFutures e err c =
     (fold (\<lambda>i c1. case fmlookup (lc_connectFutures c) i of None \<Rightarrow> c1 | Some f \<Rightarrow> connect_fn_call e f err c1)
        (le_ids64 e (fmdom (lc_connectFutures c))) c)\<lparr>lc_connectFutures := fmempty\<rparr>"

definition sub_fn_call :: "lib_env \<Rightarrow> string \<Rightarrow> sub_fn \<Rightarrow> lib_error option \<Rightarrow> lib \<Rightarrow> lib" where
  "sub_fn_call e channel f err c =
     (case f of
        SubPublishFn k data \<Rightarrow>
          (case err of Some er \<Rightarrow> result k (Failed er) c | None \<Rightarrow> lib_publish e channel data k c)
      | SubPresenceFn k \<Rightarrow>
          if ctxDone k c then result k (Failed ErrCtx) c
          else (case err of Some er \<Rightarrow> result k (Failed er) c | None \<Rightarrow> lib_presence e channel k c)
      | SubPresenceStatsFn k \<Rightarrow>
          if ctxDone k c then result k (Failed ErrCtx) c
          else (case err of Some er \<Rightarrow> result k (Failed er) c | None \<Rightarrow> lib_presenceStats e channel k c))"

definition onSubscribe :: "nat \<Rightarrow> sub_fn \<Rightarrow> lib \<Rightarrow> lib go" where
  "onSubscribe r f c = do {
     s \<leftarrow> fmlookup (lc_objs c) r;
     Some (if ls_state s = SubStateSubscribed then spawn [SubFnFrame r f None] c
           else if ls_state s = SubStateUnsubscribed then spawn [SubFnFrame r f (Some ErrSubscriptionUnsubscribed)] c
           else
             (let i = ls_futureID s + 1
              in spawn [SubFuture r i] (put_sub r (s\<lparr>ls_futureID := i, ls_subFutures := fmupd i f (ls_subFutures s)\<rparr>) c)))
   }"

definition resolveSubFutures :: "lib_env \<Rightarrow> nat \<Rightarrow> lib_error option \<Rightarrow> lib \<Rightarrow> lib go" where
  "resolveSubFutures e r err c = do {
     s \<leftarrow> fmlookup (lc_objs c) r;
     let c1 = fold (\<lambda>i c1. case fmlookup (ls_subFutures s) i of None \<Rightarrow> c1 | Some f \<Rightarrow> sub_fn_call e (ls_Channel s) f err c1)
                (le_ids64 e (fmdom (ls_subFutures s))) c;
     Some (put_sub r (s\<lparr>ls_subFutures := fmempty\<rparr>) c1)
   }"

section \<open>Moving a subscription\<close>

definition sub_stopTimers :: "subscription \<Rightarrow> lib \<Rightarrow> lib" where
  "sub_stopTimers s c = stopTimer (ls_refreshTimer s) (stopTimer (ls_resubscribeTimer s) c)"

definition sub_moveToUnsubscribed :: "nat \<Rightarrow> uint32 \<Rightarrow> string \<Rightarrow> lib \<Rightarrow> lib go" where
  "sub_moveToUnsubscribed r code reason c = do {
     s \<leftarrow> fmlookup (lc_objs c) r;
     let c1 = put_sub r (s\<lparr>ls_resubscribeAttempts := 0, ls_state := SubStateUnsubscribed\<rparr>) (sub_stopTimers s c);
     if ls_state s \<noteq> SubStateUnsubscribed
     then runHandler (on_unsubscribe (ls_events s)) [SubEvent r (UnsubscribedEvent code reason)] c1
     else Some c1
   }"

definition sub_moveToSubscribing :: "nat \<Rightarrow> uint32 \<Rightarrow> string \<Rightarrow> lib \<Rightarrow> lib go" where
  "sub_moveToSubscribing r code reason c = do {
     s \<leftarrow> fmlookup (lc_objs c) r;
     let c1 = put_sub r (s\<lparr>ls_resubscribeAttempts := 0, ls_state := SubStateSubscribing\<rparr>) (sub_stopTimers s c);
     if ls_state s \<noteq> SubStateSubscribing
     then runHandler (on_subscribing (ls_events s)) [SubEvent r (SubscribingEvent code reason)] c1
     else Some c1
   }"

definition scheduleResubscribe :: "lib_env \<Rightarrow> nat \<Rightarrow> lib \<Rightarrow> lib go" where
  "scheduleResubscribe e r c = do {
     s \<leftarrow> fmlookup (lc_objs c) r;
     let (i, c1) = afterFunc (le_delay e (ls_resubscribeAttempts s)) (ResubscribeTimer r) c;
     Some (put_sub r (s\<lparr>ls_resubscribeAttempts := ls_resubscribeAttempts s + 1, ls_resubscribeTimer := Some i\<rparr>) c1)
   }"

definition scheduleSubRefresh :: "nat \<Rightarrow> uint32 \<Rightarrow> lib \<Rightarrow> lib go" where
  "scheduleSubRefresh r ttl c = do {
     s \<leftarrow> fmlookup (lc_objs c) r;
     if ls_state s \<noteq> SubStateSubscribed then Some c
     else
       (case afterFunc (int (unat ttl) * Second) (SubRefreshTimer r) c of
          (i, c1) \<Rightarrow> Some (put_sub r (s\<lparr>ls_refreshTimer := Some i\<rparr>) c1))
   }"

definition sub_emitError :: "nat \<Rightarrow> sub_error_event \<Rightarrow> lib \<Rightarrow> lib go" where
  "sub_emitError r err c = do {
     s \<leftarrow> fmlookup (lc_objs c) r;
     runHandler (on_subError (ls_events s)) [SubEvent r (SubscriptionErrorEvent err)] c
   }"

definition sub_unsubscribe :: "lib_env \<Rightarrow> nat \<Rightarrow> uint32 \<Rightarrow> string \<Rightarrow> bool \<Rightarrow> lib \<Rightarrow> lib go" where
  "sub_unsubscribe e r code reason sendUnsubscribe c = do {
     s \<leftarrow> fmlookup (lc_objs c) r;
     c1 \<leftarrow> sub_moveToUnsubscribed r code reason c;
     Some (if sendUnsubscribe then lib_unsubscribe e (ls_Channel s) c1 else c1)
   }"

definition moveToSubscribed :: "lib_env \<Rightarrow> nat \<Rightarrow> sub_result option \<Rightarrow> lib \<Rightarrow> (frame list \<times> lib) go" where
  "moveToSubscribed e r res c = do {
     s \<leftarrow> fmlookup (lc_objs c) r;
     if ls_state s \<noteq> SubStateSubscribing then Some ([], c)
     else do {
       res \<leftarrow> res;
       c1 \<leftarrow> (let c0 = put_sub r (s\<lparr>ls_state := SubStateSubscribed\<rparr>) c
              in if sb_Expires res then scheduleSubRefresh r (sb_Ttl res) c0 else Some c0);
       s1 \<leftarrow> fmlookup (lc_objs c1) r;
       c2 \<leftarrow> resolveSubFutures e r None (stopTimer (ls_resubscribeTimer s1) (put_sub r (s1\<lparr>ls_resubscribeAttempts := 0\<rparr>) c1));
       c3 \<leftarrow> runHandler (on_subscribed (ls_events s)) [SubEvent r (SubscribedEvent (sb_Data res))] c2;
       Some (if sb_Publications res = [] then [] else [SubPubsFrame r (sb_Publications res)], c3)
     }
   }"

text \<open>The handler call that delivers the publications of a subscribe result: it stops when the
  subscription has left the state.\<close>

definition sub_pubs_frame :: "nat \<Rightarrow> protoPublication list \<Rightarrow> lib \<Rightarrow> (frame list \<times> lib) go" where
  "sub_pubs_frame r pubs c =
     (case pubs of
        [] \<Rightarrow> Some ([], c)
      | pub # rest \<Rightarrow> do {
          s \<leftarrow> fmlookup (lc_objs c) r;
          if ls_state s \<noteq> SubStateSubscribed then Some ([], c)
          else do {
            c1 \<leftarrow> runHandler (on_publication (ls_events s)) [SubEvent r (PublicationEvent (lib_pubFromProto pub))] c;
            Some ([SubPubsFrame r rest], c1)
          }
        })"

definition sub_handlePublication :: "nat \<Rightarrow> protoPublication \<Rightarrow> lib \<Rightarrow> lib go" where
  "sub_handlePublication r pub c = do {
     s \<leftarrow> fmlookup (lc_objs c) r;
     if ls_state s \<noteq> SubStateSubscribed then Some c
     else runHandler (on_publication (ls_events s)) [SubEvent r (PublicationEvent (lib_pubFromProto pub))] c
   }"

section \<open>Subscribing\<close>

definition subscribeError :: "nat \<Rightarrow> lib_error \<Rightarrow> lib \<Rightarrow> (frame list \<times> lib) go" where
  "subscribeError r err c = do {
     s \<leftarrow> fmlookup (lc_objs c) r;
     Some (if ls_state s \<noteq> SubStateSubscribing then ([], c)
           else if err = ErrTimeout
           then ([], spawn [HandleDisconnect (Some \<lparr>ld_Code = connectingSubscribeTimeout, ld_Reason = ''subscribe timeout'',
                     ld_Reconnect = True\<rparr>)] c)
           else ([SubErrorFrame r (SubscriptionSubscribeError err), SubscribeFailed r err], c))
   }"

text \<open>\<open>subscribeError\<close> after the error handler has returned.\<close>

definition subscribe_failed :: "lib_env \<Rightarrow> nat \<Rightarrow> lib_error \<Rightarrow> lib \<Rightarrow> lib go" where
  "subscribe_failed e r err c =
     (case err of
        ServerError code message \<Rightarrow>
          if code = 109 then do {
            s \<leftarrow> fmlookup (lc_objs c) r;
            scheduleResubscribe e r (put_sub r (s\<lparr>ls_token := ''''\<rparr>) c)
          }
          else do {
            c1 \<leftarrow> resolveSubFutures e r (Some err) c;
            sub_unsubscribe e r code message False c1
          }
      | _ \<Rightarrow> scheduleResubscribe e r c)"

definition getSubscriptionToken :: "lib_env \<Rightarrow> subscription \<Rightarrow> lib_error + string" where
  "getSubscriptionToken e s =
     (if ls_getToken s then le_subToken e (ls_Channel s)
      else Inl (OtherError ''GetToken must be set to get subscription token''))"

definition resubscribe_send :: "lib_env \<Rightarrow> nat \<Rightarrow> string \<Rightarrow> lib \<Rightarrow> lib go" where
  "resubscribe_send e r token c = do {
     s \<leftarrow> fmlookup (lc_objs c) r;
     if ls_state s \<noteq> SubStateSubscribing then Some c
     else (case sendSubscribe e (ls_Channel s) (ls_data s) token (ls_joinLeave s) r c of
             (None, c1) \<Rightarrow> Some c1
           | (Some err, c1) \<Rightarrow> scheduleResubscribe e r c1)
   }"

definition sub_resubscribe :: "lib_env \<Rightarrow> nat \<Rightarrow> lib \<Rightarrow> (frame list \<times> lib) go" where
  "sub_resubscribe e r c = do {
     s \<leftarrow> fmlookup (lc_objs c) r;
     if ls_state s \<noteq> SubStateSubscribing then Some ([], c)
     else if ls_token s = '''' \<and> ls_getToken s then
       (case getSubscriptionToken e s of
          Inl err \<Rightarrow>
            if err = ErrUnauthorized
            then map_option (Pair []) (sub_unsubscribe e r unsubscribedUnauthorized ''unauthorized'' False c)
            else subscribeError r err c
        | Inr token \<Rightarrow>
            if token = ''''
            then map_option (Pair []) (sub_unsubscribe e r unsubscribedUnauthorized ''unauthorized'' False c)
            else map_option (Pair []) (resubscribe_send e r token (put_sub r (s\<lparr>ls_token := token\<rparr>) c)))
     else map_option (Pair []) (resubscribe_send e r (ls_token s) c)
   }"

definition handleUnsubscribe_push :: "lib_env \<Rightarrow> nat \<Rightarrow> unsubscribe \<Rightarrow> lib \<Rightarrow> (frame list \<times> lib) go" where
  "handleUnsubscribe_push e r u c =
     (if u_Code u < 2500 then map_option (Pair []) (sub_moveToUnsubscribed r (u_Code u) (u_Reason u) c)
      else do {
        c1 \<leftarrow> sub_moveToSubscribing r (u_Code u) (u_Reason u) c;
        sub_resubscribe e r c1
      })"

text \<open>A resubscription while the mutex of the client is held: an error handler would have to wait for
  that mutex.\<close>

definition sub_resubscribe_locked :: "lib_env \<Rightarrow> nat \<Rightarrow> lib \<Rightarrow> lib go" where
  "sub_resubscribe_locked e r c = do {
     (frs, c1) \<leftarrow> sub_resubscribe e r c;
     (case frs of
        [SubErrorFrame r' err, SubscribeFailed r'' err'] \<Rightarrow> do {
          s \<leftarrow> fmlookup (lc_objs c1) r;
          if on_subError (ls_events s) then None else subscribe_failed e r err' c1
        }
      | _ \<Rightarrow> Some c1)
   }"

definition lib_resubscribe :: "lib_env \<Rightarrow> lib \<Rightarrow> lib go" where
  "lib_resubscribe e c =
     iter (\<lambda>ch c1. case fmlookup (lc_subs c) ch of None \<Rightarrow> Some c1 | Some r \<Rightarrow> sub_resubscribe_locked e r c1)
       (le_strings e (fmdom (lc_subs c))) c"

section \<open>Moving the client\<close>

definition clearConnectedState :: "lib_env \<Rightarrow> lib \<Rightarrow> lib" where
  "clearConnectedState e c =
     (let c1 = (stopTimer (lc_reconnectTimer c) c)\<lparr>lc_reconnectTimer := None\<rparr>;
          c2 = (stopTimer (lc_refreshTimer c1) c1)\<lparr>lc_refreshTimer := None\<rparr>;
          c3 = (case lc_closeCh c2 of None \<Rightarrow> c2 | Some k \<Rightarrow> c2\<lparr>lc_closed := lc_closed c2 @ [k], lc_closeCh := None\<rparr>);
          reqs = lc_requests c3
      in fold (\<lambda>i c4. case fmlookup reqs i of None \<Rightarrow> c4 | Some cb \<Rightarrow> spawn [Callback cb ErrClientDisconnected] c4)
           (le_ids32 e (fmdom reqs)) (c3\<lparr>lc_requests := fmempty\<rparr>))"

text \<open>The subscriptions of the client that are not unsubscribed, in the order of the iteration.\<close>

definition subs_to_move :: "lib_env \<Rightarrow> lib \<Rightarrow> nat list" where
  "subs_to_move e c =
     filter (\<lambda>r. case fmlookup (lc_objs c) r of None \<Rightarrow> False | Some s \<Rightarrow> ls_state s \<noteq> SubStateUnsubscribed)
       (map (\<lambda>ch. the (fmlookup (lc_subs c) ch)) (le_strings e (fmdom (lc_subs c))))"

definition dropTransport :: "lib \<Rightarrow> lib" where
  "dropTransport c = (case lc_transport c of None \<Rightarrow> c | Some t \<Rightarrow> (closeTransport t c)\<lparr>lc_transport := None\<rparr>)"

definition moveToDisconnected :: "lib_env \<Rightarrow> uint32 \<Rightarrow> string \<Rightarrow> lib \<Rightarrow> lib go" where
  "moveToDisconnected e code reason c =
     (if lc_state c = StateDisconnected \<or> lc_state c = StateClosed then Some c
      else do {
        let c1 = resolveConnectFutures e (Some ErrClientDisconnected)
                   (clearConnectedState e ((dropTransport c)\<lparr>lc_state := StateDisconnected\<rparr>));
        let serverSubsToUnsubscribe = le_strings e (lc_serverSubs c1);
        c2 \<leftarrow> iter (\<lambda>r. sub_moveToSubscribing r subscribingTransportClosed ''transport closed'') (subs_to_move e c1) c1;
        c3 \<leftarrow> runHandler (lc_state c = StateConnected \<and> on_serverSubscribing (lc_events c))
                (map ServerSubscribingEvent serverSubsToUnsubscribe) c2;
        runHandler (on_disconnected (lc_events c)) [DisconnectedEvent code reason] c3
      })"

text \<open>The scheduling of the next attempt to connect, which the source repeats in every error path.\<close>

definition scheduleReconnect :: "lib_env \<Rightarrow> lib \<Rightarrow> lib" where
  "scheduleReconnect e c =
     (let c1 = c\<lparr>lc_reconnectAttempts := lc_reconnectAttempts c + 1\<rparr>
      in case afterFunc (le_delay e (lc_reconnectAttempts c1)) ReconnectTimer c1 of
           (i, c2) \<Rightarrow> c2\<lparr>lc_reconnectTimer := Some i\<rparr>)"

text \<open>\<open>moveToConnecting\<close> up to the first wait for a handler, with what follows as frames.\<close>

definition moveToConnecting :: "lib_env \<Rightarrow> uint32 \<Rightarrow> string \<Rightarrow> lib \<Rightarrow> (frame list \<times> lib) go" where
  "moveToConnecting e code reason c =
     (if lc_state c = StateDisconnected \<or> lc_state c = StateClosed \<or> lc_state c = StateConnecting then Some ([], c)
      else do {
        let c1 = resolveConnectFutures e (Some ErrClientDisconnected)
                   (clearConnectedState e ((dropTransport c)\<lparr>lc_state := StateConnecting\<rparr>));
        let serverSubsToUnsubscribe = le_strings e (lc_serverSubs c1);
        c2 \<leftarrow> iter (\<lambda>r. sub_moveToSubscribing r subscribingTransportClosed ''transport closed'') (subs_to_move e c1) c1;
        c3 \<leftarrow> runHandler (on_serverSubscribing (lc_events c)) (map ServerSubscribingEvent serverSubsToUnsubscribe) c2;
        Some ([Emit (ConnectingEvent code reason), ReconnectLater], c3)
      })"

definition moveToClosed :: "lib_env \<Rightarrow> lib \<Rightarrow> lib go" where
  "moveToClosed e c =
     (if lc_state c = StateClosed then Some c
      else do {
        let c1 = c\<lparr>lc_state := StateClosed\<rparr>;
        c2 \<leftarrow> iter (\<lambda>r. sub_moveToUnsubscribed r unsubscribedClientClosed ''client closed'') (subs_to_move e c1) c1;
        c3 \<leftarrow> runHandler (on_serverUnsubscribed (lc_events c)) (map ServerUnsubscribedEvent (le_strings e (lc_serverSubs c1))) c2;
        if lc_CBQueue c3 then Some (c3\<lparr>lc_CBQueue := False\<rparr>) else None
      })"

definition handleDisconnect :: "lib_env \<Rightarrow> lib_disconnect option \<Rightarrow> lib \<Rightarrow> (frame list \<times> lib) go" where
  "handleDisconnect e d c =
     (let d1 = (case d of None \<Rightarrow> \<lparr>ld_Code = connectingTransportClosed, ld_Reason = ''transport closed'', ld_Reconnect = True\<rparr> | Some d \<Rightarrow> d)
      in if ld_Reconnect d1 then moveToConnecting e (ld_Code d1) (ld_Reason d1) c
         else map_option (Pair []) (moveToDisconnected e (ld_Code d1) (ld_Reason d1) c))"

text \<open>The handler call of an event of the client.\<close>

definition emit :: "lib_event \<Rightarrow> lib \<Rightarrow> lib go" where
  "emit ev c =
     runHandler
       (case ev of
          ConnectingEvent _ _ \<Rightarrow> on_connecting (lc_events c)
        | ConnectedEvent _ _ \<Rightarrow> on_connected (lc_events c)
        | DisconnectedEvent _ _ \<Rightarrow> on_disconnected (lc_events c)
        | ErrorEvent _ \<Rightarrow> on_error (lc_events c)
        | MessageEvent _ \<Rightarrow> on_message (lc_events c)
        | ServerPublicationEvent _ _ \<Rightarrow> on_serverPublication (lc_events c)
        | ServerSubscribedEvent _ _ \<Rightarrow> on_serverSubscribe (lc_events c)
        | ServerSubscribingEvent _ \<Rightarrow> on_serverSubscribing (lc_events c)
        | ServerUnsubscribedEvent _ \<Rightarrow> on_serverUnsubscribed (lc_events c)
        | SubEvent _ _ \<Rightarrow> False) [ev] c"

section \<open>Connecting\<close>

text \<open>The last part of \<open>startReconnecting\<close>: the connect command goes out while the mutex is held, so an
  error handler for a failed write waits for the mutex for ever.\<close>

definition start_transport :: "lib_env \<Rightarrow> nat \<Rightarrow> lib \<Rightarrow> lib go" where
  "start_transport e t c =
     (if lc_state c \<noteq> StateConnecting then Some (closeTransport t c)
      else
        (case sendConnect e t (spawn [Reader t] (c\<lparr>lc_refreshRequired := False, lc_transport := Some t\<rparr>)) of
           (None, c1) \<Rightarrow> Some c1
         | (Some err, c1) \<Rightarrow> if on_error (lc_events c1) then None else Some (scheduleReconnect e (closeTransport t c1))))"

definition startReconnecting :: "lib_env \<Rightarrow> lib \<Rightarrow> (frame list \<times> lib) go" where
  "startReconnecting e c =
     (let round = lc_round c + 1; c1 = c\<lparr>lc_round := round\<rparr>
      in if lc_state c1 \<noteq> StateConnecting then Some ([], c1)
      else do {
        k \<leftarrow> go_mod round (length (lc_endpoints c1));
        u \<leftarrow> go_index (lc_endpoints c1) k;
        if \<not> le_dial e u then Some ([Emit (ErrorEvent TransportError), ReconnectLater], c1)
        else
          (let t = lc_next c1; c2 = c1\<lparr>lc_next := Suc t\<rparr>
           in if lc_refreshRequired c2 \<or> (lc_token c2 = '''' \<and> lg_GetToken (lc_config c2)) then
                if \<not> lg_GetToken (lc_config c2)
                then Some ([Emit (ErrorEvent ConfigurationError), MoveToDisconnected disconnectedUnauthorized ''unauthorized''], c2)
                else
                  (case le_connToken e of
                     Inl err \<Rightarrow>
                       if err = ErrUnauthorized
                       then map_option (Pair []) (moveToDisconnected e disconnectedUnauthorized ''unauthorized'' c2)
                       else Some ([Emit (ErrorEvent (RefreshError err)), TokenFailed t], c2)
                   | Inr newToken \<Rightarrow>
                       map_option (Pair []) (start_transport e t (c2\<lparr>lc_token := newToken\<rparr>)))
              else map_option (Pair []) (start_transport e t c2))
      })"

definition startConnecting :: "lib \<Rightarrow> lib_error option \<times> frame list \<times> lib" where
  "startConnecting c =
     (if lc_state c = StateClosed then (Some ErrClientClosed, [], c)
      else if lc_state c = StateConnected \<or> lc_state c = StateConnecting then (None, [], c)
      else
        (let c1 = (case lc_closeCh c of None \<Rightarrow> c\<lparr>lc_closeCh := Some (lc_next c), lc_next := Suc (lc_next c)\<rparr> | Some _ \<Rightarrow> c)
         in (None, [Emit (ConnectingEvent connectingConnectCalled ''connect called''), StartReconnecting],
             c1\<lparr>lc_state := StateConnecting\<rparr>)))"

text \<open>The callback of the connect command, up to its first wait.\<close>

definition connect_cb :: "lib_env \<Rightarrow> nat \<Rightarrow> lib_error + connect_result option \<Rightarrow> lib \<Rightarrow> (frame list \<times> lib) go" where
  "connect_cb e t res c =
     (if lc_state c \<noteq> StateConnecting then Some ([], c)
      else (case res of
              Inl err \<Rightarrow> Some ([Emit (ErrorEvent (ConnectError err)), ConnectFailed t err], c)
            | Inr None \<Rightarrow> None
            | Inr (Some res) \<Rightarrow>
                (let c1 = c\<lparr>lc_state := StateConnected\<rparr>;
                     c2 = (if cx_Expires res
                           then (case afterFunc (int (unat (cx_Ttl res)) * Second) RefreshTimer c1 of (i, c2) \<Rightarrow> c2\<lparr>lc_refreshTimer := Some i\<rparr>)
                           else c1);
                     c3 = resolveConnectFutures e None c2
                 in Some ([Emit (ConnectedEvent (cx_Client res) (cx_Data res))]
                          @ map (\<lambda>(channel, subRes). ServerSubFrame channel subRes) (cx_Subs res)
                          @ [ServerGoneFrame (map fst (cx_Subs res)), ConnectDone (cx_Ping res) t], c3))))"

text \<open>The error branches of the connect callback after the error handler has returned.\<close>

definition connect_failed :: "lib_env \<Rightarrow> nat \<Rightarrow> lib_error \<Rightarrow> lib \<Rightarrow> lib go" where
  "connect_failed e t err c =
     (let c1 = closeTransport t c
      in case err of
           ServerError code message \<Rightarrow>
             if code = 109 then
               Some (if lc_state c1 \<noteq> StateConnecting then c1 else scheduleReconnect e (c1\<lparr>lc_refreshRequired := True\<rparr>))
             else moveToDisconnected e code message c1
         | _ \<Rightarrow> Some (if lc_state c1 \<noteq> StateConnecting then c1 else scheduleReconnect e c1))"

text \<open>The server-side subscriptions of a connect result.\<close>

definition server_sub_frame :: "string \<Rightarrow> sub_result \<Rightarrow> lib \<Rightarrow> (frame list \<times> lib) go" where
  "server_sub_frame channel subRes c = do {
     c1 \<leftarrow> emit (ServerSubscribedEvent channel (sb_Data subRes)) (c\<lparr>lc_serverSubs := finsert channel (lc_serverSubs c)\<rparr>);
     Some ([ServerPubsFrame channel (sb_Publications subRes)], c1)
   }"

definition server_pubs_frame :: "string \<Rightarrow> protoPublication list \<Rightarrow> lib \<Rightarrow> lib go" where
  "server_pubs_frame channel pubs c =
     (if on_serverPublication (lc_events c)
      then runHandler True (map (\<lambda>pub. ServerPublicationEvent channel (lib_pubFromProto pub)) pubs)
             (if pubs = [] then c else c\<lparr>lc_serverSubs := finsert channel (lc_serverSubs c)\<rparr>)
      else Some c)"

definition server_gone_frame :: "lib_env \<Rightarrow> string list \<Rightarrow> lib \<Rightarrow> lib go" where
  "server_gone_frame e subs c =
     iter (\<lambda>ch c1. if ch \<in> set subs then Some c1
                   else runHandler (on_serverSubscribing (lc_events c1) \<and> on_serverUnsubscribed (lc_events c1))
                          [ServerUnsubscribedEvent ch] c1)
       (le_strings e (lc_serverSubs c)) c"

definition connect_done :: "lib_env \<Rightarrow> uint32 \<Rightarrow> nat \<Rightarrow> lib \<Rightarrow> lib go" where
  "connect_done e ping t c =
     (let c1 = c\<lparr>lc_reconnectAttempts := 0\<rparr>
      in if lc_state c1 \<noteq> StateConnected then Some c1
         else lib_resubscribe e (if ping > 0 then spawn [PingWait t] c1 else c1))"

section \<open>Refreshing the token\<close>

definition handleRefreshError :: "lib \<Rightarrow> lib" where
  "handleRefreshError c =
     (if lc_state c \<noteq> StateConnected then c
      else (case afterFunc (10 * Second) RefreshTimer c of (i, c1) \<Rightarrow> c1\<lparr>lc_refreshTimer := Some i\<rparr>))"

definition sendRefresh :: "lib_env \<Rightarrow> lib \<Rightarrow> (frame list \<times> lib) go" where
  "sendRefresh e c =
     (if \<not> lg_GetToken (lc_config c)
      then Some ([Emit (ErrorEvent ConfigurationError), MoveToDisconnected disconnectedUnauthorized ''unauthorized''], c)
      else (case le_connToken e of
              Inl err \<Rightarrow>
                if err = ErrUnauthorized
                then map_option (Pair []) (moveToDisconnected e disconnectedUnauthorized ''unauthorized'' c)
                else Some ([Emit (ErrorEvent (RefreshError err)), RefreshFailed], c)
            | Inr token \<Rightarrow> Some ([], snd (sendCommand e (RefreshParams token) RefreshCb (c\<lparr>lc_token := token\<rparr>)))))"

definition refresh_cb :: "lib_env \<Rightarrow> lib_error + lib_reply \<Rightarrow> lib \<Rightarrow> (frame list \<times> lib) go" where
  "refresh_cb e r c =
     (case r of
        Inl err \<Rightarrow> Some ([Emit (ErrorEvent (RefreshError err)), RefreshFailed], c)
      | Inr r \<Rightarrow>
          (case lr_Error r of
             Some er \<Rightarrow>
               if lc_state c \<noteq> StateConnected then Some ([], c)
               else map_option (Pair []) (moveToDisconnected e (fst er) (snd er) c)
           | None \<Rightarrow> do {
               (expires, ttl) \<leftarrow> lr_Refresh r;
               Some ([], if expires \<and> lc_state c = StateConnected
                         then (case afterFunc (int (unat ttl) * Second) RefreshTimer c of (i, c1) \<Rightarrow> c1\<lparr>lc_refreshTimer := Some i\<rparr>)
                         else c)
             }))"

text \<open>The refresh timer of a subscription, and the callback of its refresh command; the error handler
  runs before the rest.\<close>

definition sub_refresh_timer :: "lib_env \<Rightarrow> nat \<Rightarrow> lib \<Rightarrow> lib go" where
  "sub_refresh_timer e r c = do {
     s \<leftarrow> fmlookup (lc_objs c) r;
     if ls_state s \<noteq> SubStateSubscribed then Some c
     else (case getSubscriptionToken e s of
             Inl err \<Rightarrow>
               if err = ErrUnauthorized then sub_unsubscribe e r unsubscribedUnauthorized ''unauthorized'' True c
               else do {
                 c1 \<leftarrow> sub_emitError r (SubscriptionRefreshError err) c;
                 scheduleSubRefresh r 10 c1
               }
           | Inr token \<Rightarrow>
               if token = '''' then sub_unsubscribe e r unsubscribedUnauthorized ''unauthorized'' True c
               else Some (sendSubRefresh e (ls_Channel s) token r c))
   }"

definition sub_refresh_failed :: "lib_env \<Rightarrow> nat \<Rightarrow> lib_error \<Rightarrow> lib \<Rightarrow> lib go" where
  "sub_refresh_failed e r err c =
     (case err of
        ServerError code message \<Rightarrow> sub_unsubscribe e r code message True c
      | _ \<Rightarrow> scheduleSubRefresh r 10 c)"

definition sub_refresh_cb :: "nat \<Rightarrow> lib_error + (bool \<times> uint32) option \<Rightarrow> lib \<Rightarrow> (frame list \<times> lib) go" where
  "sub_refresh_cb r res c =
     (case res of
        Inl err \<Rightarrow> Some ([SubErrorFrame r (SubscriptionSubscribeError err), SubRefreshFailed r err], c)
      | Inr None \<Rightarrow> None
      | Inr (Some (expires, ttl)) \<Rightarrow>
          if expires then map_option (Pair []) (scheduleSubRefresh r ttl c) else Some ([], c))"

section \<open>Replies\<close>

text \<open>What a closure around a reply passes on: an error, or one of the results of the reply.\<close>

definition reply_result :: "(lib_reply \<Rightarrow> 'a) \<Rightarrow> lib_error + lib_reply \<Rightarrow> lib_error + 'a" where
  "reply_result sel r =
     (case r of
        Inl err \<Rightarrow> Inl err
      | Inr r \<Rightarrow> (case lr_Error r of Some er \<Rightarrow> Inl (errorFromProto er) | None \<Rightarrow> Inr (sel r)))"

definition run_callback :: "lib_env \<Rightarrow> callback \<Rightarrow> lib_error + lib_reply \<Rightarrow> lib \<Rightarrow> (frame list \<times> lib) go" where
  "run_callback e cb r c =
     (case cb of
        ConnectCb t \<Rightarrow> connect_cb e t (reply_result lr_Connect r) c
      | SubscribeCb s \<Rightarrow>
          (case reply_result lr_Subscribe r of Inl err \<Rightarrow> subscribeError s err c | Inr res \<Rightarrow> moveToSubscribed e s res c)
      | UnsubscribeCb \<Rightarrow>
          Some ([], case reply_result (\<lambda>_. ()) r of Inl err \<Rightarrow> unsubscribe_failed c | Inr _ \<Rightarrow> c)
      | PublishCb k \<Rightarrow>
          Some ([], case reply_result (\<lambda>_. ()) r of Inl err \<Rightarrow> result k (Failed err) c | Inr _ \<Rightarrow> result k Succeeded c)
      | PresenceCb k \<Rightarrow>
          (case reply_result lr_Presence r of
             Inl err \<Rightarrow> Some ([], result k (Failed err) c)
           | Inr res \<Rightarrow> do { p \<leftarrow> res; Some ([], result k (PresenceResult (fmmap lib_infoFromProto p)) c) })
      | PresenceStatsCb k \<Rightarrow>
          (case reply_result lr_PresenceStats r of
             Inl err \<Rightarrow> Some ([], result k (Failed err) c)
           | Inr res \<Rightarrow> do { (clients, users) \<leftarrow> res; Some ([], result k (PresenceStatsResult (uint clients) (uint users)) c) })
      | RefreshCb \<Rightarrow> refresh_cb e r c
      | SubRefreshCb s \<Rightarrow> sub_refresh_cb s (reply_result lr_SubRefresh r) c)"

definition handleServerSub :: "string \<Rightarrow> bytes \<Rightarrow> lib \<Rightarrow> lib go" where
  "handleServerSub channel data c =
     (if channel |\<in>| lc_serverSubs c then Some c
      else emit (ServerSubscribedEvent channel data) (c\<lparr>lc_serverSubs := finsert channel (lc_serverSubs c)\<rparr>))"

definition handleServerUnsub :: "string \<Rightarrow> lib \<Rightarrow> lib go" where
  "handleServerUnsub channel c =
     (if channel |\<notin>| lc_serverSubs c then Some c
      else emit (ServerUnsubscribedEvent channel) (c\<lparr>lc_serverSubs := lc_serverSubs c |-| {|channel|}\<rparr>))"

definition handlePush :: "lib_env \<Rightarrow> lib_push \<Rightarrow> lib \<Rightarrow> (frame list \<times> lib) go" where
  "handlePush e push c =
     (let channel = lu_Channel push; sub = fmlookup (lc_subs c) channel
      in case lu_Message push of
           Some msg \<Rightarrow> map_option (Pair []) (emit (MessageEvent msg) c)
         | None \<Rightarrow>
      (case lu_Unsubscribe push of
           Some u \<Rightarrow> (case sub of None \<Rightarrow> map_option (Pair []) (handleServerUnsub channel c)
                               | Some r \<Rightarrow> handleUnsubscribe_push e r u c)
         | None \<Rightarrow>
      (case lu_Pub push of
           Some pub \<Rightarrow>
             map_option (Pair []) (case sub of None \<Rightarrow> emit (ServerPublicationEvent channel (lib_pubFromProto pub)) c
                                            | Some r \<Rightarrow> sub_handlePublication r pub c)
         | None \<Rightarrow>
      (case lu_Subscribe push of
           Some data \<Rightarrow> (case sub of Some _ \<Rightarrow> Some ([], c) | None \<Rightarrow> map_option (Pair []) (handleServerSub channel data c))
         | None \<Rightarrow>
      (case lu_Disconnect push of
           Some d \<Rightarrow>
             if reconnect_code (d_Code d) then moveToConnecting e (d_Code d) (d_Reason d) c
             else map_option (Pair []) (moveToDisconnected e (d_Code d) (d_Reason d) c)
         | None \<Rightarrow> Some ([], c))))))"

text \<open>\<open>handle\<close>: a ping fills the channel \<open>delayPing\<close>, which holds 32.\<close>

definition handle :: "lib_env \<Rightarrow> lib_reply \<Rightarrow> lib \<Rightarrow> (frame list \<times> lib) go" where
  "handle e reply c =
     (if lr_Id reply > 0 then
        (case fmlookup (lc_requests c) (lr_Id reply) of
           None \<Rightarrow> Some ([], removeRequest (lr_Id reply) c)
         | Some cb \<Rightarrow> do {
             (frs, c1) \<leftarrow> run_callback e cb (Inr reply) c;
             Some (frs @ [RemoveRequest (lr_Id reply)], c1)
           })
      else
        (case lr_Push reply of
           None \<Rightarrow> if lc_delayPing c < 32 then Some ([], c\<lparr>lc_delayPing := lc_delayPing c + 1\<rparr>) else None
         | Some push \<Rightarrow> if lc_state c \<noteq> StateConnected then Some ([], c) else handlePush e push c))"

section \<open>Goroutines\<close>

text \<open>\<open>reader\<close> and \<open>readOnce\<close>, \<open>waitServerPing\<close>, and the goroutine of \<open>sendAsync\<close>.\<close>

definition read_once :: "lib_env \<Rightarrow> nat \<Rightarrow> lib \<Rightarrow> (frame list \<times> lib) go" where
  "read_once e t c =
     (case le_read e of
        Inl d \<Rightarrow> Some ([], (spawn [HandleDisconnect d] c)\<lparr>lc_readersGone := lc_readersGone c @ [t]\<rparr>)
      | Inr reply \<Rightarrow> do { (frs, c1) \<leftarrow> handle e reply c; Some (frs @ [Reader t], c1) })"

definition ping_wait :: "lib_env \<Rightarrow> nat \<Rightarrow> lib \<Rightarrow> frame list \<times> lib" where
  "ping_wait e t c =
     (case le_ping e of
        PingReady \<Rightarrow> if lc_delayPing c > 0 then ([PingWait t], c\<lparr>lc_delayPing := lc_delayPing c - 1\<rparr>) else ([PingWait t], c)
      | PingTimeout \<Rightarrow>
          ([PingWait t], spawn [HandleDisconnect (Some \<lparr>ld_Code = connectingNoPing, ld_Reason = ''no ping'', ld_Reconnect = True\<rparr>)] c)
      | ReaderClosed \<Rightarrow> if t \<in> set (lc_readersGone c) then ([], c) else ([PingWait t], c))"

definition await_reply :: "lib_env \<Rightarrow> uint32 \<Rightarrow> nat option \<Rightarrow> lib \<Rightarrow> (frame list \<times> lib) go" where
  "await_reply e i closeCh c =
     (let answer = (\<lambda>err. case fmlookup (lc_requests c) i of
                            None \<Rightarrow> Some ([RemoveRequest i], c)
                          | Some cb \<Rightarrow> do { (frs, c1) \<leftarrow> run_callback e cb (Inl err) c; Some (frs @ [RemoveRequest i], c1) })
      in if le_timeout e then answer ErrTimeout
         else (case closeCh of
                 Some k \<Rightarrow> if k \<in> set (lc_closed c) then answer ErrClientDisconnected else Some ([Await i closeCh], c)
               | None \<Rightarrow> Some ([Await i closeCh], c)))"

text \<open>The goroutines that time out a waiting closure.\<close>

definition connect_future :: "lib_env \<Rightarrow> uint64 \<Rightarrow> lib \<Rightarrow> lib" where
  "connect_future e i c =
     (case fmlookup (lc_connectFutures c) i of
        None \<Rightarrow> c
      | Some f \<Rightarrow> connect_fn_call e f (Some ErrTimeout) (c\<lparr>lc_connectFutures := fmdrop i (lc_connectFutures c)\<rparr>))"

definition sub_future :: "lib_env \<Rightarrow> nat \<Rightarrow> uint64 \<Rightarrow> lib \<Rightarrow> lib go" where
  "sub_future e r i c = do {
     s \<leftarrow> fmlookup (lc_objs c) r;
     Some (case fmlookup (ls_subFutures s) i of
             None \<Rightarrow> c
           | Some f \<Rightarrow> sub_fn_call e (ls_Channel s) f (Some ErrTimeout) (put_sub r (s\<lparr>ls_subFutures := fmdrop i (ls_subFutures s)\<rparr>) c))
   }"

text \<open>One frame of a goroutine: the frames that come before the rest of its stack, and the new state.\<close>

fun exec :: "lib_env \<Rightarrow> frame \<Rightarrow> lib \<Rightarrow> (frame list \<times> lib) go" where
  "exec e (Emit ev) c = map_option (Pair []) (emit ev c)"
| "exec e StartReconnecting c = startReconnecting e c"
| "exec e ReconnectLater c = Some ([], if lc_state c \<noteq> StateConnecting then c else scheduleReconnect e c)"
| "exec e (TokenFailed t) c = Some ([], if lc_state c \<noteq> StateConnecting then closeTransport t c else scheduleReconnect e c)"
| "exec e (MoveToDisconnected code reason) c = map_option (Pair []) (moveToDisconnected e code reason c)"
| "exec e (ConnectFailed t err) c = map_option (Pair []) (connect_failed e t err c)"
| "exec e (ServerSubFrame channel subRes) c = server_sub_frame channel subRes c"
| "exec e (ServerPubsFrame channel pubs) c = map_option (Pair []) (server_pubs_frame channel pubs c)"
| "exec e (ServerGoneFrame subs) c = map_option (Pair []) (server_gone_frame e subs c)"
| "exec e (ConnectDone ping t) c = map_option (Pair []) (connect_done e ping t c)"
| "exec e (RemoveRequest i) c = Some ([], removeRequest i c)"
| "exec e (HandleDisconnect d) c = handleDisconnect e d c"
| "exec e (Callback cb err) c = run_callback e cb (Inl err) c"
| "exec e (AwaitStart i) c = Some ([Await i (lc_closeCh c)], c)"
| "exec e (Await i closeCh) c = await_reply e i closeCh c"
| "exec e (Reader t) c = read_once e t c"
| "exec e (PingWait t) c = Some (ping_wait e t c)"
| "exec e RefreshFailed c = Some ([], handleRefreshError c)"
| "exec e (ConnectFuture i) c = Some ([], connect_future e i c)"
| "exec e (SubFuture r i) c = map_option (Pair []) (sub_future e r i c)"
| "exec e (SubFnFrame r f err) c = do { s \<leftarrow> fmlookup (lc_objs c) r; Some ([], sub_fn_call e (ls_Channel s) f err c) }"
| "exec e (SubErrorFrame r err) c = map_option (Pair []) (sub_emitError r err c)"
| "exec e (SubscribeFailed r err) c = map_option (Pair []) (subscribe_failed e r err c)"
| "exec e (SubRefreshFailed r err) c = map_option (Pair []) (sub_refresh_failed e r err c)"
| "exec e (SubPubsFrame r pubs) c = sub_pubs_frame r pubs c"

definition fire :: "lib_env \<Rightarrow> timer_action \<Rightarrow> lib \<Rightarrow> (frame list \<times> lib) go" where
  "fire e act c =
     (case act of
        ReconnectTimer \<Rightarrow> startReconnecting e c
      | RefreshTimer \<Rightarrow> sendRefresh e c
      | ResubscribeTimer r \<Rightarrow> do {
          s \<leftarrow> fmlookup (lc_objs c) r;
          if ls_state s \<noteq> SubStateSubscribing then Some ([], c) else sub_resubscribe e r c
        }
      | SubRefreshTimer r \<Rightarrow> map_option (Pair []) (sub_refresh_timer e r c))"

section \<open>The interface of the library\<close>

definition newSubscription :: "string \<Rightarrow> subscriptionEventHub \<Rightarrow> subscriptionConfig option \<Rightarrow> subscription" where
  "newSubscription channel h config =
     \<lparr>ls_Channel = channel, ls_state = SubStateUnsubscribed, ls_events = h, ls_futureID = 0, ls_subFutures = fmempty,
      ls_data = (case config of None \<Rightarrow> [] | Some cfg \<Rightarrow> sc_Data cfg), ls_joinLeave = False,
      ls_token = (case config of None \<Rightarrow> '''' | Some cfg \<Rightarrow> sc_Token cfg),
      ls_getToken = (case config of None \<Rightarrow> False | Some cfg \<Rightarrow> sc_GetToken cfg),
      ls_resubscribeAttempts = 0, ls_resubscribeTimer = None, ls_refreshTimer = None\<rparr>"

definition lib_NewSubscription ::
  "string \<Rightarrow> subscriptionEventHub \<Rightarrow> subscriptionConfig option \<Rightarrow> lib \<Rightarrow> (lib_error + nat) \<times> lib" where
  "lib_NewSubscription channel h config c =
     (if channel |\<in>| fmdom (lc_subs c) then (Inl ErrDuplicateSubscription, c)
      else (let r = lc_next c
            in (Inr r, c\<lparr>lc_objs := fmupd r (newSubscription channel h config) (lc_objs c), lc_next := Suc r,
                         lc_subs := fmupd channel r (lc_subs c)\<rparr>)))"

definition lib_RemoveSubscription :: "nat \<Rightarrow> lib \<Rightarrow> (lib_error option \<times> lib) go" where
  "lib_RemoveSubscription r c = do {
     s \<leftarrow> fmlookup (lc_objs c) r;
     Some (if ls_state s \<noteq> SubStateUnsubscribed then (Some (OtherError ''subscription must be unsubscribed to be removed''), c)
           else (None, c\<lparr>lc_subs := fmdrop (ls_Channel s) (lc_subs c)\<rparr>))
   }"

definition lib_Disconnect :: "lib_env \<Rightarrow> lib \<Rightarrow> (lib_error option \<times> lib) go" where
  "lib_Disconnect e c =
     (if lc_state c = StateClosed then Some (Some ErrClientClosed, c)
      else map_option (Pair None) (moveToDisconnected e disconnectedDisconnectCalled ''disconnect called'' c))"

definition lib_Close :: "lib_env \<Rightarrow> lib \<Rightarrow> lib go" where
  "lib_Close e c =
     (if lc_state c = StateClosed then Some c
      else do {
        c1 \<leftarrow> moveToDisconnected e disconnectedDisconnectCalled ''disconnect called'' c;
        moveToClosed e c1
      })"

definition sub_Subscribe :: "lib_env \<Rightarrow> nat \<Rightarrow> lib \<Rightarrow> (lib_error option \<times> frame list \<times> lib) go" where
  "sub_Subscribe e r c =
     (if lc_state c = StateClosed then Some (Some ErrClientClosed, [], c)
      else do {
        s \<leftarrow> fmlookup (lc_objs c) r;
        if ls_state s = SubStateSubscribed \<or> ls_state s = SubStateSubscribing then Some (None, [], c)
        else do {
          c1 \<leftarrow> runHandler (on_subscribing (ls_events s)) [SubEvent r (SubscribingEvent subscribingSubscribeCalled ''subscribe called'')]
                  (put_sub r (s\<lparr>ls_state := SubStateSubscribing\<rparr>) c);
          if lc_state c1 \<noteq> StateConnected then Some (None, [], c1)
          else map_option (\<lambda>(frs, c2). (None, frs, c2)) (sub_resubscribe e r c1)
        }
      })"

definition sub_Unsubscribe :: "lib_env \<Rightarrow> nat \<Rightarrow> lib \<Rightarrow> (lib_error option \<times> lib) go" where
  "sub_Unsubscribe e r c =
     (if lc_state c = StateClosed then Some (Some ErrClientClosed, c)
      else map_option (Pair None) (sub_unsubscribe e r unsubscribedUnsubscribeCalled ''unsubscribe called'' True c))"

text \<open>The calls that return a result later; an error that is known at once is recorded at once.\<close>

definition lib_Call :: "lib_env \<Rightarrow> call \<Rightarrow> connect_fn \<Rightarrow> lib \<Rightarrow> lib" where
  "lib_Call e k f c = (if lc_state c = StateClosed then result k (Failed ErrClientClosed) c else onConnect e f c)"

definition sub_Call :: "call \<Rightarrow> nat \<Rightarrow> sub_fn \<Rightarrow> lib \<Rightarrow> lib go" where
  "sub_Call k r f c = do {
     s \<leftarrow> fmlookup (lc_objs c) r;
     if ls_state s = SubStateUnsubscribed then Some (result k (Failed ErrSubscriptionUnsubscribed) c) else onSubscribe r f c
   }"

datatype api =
    ApiConnect
  | ApiDisconnect
  | ApiClose
  | ApiSetToken string
  | ApiNewSubscription string subscriptionEventHub "subscriptionConfig option"
  | ApiRemoveSubscription nat
  | ApiSubscribe nat
  | ApiUnsubscribe nat
  | ApiSend call bytes
  | ApiPublish call string bytes
  | ApiPresence call string
  | ApiPresenceStats call string
  | ApiSubPublish call nat bytes
  | ApiSubPresence call nat
  | ApiSubPresenceStats call nat
  | ApiCancel call

fun api_call :: "lib_env \<Rightarrow> api \<Rightarrow> lib \<Rightarrow> (frame list \<times> lib) go" where
  "api_call e ApiConnect c = Some (snd (startConnecting c))"
| "api_call e ApiDisconnect c = map_option (\<lambda>(_, c1). ([], c1)) (lib_Disconnect e c)"
| "api_call e ApiClose c = map_option (Pair []) (lib_Close e c)"
| "api_call e (ApiSetToken token) c = Some ([], c\<lparr>lc_token := token\<rparr>)"
| "api_call e (ApiNewSubscription channel h config) c = Some ([], snd (lib_NewSubscription channel h config c))"
| "api_call e (ApiRemoveSubscription r) c = map_option (\<lambda>(_, c1). ([], c1)) (lib_RemoveSubscription r c)"
| "api_call e (ApiSubscribe r) c = map_option snd (sub_Subscribe e r c)"
| "api_call e (ApiUnsubscribe r) c = map_option (\<lambda>(_, c1). ([], c1)) (sub_Unsubscribe e r c)"
| "api_call e (ApiSend k data) c = Some ([], lib_Call e k (SendFn k data) c)"
| "api_call e (ApiPublish k channel data) c = Some ([], lib_Call e k (PublishFn k channel data) c)"
| "api_call e (ApiPresence k channel) c = Some ([], lib_Call e k (PresenceFn k channel) c)"
| "api_call e (ApiPresenceStats k channel) c = Some ([], lib_Call e k (PresenceStatsFn k channel) c)"
| "api_call e (ApiSubPublish k r data) c = map_option (Pair []) (sub_Call k r (SubPublishFn k data) c)"
| "api_call e (ApiSubPresence k r) c = map_option (Pair []) (sub_Call k r (SubPresenceFn k) c)"
| "api_call e (ApiSubPresenceStats k r) c = map_option (Pair []) (sub_Call k r (SubPresenceStatsFn k) c)"
| "api_call e (ApiCancel k) c = Some ([], c\<lparr>lc_ctxDone := k # lc_ctxDone c\<rparr>)"

text \<open>\<open>shuffle\<close> is the random order that \<open>rand.Shuffle\<close> gives the endpoints.\<close>

definition lib_config_defaults :: "lib_config \<Rightarrow> lib_config" where
  "lib_config_defaults config =
     config\<lparr>lg_ReadTimeout := (if lg_ReadTimeout config = 0 then 5 * Second else lg_ReadTimeout config),
            lg_WriteTimeout := (if lg_WriteTimeout config = 0 then Second else lg_WriteTimeout config),
            lg_HandshakeTimeout := (if lg_HandshakeTimeout config = 0 then Second else lg_HandshakeTimeout config),
            lg_MaxServerPingDelay := (if lg_MaxServerPingDelay config = 0 then 10 * Second else lg_MaxServerPingDelay config),
            lg_Name := (if lg_Name config = '''' then ''kairosdeamon'' else lg_Name config)\<rparr>"

definition lib_newClient :: "(string list \<Rightarrow> string list) \<Rightarrow> string \<Rightarrow> lib_config \<Rightarrow> lib_eventHub \<Rightarrow> lib go" where
  "lib_newClient shuffle endpoint config h =
     (let endpoints = shuffle (go_split (CHR '','') endpoint)
      in if \<not> list_all (\<lambda>u. HasPrefix u ''ws'') endpoints then None
         else Some \<lparr>lc_futureID = 0, lc_cmdID = 0, lc_endpoints = endpoints, lc_round = 0, lc_config = lib_config_defaults config,
           lc_token = lg_Token config, lc_data = lg_Data config, lc_transport = None, lc_state = StateDisconnected,
           lc_subs = fmempty, lc_serverSubs = {||}, lc_requests = fmempty, lc_reconnectAttempts = 0, lc_events = h,
           lc_delayPing = 0, lc_closeCh = None, lc_connectFutures = fmempty, lc_CBQueue = True, lc_reconnectTimer = None,
           lc_refreshTimer = None, lc_refreshRequired = False, lc_objs = fmempty, lc_next = 0, lc_timers = fmempty,
           lc_threads = [], lc_closed = [], lc_readersGone = [], lc_sent = [], lc_log = [], lc_results = [], lc_ctxDone = []\<rparr>)"

section \<open>The steps of the library\<close>

inductive lib_step :: "lib \<Rightarrow> lib \<Rightarrow> bool" where
  run: "i < length (lc_threads c) \<Longrightarrow> lc_threads c ! i = fr # rest \<Longrightarrow> env_ok e \<Longrightarrow> exec e fr c = Some (frs, c1) \<Longrightarrow>
    lib_step c (c1\<lparr>lc_threads := (lc_threads c1)[i := frs @ rest]\<rparr>)"
| timer: "fmlookup (lc_timers c) i = Some (d, act) \<Longrightarrow> env_ok e \<Longrightarrow>
    fire e act (c\<lparr>lc_timers := fmdrop i (lc_timers c)\<rparr>) = Some (frs, c1) \<Longrightarrow> lib_step c (spawn frs c1)"
| api: "env_ok e \<Longrightarrow> api_call e a c = Some (frs, c1) \<Longrightarrow> lib_step c (spawn frs c1)"

inductive lib_reachable :: "lib \<Rightarrow> bool" where
  start: "lib_newClient shuffle endpoint config h = Some c \<Longrightarrow> lib_reachable c"
| step: "lib_reachable c \<Longrightarrow> lib_step c c' \<Longrightarrow> lib_reachable c'"

end
