(* ===== verification/Pubsub_Run.thy ===== *)
theory Pubsub_Run
  imports Pubsub
begin

text \<open>
  Properties of the client library in every run: what its connection state implies, and that the
  application sees a well-formed sequence of events of every subscription.
\<close>

section \<open>The event automaton of a subscription\<close>

fun advance :: "sub_event \<Rightarrow> sub_state \<Rightarrow> sub_state option" where
  "advance (SubscribingEvent _ _) st = (if st = SubStateSubscribing then None else Some SubStateSubscribing)"
| "advance (SubscribedEvent _) st = (if st = SubStateSubscribing then Some SubStateSubscribed else None)"
| "advance (UnsubscribedEvent _ _) st = (if st = SubStateUnsubscribed then None else Some SubStateUnsubscribed)"
| "advance (SubscriptionErrorEvent _) st = Some st"
| "advance (PublicationEvent _) st = (if st = SubStateSubscribed then Some st else None)"

fun replay :: "sub_event list \<Rightarrow> sub_state \<Rightarrow> sub_state option" where
  "replay [] st = Some st"
| "replay (ev # evs) st = Option.bind (advance ev st) (replay evs)"

definition sub_event_of :: "nat \<Rightarrow> lib_event \<Rightarrow> sub_event option" where
  "sub_event_of r ev = (case ev of SubEvent r' se \<Rightarrow> if r' = r then Some se else None | _ \<Rightarrow> None)"

definition sub_log :: "nat \<Rightarrow> lib_event list \<Rightarrow> sub_event list" where
  "sub_log r evs = concat (map (\<lambda>ev. case sub_event_of r ev of None \<Rightarrow> [] | Some se \<Rightarrow> [se]) evs)"

lemma replay_append: "replay (xs @ ys) st = Option.bind (replay xs st) (replay ys)"
  by (induction xs arbitrary: st) (auto split: bind_splits)

lemma sub_log_append [simp]: "sub_log r (xs @ ys) = sub_log r xs @ sub_log r ys"
  by (simp add: sub_log_def)

lemma sub_log_single: "sub_log r [SubEvent r' se] = (if r' = r then [se] else [])"
  by (simp add: sub_log_def sub_event_of_def)

lemma sub_log_Nil [simp]: "sub_log r [] = []"
  by (simp add: sub_log_def)

definition all_handlers :: "subscriptionEventHub \<Rightarrow> bool" where
  "all_handlers h \<longleftrightarrow> on_subscribing h \<and> on_subscribed h \<and> on_unsubscribe h \<and> on_subError h \<and> on_publication h"

section \<open>Invariants\<close>

text \<open>The table of subscriptions points to objects of that channel, and the events of an object replay
  to its state.\<close>

definition traces ::
  "(string, nat) fmap \<Rightarrow> (nat, subscription) fmap \<Rightarrow> nat \<Rightarrow> lib_event list \<Rightarrow> bool" where
  "traces subs objs next log \<longleftrightarrow>
     (\<forall>ch r. fmlookup subs ch = Some r \<longrightarrow> (\<exists>s. fmlookup objs r = Some s \<and> ls_Channel s = ch)) \<and>
     (\<forall>r. r |\<in>| fmdom objs \<longrightarrow> r < next) \<and>
     (\<forall>r. r |\<notin>| fmdom objs \<longrightarrow> sub_log r log = []) \<and>
     (\<forall>r s. fmlookup objs r = Some s \<longrightarrow> all_handlers (ls_events s) \<longrightarrow>
        replay (sub_log r log) SubStateUnsubscribed = Some (ls_state s))"

abbreviation trace_inv :: "lib \<Rightarrow> bool" where
  "trace_inv c \<equiv> traces (lc_subs c) (lc_objs c) (lc_next c) (lc_log c)"

definition lib_conn_inv :: "lib \<Rightarrow> bool" where
  "lib_conn_inv c \<longleftrightarrow>
     (lc_state c = StateDisconnected \<or> lc_state c = StateClosed \<longrightarrow>
        lc_transport c = None \<and> lc_reconnectTimer c = None \<and> lc_refreshTimer c = None \<and> lc_closeCh c = None) \<and>
     (lc_state c = StateDisconnected \<or> lc_state c = StateConnected \<longrightarrow> lc_connectFutures c = fmempty) \<and>
     (lc_state c = StateConnected \<longrightarrow> lc_transport c \<noteq> None) \<and>
     (\<forall>i t. fmlookup (lc_requests c) i = Some (ConnectCb t) \<longrightarrow> lc_transport c \<noteq> None) \<and>
     (lc_CBQueue c \<longleftrightarrow> lc_state c \<noteq> StateClosed)"

text \<open>After \<open>Close\<close> no subscription of the table is left.\<close>

definition closed_inv :: "lib \<Rightarrow> bool" where
  "closed_inv c \<longleftrightarrow>
     (lc_state c = StateClosed \<longrightarrow>
        (\<forall>ch r s. fmlookup (lc_subs c) ch = Some r \<longrightarrow> fmlookup (lc_objs c) r = Some s \<longrightarrow> ls_state s = SubStateUnsubscribed))"

definition lib_inv :: "lib \<Rightarrow> bool" where
  "lib_inv c \<longleftrightarrow> lib_conn_inv c \<and> trace_inv c \<and> closed_inv c"

text \<open>What the operations on commands and subscriptions leave alone.\<close>

definition same_conn :: "lib \<Rightarrow> lib \<Rightarrow> bool" where
  "same_conn c c' \<longleftrightarrow>
     lc_state c' = lc_state c \<and> lc_transport c' = lc_transport c \<and> lc_reconnectTimer c' = lc_reconnectTimer c \<and>
     lc_refreshTimer c' = lc_refreshTimer c \<and> lc_closeCh c' = lc_closeCh c \<and> lc_CBQueue c' = lc_CBQueue c \<and>
     lc_subs c' = lc_subs c \<and> lc_events c' = lc_events c \<and> lc_config c' = lc_config c \<and>
     (\<forall>i t. fmlookup (lc_requests c') i = Some (ConnectCb t) \<longrightarrow> fmlookup (lc_requests c) i = Some (ConnectCb t)) \<and>
     (lc_state c = StateDisconnected \<or> lc_state c = StateConnected \<longrightarrow> lc_connectFutures c' = lc_connectFutures c) \<and>
     lc_next c \<le> lc_next c'"

definition quiet :: "lib \<Rightarrow> lib \<Rightarrow> bool" where
  "quiet c c' \<longleftrightarrow> same_conn c c' \<and> lc_objs c' = lc_objs c \<and> lc_log c' = lc_log c"

text \<open>No subscription leaves the unsubscribed state.\<close>

definition calm :: "lib \<Rightarrow> lib \<Rightarrow> bool" where
  "calm c c' \<longleftrightarrow>
     (\<forall>r s'. fmlookup (lc_objs c') r = Some s' \<longrightarrow> ls_state s' \<noteq> SubStateUnsubscribed \<longrightarrow>
        (\<exists>s. fmlookup (lc_objs c) r = Some s \<and> ls_state s \<noteq> SubStateUnsubscribed))"

definition ok :: "lib \<Rightarrow> lib \<Rightarrow> bool" where
  "ok c c' \<longleftrightarrow> same_conn c c' \<and> (trace_inv c \<longrightarrow> trace_inv c') \<and> (lc_state c = StateClosed \<longrightarrow> calm c c')"

lemma same_conn_refl [simp]: "same_conn c c"
  by (simp add: same_conn_def)

lemma same_conn_trans: "same_conn a b \<Longrightarrow> same_conn b c \<Longrightarrow> same_conn a c"
  by (auto simp: same_conn_def)

lemma quiet_refl [simp]: "quiet c c"
  by (simp add: quiet_def)

lemma quiet_trans: "quiet a b \<Longrightarrow> quiet b c \<Longrightarrow> quiet a c"
  by (auto simp: quiet_def intro: same_conn_trans)

lemma ok_refl [simp]: "ok c c"
  by (simp add: ok_def calm_def)

lemma calm_trans: "calm a b \<Longrightarrow> calm b c \<Longrightarrow> calm a c"
  unfolding calm_def by blast

lemma same_conn_state: "same_conn c c' \<Longrightarrow> lc_state c' = lc_state c"
  by (simp add: same_conn_def)

lemma ok_trans:
  assumes "ok a b" "ok b c"
  shows "ok a c"
  unfolding ok_def
proof (intro conjI impI)
  show "same_conn a c" using assms same_conn_trans[of a b c] by (simp add: ok_def)
  show "trace_inv c" if "trace_inv a" using assms that by (simp add: ok_def)
  show "calm a c" if "lc_state a = StateClosed"
    by (rule calm_trans[of _ b]) (use assms that same_conn_state[of a b] in \<open>simp_all add: ok_def\<close>)
qed

lemma traces_next: "traces subs objs n log \<Longrightarrow> n \<le> n' \<Longrightarrow> traces subs objs n' log"
  unfolding traces_def by (meson order_less_le_trans)

lemma quiet_ok:
  assumes "quiet c c'"
  shows "ok c c'"
proof -
  have q: "same_conn c c'" "lc_objs c' = lc_objs c" "lc_log c' = lc_log c" using assms by (simp_all add: quiet_def)
  have "lc_subs c' = lc_subs c" "lc_next c \<le> lc_next c'" using q(1) by (simp_all add: same_conn_def)
  then have "trace_inv c'" if "trace_inv c" using traces_next[OF that] q by simp
  moreover have "calm c c'" by (simp add: calm_def q)
  ultimately show ?thesis by (simp add: ok_def q)
qed

lemma same_conn_inv: "same_conn c c' \<Longrightarrow> lib_conn_inv c \<Longrightarrow> lib_conn_inv c'"
  by (simp add: same_conn_def lib_conn_inv_def) blast

lemma ok_closed:
  assumes "ok c c'" "closed_inv c"
  shows "closed_inv c'"
  unfolding closed_inv_def
proof (intro impI allI)
  fix ch r s assume a: "lc_state c' = StateClosed" "fmlookup (lc_subs c') ch = Some r" "fmlookup (lc_objs c') r = Some s"
  have sc: "same_conn c c'" using assms(1) by (simp add: ok_def)
  have st: "lc_state c = StateClosed" "fmlookup (lc_subs c) ch = Some r" using sc a by (simp_all add: same_conn_def)
  have cm: "calm c c'" using assms(1) st(1) by (simp add: ok_def)
  show "ls_state s = SubStateUnsubscribed"
  proof (rule ccontr)
    assume "ls_state s \<noteq> SubStateUnsubscribed"
    then obtain s0 where "fmlookup (lc_objs c) r = Some s0" "ls_state s0 \<noteq> SubStateUnsubscribed"
      using cm a(3) unfolding calm_def by blast
    then show False using assms(2) st by (simp add: closed_inv_def)
  qed
qed

lemma ok_inv:
  assumes "ok c c'" "lib_inv c"
  shows "lib_inv c'"
  using assms same_conn_inv[of c c'] ok_closed[OF assms(1)] by (simp add: ok_def lib_inv_def)

lemma iter_ok:
  assumes "iter f xs c = Some c'" "\<And>x c c'. x \<in> set xs \<Longrightarrow> f x c = Some c' \<Longrightarrow> ok c c'"
  shows "ok c c'"
  using assms
proof (induction xs arbitrary: c)
  case (Cons x xs)
  then obtain c1 where c1: "f x c = Some c1" "iter f xs c1 = Some c'" by (auto split: bind_splits)
  have "ok c c1" by (rule Cons.prems(2)[OF _ c1(1)]) simp
  moreover have "ok c1 c'" by (rule Cons.IH[OF c1(2)]) (rule Cons.prems(2), simp_all)
  ultimately show ?case by (rule ok_trans)
qed simp

lemma fold_quiet:
  assumes "\<And>x c. quiet c (f x c)"
  shows "quiet c (fold f xs c)"
proof (induction xs arbitrary: c)
  case (Cons x xs)
  show ?case unfolding fold_simps by (rule quiet_trans[OF assms Cons])
qed simp

section \<open>Commands and waiting closures\<close>

lemmas quiet_unfold = quiet_def same_conn_def

lemma quiet_spawn [simp]: "quiet c (spawn frs c)"
  by (simp add: quiet_unfold spawn_def)

lemma quiet_result [simp]: "quiet c (result k res c)"
  by (simp add: quiet_unfold result_def)

lemma quiet_stopTimer [simp]: "quiet c (stopTimer t c)"
  by (simp add: quiet_unfold stopTimer_def split: option.split)

lemma quiet_closeTransport [simp]: "quiet c (closeTransport t c)"
  by (simp add: quiet_unfold closeTransport_def)

lemma quiet_afterFunc [simp]: "quiet c (snd (afterFunc d act c))"
  by (simp add: quiet_unfold afterFunc_def)

lemma quiet_removeRequest [simp]: "quiet c (removeRequest i c)"
  by (simp add: quiet_unfold removeRequest_def)

lemma quiet_addRequest: "(\<And>t. cb \<noteq> ConnectCb t) \<Longrightarrow> quiet c (addRequest i cb c)"
  by (simp add: quiet_unfold addRequest_def)

lemma quiet_send [simp]: "quiet c (snd (lib_send e cmd c))"
proof (cases "lc_transport c")
  case (Some t)
  have "quiet c (c\<lparr>lc_sent := lc_sent c @ [(t, cmd)]\<rparr>)" by (simp add: quiet_unfold)
  then show ?thesis by (simp add: lib_send_def Some)
qed (simp add: lib_send_def)

lemma quiet_sendCommand:
  assumes "\<And>t. cb \<noteq> ConnectCb t"
  shows "quiet c (snd (sendCommand e params cb c))"
proof -
  let ?i = "lc_cmdID c + 1"
  let ?c1 = "addRequest ?i cb (c\<lparr>lc_cmdID := ?i\<rparr>)"
  have "quiet c (c\<lparr>lc_cmdID := ?i\<rparr>)" by (simp add: quiet_unfold)
  then have "quiet c ?c1" using quiet_addRequest[OF assms] quiet_trans by blast
  then have q: "quiet c (snd (lib_send e (?i, params) ?c1))" using quiet_send quiet_trans by blast
  obtain x c2 where s: "lib_send e (?i, params) ?c1 = (x, c2)" by (cases "lib_send e (?i, params) ?c1")
  then have "quiet c c2" using q by simp
  then show ?thesis
    using quiet_trans[OF _ quiet_spawn] by (cases x) (simp_all add: sendCommand_def nextCmdID_def sendAsync_def s)
qed

lemma quiet_sendSubRefresh [simp]: "quiet c (sendSubRefresh e channel token r c)"
  by (simp add: sendSubRefresh_def quiet_sendCommand)

lemma quiet_sendSubscribe [simp]: "quiet c (snd (sendSubscribe e channel data token joinLeave r c))"
  by (simp add: sendSubscribe_def quiet_sendCommand)

text \<open>The commands that report an error of the write at once.\<close>

lemma quiet_then:
  assumes "\<And>t. cb \<noteq> ConnectCb t" "\<And>err c1. quiet c1 (f err c1)"
  shows "quiet c (case sendCommand e params cb c of (None, c1) \<Rightarrow> c1 | (Some err, c1) \<Rightarrow> f err c1)"
  using quiet_sendCommand[of cb c e params, OF assms(1)] quiet_trans[OF _ assms(2)]
  by (auto split: prod.split option.split)

lemma quiet_sendPublish [simp]: "quiet c (sendPublish e channel data k c)"
  unfolding sendPublish_def by (rule quiet_then) simp_all

lemma quiet_sendPresence [simp]: "quiet c (sendPresence e channel k c)"
  unfolding sendPresence_def by (rule quiet_then) simp_all

lemma quiet_sendPresenceStats [simp]: "quiet c (sendPresenceStats e channel k c)"
  unfolding sendPresenceStats_def by (rule quiet_then) simp_all

lemma quiet_unsubscribe_failed [simp]: "quiet c (unsubscribe_failed c)"
  by (simp add: unsubscribe_failed_def)

lemma quiet_sendUnsubscribe [simp]: "quiet c (lib_sendUnsubscribe e channel c)"
  unfolding lib_sendUnsubscribe_def by (rule quiet_then) simp_all

lemma quiet_unsubscribe [simp]: "quiet c (lib_unsubscribe e channel c)"
  by (simp add: lib_unsubscribe_def)

lemma quiet_connect_fn_call [simp]: "quiet c (connect_fn_call e f err c)"
proof (cases f)
  case (SendFn k data)
  obtain x c2 where s: "lib_send e (0, SendParams data) c = (x, c2)" by (cases "lib_send e (0, SendParams data) c")
  then have "quiet c c2" using quiet_send[of c e "(0, SendParams data)"] by simp
  then show ?thesis
    using quiet_trans[OF _ quiet_result] by (cases x) (simp_all add: connect_fn_call_def SendFn s split: option.split)
qed (simp_all add: connect_fn_call_def split: option.split)

lemma quiet_onConnect [simp]: "quiet c (onConnect e f c)"
proof -
  let ?i = "lc_futureID c + 1"
  have "quiet c (c\<lparr>lc_futureID := ?i, lc_connectFutures := fmupd ?i f (lc_connectFutures c)\<rparr>)"
    if "lc_state c \<noteq> StateConnected" "lc_state c \<noteq> StateDisconnected"
    using that by (simp add: quiet_unfold)
  then show ?thesis using quiet_trans[OF _ quiet_spawn] by (simp add: onConnect_def Let_def)
qed

lemma quiet_sub_fn_call [simp]: "quiet c (sub_fn_call e channel f err c)"
  by (simp add: sub_fn_call_def lib_publish_def lib_presence_def lib_presenceStats_def split: sub_fn.split option.split)

section \<open>Operations on a subscription\<close>

lemma put_sub_fields [simp]:
  "lc_state (put_sub r s c) = lc_state c" "lc_subs (put_sub r s c) = lc_subs c" "lc_objs (put_sub r s c) = fmupd r s (lc_objs c)"
  "lc_next (put_sub r s c) = lc_next c" "lc_log (put_sub r s c) = lc_log c" "lc_CBQueue (put_sub r s c) = lc_CBQueue c"
  "lc_events (put_sub r s c) = lc_events c"
  by (simp_all add: put_sub_def)

lemma same_conn_put [simp]: "same_conn c (put_sub r s c)"
  by (simp add: same_conn_def put_sub_def)

lemma traces_upd:
  assumes "traces subs objs n log" "fmlookup objs r = Some s" "ls_Channel s' = ls_Channel s"
    "all_handlers (ls_events s') \<longrightarrow> all_handlers (ls_events s) \<and>
       Option.bind (Some (ls_state s)) (replay (sub_log r evs)) = Some (ls_state s')"
    "\<forall>r'. r' \<noteq> r \<longrightarrow> sub_log r' evs = []"
  shows "traces subs (fmupd r s' objs) n (log @ evs)"
proof -
  have r: "r |\<in>| fmdom objs" using assms(2) by (simp add: fmdomI)
  show ?thesis
    unfolding traces_def
  proof (intro conjI allI impI)
    fix ch r' assume "fmlookup subs ch = Some r'"
    then obtain s0 where "fmlookup objs r' = Some s0" "ls_Channel s0 = ch" using assms(1) unfolding traces_def by blast
    then show "\<exists>s. fmlookup (fmupd r s' objs) r' = Some s \<and> ls_Channel s = ch" using assms(2,3) by (cases "r' = r") auto
  next
    fix r' assume "r' |\<in>| fmdom (fmupd r s' objs)"
    then show "r' < n" using assms(1) r unfolding traces_def by auto
  next
    fix r' assume "r' |\<notin>| fmdom (fmupd r s' objs)"
    then show "sub_log r' (log @ evs) = []" using assms(1,5) unfolding traces_def by simp
  next
    fix r' s0 assume a: "fmlookup (fmupd r s' objs) r' = Some s0" "all_handlers (ls_events s0)"
    show "replay (sub_log r' (log @ evs)) SubStateUnsubscribed = Some (ls_state s0)"
    proof (cases "r' = r")
      case True
      then have "s0 = s'" using a(1) by simp
      then have "all_handlers (ls_events s)" "replay (sub_log r evs) (ls_state s) = Some (ls_state s0)" using assms(4) a(2) by simp_all
      moreover have "replay (sub_log r log) SubStateUnsubscribed = Some (ls_state s)"
        using assms(1,2) calculation(1) unfolding traces_def by blast
      ultimately show ?thesis using True by (simp add: replay_append)
    next
      case False
      then have "fmlookup objs r' = Some s0" "sub_log r' evs = []" using a(1) assms(5) by simp_all
      then show ?thesis using assms(1) a(2) unfolding traces_def by simp
    qed
  qed
qed

text \<open>An update that leaves channel, handlers and state of a subscription alone.\<close>

lemma ok_put:
  assumes "fmlookup (lc_objs c) r = Some s" "ls_Channel s' = ls_Channel s" "ls_events s' = ls_events s" "ls_state s' = ls_state s"
  shows "ok c (put_sub r s' c)"
proof -
  have "trace_inv (put_sub r s' c)" if "trace_inv c"
    using traces_upd[OF that assms(1), of s' "[]"] assms(2-4) by simp
  moreover have "calm c (put_sub r s' c)" using assms(1,4) by (auto simp: calm_def)
  ultimately show ?thesis by (simp add: ok_def)
qed

text \<open>A move of a subscription together with the handler call that reports it.\<close>

lemma ok_move':
  assumes "fmlookup (lc_objs c) r = Some s" "ls_Channel s' = ls_Channel s" "ls_events s' = ls_events s"
    "advance ev (ls_state s) = Some (ls_state s')" "all_handlers (ls_events s) \<longrightarrow> reg"
    "lc_state c = StateClosed \<longrightarrow> ls_state s' = SubStateUnsubscribed \<or> ls_state s \<noteq> SubStateUnsubscribed"
    "same_conn c c1" "lc_objs c1 = fmupd r s' (lc_objs c)" "lc_log c1 = lc_log c"
    "runHandler reg [SubEvent r ev] c1 = Some c'"
  shows "ok c c'"
proof -
  have f1: "same_conn c1 c'" "lc_objs c' = fmupd r s' (lc_objs c)" "lc_log c' = lc_log c @ (if reg then [SubEvent r ev] else [])"
    using assms(8-10) by (auto simp: runHandler_def same_conn_def split: if_splits)
  have f2: "same_conn c c'" by (rule same_conn_trans[OF assms(7) f1(1)])
  then have f3: "lc_subs c' = lc_subs c" "lc_next c \<le> lc_next c'" by (simp_all add: same_conn_def)
  have "trace_inv c'" if "trace_inv c"
    using traces_next[OF traces_upd[OF that assms(1), of s' "if reg then [SubEvent r ev] else []"] f3(2)] assms(2-5)
    by (auto simp: f1 f3 sub_log_single)
  moreover have "calm c c'" if "lc_state c = StateClosed" using assms(1,6) that by (auto simp: calm_def f1)
  ultimately show ?thesis by (simp add: ok_def f2)
qed

lemma ok_move:
  assumes "fmlookup (lc_objs c) r = Some s" "ls_Channel s' = ls_Channel s" "ls_events s' = ls_events s"
    "advance ev (ls_state s) = Some (ls_state s')" "all_handlers (ls_events s) \<longrightarrow> reg"
    "lc_state c = StateClosed \<longrightarrow> ls_state s' = SubStateUnsubscribed \<or> ls_state s \<noteq> SubStateUnsubscribed"
    "runHandler reg [SubEvent r ev] (put_sub r s' c) = Some c'"
  shows "ok c c'"
  by (rule ok_move'[OF assms(1-6) _ _ _ assms(7)]) simp_all

text \<open>A handler call that is not about the state of a subscription.\<close>

lemma ok_event:
  assumes "runHandler reg evs c = Some c'" "\<forall>r. sub_log r evs = []"
  shows "ok c c'"
proof -
  have f: "same_conn c c'" "lc_objs c' = lc_objs c" "lc_next c' = lc_next c" "lc_subs c' = lc_subs c"
    "\<forall>r. sub_log r (lc_log c') = sub_log r (lc_log c)"
    using assms by (auto simp: runHandler_def same_conn_def split: if_splits)
  then show ?thesis by (simp add: ok_def calm_def traces_def)
qed

lemma ok_sub_event:
  assumes "runHandler reg [SubEvent r ev] c = Some c'" "fmlookup (lc_objs c) r = Some s" "advance ev (ls_state s) = Some (ls_state s)"
    "all_handlers (ls_events s) \<longrightarrow> reg"
  shows "ok c c'"
proof -
  have "fmupd r s (lc_objs c) = lc_objs c" using assms(2) by (intro fmap_ext) auto
  then have "put_sub r s c = c" by (simp add: put_sub_def)
  then have "runHandler reg [SubEvent r ev] (put_sub r s c) = Some c'" using assms(1) by simp
  then show ?thesis by (rule ok_move[OF assms(2) refl refl assms(3,4), rotated]) simp
qed

text \<open>Updates of fields that neither the connection nor a subscription depends on.\<close>

lemma quiet_stopTimers [simp]: "quiet c (sub_stopTimers s c)"
  using quiet_trans[OF quiet_stopTimer quiet_stopTimer] by (simp add: sub_stopTimers_def)

lemma quiet_objs: "quiet c c' \<Longrightarrow> lc_objs c' = lc_objs c"
  by (simp add: quiet_def)

lemma quiet_state: "quiet c c' \<Longrightarrow> lc_state c' = lc_state c"
  by (simp add: quiet_unfold)

lemma quiet_objs_stop [simp]: "lc_objs (sub_stopTimers s c) = lc_objs c" "lc_objs (stopTimer t c) = lc_objs c"
  by (simp_all add: quiet_objs[OF quiet_stopTimers] quiet_objs[OF quiet_stopTimer])

lemma sub_moveToUnsubscribed_ok:
  assumes "sub_moveToUnsubscribed r code reason c = Some c'"
  shows "ok c c'"
proof -
  obtain s where s: "fmlookup (lc_objs c) r = Some s" using assms by (auto simp: sub_moveToUnsubscribed_def split: bind_splits)
  let ?s' = "s\<lparr>ls_resubscribeAttempts := 0, ls_state := SubStateUnsubscribed\<rparr>" and ?c0 = "sub_stopTimers s c"
  have q: "ok c ?c0" by (simp add: quiet_ok)
  have s0: "fmlookup (lc_objs ?c0) r = Some s" using s by simp
  have "ok ?c0 c'"
  proof (cases "ls_state s = SubStateUnsubscribed")
    case True
    then have "c' = put_sub r ?s' ?c0" using assms s by (simp add: sub_moveToUnsubscribed_def Let_def)
    then show ?thesis using ok_put[OF s0] True by simp
  next
    case False
    then have "runHandler (on_unsubscribe (ls_events s)) [SubEvent r (UnsubscribedEvent code reason)] (put_sub r ?s' ?c0) = Some c'"
      using assms s by (simp add: sub_moveToUnsubscribed_def Let_def)
    from ok_move[OF s0 _ _ _ _ _ this] False show ?thesis by (simp add: all_handlers_def)
  qed
  then show ?thesis by (rule ok_trans[OF q])
qed

lemma sub_moveToSubscribing_ok:
  assumes "sub_moveToSubscribing r code reason c = Some c'" "lc_state c \<noteq> StateClosed"
  shows "ok c c'"
proof -
  obtain s where s: "fmlookup (lc_objs c) r = Some s" using assms by (auto simp: sub_moveToSubscribing_def split: bind_splits)
  let ?s' = "s\<lparr>ls_resubscribeAttempts := 0, ls_state := SubStateSubscribing\<rparr>" and ?c0 = "sub_stopTimers s c"
  have q: "ok c ?c0" by (simp add: quiet_ok)
  have s0: "fmlookup (lc_objs ?c0) r = Some s" using s by simp
  have st: "lc_state ?c0 \<noteq> StateClosed" using assms(2) quiet_state[OF quiet_stopTimers] by simp
  have "ok ?c0 c'"
  proof (cases "ls_state s = SubStateSubscribing")
    case True
    then have "c' = put_sub r ?s' ?c0" using assms s by (simp add: sub_moveToSubscribing_def Let_def)
    then show ?thesis using ok_put[OF s0] True by simp
  next
    case False
    then have "runHandler (on_subscribing (ls_events s)) [SubEvent r (SubscribingEvent code reason)] (put_sub r ?s' ?c0) = Some c'"
      using assms s by (simp add: sub_moveToSubscribing_def Let_def)
    from ok_move[OF s0 _ _ _ _ _ this] False st show ?thesis by (simp add: all_handlers_def)
  qed
  then show ?thesis by (rule ok_trans[OF q])
qed

text \<open>Scheduling a timer of a subscription.\<close>

lemma ok_schedule:
  assumes "fmlookup (lc_objs c) r = Some s" "ls_Channel s' = ls_Channel s" "ls_events s' = ls_events s" "ls_state s' = ls_state s"
  shows "ok c (put_sub r s' (snd (afterFunc d act c)))"
proof -
  have "fmlookup (lc_objs (snd (afterFunc d act c))) r = Some s" using assms(1) quiet_objs[OF quiet_afterFunc] by simp
  from ok_put[OF this assms(2-4)] show ?thesis by (rule ok_trans[OF quiet_ok[OF quiet_afterFunc]])
qed

lemma scheduleResubscribe_ok:
  assumes "scheduleResubscribe e r c = Some c'"
  shows "ok c c'"
proof -
  obtain s where s: "fmlookup (lc_objs c) r = Some s" using assms by (auto simp: scheduleResubscribe_def split: bind_splits)
  obtain i c1 where a: "afterFunc (le_delay e (ls_resubscribeAttempts s)) (ResubscribeTimer r) c = (i, c1)" by fastforce
  have "c' = put_sub r (s\<lparr>ls_resubscribeAttempts := ls_resubscribeAttempts s + 1, ls_resubscribeTimer := Some i\<rparr>) c1"
    using assms s a by (simp add: scheduleResubscribe_def)
  then show ?thesis
    using ok_schedule[OF s, of "s\<lparr>ls_resubscribeAttempts := ls_resubscribeAttempts s + 1, ls_resubscribeTimer := Some i\<rparr>"
        "le_delay e (ls_resubscribeAttempts s)" "ResubscribeTimer r"] a by simp
qed

lemma scheduleSubRefresh_ok:
  assumes "scheduleSubRefresh r ttl c = Some c'"
  shows "ok c c'"
proof -
  obtain s where s: "fmlookup (lc_objs c) r = Some s" using assms by (auto simp: scheduleSubRefresh_def split: bind_splits)
  obtain i c1 where a: "afterFunc (int (unat ttl) * Second) (SubRefreshTimer r) c = (i, c1)" by fastforce
  have "c' = (if ls_state s \<noteq> SubStateSubscribed then c else put_sub r (s\<lparr>ls_refreshTimer := Some i\<rparr>) c1)"
    using assms s a by (simp add: scheduleSubRefresh_def split: if_splits)
  then show ?thesis
    using ok_schedule[OF s, of "s\<lparr>ls_refreshTimer := Some i\<rparr>" "int (unat ttl) * Second" "SubRefreshTimer r"] a by simp
qed

lemma sub_emitError_ok:
  assumes "sub_emitError r err c = Some c'"
  shows "ok c c'"
proof -
  obtain s where "fmlookup (lc_objs c) r = Some s" "runHandler (on_subError (ls_events s)) [SubEvent r (SubscriptionErrorEvent err)] c = Some c'"
    using assms by (auto simp: sub_emitError_def split: bind_splits)
  then show ?thesis using ok_sub_event[of "on_subError (ls_events s)" r "SubscriptionErrorEvent err" c c' s] by (simp add: all_handlers_def)
qed

lemma sub_unsubscribe_ok:
  assumes "sub_unsubscribe e r code reason snd_it c = Some c'"
  shows "ok c c'"
proof -
  obtain s where s: "fmlookup (lc_objs c) r = Some s" using assms by (auto simp: sub_unsubscribe_def split: bind_splits)
  obtain c1 where c1: "sub_moveToUnsubscribed r code reason c = Some c1" "c' = (if snd_it then lib_unsubscribe e (ls_Channel s) c1 else c1)"
    using assms s by (auto simp: sub_unsubscribe_def split: bind_splits)
  have "ok c1 c'" using c1(2) quiet_ok[OF quiet_unsubscribe] by simp
  then show ?thesis by (rule ok_trans[OF sub_moveToUnsubscribed_ok[OF c1(1)]])
qed

lemma resolveSubFutures_run:
  assumes "resolveSubFutures e r err c = Some c'" "fmlookup (lc_objs c) r = Some s"
  shows "\<exists>c1. quiet c c1 \<and> c' = put_sub r (s\<lparr>ls_subFutures := fmempty\<rparr>) c1"
proof -
  define f where "f = (\<lambda>i c1. case fmlookup (ls_subFutures s) i of None \<Rightarrow> c1 | Some g \<Rightarrow> sub_fn_call e (ls_Channel s) g err c1)"
  have "quiet c (fold f (le_ids64 e (fmdom (ls_subFutures s))) c)" by (rule fold_quiet) (simp add: f_def split: option.split)
  moreover have "c' = put_sub r (s\<lparr>ls_subFutures := fmempty\<rparr>) (fold f (le_ids64 e (fmdom (ls_subFutures s))) c)"
    using assms by (simp add: resolveSubFutures_def f_def Let_def)
  ultimately show ?thesis by blast
qed

lemma resolveSubFutures_ok:
  assumes "resolveSubFutures e r err c = Some c'"
  shows "ok c c'"
proof -
  obtain s where s: "fmlookup (lc_objs c) r = Some s" using assms by (auto simp: resolveSubFutures_def split: bind_splits)
  obtain c1 where q: "quiet c c1" "c' = put_sub r (s\<lparr>ls_subFutures := fmempty\<rparr>) c1" using resolveSubFutures_run[OF assms s] by blast
  have "fmlookup (lc_objs c1) r = Some s" using q(1) s by (simp add: quiet_def)
  then have "ok c1 c'" using ok_put q(2) by simp
  then show ?thesis by (rule ok_trans[OF quiet_ok[OF q(1)]])
qed

text \<open>Steps that replace one subscription object and report nothing.\<close>

definition replaced :: "nat \<Rightarrow> lib \<Rightarrow> subscription \<Rightarrow> lib \<Rightarrow> bool" where
  "replaced r c s' c' \<longleftrightarrow> same_conn c c' \<and> lc_objs c' = fmupd r s' (lc_objs c) \<and> lc_log c' = lc_log c"

lemma replaced_put: "replaced r c s' (put_sub r s' c)"
  by (simp add: replaced_def)

lemma replaced_quiet: "replaced r c s' c1 \<Longrightarrow> quiet c1 c2 \<Longrightarrow> replaced r c s' c2"
  by (auto simp: replaced_def quiet_def intro: same_conn_trans)

lemma replaced_again: "replaced r c s1 c1 \<Longrightarrow> replaced r c1 s2 c2 \<Longrightarrow> replaced r c s2 c2"
  by (auto simp: replaced_def fmupd_twice intro: same_conn_trans)

lemma moveToSubscribed_run:
  assumes "moveToSubscribed e r (Some res) c = Some (frs, c')" "fmlookup (lc_objs c) r = Some s" "ls_state s = SubStateSubscribing"
  shows "\<exists>c3 s3. replaced r c s3 c3 \<and> ls_Channel s3 = ls_Channel s \<and> ls_events s3 = ls_events s \<and> ls_state s3 = SubStateSubscribed \<and>
    runHandler (on_subscribed (ls_events s)) [SubEvent r (SubscribedEvent (sb_Data res))] c3 = Some c'"
proof -
  let ?s0 = "s\<lparr>ls_state := SubStateSubscribed\<rparr>"
  let ?c0 = "put_sub r ?s0 c"
  obtain c1 where c1: "(if sb_Expires res then scheduleSubRefresh r (sb_Ttl res) ?c0 else Some ?c0) = Some c1"
    using assms by (auto simp: moveToSubscribed_def Let_def split: bind_splits)
  have "\<exists>s1. replaced r c s1 c1 \<and> ls_Channel s1 = ls_Channel s \<and> ls_events s1 = ls_events s \<and> ls_state s1 = SubStateSubscribed"
  proof (cases "sb_Expires res")
    case True
    obtain i ca where a: "afterFunc (int (unat (sb_Ttl res)) * Second) (SubRefreshTimer r) ?c0 = (i, ca)" by fastforce
    then have "replaced r c ?s0 ca" using replaced_quiet[OF replaced_put quiet_afterFunc] by (metis snd_conv)
    then have "replaced r c (?s0\<lparr>ls_refreshTimer := Some i\<rparr>) (put_sub r (?s0\<lparr>ls_refreshTimer := Some i\<rparr>) ca)"
      using replaced_again replaced_put by blast
    moreover have "c1 = put_sub r (?s0\<lparr>ls_refreshTimer := Some i\<rparr>) ca"
      using c1 True a by (simp add: scheduleSubRefresh_def)
    ultimately show ?thesis by (intro exI[of _ "?s0\<lparr>ls_refreshTimer := Some i\<rparr>"]) simp
  next
    case False
    then show ?thesis using c1 replaced_put[of r c ?s0] by (intro exI[of _ ?s0]) simp
  qed
  then obtain s1 where s1: "replaced r c s1 c1" "ls_Channel s1 = ls_Channel s" "ls_events s1 = ls_events s" "ls_state s1 = SubStateSubscribed"
    by blast
  have o1: "fmlookup (lc_objs c1) r = Some s1" using s1(1) by (simp add: replaced_def)
  let ?s2 = "s1\<lparr>ls_resubscribeAttempts := 0\<rparr>"
  let ?c1' = "stopTimer (ls_resubscribeTimer s1) (put_sub r ?s2 c1)"
  have r2: "replaced r c ?s2 ?c1'" by (rule replaced_quiet[OF replaced_again[OF s1(1) replaced_put] quiet_stopTimer])
  obtain c2 where c2: "resolveSubFutures e r None ?c1' = Some c2"
    "runHandler (on_subscribed (ls_events s)) [SubEvent r (SubscribedEvent (sb_Data res))] c2 = Some c'"
    using assms c1 o1 by (auto simp: moveToSubscribed_def Let_def split: bind_splits if_splits)
  have "fmlookup (lc_objs ?c1') r = Some ?s2" using r2 by (simp add: replaced_def)
  from resolveSubFutures_run[OF c2(1) this] obtain cq where cq: "quiet ?c1' cq" "c2 = put_sub r (?s2\<lparr>ls_subFutures := fmempty\<rparr>) cq" by blast
  have "replaced r c (?s2\<lparr>ls_subFutures := fmempty\<rparr>) c2"
    unfolding cq(2) by (rule replaced_again[OF replaced_quiet[OF r2 cq(1)] replaced_put])
  then show ?thesis using c2(2) s1 by (intro exI[of _ c2] exI[of _ "?s2\<lparr>ls_subFutures := fmempty\<rparr>"]) simp
qed

lemma moveToSubscribed_ok:
  assumes "moveToSubscribed e r res c = Some (frs, c')"
  shows "ok c c'"
proof -
  obtain s where s: "fmlookup (lc_objs c) r = Some s" using assms by (auto simp: moveToSubscribed_def split: bind_splits)
  show ?thesis
  proof (cases "ls_state s = SubStateSubscribing")
    case True
    then obtain res' where res: "res = Some res'" using assms s by (cases res) (auto simp: moveToSubscribed_def)
    from moveToSubscribed_run[OF assms[unfolded res] s True] obtain c3 s3 where
      r: "replaced r c s3 c3" "ls_Channel s3 = ls_Channel s" "ls_events s3 = ls_events s" "ls_state s3 = SubStateSubscribed"
      "runHandler (on_subscribed (ls_events s)) [SubEvent r (SubscribedEvent (sb_Data res'))] c3 = Some c'" by blast
    show ?thesis
      by (rule ok_move'[OF s r(2,3) _ _ _ _ _ _ r(5)]) (use r(1,4) True in \<open>simp_all add: replaced_def all_handlers_def\<close>)
  next
    case False
    then show ?thesis using assms s by (simp add: moveToSubscribed_def)
  qed
qed

lemma sub_pubs_frame_ok:
  assumes "sub_pubs_frame r pubs c = Some (frs, c')"
  shows "ok c c'"
proof (cases pubs)
  case (Cons pub rest)
  obtain s where s: "fmlookup (lc_objs c) r = Some s" using assms by (auto simp: sub_pubs_frame_def Cons split: bind_splits)
  show ?thesis
  proof (cases "ls_state s = SubStateSubscribed")
    case True
    then have "runHandler (on_publication (ls_events s)) [SubEvent r (PublicationEvent (lib_pubFromProto pub))] c = Some c'"
      using assms s by (auto simp: sub_pubs_frame_def Cons split: bind_splits)
    then show ?thesis by (rule ok_sub_event[OF _ s]) (simp_all add: True all_handlers_def)
  next
    case False
    then show ?thesis using assms s by (simp add: sub_pubs_frame_def Cons)
  qed
qed (use assms in \<open>simp add: sub_pubs_frame_def\<close>)

lemma sub_handlePublication_ok:
  assumes "sub_handlePublication r pub c = Some c'"
  shows "ok c c'"
proof -
  obtain s where s: "fmlookup (lc_objs c) r = Some s" using assms by (auto simp: sub_handlePublication_def split: bind_splits)
  show ?thesis
  proof (cases "ls_state s = SubStateSubscribed")
    case True
    then have "runHandler (on_publication (ls_events s)) [SubEvent r (PublicationEvent (lib_pubFromProto pub))] c = Some c'"
      using assms s by (simp add: sub_handlePublication_def)
    then show ?thesis by (rule ok_sub_event[OF _ s]) (simp_all add: True all_handlers_def)
  next
    case False
    then show ?thesis using assms s by (simp add: sub_handlePublication_def)
  qed
qed

text \<open>Running an operation that returns no frames inside one that may.\<close>

lemma no_frames: "map_option (Pair []) x = Some (frs, c') \<longleftrightarrow> x = Some c' \<and> frs = []"
  by auto

lemma subscribeError_ok:
  assumes "subscribeError r err c = Some (frs, c')"
  shows "ok c c'"
  using assms quiet_ok[OF quiet_spawn] by (auto simp: subscribeError_def split: bind_splits if_splits)

lemma subscribe_failed_ok:
  assumes "subscribe_failed e r err c = Some c'"
  shows "ok c c'"
proof (cases "\<exists>code message. err = ServerError code message")
  case True
  then obtain code message where err: "err = ServerError code message" by blast
  show ?thesis
  proof (cases "code = 109")
    case True
    then obtain s where s: "fmlookup (lc_objs c) r = Some s" "scheduleResubscribe e r (put_sub r (s\<lparr>ls_token := ''''\<rparr>) c) = Some c'"
      using assms by (auto simp: subscribe_failed_def err split: bind_splits)
    have "ok c (put_sub r (s\<lparr>ls_token := ''''\<rparr>) c)" by (rule ok_put[OF s(1)]) simp_all
    then show ?thesis by (rule ok_trans[OF _ scheduleResubscribe_ok[OF s(2)]])
  next
    case False
    then obtain c1 where "resolveSubFutures e r (Some err) c = Some c1" "sub_unsubscribe e r code message False c1 = Some c'"
      using assms by (auto simp: subscribe_failed_def err split: bind_splits)
    then show ?thesis using ok_trans resolveSubFutures_ok sub_unsubscribe_ok by meson
  qed
next
  case False
  then have "scheduleResubscribe e r c = Some c'" using assms by (cases err) (auto simp: subscribe_failed_def)
  then show ?thesis by (rule scheduleResubscribe_ok)
qed

lemma resubscribe_send_ok:
  assumes "resubscribe_send e r token c = Some c'"
  shows "ok c c'"
proof -
  obtain s where s: "fmlookup (lc_objs c) r = Some s" using assms by (auto simp: resubscribe_send_def split: bind_splits)
  obtain x c1 where x: "sendSubscribe e (ls_Channel s) (ls_data s) token (ls_joinLeave s) r c = (x, c1)" by fastforce
  have "ok c c1" using quiet_ok[OF quiet_sendSubscribe] x by (metis snd_conv)
  moreover have "ok c1 c' \<or> c' = c"
  proof (cases "ls_state s \<noteq> SubStateSubscribing")
    case False
    then show ?thesis using assms s x scheduleResubscribe_ok by (cases x) (auto simp: resubscribe_send_def)
  qed (use assms s in \<open>simp add: resubscribe_send_def\<close>)
  ultimately show ?thesis using ok_trans by auto
qed

lemma resubscribe_token_ok:
  assumes "resubscribe_send e r token (put_sub r (s\<lparr>ls_token := token\<rparr>) c) = Some c'" "fmlookup (lc_objs c) r = Some s"
  shows "ok c c'"
proof -
  have "ok c (put_sub r (s\<lparr>ls_token := token\<rparr>) c)" by (rule ok_put[OF assms(2)]) simp_all
  then show ?thesis by (rule ok_trans[OF _ resubscribe_send_ok[OF assms(1)]])
qed

lemma sub_resubscribe_ok:
  assumes "sub_resubscribe e r c = Some (frs, c')"
  shows "ok c c'"
  using assms
  by (auto simp: sub_resubscribe_def no_frames split: bind_splits if_splits sum.splits
      dest: sub_unsubscribe_ok subscribeError_ok resubscribe_send_ok resubscribe_token_ok)

lemma handleUnsubscribe_push_ok:
  assumes "handleUnsubscribe_push e r u c = Some (frs, c')" "lc_state c \<noteq> StateClosed"
  shows "ok c c'"
proof (cases "u_Code u < 2500")
  case True
  then have "sub_moveToUnsubscribed r (u_Code u) (u_Reason u) c = Some c'" using assms by (auto simp: handleUnsubscribe_push_def)
  then show ?thesis by (rule sub_moveToUnsubscribed_ok)
next
  case False
  then obtain c1 where c1: "sub_moveToSubscribing r (u_Code u) (u_Reason u) c = Some c1" "sub_resubscribe e r c1 = Some (frs, c')"
    using assms by (auto simp: handleUnsubscribe_push_def split: bind_splits)
  show ?thesis by (rule ok_trans[OF sub_moveToSubscribing_ok[OF c1(1) assms(2)] sub_resubscribe_ok[OF c1(2)]])
qed

lemma sub_resubscribe_locked_ok:
  assumes "sub_resubscribe_locked e r c = Some c'"
  shows "ok c c'"
proof -
  obtain frs c1 where c1: "sub_resubscribe e r c = Some (frs, c1)" using assms by (auto simp: sub_resubscribe_locked_def split: bind_splits)
  have "c' = c1 \<or> (\<exists>err. subscribe_failed e r err c1 = Some c')"
    using assms c1 by (auto simp: sub_resubscribe_locked_def split: list.splits frame.splits bind_splits if_splits)
  then have "ok c1 c'" using subscribe_failed_ok by auto
  then show ?thesis by (rule ok_trans[OF sub_resubscribe_ok[OF c1]])
qed

lemma lib_resubscribe_ok: "lib_resubscribe e c = Some c' \<Longrightarrow> ok c c'"
  unfolding lib_resubscribe_def by (erule iter_ok) (auto split: option.splits intro: sub_resubscribe_locked_ok)

lemma sub_refresh_failed_ok: "sub_refresh_failed e r err c = Some c' \<Longrightarrow> ok c c'"
  by (cases err) (auto simp: sub_refresh_failed_def intro: sub_unsubscribe_ok scheduleSubRefresh_ok)

lemma sub_refresh_cb_ok: "sub_refresh_cb r res c = Some (frs, c') \<Longrightarrow> ok c c'"
  by (auto simp: sub_refresh_cb_def no_frames split: sum.splits option.splits if_splits intro: scheduleSubRefresh_ok)

lemma sub_refresh_error_ok:
  assumes "sub_emitError r err c = Some c1" "scheduleSubRefresh r ttl c1 = Some c'"
  shows "ok c c'"
  by (rule ok_trans[OF sub_emitError_ok[OF assms(1)] scheduleSubRefresh_ok[OF assms(2)]])

lemma sub_refresh_timer_ok:
  assumes "sub_refresh_timer e r c = Some c'"
  shows "ok c c'"
  using assms
  by (auto simp: sub_refresh_timer_def quiet_ok split: bind_splits if_splits sum.splits
      dest: sub_unsubscribe_ok sub_refresh_error_ok)

lemma sub_future_ok:
  assumes "sub_future e r i c = Some c'"
  shows "ok c c'"
proof -
  obtain s where s: "fmlookup (lc_objs c) r = Some s" using assms by (auto simp: sub_future_def split: bind_splits)
  let ?c1 = "put_sub r (s\<lparr>ls_subFutures := fmdrop i (ls_subFutures s)\<rparr>) c"
  have o1: "ok c ?c1" by (rule ok_put[OF s]) simp_all
  have "c' = c \<or> (\<exists>f. c' = sub_fn_call e (ls_Channel s) f (Some ErrTimeout) ?c1)"
    using assms s by (auto simp: sub_future_def split: option.splits)
  then show ?thesis using ok_trans[OF o1 quiet_ok[OF quiet_sub_fn_call]] by auto
qed

lemma onSubscribe_ok:
  assumes "onSubscribe r f c = Some c'"
  shows "ok c c'"
proof -
  obtain s where s: "fmlookup (lc_objs c) r = Some s" using assms by (auto simp: onSubscribe_def split: bind_splits)
  let ?c1 = "put_sub r (s\<lparr>ls_futureID := ls_futureID s + 1, ls_subFutures := fmupd (ls_futureID s + 1) f (ls_subFutures s)\<rparr>) c"
  have o1: "ok c ?c1" by (rule ok_put[OF s]) simp_all
  have "(\<exists>frs. c' = spawn frs c) \<or> (\<exists>frs. c' = spawn frs ?c1)"
    using assms s by (auto simp: onSubscribe_def Let_def split: if_splits)
  then show ?thesis using quiet_ok[OF quiet_spawn] ok_trans[OF o1 quiet_ok[OF quiet_spawn]] by auto
qed

section \<open>Operations on the connection\<close>

lemma fold_spawn:
  "\<exists>ths. fold (\<lambda>i c. case fmlookup m i of None \<Rightarrow> c | Some x \<Rightarrow> spawn (g x) c) xs c = c\<lparr>lc_threads := lc_threads c @ ths\<rparr>"
proof (induction xs arbitrary: c)
  case Nil
  show ?case by (rule exI[of _ "[]"]) simp
next
  case (Cons x xs)
  let ?c = "case fmlookup m x of None \<Rightarrow> c | Some x \<Rightarrow> spawn (g x) c"
  obtain ths where "fold (\<lambda>i c. case fmlookup m i of None \<Rightarrow> c | Some x \<Rightarrow> spawn (g x) c) xs ?c = ?c\<lparr>lc_threads := lc_threads ?c @ ths\<rparr>"
    using Cons by blast
  then show ?case
    by (cases "fmlookup m x") (auto simp: spawn_def intro: exI[of _ ths] exI[of _ "g y # ths" for y])
qed

lemma clearConnectedState_fields:
  "lc_state (clearConnectedState e c) = lc_state c" "lc_transport (clearConnectedState e c) = lc_transport c"
  "lc_reconnectTimer (clearConnectedState e c) = None" "lc_refreshTimer (clearConnectedState e c) = None"
  "lc_closeCh (clearConnectedState e c) = None" "lc_requests (clearConnectedState e c) = fmempty"
  "lc_CBQueue (clearConnectedState e c) = lc_CBQueue c" "lc_subs (clearConnectedState e c) = lc_subs c"
  "lc_objs (clearConnectedState e c) = lc_objs c" "lc_log (clearConnectedState e c) = lc_log c"
  "lc_next (clearConnectedState e c) = lc_next c" "lc_events (clearConnectedState e c) = lc_events c"
proof -
  define c1 where "c1 = (stopTimer (lc_reconnectTimer c) c)\<lparr>lc_reconnectTimer := None\<rparr>"
  define c2 where "c2 = (stopTimer (lc_refreshTimer c1) c1)\<lparr>lc_refreshTimer := None\<rparr>"
  define c3 where "c3 = (case lc_closeCh c2 of None \<Rightarrow> c2 | Some k \<Rightarrow> c2\<lparr>lc_closed := lc_closed c2 @ [k], lc_closeCh := None\<rparr>)"
  have c3': "lc_state c3 = lc_state c \<and> lc_transport c3 = lc_transport c \<and> lc_reconnectTimer c3 = None \<and> lc_refreshTimer c3 = None \<and>
      lc_closeCh c3 = None \<and> lc_CBQueue c3 = lc_CBQueue c \<and> lc_subs c3 = lc_subs c \<and> lc_objs c3 = lc_objs c \<and> lc_log c3 = lc_log c \<and>
      lc_next c3 = lc_next c \<and> lc_events c3 = lc_events c"
    by (simp add: c3_def c2_def c1_def stopTimer_def split: option.split)
  have "clearConnectedState e c = fold (\<lambda>i c4. case fmlookup (lc_requests c3) i of None \<Rightarrow> c4 | Some cb \<Rightarrow> spawn [Callback cb ErrClientDisconnected] c4)
      (le_ids32 e (fmdom (lc_requests c3))) (c3\<lparr>lc_requests := fmempty\<rparr>)"
    unfolding clearConnectedState_def Let_def c3_def c2_def c1_def ..
  then obtain ths where "clearConnectedState e c = (c3\<lparr>lc_requests := fmempty\<rparr>)\<lparr>lc_threads := lc_threads (c3\<lparr>lc_requests := fmempty\<rparr>) @ ths\<rparr>"
    using fold_spawn[of "\<lambda>cb. [Callback cb ErrClientDisconnected]" "lc_requests c3" "le_ids32 e (fmdom (lc_requests c3))" "c3\<lparr>lc_requests := fmempty\<rparr>"]
    by metis
  then show "lc_state (clearConnectedState e c) = lc_state c" "lc_transport (clearConnectedState e c) = lc_transport c"
    "lc_reconnectTimer (clearConnectedState e c) = None" "lc_refreshTimer (clearConnectedState e c) = None"
    "lc_closeCh (clearConnectedState e c) = None" "lc_requests (clearConnectedState e c) = fmempty"
    "lc_CBQueue (clearConnectedState e c) = lc_CBQueue c" "lc_subs (clearConnectedState e c) = lc_subs c"
    "lc_objs (clearConnectedState e c) = lc_objs c" "lc_log (clearConnectedState e c) = lc_log c"
    "lc_next (clearConnectedState e c) = lc_next c" "lc_events (clearConnectedState e c) = lc_events c"
    using c3' by simp_all
qed

lemma resolveConnectFutures_run: "\<exists>c1. quiet c c1 \<and> resolveConnectFutures e err c = c1\<lparr>lc_connectFutures := fmempty\<rparr>"
proof -
  define f where "f = (\<lambda>i c1. case fmlookup (lc_connectFutures c) i of None \<Rightarrow> c1 | Some g \<Rightarrow> connect_fn_call e g err c1)"
  have "quiet c (fold f (le_ids64 e (fmdom (lc_connectFutures c))) c)" by (rule fold_quiet) (simp add: f_def split: option.split)
  then show ?thesis unfolding resolveConnectFutures_def f_def[symmetric] by blast
qed

text \<open>Leaving a connection: the common part of \<open>moveToDisconnected\<close> and \<open>moveToConnecting\<close>.\<close>

lemma leave_inv:
  fixes e c st
  defines "c1 \<equiv> resolveConnectFutures e (Some ErrClientDisconnected) (clearConnectedState e ((dropTransport c)\<lparr>lc_state := st\<rparr>))"
  assumes inv: "lib_inv c" and st: "st = StateDisconnected \<or> st = StateConnecting" and opn: "lc_state c \<noteq> StateClosed"
  shows "lib_inv c1" "lc_state c1 = st" "lc_events c1 = lc_events c" "lc_transport c1 = None" "lc_connectFutures c1 = fmempty"
    "lc_subs c1 = lc_subs c" "lc_objs c1 = lc_objs c" "lc_log c1 = lc_log c"
proof -
  let ?c0 = "clearConnectedState e ((dropTransport c)\<lparr>lc_state := st\<rparr>)"
  have d: "lc_transport (dropTransport c) = None" "lc_CBQueue (dropTransport c) = lc_CBQueue c" "lc_subs (dropTransport c) = lc_subs c"
    "lc_objs (dropTransport c) = lc_objs c" "lc_log (dropTransport c) = lc_log c" "lc_next (dropTransport c) = lc_next c"
    "lc_events (dropTransport c) = lc_events c"
    by (simp_all add: dropTransport_def closeTransport_def split: option.split)
  obtain cq where q: "quiet ?c0 cq" "c1 = cq\<lparr>lc_connectFutures := fmempty\<rparr>" using resolveConnectFutures_run unfolding c1_def by blast
  have f: "lc_state cq = st" "lc_transport cq = None" "lc_reconnectTimer cq = None" "lc_refreshTimer cq = None" "lc_closeCh cq = None"
    "lc_CBQueue cq = lc_CBQueue c" "lc_subs cq = lc_subs c" "lc_objs cq = lc_objs c" "lc_log cq = lc_log c" "lc_next c \<le> lc_next cq"
    "lc_events cq = lc_events c" "\<forall>i t. fmlookup (lc_requests cq) i \<noteq> Some (ConnectCb t)"
    using q(1) by (auto simp: quiet_unfold clearConnectedState_fields d)
  have "lc_CBQueue c" using inv opn by (simp add: lib_inv_def lib_conn_inv_def)
  then have "lib_conn_inv c1" using st by (auto simp: lib_conn_inv_def q(2) f)
  moreover have "trace_inv c1" using inv traces_next f(10) by (auto simp: lib_inv_def q(2) f)
  moreover have "closed_inv c1" using st by (auto simp: closed_inv_def q(2) f)
  ultimately show "lib_inv c1" by (simp add: lib_inv_def)
  show "lc_state c1 = st" "lc_events c1 = lc_events c" "lc_transport c1 = None" "lc_connectFutures c1 = fmempty"
    "lc_subs c1 = lc_subs c" "lc_objs c1 = lc_objs c" "lc_log c1 = lc_log c"
    by (simp_all add: q(2) f)
qed

lemma sub_log_map: "(\<And>x. sub_event_of r (f x) = None) \<Longrightarrow> sub_log r (map f xs) = []"
  by (simp add: sub_log_def)

lemma server_events [simp]:
  "sub_log r (map ServerSubscribingEvent chs) = []" "sub_log r (map ServerUnsubscribedEvent chs) = []"
  "sub_log r (map (\<lambda>pub. ServerPublicationEvent ch (g pub)) pubs) = []"
  by (rule sub_log_map; simp add: sub_event_of_def)+

lemma moves_ok:
  assumes "iter (\<lambda>r. sub_moveToSubscribing r code reason) rs c = Some c'" "lc_state c \<noteq> StateClosed"
  shows "ok c c'"
  using assms
proof (induction rs arbitrary: c)
  case (Cons r rs)
  then obtain c1 where c1: "sub_moveToSubscribing r code reason c = Some c1" "iter (\<lambda>r. sub_moveToSubscribing r code reason) rs c1 = Some c'"
    by (auto split: bind_splits)
  have o: "ok c c1" by (rule sub_moveToSubscribing_ok[OF c1(1) Cons.prems(2)])
  then have "lc_state c1 \<noteq> StateClosed" using Cons.prems(2) by (simp add: ok_def same_conn_def)
  from ok_trans[OF o Cons.IH[OF c1(2) this]] show ?case .
qed simp

lemma moveToDisconnected_inv:
  assumes "moveToDisconnected e code reason c = Some c'" "lib_inv c"
  shows "lib_inv c' \<and> (lc_state c' = StateDisconnected \<or> lc_state c' = StateClosed) \<and> (lc_state c \<noteq> StateClosed \<longrightarrow> lc_state c' = StateDisconnected)"
proof (cases "lc_state c = StateDisconnected \<or> lc_state c = StateClosed")
  case True
  then have "c' = c" using assms(1) by (simp add: moveToDisconnected_def)
  then show ?thesis using True assms(2) by auto
next
  case False
  define c1 where "c1 = resolveConnectFutures e (Some ErrClientDisconnected) (clearConnectedState e ((dropTransport c)\<lparr>lc_state := StateDisconnected\<rparr>))"
  have l: "lib_inv c1" "lc_state c1 = StateDisconnected" unfolding c1_def by (rule leave_inv[OF assms(2)]; use False in simp)+
  obtain c2 c3 where s: "iter (\<lambda>r. sub_moveToSubscribing r subscribingTransportClosed ''transport closed'') (subs_to_move e c1) c1 = Some c2"
    "runHandler (lc_state c = StateConnected \<and> on_serverSubscribing (lc_events c)) (map ServerSubscribingEvent (le_strings e (lc_serverSubs c1))) c2 = Some c3"
    "runHandler (on_disconnected (lc_events c)) [DisconnectedEvent code reason] c3 = Some c'"
    using assms(1) False unfolding moveToDisconnected_def Let_def c1_def[symmetric] by (auto split: bind_splits)
  have "ok c1 c2" using moves_ok[OF s(1)] l(2) by simp
  moreover have "ok c2 c3" by (rule ok_event[OF s(2)]) simp
  moreover have "ok c3 c'" by (rule ok_event[OF s(3)]) (simp add: sub_log_def sub_event_of_def)
  ultimately have o: "ok c1 c'" using ok_trans by blast
  then have "lc_state c' = StateDisconnected" using l(2) by (simp add: ok_def same_conn_def)
  then show ?thesis using ok_inv[OF o l(1)] by simp
qed

lemma moveToConnecting_inv:
  assumes "moveToConnecting e code reason c = Some (frs, c')" "lib_inv c"
  shows "lib_inv c'"
proof (cases "lc_state c = StateDisconnected \<or> lc_state c = StateClosed \<or> lc_state c = StateConnecting")
  case True
  then show ?thesis using assms by (simp add: moveToConnecting_def)
next
  case False
  define c1 where "c1 = resolveConnectFutures e (Some ErrClientDisconnected) (clearConnectedState e ((dropTransport c)\<lparr>lc_state := StateConnecting\<rparr>))"
  have l: "lib_inv c1" "lc_state c1 = StateConnecting" unfolding c1_def by (rule leave_inv[OF assms(2)]; use False in simp)+
  obtain c2 where s: "iter (\<lambda>r. sub_moveToSubscribing r subscribingTransportClosed ''transport closed'') (subs_to_move e c1) c1 = Some c2"
    "runHandler (on_serverSubscribing (lc_events c)) (map ServerSubscribingEvent (le_strings e (lc_serverSubs c1))) c2 = Some c'"
    using assms(1) False unfolding moveToConnecting_def Let_def c1_def[symmetric] by (auto split: bind_splits)
  have "ok c1 c2" using moves_ok[OF s(1)] l(2) by simp
  moreover have "ok c2 c'" by (rule ok_event[OF s(2)]) simp
  ultimately have "ok c1 c'" using ok_trans by blast
  then show ?thesis using ok_inv l(1) by blast
qed

lemma handleDisconnect_inv:
  assumes "handleDisconnect e d c = Some (frs, c')" "lib_inv c"
  shows "lib_inv c'"
  using assms moveToConnecting_inv moveToDisconnected_inv by (auto simp: handleDisconnect_def Let_def split: if_splits)

text \<open>\<open>moveToClosed\<close> unsubscribes every subscription of the table.\<close>

lemma unsubscribed_objs:
  assumes "sub_moveToUnsubscribed r code reason c = Some c'" "fmlookup (lc_objs c') r' = Some s'"
  shows "if r' = r then ls_state s' = SubStateUnsubscribed else fmlookup (lc_objs c) r' = Some s'"
proof -
  obtain s where s: "fmlookup (lc_objs c) r = Some s" using assms(1) by (auto simp: sub_moveToUnsubscribed_def split: bind_splits)
  have "lc_objs c' = fmupd r (s\<lparr>ls_resubscribeAttempts := 0, ls_state := SubStateUnsubscribed\<rparr>) (lc_objs c)"
    using assms(1) s by (auto simp: sub_moveToUnsubscribed_def Let_def runHandler_def split: if_splits)
  then show ?thesis using assms(2) by auto
qed

lemma unsubscribes_all:
  assumes "iter (\<lambda>r. sub_moveToUnsubscribed r code reason) rs c = Some c'" "fmlookup (lc_objs c') r = Some s"
  shows "ls_state s = SubStateUnsubscribed \<or> r \<notin> set rs \<and> fmlookup (lc_objs c) r = Some s"
  using assms
proof (induction rs arbitrary: c)
  case (Cons x xs)
  then obtain c1 where c1: "sub_moveToUnsubscribed x code reason c = Some c1" "iter (\<lambda>r. sub_moveToUnsubscribed r code reason) xs c1 = Some c'"
    by (auto split: bind_splits)
  from Cons.IH[OF c1(2) Cons.prems(2)] show ?case using unsubscribed_objs[OF c1(1), of r s] by (auto split: if_splits)
qed simp

lemma moveToClosed_inv:
  assumes "moveToClosed e c = Some c'" "lib_inv c" "lc_state c = StateDisconnected" "env_ok e"
  shows "lib_inv c' \<and> lc_state c' = StateClosed"
proof -
  let ?c1 = "c\<lparr>lc_state := StateClosed\<rparr>"
  obtain c2 c3 where s: "iter (\<lambda>r. sub_moveToUnsubscribed r unsubscribedClientClosed ''client closed'') (subs_to_move e ?c1) ?c1 = Some c2"
    "runHandler (on_serverUnsubscribed (lc_events c)) (map ServerUnsubscribedEvent (le_strings e (lc_serverSubs c))) c2 = Some c3"
    "lc_CBQueue c3" "c' = c3\<lparr>lc_CBQueue := False\<rparr>"
    using assms(1,3) by (auto simp: moveToClosed_def Let_def split: bind_splits if_splits)
  have o2: "ok ?c1 c2" by (rule iter_ok[OF s(1)]) (rule sub_moveToUnsubscribed_ok)
  have o3: "ok c2 c3" by (rule ok_event[OF s(2)]) simp
  have o: "ok ?c1 c3" by (rule ok_trans[OF o2 o3])
  have sc: "same_conn ?c1 c3" using o by (simp add: ok_def)
  have tr: "trace_inv c3" using o assms(2) by (simp add: ok_def lib_inv_def)
  have conn: "lib_conn_inv c'" using sc assms(2,3) unfolding s(4) lib_inv_def lib_conn_inv_def same_conn_def by auto
  have objs: "lc_objs c3 = lc_objs c2" using s(2) by (auto simp: runHandler_def split: if_splits)
  have "closed_inv c'"
    unfolding closed_inv_def
  proof (intro impI allI)
    fix ch r s0 assume a: "fmlookup (lc_subs c') ch = Some r" "fmlookup (lc_objs c') r = Some s0"
    then have a': "fmlookup (lc_subs c) ch = Some r" "fmlookup (lc_objs c2) r = Some s0" using sc objs by (simp_all add: s(4) same_conn_def)
    show "ls_state s0 = SubStateUnsubscribed"
    proof (rule ccontr)
      assume n: "ls_state s0 \<noteq> SubStateUnsubscribed"
      then have "r \<notin> set (subs_to_move e ?c1)" "fmlookup (lc_objs c) r = Some s0" using unsubscribes_all[OF s(1) a'(2)] by auto
      moreover have "ch \<in> set (le_strings e (fmdom (lc_subs c)))" using assms(4) a'(1) by (simp add: env_ok_def fmdomI)
      then have "r \<in> (\<lambda>ch. the (fmlookup (lc_subs c) ch)) ` set (le_strings e (fmdom (lc_subs c)))" using a'(1) by force
      ultimately show False using n by (auto simp: subs_to_move_def)
    qed
  qed
  then have "lib_inv c'" using conn tr by (simp add: lib_inv_def s(4))
  moreover have "lc_state c' = StateClosed" using sc by (simp add: s(4) same_conn_def)
  ultimately show ?thesis ..
qed

lemma lib_Close_inv:
  assumes "lib_Close e c = Some c'" "lib_inv c" "env_ok e"
  shows "lib_inv c' \<and> lc_state c' = StateClosed"
proof (cases "lc_state c = StateClosed")
  case True
  then show ?thesis using assms by (simp add: lib_Close_def)
next
  case False
  then obtain c1 where c1: "moveToDisconnected e disconnectedDisconnectCalled ''disconnect called'' c = Some c1" "moveToClosed e c1 = Some c'"
    using assms(1) by (auto simp: lib_Close_def split: bind_splits)
  show ?thesis using moveToClosed_inv[OF c1(2)] moveToDisconnected_inv[OF c1(1) assms(2)] False assms(3) by simp
qed

text \<open>The rest of connecting.\<close>

lemma emit_ok:
  assumes "emit ev c = Some c'"
  shows "ok c c'"
proof (cases "\<exists>r se. ev = SubEvent r se")
  case True
  then show ?thesis using assms by (auto simp: emit_def runHandler_def)
next
  case False
  then have "\<forall>r. sub_log r [ev] = []" by (auto simp: sub_log_def sub_event_of_def split: lib_event.splits)
  then show ?thesis using assms ok_event unfolding emit_def by blast
qed

lemma scheduleReconnect_inv:
  assumes "lib_inv c" "lc_state c = StateConnecting"
  shows "lib_inv (scheduleReconnect e c)"
proof -
  define c1 where "c1 = snd (afterFunc (le_delay e (lc_reconnectAttempts c + 1)) ReconnectTimer (c\<lparr>lc_reconnectAttempts := lc_reconnectAttempts c + 1\<rparr>))"
  have "quiet c (c\<lparr>lc_reconnectAttempts := lc_reconnectAttempts c + 1\<rparr>)" by (simp add: quiet_unfold)
  then have q: "quiet c c1" unfolding c1_def by (rule quiet_trans[OF _ quiet_afterFunc])
  have i: "lib_inv c1" by (rule ok_inv[OF quiet_ok[OF q] assms(1)])
  have st: "lc_state c1 = StateConnecting" using quiet_state[OF q] assms(2) by simp
  obtain i where "scheduleReconnect e c = c1\<lparr>lc_reconnectTimer := Some i\<rparr>"
    by (simp add: scheduleReconnect_def Let_def c1_def afterFunc_def)
  then show ?thesis using i st by (simp add: lib_inv_def lib_conn_inv_def closed_inv_def)
qed

lemma quiet_inv: "quiet c c' \<Longrightarrow> lib_inv c \<Longrightarrow> lib_inv c'"
  by (rule ok_inv[OF quiet_ok])

lemma start_transport_inv:
  assumes "start_transport e t c = Some c'" "lib_inv c"
  shows "lib_inv c'"
proof (cases "lc_state c = StateConnecting")
  case True
  define c0 where "c0 = spawn [Reader t] (c\<lparr>lc_refreshRequired := False, lc_transport := Some t\<rparr>)"
  let ?i = "lc_cmdID c0 + 1"
  define c1 where "c1 = addRequest ?i (ConnectCb t) (c0\<lparr>lc_cmdID := ?i\<rparr>)"
  have i1: "lib_inv c1"
    using assms(2) True by (auto simp: c1_def c0_def addRequest_def spawn_def lib_inv_def lib_conn_inv_def closed_inv_def)
  have st1: "lc_state c1 = StateConnecting" using True by (simp add: c1_def c0_def addRequest_def spawn_def)
  obtain x c2 where x: "sendConnect e t c0 = (x, c2)" by fastforce
  have "quiet c1 c2"
  proof -
    obtain y cy where y: "lib_send e (?i, ConnectParams (lc_token c0) (lg_Name (lc_config c0)) (lc_data c0) (lc_serverSubs c0 \<noteq> {||})) c1 = (y, cy)"
      by fastforce
    then have "quiet c1 cy" using quiet_send by (metis snd_conv)
    then show ?thesis using x y quiet_trans[OF _ quiet_spawn]
      by (auto simp: sendConnect_def sendCommand_def nextCmdID_def sendAsync_def c1_def split: option.splits)
  qed
  then have i2: "lib_inv c2" and st2: "lc_state c2 = StateConnecting" using quiet_inv[OF _ i1] quiet_state st1 by auto
  have "c' = c2 \<or> c' = scheduleReconnect e (closeTransport t c2)"
    using assms(1) True x by (auto simp: start_transport_def c0_def split: option.splits if_splits)
  moreover have "lib_inv (scheduleReconnect e (closeTransport t c2))"
    by (rule scheduleReconnect_inv[OF quiet_inv[OF quiet_closeTransport i2]]) (simp add: quiet_state[OF quiet_closeTransport] st2)
  ultimately show ?thesis using i2 by auto
next
  case False
  then show ?thesis using assms quiet_inv[OF quiet_closeTransport] by (auto simp: start_transport_def)
qed

lemma startReconnecting_inv:
  assumes "startReconnecting e c = Some (frs, c')" "lib_inv c"
  shows "lib_inv c'"
proof -
  let ?c1 = "c\<lparr>lc_round := lc_round c + 1\<rparr>"
  let ?c2 = "?c1\<lparr>lc_next := Suc (lc_next c)\<rparr>"
  have q: "lib_inv ?c1" "lib_inv ?c2" "lib_inv (?c2\<lparr>lc_token := tk\<rparr>)" for tk
    using quiet_inv[OF _ assms(2)] by (auto simp: quiet_unfold)
  have "c' = ?c1 \<or> c' = ?c2 \<or> moveToDisconnected e disconnectedUnauthorized ''unauthorized'' ?c2 = Some c' \<or>
      (\<exists>tk. start_transport e (lc_next c) (?c2\<lparr>lc_token := tk\<rparr>) = Some c') \<or> start_transport e (lc_next c) ?c2 = Some c'"
    using assms(1) unfolding startReconnecting_def Let_def
    by (auto simp: no_frames split: if_splits bind_splits sum.splits)
  then show ?thesis
    using q moveToDisconnected_inv[OF _ q(2)] start_transport_inv[OF _ q(3)] start_transport_inv[OF _ q(2)] by blast
qed

lemma connect_cb_inv:
  assumes "connect_cb e t res c = Some (frs, c')" "lib_inv c" "\<forall>x. res = Inr x \<longrightarrow> lc_transport c \<noteq> None"
  shows "lib_inv c'"
proof (cases "lc_state c = StateConnecting \<and> (\<exists>x. res = Inr (Some x))")
  case True
  then obtain r where r: "res = Inr (Some r)" by blast
  have st: "lc_state c = StateConnecting" using True by blast
  have tr: "lc_transport c \<noteq> None" using assms(3) r by blast
  let ?c1 = "c\<lparr>lc_state := StateConnected\<rparr>"
  define c2 where "c2 = (if cx_Expires r then (case afterFunc (int (unat (cx_Ttl r)) * Second) RefreshTimer ?c1 of (i, c2) \<Rightarrow> c2\<lparr>lc_refreshTimer := Some i\<rparr>) else ?c1)"
  have f2: "lc_state c2 = StateConnected" "lc_transport c2 = lc_transport c" "lc_requests c2 = lc_requests c" "lc_CBQueue c2 = lc_CBQueue c"
    "lc_subs c2 = lc_subs c" "lc_objs c2 = lc_objs c" "lc_log c2 = lc_log c" "lc_next c \<le> lc_next c2"
    by (simp_all add: c2_def afterFunc_def)
  obtain cq where cq: "quiet c2 cq" "resolveConnectFutures e None c2 = cq\<lparr>lc_connectFutures := fmempty\<rparr>" using resolveConnectFutures_run by blast
  have c': "c' = cq\<lparr>lc_connectFutures := fmempty\<rparr>"
    using assms(1) st r unfolding connect_cb_def Let_def by (simp add: c2_def[symmetric] cq(2))
  have fq: "lc_state cq = StateConnected" "lc_transport cq = lc_transport c" "lc_CBQueue cq = lc_CBQueue c"
    "lc_subs cq = lc_subs c" "lc_objs cq = lc_objs c" "lc_log cq = lc_log c" "lc_next c \<le> lc_next cq"
    using cq(1) f2 by (auto simp: quiet_unfold)
  have "lc_CBQueue c" using assms(2) st by (simp add: lib_inv_def lib_conn_inv_def)
  then have "lib_conn_inv c'" using tr by (simp add: lib_conn_inv_def c' fq)
  moreover have "trace_inv c'" using assms(2) traces_next[OF _ fq(7)] by (simp add: lib_inv_def c' fq)
  moreover have "closed_inv c'" by (simp add: closed_inv_def c' fq)
  ultimately show ?thesis by (simp add: lib_inv_def)
next
  case False
  then have "c' = c" using assms(1) by (auto simp: connect_cb_def split: if_splits sum.splits option.splits)
  then show ?thesis using assms(2) by simp
qed

lemma connect_failed_inv:
  assumes "connect_failed e t err c = Some c'" "lib_inv c"
  shows "lib_inv c'"
proof -
  let ?c1 = "closeTransport t c"
  have i: "lib_inv ?c1" by (rule quiet_inv[OF quiet_closeTransport assms(2)])
  have j: "lib_inv (?c1\<lparr>lc_refreshRequired := True\<rparr>)" by (rule quiet_inv[OF _ i]) (simp add: quiet_unfold)
  have st: "lc_state (?c1\<lparr>lc_refreshRequired := True\<rparr>) = lc_state ?c1" by simp
  show ?thesis
  proof (cases "\<exists>code message. err = ServerError code message \<and> code \<noteq> 109")
    case True
    then obtain code message where "moveToDisconnected e code message ?c1 = Some c'"
      using assms(1) by (auto simp: connect_failed_def)
    then show ?thesis using moveToDisconnected_inv[OF _ i] by blast
  next
    case False
    then have "c' = ?c1 \<or> lc_state ?c1 = StateConnecting \<and> (c' = scheduleReconnect e ?c1 \<or> c' = scheduleReconnect e (?c1\<lparr>lc_refreshRequired := True\<rparr>))"
      using assms(1) by (cases err) (auto simp: connect_failed_def Let_def split: if_splits)
    then show ?thesis using i scheduleReconnect_inv[OF i] scheduleReconnect_inv[OF j] by auto
  qed
qed

lemma emit_inv: "emit ev c = Some c' \<Longrightarrow> lib_inv c \<Longrightarrow> lib_inv c'"
  by (rule ok_inv[OF emit_ok])

lemma quiet_serverSubs: "quiet c (c\<lparr>lc_serverSubs := A\<rparr>)"
  by (simp add: quiet_unfold)

lemma server_sub_frame_inv: "server_sub_frame channel subRes c = Some (frs, c') \<Longrightarrow> lib_inv c \<Longrightarrow> lib_inv c'"
  using emit_inv[OF _ quiet_inv[OF quiet_serverSubs]] by (auto simp: server_sub_frame_def split: bind_splits)

lemma server_pubs_frame_inv:
  assumes "server_pubs_frame channel pubs c = Some c'" "lib_inv c"
  shows "lib_inv c'"
proof (cases "on_serverPublication (lc_events c)")
  case True
  let ?c1 = "if pubs = [] then c else c\<lparr>lc_serverSubs := finsert channel (lc_serverSubs c)\<rparr>"
  have "runHandler True (map (\<lambda>pub. ServerPublicationEvent channel (lib_pubFromProto pub)) pubs) ?c1 = Some c'"
    using assms(1) True by (simp add: server_pubs_frame_def)
  then have "ok ?c1 c'" by (rule ok_event) simp
  moreover have "lib_inv ?c1" using assms(2) quiet_inv[OF quiet_serverSubs] by simp
  ultimately show ?thesis by (rule ok_inv)
qed (use assms in \<open>simp add: server_pubs_frame_def\<close>)

lemma server_gone_frame_inv:
  assumes "server_gone_frame e subs c = Some c'" "lib_inv c"
  shows "lib_inv c'"
proof -
  have "ok c c'"
    by (rule iter_ok[OF assms(1)[unfolded server_gone_frame_def]])
      (auto split: if_splits intro!: ok_event simp: sub_log_def sub_event_of_def)
  then show ?thesis by (rule ok_inv[OF _ assms(2)])
qed

lemma connect_done_inv:
  assumes "connect_done e ping t c = Some c'" "lib_inv c"
  shows "lib_inv c'"
proof -
  let ?c1 = "c\<lparr>lc_reconnectAttempts := 0\<rparr>"
  have i: "lib_inv ?c1" by (rule quiet_inv[OF _ assms(2)]) (simp add: quiet_unfold)
  have "c' = ?c1 \<or> lib_resubscribe e ?c1 = Some c' \<or> lib_resubscribe e (spawn [PingWait t] ?c1) = Some c'"
    using assms(1) by (auto simp: connect_done_def Let_def split: if_splits)
  then show ?thesis
    using i ok_inv[OF lib_resubscribe_ok i] ok_inv[OF lib_resubscribe_ok quiet_inv[OF quiet_spawn i]] by blast
qed

text \<open>Setting the refresh timer of a connected client.\<close>

lemma refreshTimer_inv:
  assumes "lib_inv c" "lc_state c = StateConnected"
  shows "lib_inv (case afterFunc d RefreshTimer c of (i, c1) \<Rightarrow> c1\<lparr>lc_refreshTimer := Some i\<rparr>)"
proof -
  obtain i c1 where a: "afterFunc d RefreshTimer c = (i, c1)" by fastforce
  have q: "quiet c c1" using quiet_afterFunc[of c d RefreshTimer] a by simp
  have "lib_inv c1" "lc_state c1 = StateConnected" using quiet_inv[OF q assms(1)] quiet_state[OF q] assms(2) by auto
  then show ?thesis by (simp add: a lib_inv_def lib_conn_inv_def closed_inv_def)
qed

lemma handleRefreshError_inv: "lib_inv c \<Longrightarrow> lib_inv (handleRefreshError c)"
  using refreshTimer_inv[of c "10 * Second"] by (simp add: handleRefreshError_def)

lemma sendRefresh_inv:
  assumes "sendRefresh e c = Some (frs, c')" "lib_inv c"
  shows "lib_inv c'"
proof -
  have "c' = c \<or> moveToDisconnected e disconnectedUnauthorized ''unauthorized'' c = Some c' \<or>
      (\<exists>tk. c' = snd (sendCommand e (RefreshParams tk) RefreshCb (c\<lparr>lc_token := tk\<rparr>)))"
    using assms(1) by (auto simp: sendRefresh_def split: if_splits sum.splits)
  moreover have "lib_inv (snd (sendCommand e (RefreshParams tk) RefreshCb (c\<lparr>lc_token := tk\<rparr>)))" for tk
  proof (rule quiet_inv[OF quiet_sendCommand])
    show "lib_inv (c\<lparr>lc_token := tk\<rparr>)" by (rule quiet_inv[OF _ assms(2)]) (simp add: quiet_unfold)
  qed simp
  ultimately show ?thesis using assms(2) moveToDisconnected_inv[OF _ assms(2)] by blast
qed

lemma refresh_cb_inv:
  assumes "refresh_cb e r c = Some (frs, c')" "lib_inv c"
  shows "lib_inv c'"
proof -
  have "c' = c \<or> (\<exists>code msg. moveToDisconnected e code msg c = Some c') \<or>
      lc_state c = StateConnected \<and> (\<exists>d. c' = (case afterFunc d RefreshTimer c of (i, c1) \<Rightarrow> c1\<lparr>lc_refreshTimer := Some i\<rparr>))"
    using assms(1) by (auto simp: refresh_cb_def split: if_splits sum.splits option.splits bind_splits)
  then show ?thesis using assms(2) moveToDisconnected_inv[OF _ assms(2)] refreshTimer_inv[OF assms(2)] by blast
qed

lemma run_callback_inv:
  assumes "run_callback e cb r c = Some (frs, c')" "lib_inv c" "\<forall>t x. cb = ConnectCb t \<longrightarrow> r = Inr x \<longrightarrow> lc_transport c \<noteq> None"
  shows "lib_inv c'"
proof (cases cb)
  case (ConnectCb t)
  then show ?thesis
    using assms connect_cb_inv[of e t "reply_result lr_Connect r" c frs c'] by (auto simp: run_callback_def reply_result_def split: sum.splits option.splits)
next
  case (SubscribeCb s)
  then have "ok c c'" using assms(1) subscribeError_ok moveToSubscribed_ok by (auto simp: run_callback_def split: sum.splits)
  then show ?thesis by (rule ok_inv[OF _ assms(2)])
next
  case RefreshCb
  then show ?thesis using assms refresh_cb_inv by (simp add: run_callback_def)
next
  case (SubRefreshCb s)
  then have "ok c c'" using assms(1) sub_refresh_cb_ok by (simp add: run_callback_def)
  then show ?thesis by (rule ok_inv[OF _ assms(2)])
next
  case UnsubscribeCb
  then have "quiet c c'" using assms(1) by (auto simp: run_callback_def split: sum.splits)
  then show ?thesis by (rule quiet_inv[OF _ assms(2)])
next
  case (PublishCb k)
  then have "quiet c c'" using assms(1) by (auto simp: run_callback_def split: sum.splits)
  then show ?thesis by (rule quiet_inv[OF _ assms(2)])
next
  case (PresenceCb k)
  then have "quiet c c'" using assms(1) by (auto simp: run_callback_def split: sum.splits bind_splits)
  then show ?thesis by (rule quiet_inv[OF _ assms(2)])
next
  case (PresenceStatsCb k)
  then have "quiet c c'" using assms(1) by (auto simp: run_callback_def split: sum.splits bind_splits)
  then show ?thesis by (rule quiet_inv[OF _ assms(2)])
qed

lemma handlePush_inv:
  assumes "handlePush e push c = Some (frs, c')" "lib_inv c" "lc_state c = StateConnected"
  shows "lib_inv c'"
proof -
  have u: "handleUnsubscribe_push e r u c = Some (frs, c') \<Longrightarrow> lib_inv c'" for r u
    using ok_inv[OF handleUnsubscribe_push_ok assms(2)] assms(3) by simp
  have p: "sub_handlePublication r pub c = Some c' \<Longrightarrow> lib_inv c'" for r pub
    by (rule ok_inv[OF sub_handlePublication_ok assms(2)])
  have em: "emit ev c = Some c' \<Longrightarrow> lib_inv c'" for ev by (rule emit_inv[OF _ assms(2)])
  have su: "handleServerSub ch data c = Some c' \<Longrightarrow> lib_inv c'" for ch data
    using assms(2) emit_inv[OF _ quiet_inv[OF quiet_serverSubs assms(2)]] by (auto simp: handleServerSub_def split: if_splits)
  have un: "handleServerUnsub ch c = Some c' \<Longrightarrow> lib_inv c'" for ch
    using assms(2) emit_inv[OF _ quiet_inv[OF quiet_serverSubs assms(2)]] by (auto simp: handleServerUnsub_def split: if_splits)
  have mc: "moveToConnecting e code reason c = Some (frs, c') \<Longrightarrow> lib_inv c'" for code reason
    by (rule moveToConnecting_inv[OF _ assms(2)])
  have md: "moveToDisconnected e code reason c = Some c' \<Longrightarrow> lib_inv c'" for code reason
    using moveToDisconnected_inv[OF _ assms(2)] by blast
  show ?thesis
    using assms(1,2) unfolding handlePush_def Let_def
    by (auto simp: no_frames split: option.splits if_splits dest: u p em su un mc md)
qed

lemma handle_inv:
  assumes "handle e reply c = Some (frs, c')" "lib_inv c"
  shows "lib_inv c'"
proof (cases "lr_Id reply > 0")
  case True
  show ?thesis
  proof (cases "fmlookup (lc_requests c) (lr_Id reply)")
    case None
    then show ?thesis using assms(1) True quiet_inv[OF quiet_removeRequest assms(2)] by (auto simp: handle_def)
  next
    case (Some cb)
    then obtain frs1 where r: "run_callback e cb (Inr reply) c = Some (frs1, c')"
      using assms(1) True by (auto simp: handle_def split: bind_splits)
    have "\<forall>t. cb = ConnectCb t \<longrightarrow> lc_transport c \<noteq> None" using assms(2) Some by (auto simp: lib_inv_def lib_conn_inv_def)
    then show ?thesis using run_callback_inv[OF r assms(2)] by blast
  qed
next
  case False
  have "lib_inv (c\<lparr>lc_delayPing := lc_delayPing c + 1\<rparr>)" by (rule quiet_inv[OF _ assms(2)]) (simp add: quiet_unfold)
  then show ?thesis using assms False handlePush_inv[OF _ assms(2)] by (auto simp: handle_def split: option.splits if_splits)
qed

section \<open>Every step keeps the invariant\<close>

lemma await_reply_inv:
  assumes "await_reply e i closeCh c = Some (frs, c')" "lib_inv c"
  shows "lib_inv c'"
proof -
  have "c' = c \<or> (\<exists>cb err frs1. run_callback e cb (Inl err) c = Some (frs1, c'))"
    using assms(1) by (auto simp: await_reply_def Let_def split: if_splits option.splits bind_splits)
  then show ?thesis using assms(2) run_callback_inv[OF _ assms(2)] by blast
qed

lemma read_once_inv:
  assumes "read_once e t c = Some (frs, c')" "lib_inv c"
  shows "lib_inv c'"
proof (cases "le_read e")
  case (Inl d)
  have "quiet c ((spawn [HandleDisconnect d] c)\<lparr>lc_readersGone := lc_readersGone c @ [t]\<rparr>)" by (simp add: quiet_unfold spawn_def)
  then show ?thesis using assms Inl quiet_inv by (auto simp: read_once_def)
next
  case (Inr reply)
  then show ?thesis using assms handle_inv[OF _ assms(2)] by (auto simp: read_once_def split: bind_splits)
qed

lemma ping_wait_quiet: "quiet c (snd (ping_wait e t c))"
proof -
  have "quiet c (c\<lparr>lc_delayPing := n\<rparr>)" for n by (simp add: quiet_unfold)
  then show ?thesis by (auto simp: ping_wait_def split: ping_choice.split)
qed

lemma connect_future_inv: "lib_inv c \<Longrightarrow> lib_inv (connect_future e i c)"
proof (cases "fmlookup (lc_connectFutures c) i")
  case (Some f)
  assume i: "lib_inv c"
  have "lib_inv (c\<lparr>lc_connectFutures := fmdrop i (lc_connectFutures c)\<rparr>)"
    using i by (auto simp: lib_inv_def lib_conn_inv_def closed_inv_def)
  then show ?thesis using quiet_inv[OF quiet_connect_fn_call] by (simp add: connect_future_def Some)
qed (simp add: connect_future_def)

lemma exec_inv:
  assumes "exec e fr c = Some (frs, c')" "lib_inv c"
  shows "lib_inv c'"
proof (cases fr)
  case (PingWait t)
  then have "c' = snd (ping_wait e t c)" using assms(1) by (metis exec.simps(17) option.inject snd_conv)
  then show ?thesis using quiet_inv[OF ping_wait_quiet assms(2)] by simp
next
  case (MoveToDisconnected code reason)
  then show ?thesis using assms(1) moveToDisconnected_inv[OF _ assms(2)] by (auto simp: no_frames)
next
  case (SubFnFrame r f err)
  then show ?thesis using assms quiet_inv[OF quiet_sub_fn_call assms(2)] by (auto split: bind_splits)
next
  case (Callback cb err)
  then show ?thesis using assms run_callback_inv[OF _ assms(2)] by auto
next
  case ReconnectLater
  then show ?thesis using assms scheduleReconnect_inv[OF assms(2)] by (auto split: if_splits)
next
  case (TokenFailed t)
  then show ?thesis
    using assms scheduleReconnect_inv[OF assms(2)] quiet_inv[OF quiet_closeTransport assms(2)] by (auto split: if_splits)
qed (use assms in \<open>auto simp: no_frames quiet_inv[OF quiet_removeRequest assms(2)]
      dest: emit_inv[OF _ assms(2)] startReconnecting_inv[OF _ assms(2)] connect_failed_inv[OF _ assms(2)]
        server_sub_frame_inv[OF _ assms(2)] server_pubs_frame_inv[OF _ assms(2)] server_gone_frame_inv[OF _ assms(2)]
        connect_done_inv[OF _ assms(2)] handleDisconnect_inv[OF _ assms(2)] await_reply_inv[OF _ assms(2)] read_once_inv[OF _ assms(2)]
        ok_inv[OF sub_future_ok assms(2)] ok_inv[OF sub_emitError_ok assms(2)] ok_inv[OF subscribe_failed_ok assms(2)]
        ok_inv[OF sub_refresh_failed_ok assms(2)] ok_inv[OF sub_pubs_frame_ok assms(2)]
      intro: handleRefreshError_inv[OF assms(2)] connect_future_inv[OF assms(2)]\<close>)

lemma fire_inv:
  assumes "fire e act c = Some (frs, c')" "lib_inv c"
  shows "lib_inv c'"
  using assms
  by (cases act) (auto simp: fire_def no_frames split: bind_splits if_splits
      dest: startReconnecting_inv[OF _ assms(2)] sendRefresh_inv[OF _ assms(2)]
        ok_inv[OF sub_resubscribe_ok assms(2)] ok_inv[OF sub_refresh_timer_ok assms(2)])

lemma NewSubscription_inv:
  assumes "lib_inv c"
  shows "lib_inv (snd (lib_NewSubscription channel h config c))"
proof (cases "channel |\<in>| fmdom (lc_subs c)")
  case False
  define r where "r = lc_next c"
  define s where "s = newSubscription channel h config"
  define c' where "c' = c\<lparr>lc_objs := fmupd r s (lc_objs c), lc_next := Suc r, lc_subs := fmupd channel r (lc_subs c)\<rparr>"
  have sf: "ls_Channel s = channel" "ls_state s = SubStateUnsubscribed" by (simp_all add: s_def newSubscription_def)
  have tr: "trace_inv c" using assms by (simp add: lib_inv_def)
  have new: "r |\<notin>| fmdom (lc_objs c)" using tr unfolding traces_def r_def by blast
  then have l: "sub_log r (lc_log c) = []" using tr unfolding traces_def by blast
  have ref: "fmlookup (lc_subs c) ch \<noteq> Some r" for ch
  proof
    assume "fmlookup (lc_subs c) ch = Some r"
    then obtain s0 where "fmlookup (lc_objs c) r = Some s0" using tr unfolding traces_def by blast
    then show False using new by (simp add: fmdomI)
  qed
  have "traces (fmupd channel r (lc_subs c)) (fmupd r s (lc_objs c)) (Suc r) (lc_log c)"
    unfolding traces_def
  proof (intro conjI allI impI)
    fix ch r' assume "fmlookup (fmupd channel r (lc_subs c)) ch = Some r'"
    then show "\<exists>s'. fmlookup (fmupd r s (lc_objs c)) r' = Some s' \<and> ls_Channel s' = ch"
      using tr ref sf(1) unfolding traces_def by (cases "channel = ch") auto
  next
    show "r' < Suc r" if "r' |\<in>| fmdom (fmupd r s (lc_objs c))" for r'
      using tr that unfolding traces_def r_def by (auto simp: less_SucI)
  next
    fix r' assume "r' |\<notin>| fmdom (fmupd r s (lc_objs c))"
    then show "sub_log r' (lc_log c) = []" using tr unfolding traces_def by simp
  next
    fix r' s' assume "fmlookup (fmupd r s (lc_objs c)) r' = Some s'" "all_handlers (ls_events s')"
    then show "replay (sub_log r' (lc_log c)) SubStateUnsubscribed = Some (ls_state s')"
      using tr l sf(2) unfolding traces_def by (cases "r = r'") auto
  qed
  then have "trace_inv c'" by (simp add: c'_def)
  moreover have "lib_conn_inv c'" using assms by (auto simp: lib_inv_def lib_conn_inv_def c'_def)
  moreover have "closed_inv c'"
    using assms sf(2) ref by (auto simp: lib_inv_def closed_inv_def c'_def)
  ultimately show ?thesis using False by (simp add: lib_NewSubscription_def Let_def lib_inv_def c'_def r_def s_def)
qed (simp add: lib_NewSubscription_def assms)

lemma RemoveSubscription_inv:
  assumes "lib_RemoveSubscription r c = Some (x, c')" "lib_inv c"
  shows "lib_inv c'"
proof -
  have "lib_inv (c\<lparr>lc_subs := fmdrop ch (lc_subs c)\<rparr>)" for ch
    using assms(2) by (auto simp: lib_inv_def lib_conn_inv_def closed_inv_def traces_def split: if_splits)
  then show ?thesis using assms by (auto simp: lib_RemoveSubscription_def split: bind_splits if_splits)
qed

lemma sub_Subscribe_inv:
  assumes "sub_Subscribe e r c = Some (x, frs, c')" "lib_inv c"
  shows "lib_inv c'"
proof (cases "lc_state c = StateClosed")
  case False
  then obtain s where s: "fmlookup (lc_objs c) r = Some s" using assms(1) by (auto simp: sub_Subscribe_def split: bind_splits)
  show ?thesis
  proof (cases "ls_state s = SubStateUnsubscribed")
    case True
    let ?ev = "[SubEvent r (SubscribingEvent subscribingSubscribeCalled ''subscribe called'')]" and ?s' = "s\<lparr>ls_state := SubStateSubscribing\<rparr>"
    obtain c1 where c1: "runHandler (on_subscribing (ls_events s)) ?ev (put_sub r ?s' c) = Some c1"
      using assms(1) False s True by (auto simp: sub_Subscribe_def split: bind_splits)
    have o: "ok c c1" by (rule ok_move[OF s _ _ _ _ _ c1]) (simp_all add: True False all_handlers_def)
    have "c' = c1 \<or> sub_resubscribe e r c1 = Some (frs, c')"
      using assms(1) False s True c1 by (auto simp: sub_Subscribe_def split: if_splits)
    then show ?thesis using ok_inv[OF o assms(2)] ok_inv[OF sub_resubscribe_ok] by blast
  next
    case False
    then show ?thesis using assms s \<open>lc_state c \<noteq> StateClosed\<close> by (cases "ls_state s") (simp_all add: sub_Subscribe_def)
  qed
qed (use assms in \<open>simp add: sub_Subscribe_def\<close>)

lemma startConnecting_inv:
  assumes "startConnecting c = (x, frs, c')" "lib_inv c"
  shows "lib_inv c'"
proof (cases "lc_state c = StateDisconnected")
  case True
  have "lib_inv (c1\<lparr>lc_state := StateConnecting\<rparr>)" if "lib_conn_inv c" "trace_inv c1" "lc_CBQueue c1 = lc_CBQueue c" "lc_requests c1 = lc_requests c" "lc_transport c1 = lc_transport c" for c1
    using that True by (auto simp: lib_inv_def lib_conn_inv_def closed_inv_def)
  then show ?thesis
    using assms True traces_next by (auto simp: startConnecting_def Let_def lib_inv_def split: option.splits)
next
  case False
  then show ?thesis using assms by (cases "lc_state c") (simp_all add: startConnecting_def)
qed

lemma api_inv:
  assumes "api_call e a c = Some (frs, c')" "lib_inv c" "env_ok e"
  shows "lib_inv c'"
proof -
  have k: "lib_inv (lib_Call e k f c)" for k f
    using quiet_inv[OF quiet_result assms(2)] quiet_inv[OF quiet_onConnect assms(2)] by (simp add: lib_Call_def)
  have sk: "lib_inv c'" if "sub_Call k r f c = Some c'" for k r f
    using that assms(2) quiet_inv[OF quiet_result assms(2)] ok_inv[OF onSubscribe_ok assms(2)]
    by (auto simp: sub_Call_def split: bind_splits if_splits)
  show ?thesis
  proof (cases a)
    case ApiConnect
    then show ?thesis using assms(1) startConnecting_inv[OF _ assms(2)] by (metis api_call.simps(1) option.inject prod.collapse)
  next
    case ApiDisconnect
    then show ?thesis using assms moveToDisconnected_inv[OF _ assms(2)] by (auto simp: lib_Disconnect_def split: if_splits)
  next
    case ApiClose
    then show ?thesis using assms lib_Close_inv by (auto simp: no_frames)
  next
    case (ApiSetToken token)
    moreover have "lib_inv (c\<lparr>lc_token := token\<rparr>)" by (rule quiet_inv[OF _ assms(2)]) (simp add: quiet_unfold)
    ultimately show ?thesis using assms(1) by auto
  next
    case (ApiNewSubscription channel h config)
    then show ?thesis using assms(1) NewSubscription_inv[OF assms(2)] by auto
  next
    case (ApiRemoveSubscription r)
    then show ?thesis using assms(1) RemoveSubscription_inv[OF _ assms(2)] by auto
  next
    case (ApiSubscribe r)
    then show ?thesis using assms(1) sub_Subscribe_inv[OF _ assms(2)] by auto
  next
    case (ApiUnsubscribe r)
    then show ?thesis using assms ok_inv[OF sub_unsubscribe_ok assms(2)] by (auto simp: sub_Unsubscribe_def split: if_splits)
  next
    case (ApiCancel k)
    moreover have "lib_inv (c\<lparr>lc_ctxDone := k # lc_ctxDone c\<rparr>)" by (rule quiet_inv[OF _ assms(2)]) (simp add: quiet_unfold)
    ultimately show ?thesis using assms(1) by auto
  qed (use assms(1) k sk in \<open>auto simp: no_frames\<close>)
qed

lemma lib_step_inv:
  assumes "lib_step c c'" "lib_inv c"
  shows "lib_inv c'"
  using assms(1)
proof cases
  case (run i fr rest e frs c1)
  have "lib_inv c1" by (rule exec_inv[OF run(5) assms(2)])
  then show ?thesis unfolding run(1) by (rule quiet_inv[rotated]) (simp add: quiet_unfold)
next
  case (timer i d act e frs c1)
  have "lib_inv (c\<lparr>lc_timers := fmdrop i (lc_timers c)\<rparr>)" by (rule quiet_inv[OF _ assms(2)]) (simp add: quiet_unfold)
  from fire_inv[OF timer(4) this] show ?thesis unfolding timer(1) by (rule quiet_inv[OF quiet_spawn])
next
  case (api e a frs c1)
  from api_inv[OF api(3) assms(2) api(2)] show ?thesis unfolding api(1) by (rule quiet_inv[OF quiet_spawn])
qed

lemma newClient_inv: "lib_newClient shuffle endpoint config h = Some c \<Longrightarrow> lib_inv c"
  by (auto simp: lib_newClient_def Let_def lib_inv_def lib_conn_inv_def closed_inv_def traces_def split: if_splits)

lemma lib_reachable_inv: "lib_reachable c \<Longrightarrow> lib_inv c"
  by (induction rule: lib_reachable.induct) (auto intro: newClient_inv lib_step_inv)

end
