(* ===== verification/Pubsub_Props.thy ===== *)
theory Pubsub_Props
  imports Pubsub_Run "HOL-Library.List_Lexorder" "HOL-Library.Char_ord"
begin

text \<open>
  The properties of the client library: the events of a subscription, the state of the connection, the
  resubscription after a reconnect, and how it reads the codes of the server.
\<close>

section \<open>Moves of the connection return\<close>

lemma runHandler_open: "lc_CBQueue c \<Longrightarrow> \<exists>c'. runHandler reg evs c = Some c'"
  by (simp add: runHandler_def)

lemma sub_moveToSubscribing_returns:
  assumes "lc_CBQueue c" "fmlookup (lc_objs c) r = Some s"
  shows "\<exists>c'. sub_moveToSubscribing r code reason c = Some c' \<and> lc_CBQueue c' \<and> fmdom (lc_objs c') = fmdom (lc_objs c)"
proof -
  have q: "lc_CBQueue (sub_stopTimers s c) = lc_CBQueue c" "lc_objs (sub_stopTimers s c) = lc_objs c"
    using quiet_stopTimers[of c s] by (simp_all add: quiet_unfold)
  have d: "finsert r (fmdom (lc_objs c)) = fmdom (lc_objs c)" using assms(2) by (simp add: fmdomI finsert_absorb)
  show ?thesis using assms by (auto simp: sub_moveToSubscribing_def runHandler_def q d Let_def)
qed

lemma moves_return:
  assumes "lc_CBQueue c" "\<forall>r\<in>set rs. r |\<in>| fmdom (lc_objs c)"
  shows "\<exists>c'. iter (\<lambda>r. sub_moveToSubscribing r code reason) rs c = Some c' \<and> lc_CBQueue c'"
  using assms
proof (induction rs arbitrary: c)
  case (Cons r rs)
  obtain s where "fmlookup (lc_objs c) r = Some s" using Cons.prems(2) by (auto simp: fmlookup_dom_iff)
  from sub_moveToSubscribing_returns[OF Cons.prems(1) this] obtain c1 where
    c1: "sub_moveToSubscribing r code reason c = Some c1" "lc_CBQueue c1" "fmdom (lc_objs c1) = fmdom (lc_objs c)" by blast
  show ?case using Cons.IH[OF c1(2)] Cons.prems(2) c1 by simp
qed simp

lemma subs_to_move_objs: "r \<in> set (subs_to_move e c) \<Longrightarrow> r |\<in>| fmdom (lc_objs c)"
  by (auto simp: subs_to_move_def intro: fmdomI split: option.splits)

lemma moveToConnecting_returns:
  assumes "lib_inv c" "lc_state c = StateConnected"
  shows "\<exists>c'. moveToConnecting e code reason c = Some ([Emit (ConnectingEvent code reason), ReconnectLater], c') \<and> lc_state c' = StateConnecting"
proof -
  define c1 where "c1 = resolveConnectFutures e (Some ErrClientDisconnected) (clearConnectedState e ((dropTransport c)\<lparr>lc_state := StateConnecting\<rparr>))"
  have l: "lib_inv c1" "lc_state c1 = StateConnecting" unfolding c1_def by (rule leave_inv[OF assms(1)]; simp add: assms(2))+
  then have "lc_CBQueue c1" by (simp add: lib_inv_def lib_conn_inv_def)
  then obtain c2 where c2: "iter (\<lambda>r. sub_moveToSubscribing r subscribingTransportClosed ''transport closed'') (subs_to_move e c1) c1 = Some c2" "lc_CBQueue c2"
    using moves_return subs_to_move_objs by blast
  then obtain c3 where c3: "runHandler (on_serverSubscribing (lc_events c)) (map ServerSubscribingEvent (le_strings e (lc_serverSubs c1))) c2 = Some c3"
    using runHandler_open by blast
  have "ok c1 c3" using moves_ok[OF c2(1)] l(2) ok_event[OF c3] ok_trans by simp
  then have "lc_state c3 = StateConnecting" using l(2) by (simp add: ok_def same_conn_def)
  then show ?thesis using c2 c3 assms(2) unfolding moveToConnecting_def Let_def c1_def[symmetric] by simp
qed

lemma moveToDisconnected_returns:
  assumes "lib_inv c" "lc_state c = StateConnected"
  shows "\<exists>c'. moveToDisconnected e code reason c = Some c' \<and> lc_state c' = StateDisconnected"
proof -
  define c1 where "c1 = resolveConnectFutures e (Some ErrClientDisconnected) (clearConnectedState e ((dropTransport c)\<lparr>lc_state := StateDisconnected\<rparr>))"
  have l: "lib_inv c1" "lc_state c1 = StateDisconnected" unfolding c1_def by (rule leave_inv[OF assms(1)]; simp add: assms(2))+
  then have "lc_CBQueue c1" by (simp add: lib_inv_def lib_conn_inv_def)
  then obtain c2 where c2: "iter (\<lambda>r. sub_moveToSubscribing r subscribingTransportClosed ''transport closed'') (subs_to_move e c1) c1 = Some c2" "lc_CBQueue c2"
    using moves_return subs_to_move_objs by blast
  then obtain c3 where c3: "runHandler (lc_state c = StateConnected \<and> on_serverSubscribing (lc_events c)) (map ServerSubscribingEvent (le_strings e (lc_serverSubs c1))) c2 = Some c3"
    using runHandler_open by blast
  have "lc_CBQueue c3" using c2(2) c3 by (auto simp: runHandler_def split: if_splits)
  then obtain c' where c': "runHandler (on_disconnected (lc_events c)) [DisconnectedEvent code reason] c3 = Some c'" using runHandler_open by blast
  have "moveToDisconnected e code reason c = Some c'" using c2 c3 c' assms(2) unfolding moveToDisconnected_def Let_def c1_def[symmetric] by simp
  then show ?thesis using moveToDisconnected_inv[OF _ assms(1)] assms(2) by fastforce
qed

section \<open>Runs of the library\<close>

text \<open>A script of steps, and that it leads to reachable states.\<close>

datatype action = RunThread nat | FireTimer nat | CallApi api

fun lib_act :: "lib_env \<Rightarrow> action \<Rightarrow> lib \<Rightarrow> lib option" where
  "lib_act e (RunThread i) c =
     (if i < length (lc_threads c)
      then (case lc_threads c ! i of
              [] \<Rightarrow> None
            | fr # rest \<Rightarrow> map_option (\<lambda>(frs, c1). c1\<lparr>lc_threads := (lc_threads c1)[i := frs @ rest]\<rparr>) (exec e fr c))
      else None)"
| "lib_act e (FireTimer i) c =
     (case fmlookup (lc_timers c) i of
        None \<Rightarrow> None
      | Some (d, act) \<Rightarrow> map_option (\<lambda>(frs, c1). spawn frs c1) (fire e act (c\<lparr>lc_timers := fmdrop i (lc_timers c)\<rparr>)))"
| "lib_act e (CallApi a) c = map_option (\<lambda>(frs, c1). spawn frs c1) (api_call e a c)"

fun lib_script :: "(lib_env \<times> action) list \<Rightarrow> lib \<Rightarrow> lib option" where
  "lib_script [] c = Some c"
| "lib_script ((e, a) # as) c = Option.bind (lib_act e a c) (lib_script as)"

lemma lib_act_step:
  assumes "lib_act e a c = Some c'" "env_ok e"
  shows "lib_step c c'"
proof (cases a)
  case (RunThread i)
  then show ?thesis using assms by (auto split: if_splits list.splits intro: lib_step.run)
next
  case (FireTimer i)
  then show ?thesis using assms by (auto split: option.splits intro: lib_step.timer)
next
  case (CallApi b)
  then show ?thesis using assms by (auto intro: lib_step.api)
qed

lemma lib_script_reachable:
  assumes "lib_script as c = Some c'" "lib_reachable c" "\<forall>(e, a)\<in>set as. env_ok e"
  shows "lib_reachable c'"
  using assms
proof (induction as arbitrary: c)
  case (Cons ea as)
  obtain e a where ea: "ea = (e, a)" by fastforce
  then obtain c1 where c1: "lib_act e a c = Some c1" "lib_script as c1 = Some c'" using Cons.prems(1) by (auto split: bind_splits)
  have "lib_reachable c1" using lib_reachable.step[OF Cons.prems(2) lib_act_step[OF c1(1)]] Cons.prems(3) ea by simp
  then show ?case using Cons.IH[OF c1(2)] Cons.prems(3) by simp
qed simp

definition demo_env :: lib_env where
  "demo_env = \<lparr>le_strings = sorted_list_of_fset, le_ids32 = sorted_list_of_fset, le_ids64 = sorted_list_of_fset,
     le_dial = (\<lambda>_. True), le_write = (\<lambda>_ _. True), le_connToken = Inr ''t'', le_subToken = (\<lambda>_. Inr ''t''), le_delay = (\<lambda>_. 0),
     le_read = Inl None, le_timeout = False, le_ping = PingReady\<rparr>"

lemma demo_env_ok: "env_ok (demo_env\<lparr>le_read := x\<rparr>)" "env_ok demo_env"
  by (simp_all add: env_ok_def demo_env_def sorted_list_of_fset.rep_eq)

definition demo_reply :: "uint32 \<Rightarrow> lib_reply" where
  "demo_reply i = \<lparr>lr_Id = i, lr_Error = None, lr_Push = None,
     lr_Connect = Some \<lparr>cx_Client = ''c'', cx_Data = [], cx_Expires = False, cx_Ttl = 0, cx_Ping = 0, cx_Subs = []\<rparr>,
     lr_Subscribe = Some \<lparr>sb_Expires = False, sb_Ttl = 0, sb_Data = [7], sb_Publications = []\<rparr>,
     lr_Refresh = None, lr_SubRefresh = None, lr_Presence = None, lr_PresenceStats = None\<rparr>"

definition demo_hub :: subscriptionEventHub where
  "demo_hub = \<lparr>on_subscribing = True, on_subscribed = True, on_unsubscribe = True, on_subError = True, on_publication = True\<rparr>"

definition demo_script :: "(lib_env \<times> action) list" where
  "demo_script = [(demo_env, CallApi (ApiNewSubscription ''ch'' demo_hub None)), (demo_env, CallApi (ApiSubscribe 0)),
     (demo_env, CallApi ApiConnect), (demo_env, RunThread 2), (demo_env, RunThread 2),
     (demo_env\<lparr>le_read := Inr (demo_reply 1)\<rparr>, RunThread 3), (demo_env, RunThread 3), (demo_env, RunThread 3), (demo_env, RunThread 3),
     (demo_env, RunThread 3), (demo_env\<lparr>le_read := Inr (demo_reply 2)\<rparr>, RunThread 3)]"

definition demo_config :: lib_config where
  "demo_config = \<lparr>lg_Token = [], lg_GetToken = False, lg_Data = [], lg_Name = [], lg_ReadTimeout = 0,
     lg_WriteTimeout = 0, lg_HandshakeTimeout = 0, lg_MaxServerPingDelay = 0\<rparr>"

definition demo_events :: lib_eventHub where
  "demo_events = \<lparr>on_connected = True, on_disconnected = True, on_connecting = True, on_error = True, on_message = True,
     on_serverSubscribe = True, on_serverSubscribing = True, on_serverUnsubscribed = True, on_serverPublication = True\<rparr>"

definition demo_client :: lib where
  "demo_client = the (lib_newClient id ''ws://host'' demo_config demo_events)"

lemma demo_client_reachable: "lib_reachable demo_client"
  by (rule lib_reachable.start[of id "''ws://host''" demo_config demo_events]) (simp add: demo_client_def lib_newClient_def HasPrefix_def)

lemma demo_run:
  obtains c s where "lib_script demo_script demo_client = Some c" "lc_state c = StateConnected" "lc_transport c = Some 2"
    "lc_log c = [SubEvent 0 (SubscribingEvent 0 ''subscribe called''), ConnectingEvent 0 ''connect called'', ConnectedEvent ''c'' [],
       SubEvent 0 (SubscribedEvent [7])]"
    "fmlookup (lc_objs c) 0 = Some s" "ls_state s = SubStateSubscribed" "ls_events s = demo_hub" "lib_reachable c"
proof -
  have "map_option (\<lambda>c. (lc_state c, lc_transport c, lc_log c, map_option (\<lambda>s. (ls_state s, ls_events s)) (fmlookup (lc_objs c) 0)))
      (lib_script demo_script demo_client)
    = Some (StateConnected, Some 2, [SubEvent 0 (SubscribingEvent 0 ''subscribe called''), ConnectingEvent 0 ''connect called'',
        ConnectedEvent ''c'' [], SubEvent 0 (SubscribedEvent [7])], Some (SubStateSubscribed, demo_hub))"
    by code_simp
  then obtain c s where c: "lib_script demo_script demo_client = Some c" "lc_state c = StateConnected" "lc_transport c = Some 2"
    "lc_log c = [SubEvent 0 (SubscribingEvent 0 ''subscribe called''), ConnectingEvent 0 ''connect called'', ConnectedEvent ''c'' [],
       SubEvent 0 (SubscribedEvent [7])]"
    "fmlookup (lc_objs c) 0 = Some s" "ls_state s = SubStateSubscribed" "ls_events s = demo_hub" by auto
  have "\<forall>(e, a)\<in>set demo_script. env_ok e" by (simp add: demo_script_def demo_env_ok)
  then have "lib_reachable c" using lib_script_reachable[OF c(1) demo_client_reachable] by blast
  with c show ?thesis by (rule that)
qed

section \<open>The properties\<close>

text \<open>The disconnects of the server, by what a client is expected to do.\<close>

definition temporary_disconnects :: "disconnect list" where
  "temporary_disconnects = [DisconnectConnectionClosed, DisconnectShutdown, DisconnectServerError, DisconnectExpired, DisconnectSubExpired,
     DisconnectSlow, DisconnectWriteError, DisconnectInsufficientState, DisconnectForceReconnect, DisconnectNoPong, DisconnectTooManyRequests]"

definition terminal_disconnects :: "disconnect list" where
  "terminal_disconnects = [DisconnectInvalidToken, DisconnectBadRequest, DisconnectStale, DisconnectForceNoReconnect, DisconnectConnectionLimit,
     DisconnectChannelLimit, DisconnectInappropriateProtocol, DisconnectPermissionDenied, DisconnectNotAvailable, DisconnectTooManyErrors]"

lemmas disconnect_defs = DisconnectConnectionClosed_def DisconnectShutdown_def DisconnectServerError_def DisconnectExpired_def
  DisconnectSubExpired_def DisconnectSlow_def DisconnectWriteError_def DisconnectInsufficientState_def DisconnectForceReconnect_def
  DisconnectNoPong_def DisconnectTooManyRequests_def DisconnectInvalidToken_def DisconnectBadRequest_def DisconnectStale_def
  DisconnectForceNoReconnect_def DisconnectConnectionLimit_def DisconnectChannelLimit_def DisconnectInappropriateProtocol_def
  DisconnectPermissionDenied_def DisconnectNotAvailable_def DisconnectTooManyErrors_def

definition disconnect_push :: "disconnect \<Rightarrow> lib_push" where
  "disconnect_push d = \<lparr>lu_Channel = '''', lu_Message = None, lu_Unsubscribe = None, lu_Pub = None, lu_Subscribe = None, lu_Disconnect = Some d\<rparr>"

lemma reconnect_code_table:
  "\<forall>d\<in>set temporary_disconnects. reconnect_code (d_Code d)" "\<forall>d\<in>set terminal_disconnects. \<not> reconnect_code (d_Code d)"
  by (simp_all add: temporary_disconnects_def terminal_disconnects_def disconnect_defs reconnect_code_def)





text \<open>C30.  The library reads the codes of the server as they are meant: after a temporary disconnect it
  moves to connecting and will reconnect, after a terminal one it is disconnected; it never fails in
  doing so.\<close>

theorem disconnect_codes_understood:
  assumes "lib_reachable c" "lc_state c = StateConnected"
  shows "(\<forall>d\<in>set temporary_disconnects. \<exists>frs c'. handlePush e (disconnect_push d) c = Some (frs, c') \<and>
            lc_state c' = StateConnecting \<and> ReconnectLater \<in> set frs)
     \<and> (\<forall>d\<in>set terminal_disconnects. \<exists>c'. handlePush e (disconnect_push d) c = Some ([], c') \<and> lc_state c' = StateDisconnected)"
proof (intro conjI ballI)
  fix d assume "d \<in> set temporary_disconnects"
  then have "reconnect_code (d_Code d)" using reconnect_code_table(1) by blast
  moreover obtain c' where "moveToConnecting e (d_Code d) (d_Reason d) c = Some ([Emit (ConnectingEvent (d_Code d) (d_Reason d)), ReconnectLater], c')"
    "lc_state c' = StateConnecting"
    using moveToConnecting_returns[OF lib_reachable_inv[OF assms(1)] assms(2)] by blast
  ultimately show "\<exists>frs c'. handlePush e (disconnect_push d) c = Some (frs, c') \<and> lc_state c' = StateConnecting \<and> ReconnectLater \<in> set frs"
    by (simp add: handlePush_def disconnect_push_def Let_def)
next
  fix d assume "d \<in> set terminal_disconnects"
  then have "\<not> reconnect_code (d_Code d)" using reconnect_code_table(2) by blast
  moreover obtain c' where "moveToDisconnected e (d_Code d) (d_Reason d) c = Some c'" "lc_state c' = StateDisconnected"
    using moveToDisconnected_returns[OF lib_reachable_inv[OF assms(1)] assms(2)] by blast
  ultimately show "\<exists>c'. handlePush e (disconnect_push d) c = Some ([], c') \<and> lc_state c' = StateDisconnected"
    by (simp add: handlePush_def disconnect_push_def Let_def)
qed

theorem disconnect_codes_understood_witness:
  "\<exists>c frs c'. lib_script demo_script demo_client = Some c \<and> handlePush demo_env (disconnect_push DisconnectShutdown) c = Some (frs, c')
     \<and> lc_state c' = StateConnecting \<and> ReconnectLater \<in> set frs"
proof -
  obtain c where c: "lib_script demo_script demo_client = Some c" "lc_state c = StateConnected" "lib_reachable c" by (rule demo_run)
  have "DisconnectShutdown \<in> set temporary_disconnects" by (simp add: temporary_disconnects_def)
  then show ?thesis using disconnect_codes_understood[OF c(3,2), of demo_env] c(1) by blast
qed

section \<open>Resubscribing after a reconnect\<close>

definition waiting :: "lib \<Rightarrow> nat \<Rightarrow> bool" where
  "waiting c r \<longleftrightarrow> (case fmlookup (lc_objs c) r of None \<Rightarrow> False | Some s \<Rightarrow> ls_state s = SubStateSubscribing)"

text \<open>The subscriptions of the table that wait, in the order of the iteration, and the parameters of
  their subscribe commands.\<close>

definition waiting_subs :: "lib \<Rightarrow> string list \<Rightarrow> nat list" where
  "waiting_subs c chs = filter (waiting c) (map (\<lambda>ch. the (fmlookup (lc_subs c) ch)) chs)"

definition subscribe_params :: "lib \<Rightarrow> nat \<Rightarrow> lib_params" where
  "subscribe_params c r =
     (let s = the (fmlookup (lc_objs c) r) in SubscribeParams (ls_Channel s) (ls_token s) (ls_data s) (ls_joinLeave s))"

definition numbered :: "uint32 \<Rightarrow> nat list \<Rightarrow> (uint32 \<times> nat) list" where
  "numbered i rs = zip (map (\<lambda>k. i + of_nat k + 1) [0..<length rs]) rs"

lemma numbered_Cons: "numbered i (r # rs) = (i + 1, r) # numbered (i + 1) rs"
proof -
  have "map (\<lambda>k. i + of_nat k + 1) [0..<length (r # rs)] = (i + 1) # map (\<lambda>k. i + 1 + of_nat k + 1) [0..<length rs]"
    by (simp add: upt_rec[of 0] map_Suc_upt[symmetric] del: upt_Suc)
  then show ?thesis by (simp add: numbered_def)
qed

lemma resubscribe_one:
  assumes "fmlookup (lc_objs c) r = Some s" "ls_state s = SubStateSubscribing" "ls_token s \<noteq> [] \<or> \<not> ls_getToken s"
    "lc_transport c = Some t" "\<forall>cmd. le_write e t cmd"
  shows "\<exists>c'. sub_resubscribe_locked e r c = Some c' \<and> lc_objs c' = lc_objs c \<and> lc_transport c' = Some t \<and> lc_CBQueue c' = lc_CBQueue c \<and>
     lc_cmdID c' = lc_cmdID c + 1 \<and> lc_sent c' = lc_sent c @ [(t, lc_cmdID c + 1, subscribe_params c r)] \<and>
     lc_requests c' = fmupd (lc_cmdID c + 1) (SubscribeCb r) (lc_requests c) \<and> lc_subs c' = lc_subs c"
  using assms
  by (auto simp: sub_resubscribe_locked_def sub_resubscribe_def resubscribe_send_def sendSubscribe_def sendCommand_def nextCmdID_def
      sendAsync_def lib_send_def addRequest_def spawn_def subscribe_params_def Let_def)

lemma resubscribe_all:
  assumes "lc_objs c1 = lc_objs c" "lc_transport c1 = Some t" "\<forall>cmd. le_write e t cmd" "unat (lc_cmdID c1) + length (waiting_subs c chs) < 2 ^ 32"
    "\<forall>ch\<in>set chs. \<exists>r s. fmlookup (lc_subs c) ch = Some r \<and> fmlookup (lc_objs c) r = Some s \<and> (ls_token s \<noteq> [] \<or> \<not> ls_getToken s)"
  shows "\<exists>c2. iter (\<lambda>ch c1. case fmlookup (lc_subs c) ch of None \<Rightarrow> Some c1 | Some r \<Rightarrow> sub_resubscribe_locked e r c1) chs c1 = Some c2 \<and>
     lc_objs c2 = lc_objs c \<and> lc_CBQueue c2 = lc_CBQueue c1 \<and>
     lc_sent c2 = lc_sent c1 @ map (\<lambda>(i, r). (t, i, subscribe_params c r)) (numbered (lc_cmdID c1) (waiting_subs c chs)) \<and>
     (\<forall>(i, r)\<in>set (numbered (lc_cmdID c1) (waiting_subs c chs)). fmlookup (lc_requests c2) i = Some (SubscribeCb r)) \<and>
     (\<forall>k. unat k \<le> unat (lc_cmdID c1) \<longrightarrow> fmlookup (lc_requests c2) k = fmlookup (lc_requests c1) k)"
  using assms
proof (induction chs arbitrary: c1)
  case Nil
  then show ?case by (simp add: waiting_subs_def numbered_def)
next
  case (Cons ch chs)
  obtain r s where r: "fmlookup (lc_subs c) ch = Some r" "fmlookup (lc_objs c) r = Some s" "ls_token s \<noteq> [] \<or> \<not> ls_getToken s"
    using Cons.prems(5) by auto
  have rest: "\<forall>ch\<in>set chs. \<exists>r s. fmlookup (lc_subs c) ch = Some r \<and> fmlookup (lc_objs c) r = Some s \<and> (ls_token s \<noteq> [] \<or> \<not> ls_getToken s)"
    using Cons.prems(5) by simp
  show ?case
  proof (cases "ls_state s = SubStateSubscribing")
    case True
    then have w: "waiting_subs c (ch # chs) = r # waiting_subs c chs" by (simp add: waiting_subs_def waiting_def r)
    let ?i = "lc_cmdID c1 + 1"
    have i: "unat ?i = unat (lc_cmdID c1) + 1"
      using Cons.prems(4) unfolding w by (simp add: unat_word_ariths(1) unat_of_nat)
    have sp: "subscribe_params c1 r = subscribe_params c r" by (simp add: subscribe_params_def Cons.prems(1))
    obtain c2 where c2: "sub_resubscribe_locked e r c1 = Some c2" "lc_objs c2 = lc_objs c" "lc_transport c2 = Some t" "lc_CBQueue c2 = lc_CBQueue c1"
      "lc_cmdID c2 = ?i" "lc_sent c2 = lc_sent c1 @ [(t, ?i, subscribe_params c r)]"
      "lc_requests c2 = fmupd ?i (SubscribeCb r) (lc_requests c1)"
      using resubscribe_one[of c1 r s t e] r Cons.prems(1-3) True sp by auto
    have b: "unat (lc_cmdID c2) + length (waiting_subs c chs) < 2 ^ 32" using Cons.prems(4) i unfolding w c2(5) by simp
    obtain c3 where c3: "iter (\<lambda>ch c1. case fmlookup (lc_subs c) ch of None \<Rightarrow> Some c1 | Some r \<Rightarrow> sub_resubscribe_locked e r c1) chs c2 = Some c3"
      "lc_objs c3 = lc_objs c" "lc_CBQueue c3 = lc_CBQueue c2"
      "lc_sent c3 = lc_sent c2 @ map (\<lambda>(i, r). (t, i, subscribe_params c r)) (numbered ?i (waiting_subs c chs))"
      "\<forall>(i, r)\<in>set (numbered ?i (waiting_subs c chs)). fmlookup (lc_requests c3) i = Some (SubscribeCb r)"
      "\<forall>k. unat k \<le> unat ?i \<longrightarrow> fmlookup (lc_requests c3) k = fmlookup (lc_requests c2) k"
      using Cons.IH[OF c2(2,3) Cons.prems(3) b rest] unfolding c2(5) by blast
    have "fmlookup (lc_requests c3) ?i = Some (SubscribeCb r)" using c3(6) by (simp add: c2(7))
    moreover have "fmlookup (lc_requests c3) k = fmlookup (lc_requests c1) k" if "unat k \<le> unat (lc_cmdID c1)" for k
      using that c3(6) i by (auto simp: c2(7))
    ultimately show ?thesis using c2 c3 unfolding w numbered_Cons by (intro exI[of _ c3]) (simp add: r)
  next
    case False
    then have w: "waiting_subs c (ch # chs) = waiting_subs c chs" by (simp add: waiting_subs_def waiting_def r)
    have "sub_resubscribe_locked e r c1 = Some c1" using r False Cons.prems(1) by (simp add: sub_resubscribe_locked_def sub_resubscribe_def)
    then show ?thesis using Cons.IH[OF Cons.prems(1-3) _ rest] Cons.prems(4) unfolding w by (simp add: r)
  qed
qed

text \<open>The reply to a subscribe command.\<close>

lemma subscribe_reply:
  assumes "fmlookup (lc_requests c) (lr_Id reply) = Some (SubscribeCb r)" "lr_Id reply > 0" "lr_Error reply = None" "lr_Subscribe reply = Some res"
    "fmlookup (lc_objs c) r = Some s" "ls_state s = SubStateSubscribing" "lc_CBQueue c"
  shows "\<exists>frs c' s'. handle e reply c = Some (frs, c') \<and> fmlookup (lc_objs c') r = Some s' \<and> ls_state s' = SubStateSubscribed \<and> ls_subFutures s' = fmempty"
proof -
  let ?s0 = "s\<lparr>ls_state := SubStateSubscribed\<rparr>" and ?c0 = "put_sub r (s\<lparr>ls_state := SubStateSubscribed\<rparr>) c"
  have "\<exists>c1 s1. (if sb_Expires res then scheduleSubRefresh r (sb_Ttl res) ?c0 else Some ?c0) = Some c1 \<and> fmlookup (lc_objs c1) r = Some s1 \<and>
      ls_state s1 = SubStateSubscribed \<and> lc_CBQueue c1"
    by (simp add: scheduleSubRefresh_def afterFunc_def put_sub_def assms(7))
  then obtain c1 s1 where c1: "(if sb_Expires res then scheduleSubRefresh r (sb_Ttl res) ?c0 else Some ?c0) = Some c1"
    "fmlookup (lc_objs c1) r = Some s1" "ls_state s1 = SubStateSubscribed" "lc_CBQueue c1" by blast
  let ?s2 = "s1\<lparr>ls_resubscribeAttempts := 0\<rparr>"
  let ?c2 = "stopTimer (ls_resubscribeTimer s1) (put_sub r ?s2 c1)"
  have o2: "fmlookup (lc_objs ?c2) r = Some ?s2" by simp
  obtain c3 where c3: "resolveSubFutures e r None ?c2 = Some c3" using o2 by (simp add: resolveSubFutures_def Let_def)
  from resolveSubFutures_run[OF c3 o2] obtain cq where cq: "quiet ?c2 cq" "c3 = put_sub r (?s2\<lparr>ls_subFutures := fmempty\<rparr>) cq" by blast
  have "lc_CBQueue ?c2" using c1(4) quiet_stopTimer[of "put_sub r ?s2 c1" "ls_resubscribeTimer s1"] by (simp add: quiet_unfold)
  then have q3: "lc_CBQueue c3" using cq by (simp add: quiet_unfold)
  obtain c4 where c4: "runHandler (on_subscribed (ls_events s)) [SubEvent r (SubscribedEvent (sb_Data res))] c3 = Some c4" using runHandler_open[OF q3] by blast
  have o4: "lc_objs c4 = lc_objs c3" using c4 by (auto simp: runHandler_def split: if_splits)
  obtain frs where "moveToSubscribed e r (Some res) c = Some (frs, c4)"
    using assms(5,6) c1(1,2) c3 c4 unfolding moveToSubscribed_def Let_def by simp
  then have "handle e reply c = Some (frs @ [RemoveRequest (lr_Id reply)], c4)"
    using assms(1-4) by (simp add: handle_def run_callback_def reply_result_def)
  then show ?thesis using o4 cq(2) c1(3) by simp
qed

text \<open>C31.  Once the connect callback has run, every subscription of the client that waits is subscribed
  again: one subscribe command goes out for each, with consecutive ids and a pending request, and the
  server's positive reply makes it subscribed and releases the calls that waited for it.\<close>

theorem reconnect_resubscribes:
  assumes "lib_reachable c" "lc_state c = StateConnected" "lc_transport c = Some t" "env_ok e" "\<forall>cmd. le_write e t cmd"
    "\<forall>ch r s. fmlookup (lc_subs c) ch = Some r \<longrightarrow> fmlookup (lc_objs c) r = Some s \<longrightarrow> ls_token s \<noteq> [] \<or> \<not> ls_getToken s"
    "unat (lc_cmdID c) + fcard (fmdom (lc_subs c)) < 2 ^ 32"
  defines "rs \<equiv> waiting_subs c (le_strings e (fmdom (lc_subs c)))"
  shows "\<exists>c'. exec e (ConnectDone ping k) c = Some ([], c') \<and>
     lc_sent c' = lc_sent c @ map (\<lambda>(i, r). (t, i, subscribe_params c r)) (numbered (lc_cmdID c) rs) \<and>
     (\<forall>(i, r)\<in>set (numbered (lc_cmdID c) rs). \<forall>reply res. lr_Id reply = i \<longrightarrow> lr_Error reply = None \<longrightarrow> lr_Subscribe reply = Some res \<longrightarrow>
        (\<exists>frs c'' s. handle e reply c' = Some (frs, c'') \<and> fmlookup (lc_objs c'') r = Some s \<and> ls_state s = SubStateSubscribed \<and> ls_subFutures s = fmempty))"
proof -
  have inv: "lib_inv c" by (rule lib_reachable_inv[OF assms(1)])
  let ?chs = "le_strings e (fmdom (lc_subs c))"
  define c1 where "c1 = (if ping > 0 then spawn [PingWait k] (c\<lparr>lc_reconnectAttempts := 0\<rparr>) else c\<lparr>lc_reconnectAttempts := 0\<rparr>)"
  have f1: "lc_objs c1 = lc_objs c" "lc_transport c1 = Some t" "lc_cmdID c1 = lc_cmdID c" "lc_subs c1 = lc_subs c" "lc_sent c1 = lc_sent c" "lc_CBQueue c1"
    using assms(2,3) inv by (simp_all add: c1_def spawn_def lib_inv_def lib_conn_inv_def)
  have chs: "set ?chs = fset (fmdom (lc_subs c))" "distinct ?chs" using assms(4) by (simp_all add: env_ok_def)
  have "length ?chs = fcard (fmdom (lc_subs c))" using chs distinct_card[of ?chs] by (simp add: fcard.rep_eq)
  moreover have "length rs \<le> length ?chs" unfolding rs_def waiting_subs_def by (metis length_filter_le length_map)
  ultimately have b: "unat (lc_cmdID c) + length rs < 2 ^ 32" using assms(7) by simp
  have table: "\<exists>r s. fmlookup (lc_subs c) ch = Some r \<and> fmlookup (lc_objs c) r = Some s \<and> (ls_token s \<noteq> [] \<or> \<not> ls_getToken s)" if "ch \<in> set ?chs" for ch
  proof -
    obtain r where r: "fmlookup (lc_subs c) ch = Some r" using \<open>ch \<in> set ?chs\<close> chs(1) by (auto simp: fmlookup_dom_iff)
    then obtain s where "fmlookup (lc_objs c) r = Some s" using inv unfolding lib_inv_def traces_def by blast
    then show ?thesis using r assms(6) by blast
  qed
  obtain c2 where c2: "iter (\<lambda>ch c1. case fmlookup (lc_subs c) ch of None \<Rightarrow> Some c1 | Some r \<Rightarrow> sub_resubscribe_locked e r c1) ?chs c1 = Some c2"
    "lc_objs c2 = lc_objs c" "lc_CBQueue c2 = lc_CBQueue c1"
    "lc_sent c2 = lc_sent c1 @ map (\<lambda>(i, r). (t, i, subscribe_params c r)) (numbered (lc_cmdID c1) rs)"
    "\<forall>(i, r)\<in>set (numbered (lc_cmdID c1) rs). fmlookup (lc_requests c2) i = Some (SubscribeCb r)"
    using resubscribe_all[OF f1(1,2) assms(5), of ?chs] b table unfolding f1(3) rs_def by blast
  have "exec e (ConnectDone ping k) c = Some ([], c2)"
    using c2(1) assms(2) f1(4) by (simp add: connect_done_def lib_resubscribe_def c1_def spawn_def Let_def split: if_splits)
  moreover have "\<exists>frs c'' s. handle e reply c2 = Some (frs, c'') \<and> fmlookup (lc_objs c'') r = Some s \<and> ls_state s = SubStateSubscribed \<and> ls_subFutures s = fmempty"
    if mem: "(i, r) \<in> set (numbered (lc_cmdID c) rs)" and reply: "lr_Id reply = i" "lr_Error reply = None" "lr_Subscribe reply = Some res" for i r reply res
  proof -
    obtain n where n: "n < length rs" "i = lc_cmdID c + of_nat n + 1" "r = rs ! n" using mem by (auto simp: numbered_def set_zip)
    have "unat (lc_cmdID c + of_nat n + 1) = unat (lc_cmdID c) + n + 1"
      using b n(1) by (simp add: unat_word_ariths(1) unat_of_nat)
    then have pos: "i > 0" using n(2) by (metis add_is_0 unat_0 word_neq_0_conv zero_neq_one)
    have "r \<in> set rs" using n(1,3) by simp
    then obtain s where "fmlookup (lc_objs c) r = Some s" "ls_state s = SubStateSubscribing"
      by (auto simp: rs_def waiting_subs_def waiting_def split: option.splits)
    then show ?thesis
      using subscribe_reply[of c2 reply r res s e] mem reply c2(2,3,5) pos f1(3,6) by auto
  qed
  ultimately show ?thesis using c2(4) f1(3,5) by (intro exI[of _ c2]) auto
qed

theorem reconnect_resubscribes_witness:
  "\<exists>c c'. lib_script (take 8 demo_script) demo_client = Some c \<and> exec demo_env (ConnectDone 0 2) c = Some ([], c')
     \<and> lc_sent c' = lc_sent c @ [(2, 2, SubscribeParams ''ch'' [] [] False)]"
proof -
  have "map_option (\<lambda>c. (lc_state c, lc_transport c, lc_cmdID c, lc_subs c, map_option (\<lambda>s. (ls_state s, ls_Channel s, ls_token s, ls_data s, ls_joinLeave s, ls_getToken s)) (fmlookup (lc_objs c) 0)))
      (lib_script (take 8 demo_script) demo_client)
    = Some (StateConnected, Some 2, 1, fmupd ''ch'' 0 fmempty, Some (SubStateSubscribing, ''ch'', [], [], False, False))"
    by code_simp
  then obtain c s where c: "lib_script (take 8 demo_script) demo_client = Some c" "lc_state c = StateConnected" "lc_transport c = Some 2" "lc_cmdID c = 1"
    "lc_subs c = fmupd ''ch'' 0 fmempty" "fmlookup (lc_objs c) 0 = Some s" "ls_state s = SubStateSubscribing" "ls_Channel s = ''ch''"
    "ls_token s = []" "ls_data s = []" "\<not> ls_joinLeave s" "\<not> ls_getToken s" by auto
  have "\<forall>(e, a)\<in>set (take 8 demo_script). env_ok e" by (simp add: demo_script_def demo_env_ok)
  then have r: "lib_reachable c" using lib_script_reachable[OF c(1) demo_client_reachable] by blast
  have w: "waiting_subs c (le_strings demo_env (fmdom (lc_subs c))) = [0]" using c by (simp add: waiting_subs_def waiting_def demo_env_def sorted_list_of_fset.rep_eq)
  have wr: "\<forall>cmd. le_write demo_env 2 cmd" by (simp add: demo_env_def)
  have tk: "\<forall>ch r s. fmlookup (lc_subs c) ch = Some r \<longrightarrow> fmlookup (lc_objs c) r = Some s \<longrightarrow> ls_token s \<noteq> [] \<or> \<not> ls_getToken s"
    using c by (auto split: if_splits)
  have b: "unat (lc_cmdID c) + fcard (fmdom (lc_subs c)) < 2 ^ 32" using c by (simp add: fcard.rep_eq)
  show ?thesis
    using reconnect_resubscribes[OF r c(2,3) demo_env_ok(2) wr tk b, of 0 2] c unfolding w
    by (auto simp: numbered_def subscribe_params_def)
qed

section \<open>Where the library goes wrong\<close>

text \<open>A connect command whose write fails while an error handler is set: the handler is called under
  the mutex of the client and the call never returns.\<close>

lemma connect_write_error_deadlocks:
  assumes "lc_state c = StateConnecting" "on_error (lc_events c)" "\<forall>cmd. \<not> le_write e t cmd"
  shows "start_transport e t c = None"
  using assms by (simp add: start_transport_def sendConnect_def sendCommand_def nextCmdID_def sendAsync_def lib_send_def addRequest_def spawn_def)

text \<open>The server answers an expired token with the error 110, the library looks for 109: the client is
  disconnected instead of asking for a new token.\<close>

lemma expired_token_gives_up:
  assumes "connect_failed e t (errorFromProto (e_Code ErrorExpired, e_Message ErrorExpired)) c = Some c'" "lib_inv c" "lc_state c \<noteq> StateClosed"
  shows "lc_state c' = StateDisconnected"
proof -
  have "moveToDisconnected e 110 ''expired'' (closeTransport t c) = Some c'"
    using assms(1) by (simp add: connect_failed_def errorFromProto_def ErrorExpired_def)
  moreover have "lib_inv (closeTransport t c)" by (rule quiet_inv[OF quiet_closeTransport assms(2)])
  moreover have "lc_state (closeTransport t c) \<noteq> StateClosed" using assms(3) by (simp add: closeTransport_def)
  ultimately show ?thesis using moveToDisconnected_inv by blast
qed

text \<open>A failed write leaves its request behind: the callback runs a second time when the connection is
  cleared.\<close>

lemma failed_publish_answers_twice:
  assumes "lc_transport c = Some t" "\<forall>cmd. \<not> le_write e t cmd" "env_ok e"
  shows "lc_results (sendPublish e ch data k c) = lc_results c @ [(k, Failed ErrWrite)]"
    and "fmlookup (lc_requests (sendPublish e ch data k c)) (lc_cmdID c + 1) = Some (PublishCb k)"
  using assms
  by (simp_all add: sendPublish_def sendCommand_def nextCmdID_def sendAsync_def lib_send_def addRequest_def spawn_def result_def)

end
