(* ===== verification/Template.thy ===== *)
theory Template
  imports Go_Strings
begin

text \<open>
  The template language of the brokers (\<open>pkg/workflow/template.go\<close>): parsing a template into rows of
  expressions, the static checks, the jump table that \<open>Build\<close> computes, and the interpreter loop
  \<open>TemplateRuntime.Execute\<close>.

  The JavaScript runtime is the environment: what a name denotes there.  The evaluation of a single
  expression is an argument of the interpreter loop.  An error message is represented by the message
  without its arguments.
\<close>

section \<open>Values and variables\<close>

text \<open>The dynamic values; \<open>'f\<close> stands for \<open>float64\<close>.  \<open>ReplyData\<close> is a named map type, so it is told
  apart from \<open>map[string]interface{}\<close> and from a pointer to it, and it may be nil.  \<open>VAnyMap\<close> is a
  \<open>map[interface{}]interface{}\<close> whose keys are strings, \<open>VResult\<close> a pointer to a \<open>Result\<close> with the time it finished and its
  JSON fields, \<open>VStruct\<close> another struct with its JSON fields, and \<open>VJs\<close> a value of the JavaScript runtime.  A nil
  slice is not told apart from an empty one.\<close>

datatype 'f val =
    VNil
  | VBool bool
  | VStr string
  | VFloat 'f
  | VInt int
  | VArr "'f val list"
  | VMap "(string, 'f val) fmap"
  | VMapPtr "(string, 'f val) fmap"
  | VReply "(string, 'f val) fmap"
  | VReplyPtr "(string, 'f val) fmap"
  | VReplyNil
  | VReplyNilPtr
  | VInt64 int
  | VAnyMap "(string, 'f val) fmap"
  | VResult int "(string, 'f val) fmap"
  | VStruct "(string, 'f val) fmap"
  | VJs nat
  | VOther

type_synonym 'v kv = "string \<times> 'v"
type_synonym 'v varTemp = "'v kv list list"

text \<open>The scopes of a template; the last list is the innermost.\<close>

definition varTemp_Push :: "'v kv \<Rightarrow> 'v varTemp \<Rightarrow> 'v varTemp go" where
  "varTemp_Push x vt = (if vt = [] then None else Some (vt[length vt - 1 := last vt @ [x]]))"

text \<open>The last entry of a scope with the key is replaced, in every scope that has one.\<close>

fun set_last :: "'v kv \<Rightarrow> 'v kv list \<Rightarrow> 'v kv list \<times> bool" where
  "set_last x [] = ([], False)"
| "set_last x (y # ys) =
     (case set_last x ys of
        (zs, True) \<Rightarrow> (y # zs, True)
      | (zs, False) \<Rightarrow> if fst y = fst x then (x # ys, True) else (y # ys, False))"

definition varTemp_Set :: "'v kv \<Rightarrow> 'v varTemp \<Rightarrow> 'v varTemp go" where
  "varTemp_Set x vt =
     (if list_ex (\<lambda>v. snd (set_last x v)) vt then Some (map (\<lambda>v. fst (set_last x v)) vt) else varTemp_Push x vt)"

definition varTemp_Append :: "'v varTemp \<Rightarrow> 'v varTemp" where
  "varTemp_Append vt = vt @ [[]]"

definition varTemp_ClearTop :: "'v varTemp \<Rightarrow> 'v varTemp option" where
  "varTemp_ClearTop vt = (if vt = [] then None else Some (vt[length vt - 1 := []]))"

definition varTemp_Pop :: "'v varTemp \<Rightarrow> 'v varTemp option" where
  "varTemp_Pop vt = (if vt = [] then None else Some (butlast vt))"

definition varTemp_GetValue :: "'v varTemp \<Rightarrow> string \<Rightarrow> 'v option" where
  "varTemp_GetValue vt key = map_of (rev (concat vt)) key"

definition existIn :: "'v varTemp \<Rightarrow> string \<Rightarrow> bool" where
  "existIn vt s = list_ex (list_ex (\<lambda>e. fst e = s)) vt"

section \<open>Keywords\<close>

abbreviation (input) IF_EXP :: string where "IF_EXP \<equiv> ''if''"
abbreviation (input) ELSE_EXP :: string where "ELSE_EXP \<equiv> ''else''"
abbreviation (input) ELSEIF_EXP :: string where "ELSEIF_EXP \<equiv> ''elseif''"
abbreviation (input) SET_EXP :: string where "SET_EXP \<equiv> ''set''"
abbreviation (input) SUB_EXP :: string where "SUB_EXP \<equiv> ''sub''"
abbreviation (input) MERGE_EXP :: string where "MERGE_EXP \<equiv> ''merge''"
abbreviation (input) RANGE_EXP :: string where "RANGE_EXP \<equiv> ''range''"
abbreviation (input) GET_EXP :: string where "GET_EXP \<equiv> ''get''"
abbreviation (input) GETP_EXP :: string where "GETP_EXP \<equiv> ''getp''"
abbreviation (input) PUT_EXP :: string where "PUT_EXP \<equiv> ''put''"
abbreviation (input) PUSH_EXP :: string where "PUSH_EXP \<equiv> ''push''"
abbreviation (input) DELETE_EXP :: string where "DELETE_EXP \<equiv> ''delete''"
abbreviation (input) POP_EXP :: string where "POP_EXP \<equiv> ''pop''"
abbreviation (input) PARSE_EXP :: string where "PARSE_EXP \<equiv> ''parse''"
abbreviation (input) SEND_EXP :: string where "SEND_EXP \<equiv> ''send''"
abbreviation (input) SENDU_EXP :: string where "SENDU_EXP \<equiv> ''sendu''"
abbreviation (input) SENDSYNC_EXP :: string where "SENDSYNC_EXP \<equiv> ''sendsync''"
abbreviation (input) WAIT_EXP :: string where "WAIT_EXP \<equiv> ''wait''"
abbreviation (input) WAITE_EXP :: string where "WAITE_EXP \<equiv> ''waite''"
abbreviation (input) EQ_EXP :: string where "EQ_EXP \<equiv> ''eq''"
abbreviation (input) NE_EXP :: string where "NE_EXP \<equiv> ''ne''"
abbreviation (input) END_EXP :: string where "END_EXP \<equiv> ''end''"
abbreviation (input) BREAK_EXP :: string where "BREAK_EXP \<equiv> ''break''"
abbreviation (input) RETURN_EXP :: string where "RETURN_EXP \<equiv> ''return''"
abbreviation (input) DEFINE_EXP :: string where "DEFINE_EXP \<equiv> ''define''"
abbreviation (input) PRINTF_EXP :: string where "PRINTF_EXP \<equiv> ''printf''"

abbreviation (input) SubTask :: string where "SubTask \<equiv> ''_task''"
abbreviation (input) SubChannel :: string where "SubChannel \<equiv> ''_channel''"
abbreviation (input) SubClient :: string where "SubClient \<equiv> ''_client''"

definition OPEN_EXP :: "string list" where
  "OPEN_EXP = [MERGE_EXP, RANGE_EXP, PUT_EXP, DELETE_EXP, POP_EXP, IF_EXP, GET_EXP, PUSH_EXP, WAIT_EXP, WAITE_EXP]"

definition COMPARE_EXP :: "string list" where
  "COMPARE_EXP = [EQ_EXP, NE_EXP, ''lt'', ''le'', ''gt'', ''ge'']"

definition FUNC_BUILDIN :: "string list" where
  "FUNC_BUILDIN = [SUB_EXP, MERGE_EXP]"

definition FUNC_CAN_EMPTY_INPUT :: "string list" where
  "FUNC_CAN_EMPTY_INPUT = [ELSE_EXP, END_EXP, RETURN_EXP, PARSE_EXP]"

definition go_includes :: "'a list \<Rightarrow> 'a \<Rightarrow> bool" where
  "go_includes source e = list_ex (\<lambda>s. s = e) source"

section \<open>Compiling an expression\<close>

record expression =
  ex_Func :: string
  ex_Params :: "string list"

text \<open>What the JavaScript runtime has under a name; without a runtime the environment is \<open>None\<close>.\<close>

datatype js_entry = JsMissing | JsValue | JsFunction

type_synonym js_runtime = "(string \<Rightarrow> js_entry) option"

record 'g template =
  tp_Vars :: "(string, 'g) fmap option"
  tp_IndexRun :: "(nat, nat) fmap"
  tp_Input :: "string list"
  tp_Exps :: "expression list list"
  tp_Call :: "string fset"
  tp_FuncNotFound :: "string list"

definition NewTemplate :: "'g template" where
  "NewTemplate = \<lparr>tp_Vars = None, tp_IndexRun = fmempty, tp_Input = [], tp_Exps = [], tp_Call = {||}, tp_FuncNotFound = []\<rparr>"

definition GetFunction :: "(string \<Rightarrow> js_entry) \<Rightarrow> string fset \<Rightarrow> string \<Rightarrow> bool" where
  "GetFunction js call nm \<longleftrightarrow> nm |\<in>| call \<or> js nm = JsFunction"

definition isContants :: "string \<Rightarrow> string option" where
  "isContants s = (if \<not> HasPrefix s ''('' \<or> \<not> HasSuffix s '')'' then Some ''is not const'' else None)"

text \<open>The check returns after the first parameter that is a constant, a variable or an input.\<close>

fun checkValidParam :: "'g template \<Rightarrow> string list \<Rightarrow> 'v varTemp \<Rightarrow> string option" where
  "checkValidParam t [] vt = None"
| "checkValidParam t (e # items) vt =
     (if \<not> HasPrefix e ''.'' then isContants e
      else if (case tp_Vars t of None \<Rightarrow> False | Some vars \<Rightarrow> TrimPrefix e ''.'' |\<in>| fmdom vars) then None
      else if go_includes (tp_Input t) (TrimPrefix e ''.'') then None
      else if \<not> existIn vt e then Some ''stack err, variable has not define''
      else checkValidParam t items vt)"

text \<open>Splitting a chain at the bars; an empty last segment is dropped, an empty inner one is kept.\<close>

fun split_chain :: "string list \<Rightarrow> string list \<Rightarrow> string list list" where
  "split_chain buf [] = (if buf = [] then [] else [buf])"
| "split_chain buf (e # items) = (if e = ''|'' then buf # split_chain [] items else split_chain (buf @ [e]) items)"

text \<open>One segment of a chain.  It fails with an error, makes the whole compilation return without
  expressions, or goes on with the count of opened blocks, the scopes and the template.\<close>

datatype ('v, 'g) compile_step =
    CErr string
  | CReturn "'g template"
  | CNext int "'v varTemp" "'g template"

definition compile_params ::
  "'g template \<Rightarrow> string list \<Rightarrow> int \<Rightarrow> 'v varTemp \<Rightarrow> ('v, 'g) compile_step" where
  "compile_params t params opn vt = (case checkValidParam t params vt of Some err \<Rightarrow> CErr err | None \<Rightarrow> CNext opn vt t)"

definition missing_function :: "bool \<Rightarrow> string \<Rightarrow> 'g template \<Rightarrow> ('v, 'g) compile_step" where
  "missing_function restrict nm t =
     (if restrict then CErr ''not exist'' else CReturn (t\<lparr>tp_FuncNotFound := tp_FuncNotFound t @ [nm]\<rparr>))"

definition compile_if ::
  "js_runtime \<Rightarrow> bool \<Rightarrow> nat \<Rightarrow> string list \<Rightarrow> int \<Rightarrow> 'v varTemp \<Rightarrow> 'g template \<Rightarrow> ('v, 'g) compile_step go" where
  "compile_if js restrict idx c opn vt t =
     (if idx > 0 then Some (CErr ''cannot use as pipeline'')
      else if length c = 1 then Some (CErr ''empty'')
      else do {
        c1 \<leftarrow> go_index c 1;
        let known = go_includes COMPARE_EXP c1 \<or> go_includes FUNC_BUILDIN c1 \<or> HasPrefix c1 ''.'' \<or> js = None;
        let entry = (case js of None \<Rightarrow> JsFunction | Some f \<Rightarrow> f c1);
        Some (if \<not> known \<and> entry = JsMissing then missing_function restrict (hd c) t
              else if \<not> known \<and> entry = JsValue then CErr ''not a function''
              else (case checkValidParam t (drop 2 c) vt of
                      Some err \<Rightarrow> CErr err
                    | None \<Rightarrow>
                        if hd c = IF_EXP then CNext 1 vt t
                        else (case varTemp_ClearTop vt of None \<Rightarrow> CErr ''stack empty'' | Some vt1 \<Rightarrow> CNext opn vt1 t)))
      })"

definition compile_cmd ::
  "js_runtime \<Rightarrow> bool \<Rightarrow> nat \<Rightarrow> string list \<Rightarrow> int \<Rightarrow> 'v \<Rightarrow> 'v varTemp \<Rightarrow> 'g template \<Rightarrow> ('v, 'g) compile_step go" where
  "compile_cmd js restrict idx c opn nil vt t = do {
     c0 \<leftarrow> go_index c 0;
     if c0 = IF_EXP \<or> c0 = ELSEIF_EXP then compile_if js restrict idx c opn vt t
     else if c0 = ELSE_EXP then
       Some (if idx \<noteq> 0 \<or> length c \<noteq> 1 then CErr ''else error''
             else (case varTemp_ClearTop vt of None \<Rightarrow> CErr ''stack empty'' | Some vt1 \<Rightarrow> CNext opn vt1 t))
     else if c0 = END_EXP then
       Some (if length c > 1 then CErr ''no params''
             else (case varTemp_Pop vt of None \<Rightarrow> CErr ''stack empty'' | Some vt1 \<Rightarrow> CNext (opn - 1) vt1 t))
     else if c0 = SET_EXP \<or> c0 = DEFINE_EXP then
       (if length c \<noteq> 3 then Some (CErr ''invalid params'')
        else if c0 = DEFINE_EXP \<and> \<not> go_includes [''map'', ''array'', ''number'', ''string''] (c ! 2) then Some (CErr ''not support type'')
        else do { vt1 \<leftarrow> varTemp_Push (ToLower (c ! 1), nil) vt; Some (CNext opn vt1 t) })
     else if c0 = RANGE_EXP then
       (if idx > 0 then Some (CErr ''cannot use as pipeline'')
        else do {
          params \<leftarrow> go_slice c 1 2;
          (case checkValidParam t params vt of
             Some err \<Rightarrow> Some (CErr err)
           | None \<Rightarrow> do {
               c2 \<leftarrow> go_index c 2;
               vt1 \<leftarrow> varTemp_Push (c2, nil) vt;
               c3 \<leftarrow> go_index c 3;
               vt2 \<leftarrow> varTemp_Push (c3, nil) vt1;
               Some (CNext (opn + 1) vt2 t)
             })
        })
     else if c0 = SUB_EXP \<or> c0 = MERGE_EXP then
       Some (if idx = 0 \<and> length c = 2 then CErr ''invalid params'' else compile_params t (drop 1 c) (opn + 1) vt)
     else if c0 = PARSE_EXP then
       Some (if idx = 0 \<and> length c = 1 then CErr ''invalid params'' else CNext opn vt t)
     else if c0 = BREAK_EXP then
       Some (if idx > 0 then CErr ''cannot use as pipeline''
             else (case varTemp_Pop vt of None \<Rightarrow> CErr ''stack empty'' | Some vt1 \<Rightarrow> CNext opn vt1 t))
     else if c0 = WAIT_EXP \<or> c0 = WAITE_EXP then
       (if list_ex (\<lambda>e. \<not> go_includes (tp_Input t) (TrimPrefix e ''.'') \<and> \<not> HasSuffix e SubChannel \<and> \<not> HasSuffix e SubTask) (drop 1 c)
        then Some (CErr ''invalid param'')
        else do {
          c1 \<leftarrow> go_index c 1;
          vt1 \<leftarrow> varTemp_Push (c1, nil) vt;
          Some (CNext (opn + 1) (varTemp_Append vt1) t)
        })
     else if c0 = PRINTF_EXP then do {
       c1 \<leftarrow> go_index c 1;
       Some (case isContants c1 of Some err \<Rightarrow> CErr err | None \<Rightarrow> CNext opn vt t)
     }
     else if c0 = SEND_EXP \<or> c0 = SENDU_EXP \<or> c0 = SENDSYNC_EXP then
       Some (if length c = 1 \<or> length c > 3 then CErr ''invalid params'' else CNext opn vt t)
     else if c0 = GET_EXP \<or> c0 = PUT_EXP \<or> c0 = DELETE_EXP \<or> c0 = POP_EXP \<or> c0 = GETP_EXP then
       Some (if length c = 1 then CErr ''missing param'' else compile_params t (drop 1 c) (opn + 1) vt)
     else if c0 = RETURN_EXP then Some (CNext opn vt t)
     else if c0 = PUSH_EXP then Some (CNext (opn + 1) vt t)
     else
       (case js of
          Some f \<Rightarrow>
            Some (case f c0 of
                    JsMissing \<Rightarrow> missing_function restrict c0 t
                  | JsValue \<Rightarrow> CErr ''not a function''
                  | JsFunction \<Rightarrow> CNext opn vt (t\<lparr>tp_Call := finsert c0 (tp_Call t)\<rparr>))
        | None \<Rightarrow>
            Some (if restrict then CErr ''is not define''
                  else CNext opn vt (t\<lparr>tp_FuncNotFound := tp_FuncNotFound t @ [c0]\<rparr>)))
   }"

text \<open>The loop over the chain.\<close>

fun compile_chain ::
  "js_runtime \<Rightarrow> bool \<Rightarrow> nat \<Rightarrow> string list list \<Rightarrow> expression list \<Rightarrow> int \<Rightarrow> 'v \<Rightarrow> 'v varTemp \<Rightarrow> 'g template
     \<Rightarrow> (string + expression list \<times> int \<times> 'v varTemp \<times> 'g template) go" where
  "compile_chain js restrict idx [] exps opn nil vt t =
     Some (Inr (if opn > 0 then (exps, 1, varTemp_Append vt, t) else (exps, opn, vt, t)))"
| "compile_chain js restrict idx (c # chain) exps opn nil vt t =
     (if length c = 1 \<and> HasPrefix (hd c) ''.'' then
        (case (if idx = 0 then checkValidParam t c vt else None) of
           Some err \<Rightarrow> Some (Inl err)
         | None \<Rightarrow> do {
             vt1 \<leftarrow> varTemp_Push (ToLower (hd c), nil) vt;
             compile_chain js restrict (Suc idx) chain (exps @ [\<lparr>ex_Func = SET_EXP, ex_Params = c\<rparr>]) opn nil vt1 t
           })
      else if length c = 1 \<and> \<not> go_includes FUNC_CAN_EMPTY_INPUT (hd c) \<and> js \<noteq> None then
        (let found = GetFunction (the js) (tp_Call t) (hd c)
         in if \<not> found \<and> restrict then Some (Inl ''not define, cannot find'')
            else compile_chain js restrict (Suc idx) chain (exps @ [\<lparr>ex_Func = hd c, ex_Params = []\<rparr>]) opn nil vt
                   (if found then t else t\<lparr>tp_FuncNotFound := tp_FuncNotFound t @ [hd c]\<rparr>))
      else do {
        r \<leftarrow> compile_cmd js restrict idx c opn nil vt t;
        (case r of
           CErr err \<Rightarrow> Some (Inl err)
         | CReturn t1 \<Rightarrow> Some (Inr ([], 0, vt, t1))
         | CNext opn1 vt1 t1 \<Rightarrow>
             compile_chain js restrict (Suc idx) chain (exps @ [\<lparr>ex_Func = hd c, ex_Params = drop 1 c\<rparr>]) opn1 nil vt1 t1)
      })"

definition complieChainExps ::
  "js_runtime \<Rightarrow> bool \<Rightarrow> string list \<Rightarrow> 'v \<Rightarrow> 'v varTemp \<Rightarrow> 'g template
     \<Rightarrow> (string + expression list \<times> int \<times> 'v varTemp \<times> 'g template) go" where
  "complieChainExps js restrict items nil vt t = compile_chain js restrict 0 (split_chain [] items) [] 0 nil vt t"

section \<open>Parsing\<close>

text \<open>The tokens of \<open>\([^)]*\)|\S+\<close>: a parenthesised text, or a run of characters that are not white space.\<close>

definition is_space :: "char \<Rightarrow> bool" where
  "is_space c \<longleftrightarrow> c \<in> set [CHR '' '', CHR 0x09, CHR 0x0A, CHR 0x0C, CHR 0x0D]"

function tokens :: "string \<Rightarrow> string list" where
  "tokens s =
     (case dropWhile is_space s of
        [] \<Rightarrow> []
      | c # rest \<Rightarrow>
          if c = CHR ''('' \<and> CHR '')'' \<in> set rest
          then (c # takeWhile (\<lambda>x. x \<noteq> CHR '')'') rest @ '')'') # tokens (drop 1 (dropWhile (\<lambda>x. x \<noteq> CHR '')'') rest))
          else (c # takeWhile (\<lambda>x. \<not> is_space x) rest) # tokens (dropWhile (\<lambda>x. \<not> is_space x) rest))"
  by pat_completeness auto
termination
proof (relation "measure length")
  fix s c rest assume d: "dropWhile is_space s = c # rest"
  then have l: "length rest < length s" by (metis length_Cons length_dropWhile_le less_eq_Suc_le)
  show "(drop 1 (dropWhile (\<lambda>x. x \<noteq> CHR '')'') rest), s) \<in> measure length"
    using l length_dropWhile_le[of "\<lambda>x. x \<noteq> CHR '')''" rest] by simp
  show "(dropWhile (\<lambda>x. \<not> is_space x) rest, s) \<in> measure length"
    using l length_dropWhile_le[of "\<lambda>x. \<not> is_space x" rest] by simp
qed simp

declare tokens.simps [simp del]

definition TrimSpaces :: "string \<Rightarrow> string" where
  "TrimSpaces s = rev (dropWhile (\<lambda>c. c = CHR '' '') (rev (dropWhile (\<lambda>c. c = CHR '' '') s)))"

definition blank :: "string \<Rightarrow> bool" where
  "blank s = list_all (\<lambda>c. is_space c \<or> c = CHR 0x0B) s"

definition compileExp ::
  "js_runtime \<Rightarrow> bool \<Rightarrow> string \<Rightarrow> 'v \<Rightarrow> 'v varTemp \<Rightarrow> 'g template \<Rightarrow> (string + expression list \<times> int \<times> 'v varTemp \<times> 'g template) go" where
  "compileExp js restrict exp nil vt t =
     (let exp1 = TrimSpaces exp
      in if exp1 = '''' then Some (Inl ''empty expression'')
         else complieChainExps js restrict
                (map (\<lambda>e. if HasPrefix e ''.'' \<or> HasPrefix e ''('' then ToLower e else e) (tokens exp1)) nil vt t)"

text \<open>The loop of \<open>Parse\<close> over the characters.\<close>

fun parse_loop ::
  "js_runtime \<Rightarrow> bool \<Rightarrow> 'v \<Rightarrow> string \<Rightarrow> int \<Rightarrow> int \<Rightarrow> string \<Rightarrow> int \<Rightarrow> 'v varTemp \<Rightarrow> 'g template \<Rightarrow> (string + 'g template) go" where
  "parse_loop js restrict nil [] opn cls expStr openExp vt t =
     Some (if opn - cls > 0 then Inl ''missing }'' else if openExp \<noteq> 0 then Inl ''missing end'' else Inr t)"
| "parse_loop js restrict nil (c # str) opn cls expStr openExp vt t =
     (if c = CHR ''{'' then
        (let opn1 = opn + 1
         in if opn1 - cls > 2 then Some (Inl ''redundancy {'')
            else if opn1 - cls < 0 then Some (Inl ''missing sign {'')
            else parse_loop js restrict nil str opn1 cls '''' openExp vt t)
      else if c = CHR ''}'' then
        (let cls1 = cls + 1
         in if opn - cls1 < 0 then Some (Inl ''missing sign {'')
            else if opn = cls1 \<and> expStr \<noteq> '''' then do {
              r \<leftarrow> compileExp js restrict expStr nil vt t;
              (case r of
                 Inl err \<Rightarrow> Some (Inl err)
               | Inr (exp, ope, vt1, t1) \<Rightarrow>
                   if openExp + ope < 0 then Some (Inl ''redundancy end'')
                   else parse_loop js restrict nil str opn cls1 '''' (openExp + ope) vt1 (t1\<lparr>tp_Exps := tp_Exps t1 @ [exp]\<rparr>))
            }
            else parse_loop js restrict nil str opn cls1 expStr openExp vt t)
      else if opn - cls \<noteq> 2 \<and> \<not> blank expStr then Some (Inl ''invalid {'')
      else parse_loop js restrict nil str opn cls (expStr @ [c]) openExp vt t)"

definition Parse :: "js_runtime \<Rightarrow> bool \<Rightarrow> 'v \<Rightarrow> string \<Rightarrow> (string, 'g) fmap option \<Rightarrow> 'g template \<Rightarrow> (string + 'g template) go" where
  "Parse js restrict nil str globalVar t = parse_loop js restrict nil str 1 1 '''' 0 [[]] (t\<lparr>tp_Vars := globalVar\<rparr>)"

section \<open>The jump table\<close>

text \<open>What \<open>Build\<close> does with a row: the first expression that opens, switches or closes a block decides.\<close>

datatype block_op = OpenBlock | SwitchBlock | CloseBlock

fun row_op :: "expression list \<Rightarrow> block_op option" where
  "row_op [] = None"
| "row_op (e # es) =
     (if go_includes OPEN_EXP (ex_Func e) then Some OpenBlock
      else if ex_Func e = ELSEIF_EXP \<or> ex_Func e = ELSE_EXP \<or> ex_Func e = BREAK_EXP then Some SwitchBlock
      else if ex_Func e = END_EXP then Some CloseBlock
      else row_op es)"

fun build_jumps :: "nat \<Rightarrow> expression list list \<Rightarrow> nat list \<Rightarrow> (nat, nat) fmap \<Rightarrow> string + nat list \<times> (nat, nat) fmap" where
  "build_jumps idx [] stack jumps = Inr (stack, jumps)"
| "build_jumps idx (exp # exps) stack jumps =
     (case row_op exp of
        None \<Rightarrow> build_jumps (Suc idx) exps stack jumps
      | Some OpenBlock \<Rightarrow> build_jumps (Suc idx) exps (idx # stack) jumps
      | Some SwitchBlock \<Rightarrow>
          (case stack of [] \<Rightarrow> Inl ''stack is empty'' | jum # rest \<Rightarrow> build_jumps (Suc idx) exps (idx # rest) (fmupd jum idx jumps))
      | Some CloseBlock \<Rightarrow>
          (case stack of [] \<Rightarrow> Inl ''stack is empty'' | jum # rest \<Rightarrow> build_jumps (Suc idx) exps rest (fmupd jum idx jumps)))"

definition Build ::
  "js_runtime \<Rightarrow> bool \<Rightarrow> 'v \<Rightarrow> string list \<Rightarrow> string \<Rightarrow> (string, 'g) fmap option \<Rightarrow> 'g template \<Rightarrow> (string + 'g template) go" where
  "Build js restrict nil input s vars t = do {
     r \<leftarrow> Parse js restrict nil s vars (t\<lparr>tp_Input := input\<rparr>);
     Some (case r of
             Inl err \<Rightarrow> Inl err
           | Inr t1 \<Rightarrow>
               (case build_jumps 0 (tp_Exps t1) [] (tp_IndexRun t1) of
                  Inl err \<Rightarrow> Inl err
                | Inr (_, jumps) \<Rightarrow> Inr (t1\<lparr>tp_IndexRun := jumps\<rparr>)))
   }"

section \<open>The interpreter loop\<close>

text \<open>Range values are objects shared between \<open>RangeValue\<close> and the local range stack: they live in
  \<open>rt_ranges\<close> and are referred to by their index.  \<open>expIndex\<close> is the pair of row and expression that
  the source keeps as text.\<close>

record 'f rangeValue =
  rv_Value :: "'f val kv list"
  rv_StartIndex :: int
  rv_Index :: nat
  rv_EndIndex :: int
  rv_KeyVar :: string
  rv_ValueVar :: string

record 'f runtime =
  rt_expIndex :: "nat \<times> nat"
  rt_varTemp :: "'f val varTemp"
  rt_exps :: "expression list list"
  rt_indexRun :: "(nat, nat) fmap"
  rt_ExpInput :: "'f val list"
  rt_RangeValue :: "nat option"
  rt_ranges :: "'f rangeValue list"

definition NewRutime :: "'g template \<Rightarrow> 'f runtime" where
  "NewRutime t = \<lparr>rt_expIndex = (0, 0), rt_varTemp = varTemp_Append [], rt_exps = tp_Exps t, rt_indexRun = tp_IndexRun t,
     rt_ExpInput = [], rt_RangeValue = None, rt_ranges = []\<rparr>"

record 'f deliverFlow =
  df_Reciever :: string
  df_Send :: string
  df_Msg :: "'f val"

record 'f execOutput =
  eo_DeliverFlows :: "'f deliverFlow list"
  eo_Logs :: "(string \<times> int \<times> expression) list"
  eo_Err :: string
  eo_Result :: "'f val list option"

text \<open>The local state of \<open>Execute\<close>.\<close>

record 'f exec_state =
  es_idx :: int
  es_stack :: "nat list"
  es_rt :: "'f runtime"
  es_out :: "'f execOutput"

type_synonym 'f evaluator =
  "expression \<Rightarrow> 'f val list \<Rightarrow> 'f val varTemp \<Rightarrow> (('f val list \<times> string option) \<times> 'f val varTemp) go"

text \<open>Reading the jump table: a missing entry is zero.\<close>

definition indexRun :: "'f exec_state \<Rightarrow> int" where
  "indexRun st =
     (if es_idx st < 0 then 0
      else (case fmlookup (rt_indexRun (es_rt st)) (nat (es_idx st)) of None \<Rightarrow> 0 | Some j \<Rightarrow> int j))"

text \<open>What a range runs over; \<open>ord\<close> is the iteration order of a map.\<close>

definition range_values :: "(string fset \<Rightarrow> string list) \<Rightarrow> 'f val \<Rightarrow> 'f val kv list" where
  "range_values ord v =
     (case v of
        VMap m \<Rightarrow> map (\<lambda>k. (k, the (fmlookup m k))) (ord (fmdom m))
      | VReplyPtr m \<Rightarrow> map (\<lambda>k. (k, the (fmlookup m k))) (ord (fmdom m))
      | VArr xs \<Rightarrow> zip (map nat_str [0..<length xs]) xs
      | _ \<Rightarrow> [])"

definition set_vt :: "'f val varTemp \<Rightarrow> 'f exec_state \<Rightarrow> 'f exec_state" where
  "set_vt vt st = st\<lparr>es_rt := (es_rt st)\<lparr>rt_varTemp := vt\<rparr>\<rparr>"

definition set_RangeValue :: "nat option \<Rightarrow> 'f exec_state \<Rightarrow> 'f exec_state" where
  "set_RangeValue r st = st\<lparr>es_rt := (es_rt st)\<lparr>rt_RangeValue := r\<rparr>\<rparr>"

definition pop_vt :: "'f exec_state \<Rightarrow> 'f exec_state" where
  "pop_vt st = (case varTemp_Pop (rt_varTemp (es_rt st)) of None \<Rightarrow> st | Some vt \<Rightarrow> set_vt vt st)"

text \<open>Binding the current item of a range object and moving it on.\<close>

definition push_item :: "nat \<Rightarrow> 'f exec_state \<Rightarrow> 'f exec_state go" where
  "push_item r st = do {
     rv \<leftarrow> go_index (rt_ranges (es_rt st)) r;
     (k, v) \<leftarrow> go_index (rv_Value rv) (rv_Index rv);
     vt1 \<leftarrow> varTemp_Push (rv_KeyVar rv, VStr k) (rt_varTemp (es_rt st));
     vt2 \<leftarrow> varTemp_Push (rv_ValueVar rv, v) vt1;
     Some (st\<lparr>es_rt := (es_rt st)\<lparr>rt_varTemp := vt2,
                rt_ranges := (rt_ranges (es_rt st))[r := rv\<lparr>rv_Index := rv_Index rv + 1\<rparr>]\<rparr>\<rparr>)
   }"

definition start_range :: "(string fset \<Rightarrow> string list) \<Rightarrow> expression \<Rightarrow> 'f val list \<Rightarrow> 'f exec_state \<Rightarrow> 'f exec_state go" where
  "start_range ord e out st = do {
     key \<leftarrow> go_index (ex_Params e) 1;
     val \<leftarrow> go_index (ex_Params e) 2;
     value \<leftarrow> go_index out 0;
     let r = length (rt_ranges (es_rt st));
     let rv = \<lparr>rv_Value = range_values ord value, rv_StartIndex = es_idx st, rv_Index = 0, rv_EndIndex = indexRun st,
               rv_KeyVar = key, rv_ValueVar = val\<rparr>;
     let st1 = st\<lparr>es_rt := (es_rt st)\<lparr>rt_RangeValue := Some r, rt_ranges := rt_ranges (es_rt st) @ [rv]\<rparr>\<rparr>;
     if rv_Value rv = [] then Some (st1\<lparr>es_idx := indexRun st - 1\<rparr>)
     else do { st2 \<leftarrow> push_item r st1; Some (st2\<lparr>es_stack := r # es_stack st2\<rparr>) }
   }"

text \<open>Going back to the start of a range for its next item.\<close>

definition next_round :: "nat \<Rightarrow> 'f exec_state \<Rightarrow> 'f exec_state go" where
  "next_round r st = do {
     rv \<leftarrow> go_index (rt_ranges (es_rt st)) r;
     push_item r ((set_vt (varTemp_Append (rt_varTemp (es_rt st))) st)\<lparr>es_idx := rv_StartIndex rv\<rparr>)
   }"

definition end_block :: "'f exec_state \<Rightarrow> 'f exec_state go" where
  "end_block st0 =
     (let st = pop_vt st0
      in case rt_RangeValue (es_rt st) of
           None \<Rightarrow> Some st
         | Some r \<Rightarrow> do {
             rv \<leftarrow> go_index (rt_ranges (es_rt st)) r;
             if rv_EndIndex rv \<noteq> es_idx st then Some st
             else if rv_Index rv < length (rv_Value rv) then next_round r st
             else (case es_stack st of
                     [] \<Rightarrow> Some st
                   | _ # [] \<Rightarrow> Some (set_RangeValue None (st\<lparr>es_stack := []\<rparr>))
                   | _ # r' # rest \<Rightarrow> do {
                       rv' \<leftarrow> go_index (rt_ranges (es_rt st)) r';
                       let st1 = set_RangeValue (Some r') (st\<lparr>es_stack := r' # rest\<rparr>);
                       if rv_Index rv' < length (rv_Value rv') then next_round r' (pop_vt st1) else Some st1
                     })
           })"

definition trim_dots :: "string \<Rightarrow> string" where
  "trim_dots s = rev (dropWhile (\<lambda>c. c = CHR ''.'') (rev (dropWhile (\<lambda>c. c = CHR ''.'') s)))"

text \<open>The treatment of one expression of a row: \<open>Stop\<close> returns from \<open>Execute\<close>, \<open>Leave\<close> leaves the row, \<open>Stay\<close> goes on.\<close>

datatype control = Stop | Leave | Stay

definition isSend :: "string \<Rightarrow> bool" where
  "isSend f \<longleftrightarrow> f = SENDSYNC_EXP \<or> f = SEND_EXP \<or> f = SENDU_EXP"

definition exec_send :: "expression \<Rightarrow> nat \<Rightarrow> 'f val list \<Rightarrow> string option \<Rightarrow> 'f exec_state \<Rightarrow> (control \<times> 'f exec_state) go" where
  "exec_send e edx out err st =
     (if err \<noteq> None \<or> out = [] then Some (Stop, st)
      else do {
        p \<leftarrow> go_index (ex_Params e) (if length (ex_Params e) = 2 then 1 else 0);
        let df = \<lparr>df_Reciever = trim_dots p, df_Send = ex_Func e, df_Msg = hd out\<rparr>;
        Some (if ex_Func e = SENDSYNC_EXP then Stop else Stay,
              st\<lparr>es_rt := (es_rt st)\<lparr>rt_expIndex := (nat (es_idx st), edx + 1)\<rparr>,
                 es_out := (es_out st)\<lparr>eo_DeliverFlows := eo_DeliverFlows (es_out st) @ [df]\<rparr>\<rparr>)
      })"

definition isEmptyOut :: "'f val list \<Rightarrow> bool" where
  "isEmptyOut out = (case out of [VStr s] \<Rightarrow> s = '''' | _ \<Rightarrow> False)"

definition isFalseOut :: "'f val list \<Rightarrow> bool" where
  "isFalseOut out = (case out of [VBool b] \<Rightarrow> \<not> b | _ \<Rightarrow> False)"

text \<open>What follows the evaluation of an expression that is not a send.\<close>

definition exec_rest :: "expression \<Rightarrow> 'f val list \<Rightarrow> string option \<Rightarrow> 'f exec_state \<Rightarrow> control \<times> 'f exec_state" where
  "exec_rest e out err st0 =
     (let st = (if ex_Func e = BREAK_EXP then set_RangeValue None st0 else st0)
      in if err \<noteq> None \<and> indexRun st = 0 then (Stop, st\<lparr>es_out := (es_out st)\<lparr>eo_Err := the err\<rparr>\<rparr>)
      else if ex_Func e = ELSE_EXP then (Leave, st\<lparr>es_idx := indexRun st - 1\<rparr>)
      else if ex_Func e = IF_EXP \<and> isFalseOut out then (Leave, st\<lparr>es_idx := indexRun st\<rparr>)
      else if (isEmptyOut out \<or> err \<noteq> None) \<and> indexRun st > 0 then (Leave, st\<lparr>es_idx := indexRun st\<rparr>)
      else
        (let st1 = st\<lparr>es_rt := (es_rt st)\<lparr>rt_ExpInput := out\<rparr>\<rparr>
         in if err \<noteq> None then (Stop, st1) else (Stay, st1)))"

definition exec_expression ::
  "'f evaluator \<Rightarrow> (string fset \<Rightarrow> string list) \<Rightarrow> expression \<Rightarrow> nat \<Rightarrow> 'f exec_state \<Rightarrow> (control \<times> 'f exec_state) go" where
  "exec_expression ev ord e edx st0 = do {
     ((out, err), vt) \<leftarrow> ev e (rt_ExpInput (es_rt st0)) (rt_varTemp (es_rt st0));
     let st1 = set_vt vt st0;
     let st = (case err of None \<Rightarrow> st1 | Some er \<Rightarrow> st1\<lparr>es_out := (es_out st1)\<lparr>eo_Logs := eo_Logs (es_out st1) @ [(er, es_idx st1, e)]\<rparr>\<rparr>);
     if isSend (ex_Func e) then exec_send e edx out err st
     else do {
       st2 \<leftarrow> (if ex_Func e = RANGE_EXP \<and> err = None then start_range ord e out st else Some st);
       if ex_Func e = RETURN_EXP then Some (Stop, st2\<lparr>es_out := (es_out st2)\<lparr>eo_Result := Some out\<rparr>\<rparr>)
       else do {
         st3 \<leftarrow> (if ex_Func e = END_EXP then end_block st2 else Some st2);
         Some (exec_rest e out err st3)
       }
     }
   }"

fun exec_row ::
  "'f evaluator \<Rightarrow> (string fset \<Rightarrow> string list) \<Rightarrow> expression list \<Rightarrow> nat \<Rightarrow> 'f exec_state \<Rightarrow> (bool \<times> 'f exec_state) go" where
  "exec_row ev ord [] edx st = Some (False, st)"
| "exec_row ev ord (e # es) edx st = do {
     (ctl, st1) \<leftarrow> exec_expression ev ord e edx st;
     (case ctl of
        Stop \<Rightarrow> Some (True, st1)
      | Leave \<Rightarrow> Some (False, st1)
      | Stay \<Rightarrow> exec_row ev ord es (Suc edx) st1)
   }"

definition enter_row :: "expression list \<Rightarrow> 'f exec_state \<Rightarrow> 'f exec_state" where
  "enter_row exp st =
     (if list_ex (\<lambda>e. go_includes OPEN_EXP (ex_Func e)) exp then set_vt (varTemp_Append (rt_varTemp (es_rt st))) st else st)"

definition leave_row :: "'f exec_state \<Rightarrow> 'f exec_state" where
  "leave_row st = st\<lparr>es_idx := es_idx st + 1, es_rt := (es_rt st)\<lparr>rt_ExpInput := []\<rparr>\<rparr>"

text \<open>The loop over the rows.  \<open>None\<close> is a run that never ends, \<open>Some None\<close> a panic.\<close>

partial_function (option) exec_rows ::
  "'f evaluator \<Rightarrow> (string fset \<Rightarrow> string list) \<Rightarrow> nat \<Rightarrow> 'f exec_state \<Rightarrow> 'f exec_state go option" where
  "exec_rows ev ord expIdx st =
     (if es_idx st < 0 then Some None
      else if nat (es_idx st) \<ge> length (rt_exps (es_rt st)) then Some (Some st)
      else
        (let exp = rt_exps (es_rt st) ! nat (es_idx st)
         in case exec_row ev ord (drop expIdx exp) expIdx (enter_row exp st) of
              None \<Rightarrow> Some None
            | Some (returned, st1) \<Rightarrow> if returned then Some (Some st1) else exec_rows ev ord 0 (leave_row st1)))"

declare exec_rows.simps [code]

definition Execute ::
  "'f evaluator \<Rightarrow> (string fset \<Rightarrow> string list) \<Rightarrow> 'f runtime \<Rightarrow> ('f execOutput \<times> 'f runtime) go option" where
  "Execute ev ord rt =
     (case exec_rows ev ord (snd (rt_expIndex rt))
         \<lparr>es_idx = int (fst (rt_expIndex rt)), es_stack = [], es_rt = rt,
          es_out = \<lparr>eo_DeliverFlows = [], eo_Logs = [], eo_Err = '''', eo_Result = None\<rparr>\<rparr> of
        None \<Rightarrow> None
      | Some None \<Rightarrow> Some None
      | Some (Some st) \<Rightarrow> Some (Some (es_out st, es_rt st)))"

end
