(* ===== verification/Template_Run.thy ===== *)
theory Template_Run
  imports Template "HOL-Library.Extended_Nat"
begin

text \<open>
  The interpreter of templates ends: every jump of the table that \<open>Build\<close> makes goes forward, the
  only jumps back are the rounds of a range, and each of them uses up an item.
\<close>

section \<open>The jump table goes forward\<close>

definition special :: "expression \<Rightarrow> bool" where
  "special e \<longleftrightarrow> ex_Func e = IF_EXP \<or> ex_Func e = ELSE_EXP \<or> ex_Func e = RANGE_EXP \<and> ex_Params e \<noteq> []"




section \<open>Blocks are opened at the head of a row\<close>























section \<open>The interpreter ends\<close>








lemma pop_vt_same [simp]:
  "rt_ranges (es_rt (pop_vt st)) = rt_ranges (es_rt st)" "rt_exps (es_rt (pop_vt st)) = rt_exps (es_rt st)"
  "rt_indexRun (es_rt (pop_vt st)) = rt_indexRun (es_rt st)" "es_idx (pop_vt st) = es_idx st" "es_stack (pop_vt st) = es_stack st"
  "rt_RangeValue (es_rt (pop_vt st)) = rt_RangeValue (es_rt st)"
  by (auto simp: pop_vt_def set_vt_def split: option.splits)

lemma set_RangeValue_same [simp]:
  "rt_ranges (es_rt (set_RangeValue r st)) = rt_ranges (es_rt st)" "rt_exps (es_rt (set_RangeValue r st)) = rt_exps (es_rt st)"
  "rt_indexRun (es_rt (set_RangeValue r st)) = rt_indexRun (es_rt st)" "es_idx (set_RangeValue r st) = es_idx st"
  by (simp_all add: set_RangeValue_def)

lemma set_vt_same [simp]:
  "rt_ranges (es_rt (set_vt vt st)) = rt_ranges (es_rt st)" "rt_exps (es_rt (set_vt vt st)) = rt_exps (es_rt st)"
  "rt_indexRun (es_rt (set_vt vt st)) = rt_indexRun (es_rt st)" "es_idx (set_vt vt st) = es_idx st"
  by (simp_all add: set_vt_def)













text \<open>Every row that may jump has an entry in the jump table.\<close>

definition blocks_closed :: "expression list list \<Rightarrow> (nat, nat) fmap \<Rightarrow> bool" where
  "blocks_closed exps jumps \<longleftrightarrow> (\<forall>i\<in>set [0..<length exps]. list_ex special (exps ! i) \<longrightarrow> i |\<in>| fmdom jumps)"

lemma enter_row_same [simp]:
  "rt_ranges (es_rt (enter_row row st)) = rt_ranges (es_rt st)" "rt_exps (es_rt (enter_row row st)) = rt_exps (es_rt st)"
  "rt_indexRun (es_rt (enter_row row st)) = rt_indexRun (es_rt st)" "es_idx (enter_row row st) = es_idx st"
  by (simp_all add: enter_row_def)



section \<open>Properties\<close>







section \<open>Concrete templates\<close>

definition demo_Build :: "string list \<Rightarrow> string \<Rightarrow> (string + unit template) go" where
  "demo_Build input s = Build None True () input s None NewTemplate"

definition demo_template :: "string list \<Rightarrow> string \<Rightarrow> unit template" where
  "demo_template input s = (case demo_Build input s of Some (Inr t) \<Rightarrow> t | _ \<Rightarrow> NewTemplate)"

definition accepted :: "string list \<Rightarrow> string \<Rightarrow> bool" where
  "accepted input s \<longleftrightarrow> (case demo_Build input s of Some (Inr t) \<Rightarrow> True | _ \<Rightarrow> False)"


text \<open>An evaluator with fixed answers: a range runs over two items, a condition is false, the rest give nothing.\<close>

definition demo_eval :: "unit evaluator" where
  "demo_eval e inp vt =
     Some ((if ex_Func e = RANGE_EXP then [VArr [VStr ''x'', VStr ''y'']]
            else if ex_Func e = IF_EXP then [VBool False]
            else if isSend (ex_Func e) then [VStr ''m''] else [], None), vt)"

definition demo_source :: string where
  "demo_source = ''{{range .a .k .v}}{{if .a}}{{send .a .c}}{{else}}{{send .v .d}}{{end}}{{end}}''"















section \<open>Where the compiler and the interpreter go wrong\<close>

text \<open>The unrestricted mode takes a single word that the JavaScript runtime does not have for the call of
  a function to be found later, and so accepts an \<open>if\<close> in the middle of a row, as well as a send without
  a receiver.\<close>

definition keyword_js :: js_runtime where
  "keyword_js = Some (\<lambda>_. JsMissing)"

definition pipeline_rows :: "bool \<Rightarrow> string list \<Rightarrow> string \<Rightarrow> string list list option" where
  "pipeline_rows restrict input s = (case Build keyword_js restrict () input s (None :: (string, unit) fmap option) NewTemplate of
     Some (Inr t) \<Rightarrow> Some (map (map ex_Func) (tp_Exps t)) | _ \<Rightarrow> None)"

lemma unrestricted_accepts_keywords:
  "pipeline_rows False [''a''] ''{{parse .a}}{{range .a .k .v | if}}{{send .a .c}}{{end}}''
     = Some [[''parse''], [''range'', ''if''], [''send''], [''end'']]"
  "pipeline_rows True [''a''] ''{{parse .a}}{{range .a .k .v | if}}{{send .a .c}}{{end}}'' = None"
  "pipeline_rows False [''a''] ''{{send}}'' = Some [[''send'']]" "pipeline_rows True [''a''] ''{{send}}'' = None"
  by code_simp+

text \<open>An empty segment of a pipeline, and an assignment after a \<open>break\<close> has closed the last scope, panic at compile time.\<close>

lemma compile_panics:
  "demo_Build [''x'', ''y''] ''{{.x | | .y}}'' = None"
  "demo_Build [''a''] ''{{range .a .k .v}}{{break}}{{end}}{{set .x (1)}}'' = None"
  by code_simp+

text \<open>When the condition of an \<open>if\<close> is false the row of the \<open>elseif\<close> is jumped over, and its body runs without
  its condition being evaluated.\<close>

definition demo_flows :: "string list \<Rightarrow> string \<Rightarrow> string list go option" where
  "demo_flows input s = map_option (map_option (\<lambda>(eo, rt). map df_Reciever (eo_DeliverFlows eo)))
     (Execute demo_eval (\<lambda>_. []) (NewRutime (demo_template input s)))"

lemma elseif_condition_skipped:
  "demo_flows [''a'', ''b''] ''{{if .a}}{{send .a .c}}{{elseif .b}}{{send .a .d}}{{end}}'' = Some (Some [''d''])"
  by code_simp

text \<open>A range over two items sends twice.\<close>

lemma range_runs_twice: "demo_flows [''a''] demo_source = Some (Some [''d'', ''d''])"
  by code_simp

text \<open>A template that is accepted although its \<open>else\<close> has no entry in the table: when its condition
  holds, the run goes back to the first row for ever.\<close>

definition loop_source :: string where
  "loop_source = ''{{if .a}}{{else}}{{get .a .b | end}}{{end}}''"

lemma loop_source_accepted: "accepted [''a'', ''b''] loop_source"
  by code_simp

lemma loop_source_open:
  "\<not> blocks_closed (tp_Exps (demo_template [''a'', ''b''] loop_source)) (tp_IndexRun (demo_template [''a'', ''b''] loop_source))"
  by code_simp

lemma loop_source_rows:
  "take 2 (tp_Exps (demo_template [''a'', ''b''] loop_source)) =
     [[\<lparr>ex_Func = IF_EXP, ex_Params = [''.a'']\<rparr>], [\<lparr>ex_Func = ELSE_EXP, ex_Params = []\<rparr>]]"
  "fmlookup (tp_IndexRun (demo_template [''a'', ''b''] loop_source)) 1 = None"
  by code_simp+

definition true_eval :: "unit evaluator" where
  "true_eval e inp vt = Some (([VBool True], None), vt)"

lemma true_row_if:
  "\<exists>st1. exec_row true_eval ord [\<lparr>ex_Func = IF_EXP, ex_Params = ps\<rparr>] 0 st = Some (False, st1) \<and> es_idx st1 = es_idx st \<and>
     rt_exps (es_rt st1) = rt_exps (es_rt st) \<and> rt_indexRun (es_rt st1) = rt_indexRun (es_rt st)"
  by (simp add: exec_expression_def true_eval_def isSend_def exec_rest_def isFalseOut_def isEmptyOut_def Let_def)

lemma true_row_else:
  assumes "indexRun st = 0"
  shows "\<exists>st1. exec_row true_eval ord [\<lparr>ex_Func = ELSE_EXP, ex_Params = ps\<rparr>] 0 st = Some (False, st1) \<and> es_idx st1 = - 1 \<and>
     rt_exps (es_rt st1) = rt_exps (es_rt st) \<and> rt_indexRun (es_rt st1) = rt_indexRun (es_rt st)"
proof -
  have "indexRun (set_vt vt st) = 0" for vt using assms by (simp add: indexRun_def split: if_splits)
  then show ?thesis by (simp add: exec_expression_def true_eval_def isSend_def exec_rest_def Let_def)
qed

lemma loop_never_ends:
  assumes "exec_rows true_eval ord 0 st = Some r" "take 2 (rt_exps (es_rt st)) =
     [[\<lparr>ex_Func = IF_EXP, ex_Params = [''.a'']\<rparr>], [\<lparr>ex_Func = ELSE_EXP, ex_Params = []\<rparr>]]"
    "fmlookup (rt_indexRun (es_rt st)) 1 = None" "es_idx st = 0 \<or> es_idx st = 1"
  shows False
proof -
  have rows: "xs ! 0 = [\<lparr>ex_Func = IF_EXP, ex_Params = [''.a'']\<rparr>] \<and> xs ! 1 = [\<lparr>ex_Func = ELSE_EXP, ex_Params = []\<rparr>] \<and> 2 \<le> length xs"
    if "take 2 xs = [[\<lparr>ex_Func = IF_EXP, ex_Params = [''.a'']\<rparr>], [\<lparr>ex_Func = ELSE_EXP, ex_Params = []\<rparr>]]" for xs
    using that by (cases xs; cases "tl xs") auto
  have "ev = true_eval \<Longrightarrow> k = 0 \<Longrightarrow> take 2 (rt_exps (es_rt st)) =
     [[\<lparr>ex_Func = IF_EXP, ex_Params = [''.a'']\<rparr>], [\<lparr>ex_Func = ELSE_EXP, ex_Params = []\<rparr>]] \<Longrightarrow>
    fmlookup (rt_indexRun (es_rt st)) 1 = None \<Longrightarrow> es_idx st = 0 \<or> es_idx st = 1 \<Longrightarrow> False"
    if "exec_rows ev ord k st = Some r" for ev k
  proof (induction rule: exec_rows.raw_induct[OF _ that])
    case (1 exec_rows ev ord k st r)
    note r = rows[OF 1(5)]
    let ?row = "rt_exps (es_rt st) ! nat (es_idx st)"
    have "\<exists>st1. exec_row true_eval ord ?row 0 (enter_row ?row st) = Some (False, st1) \<and> (es_idx st1 = 0 \<or> es_idx st1 = - 1) \<and>
       rt_exps (es_rt st1) = rt_exps (es_rt st) \<and> rt_indexRun (es_rt st1) = rt_indexRun (es_rt st)"
    proof (cases "es_idx st = 0")
      case True
      then show ?thesis using r true_row_if[of ord "[''.a'']" "enter_row ?row st"] by auto
    next
      case False
      then have "indexRun (enter_row ?row st) = 0" using 1(6,7) by (simp add: indexRun_def)
      then show ?thesis using r 1(7) False true_row_else[of "enter_row ?row st" ord "[]"] by auto
    qed
    then obtain st1 where st1: "exec_row true_eval ord ?row 0 (enter_row ?row st) = Some (False, st1)" "es_idx st1 = 0 \<or> es_idx st1 = - 1"
      "rt_exps (es_rt st1) = rt_exps (es_rt st)" "rt_indexRun (es_rt st1) = rt_indexRun (es_rt st)" by blast
    have "exec_rows true_eval ord 0 (leave_row st1) = Some r"
      using 1(2-4,7) r st1(1) by (auto simp: Let_def split: if_splits)
    then show False using 1(1)[of true_eval ord 0 "leave_row st1" r] 1(5,6) st1(2-4) by (auto simp: leave_row_def)
  qed
  then show False using assms by blast
qed

lemma template_loops_forever: "Execute true_eval ord (NewRutime (demo_template [''a'', ''b''] loop_source)) = None"
proof -
  let ?rt = "NewRutime (demo_template [''a'', ''b''] loop_source) :: unit runtime"
  have rt: "rt_exps ?rt = tp_Exps (demo_template [''a'', ''b''] loop_source)" "rt_indexRun ?rt = tp_IndexRun (demo_template [''a'', ''b''] loop_source)"
    "rt_expIndex ?rt = (0, 0)" by (simp_all add: NewRutime_def)
  have "exec_rows true_eval ord 0 \<lparr>es_idx = 0, es_stack = [], es_rt = ?rt,
          es_out = \<lparr>eo_DeliverFlows = [], eo_Logs = [], eo_Err = [], eo_Result = None\<rparr>\<rparr> = None" (is "?x = None")
  proof (cases ?x)
    case (Some r)
    show ?thesis using loop_never_ends[OF Some] loop_source_rows rt by simp
  qed
  then show ?thesis by (simp add: Execute_def rt(3))
qed

end
