(* ===== verification/Workflow_Names.thy ===== *)
theory Workflow_Names
  imports Go_Strings Template_Run
begin

text \<open>
  The names of the parts of a workflow (\<open>pkg/workflow/workflow.go\<close>): tasks, channels, brokers and
  clients are addressed by a name with a suffix, their fields by a longer suffix; and the compilation of
  brokers, which uses the template compiler.
\<close>

section \<open>Suffixes and names\<close>

abbreviation (input) SubBroker :: string where "SubBroker \<equiv> ''_broker''"

definition SubTasks :: "string list" where
  "SubTasks = [''_task_output'', ''_task_success'', ''_task_result'']"

definition SubChannels :: "string list" where
  "SubChannels = [''_channel_msg'', ''_channel_cmd'']"

definition SubClients :: "string list" where
  "SubClients = [''_client_msg'', ''_client_task_result'', ''_client_task_output'', ''_client_task_name'']"

definition GetTaskName :: "string \<Rightarrow> string" where
  "GetTaskName nm = ToLower (nm @ SubTask)"

definition GetChannelName :: "string \<Rightarrow> string" where
  "GetChannelName nm = ToLower (nm @ SubChannel)"

definition GetBrokerName :: "string \<Rightarrow> string" where
  "GetBrokerName nm = ToLower (nm @ SubBroker)"

definition GetClientName :: "string \<Rightarrow> string" where
  "GetClientName nm = ToLower (nm @ SubClient)"

definition IsRootDefaultVar :: "string \<Rightarrow> bool" where
  "IsRootDefaultVar v \<longleftrightarrow> HasSuffix v SubTask \<or> HasSuffix v SubChannel \<or> HasSuffix v SubClient"

definition isDefaultVar :: "string \<Rightarrow> bool" where
  "isDefaultVar v \<longleftrightarrow> HasSuffix v SubTask \<or> HasSuffix v SubChannel \<or> list_ex (HasSuffix v) SubTasks \<or> list_ex (HasSuffix v) SubChannels"

definition GetRootDefaultVar :: "string \<Rightarrow> string" where
  "GetRootDefaultVar v =
     (if IsRootDefaultVar v then v
      else case find (HasSuffix v) SubTasks of
             Some e \<Rightarrow> GetTaskName (TrimSuffix v e)
           | None \<Rightarrow>
               (case find (HasSuffix v) SubChannels of
                  Some e \<Rightarrow> GetChannelName (TrimSuffix v e)
                | None \<Rightarrow>
                    (case find (HasSuffix v) SubClients of
                       Some e \<Rightarrow> GetClientName (TrimRight v e)
                     | None \<Rightarrow> [])))"

definition GetRawName :: "string \<Rightarrow> string" where
  "GetRawName t0 =
     (let t = ToLower t0
      in if HasSuffix t SubChannel then TrimSuffix t SubChannel
         else if HasSuffix t SubTask then TrimSuffix t SubTask
         else if HasSuffix t SubClient then TrimSuffix t SubClient
         else case find (HasSuffix t) (SubClients @ SubChannels @ SubTasks) of Some e \<Rightarrow> TrimSuffix t e | None \<Rightarrow> [])"

section \<open>Brokers\<close>

record wf_broker =
  bk_ID :: int
  bk_Name :: string
  bk_Listens :: "string list"
  bk_Clients :: "string list"
  bk_Queue :: bool
  bk_Endpoints :: "string list"
  bk_Condition :: string

definition IsListen :: "wf_broker \<Rightarrow> string \<Rightarrow> bool" where
  "IsListen b nm = list_ex (\<lambda>l. l = GetTaskName nm \<or> l = GetChannelName nm \<or> l = GetClientName nm \<or> l = nm) (bk_Listens b)"

definition validateVarListen :: "string \<Rightarrow> string list \<Rightarrow> string list \<Rightarrow> string list \<Rightarrow> bool" where
  "validateVarListen dv clients channels tasks =
     (let d = TrimPrefix (GetRootDefaultVar dv) ''.''
      in list_ex (\<lambda>c. GetClientName c = d) clients \<or> list_ex (\<lambda>c. GetChannelName c = d) channels \<or> list_ex (\<lambda>k. GetTaskName k = d) tasks)"

text \<open>The template has no listened variables (\<open>ListenVars\<close> is never filled), so only the end points are checked
  against the parts of the workflow.  The result is the compiled template, if there is a condition.\<close>

definition Broker_Compile ::
  "js_runtime \<Rightarrow> (string, 'g) fmap option \<Rightarrow> string list \<Rightarrow> string list \<Rightarrow> string list \<Rightarrow> wf_broker \<Rightarrow> (string + 'g template option) go" where
  "Broker_Compile js userVars clients channels tasks b =
     (if bk_Condition b \<noteq> [] then do {
        r \<leftarrow> Build js (bk_Clients b = []) () (bk_Listens b) (bk_Condition b) userVars NewTemplate;
        Some (case r of Inl err \<Rightarrow> Inl err | Inr t \<Rightarrow> Inr (Some t))
      }
      else if bk_Endpoints b = [] then Some (Inl ''empty flows'')
      else if list_all (\<lambda>e. validateVarListen e clients channels tasks) (bk_Endpoints b) then Some (Inr None)
      else Some (Inl ''not exist''))"

section \<open>The names round trip\<close>

lemma HasSuffix_lower [simp]: "HasSuffix (s @ ToLower suf) (ToLower suf)"
  by simp

lemma names_not_suffix:
  "\<not> HasSuffix (s @ SubTask) SubChannel" "\<not> HasSuffix (s @ SubClient) SubChannel" "\<not> HasSuffix (s @ SubClient) SubTask"
  by (auto simp: HasSuffix_def)

lemma GetRawName_roundtrip:
  "GetRawName (GetTaskName nm) = ToLower nm" "GetRawName (GetChannelName nm) = ToLower nm" "GetRawName (GetClientName nm) = ToLower nm"
proof -
  have low: "ToLower SubTask = SubTask" "ToLower SubChannel = SubChannel" "ToLower SubClient = SubClient" by code_simp+
  show "GetRawName (GetTaskName nm) = ToLower nm" "GetRawName (GetChannelName nm) = ToLower nm" "GetRawName (GetClientName nm) = ToLower nm"
    by (simp_all add: GetRawName_def GetTaskName_def GetChannelName_def GetClientName_def low names_not_suffix Let_def)
qed

text \<open>The field of a client is taken for a field of a task, and what is left of a client's name after cutting
  off characters instead of the suffix is wrong.\<close>

lemma client_fields_misread:
  "GetRootDefaultVar ''a_client_task_result'' = ''a_client_task''"
  "GetRootDefaultVar ''ems_client_msg'' = ''_client''"
  by code_simp+

end
