(* ===== verification/Worker.thy ===== *)
theory Worker
  imports Workflow_Names
begin

text \<open>
  The worker of a workflow (\<open>server/runner/worker.go\<close>): registering what has to be set up on which
  client, delivering commands with a table of pending requests and a timer per request, retrying failed
  deliveries, and routing what tasks and channels send through the brokers.

  Goroutines are threads of one state, a thread being a stack of frames.  A frame is run in one step up to the
  next point where another goroutine can come in between: a lock, an unbuffered channel or the start of a
  goroutine.  The database, the message bus and the clock answer through the argument \<open>wk_env\<close> of a step.  What
  is only written to the log tables and the monitor is left out.
\<close>

section \<open>Data\<close>

abbreviation (input) KairosPoint :: int where "KairosPoint \<equiv> 0"
abbreviation (input) ClientPoint :: int where "ClientPoint \<equiv> 1"
abbreviation (input) ChannelPoint :: int where "ChannelPoint \<equiv> 2"
abbreviation (input) BrokerPoint :: int where "BrokerPoint \<equiv> 3"
abbreviation (input) TaskPoint :: int where "TaskPoint \<equiv> 4"

abbreviation (input) Delivering :: int where "Delivering \<equiv> 1"
abbreviation (input) Running :: int where "Running \<equiv> 2"

abbreviation (input) SetTaskCmd :: int where "SetTaskCmd \<equiv> 0"
abbreviation (input) TriggerStartTaskCmd :: int where "TriggerStartTaskCmd \<equiv> 1"
abbreviation (input) InputTaskCmd :: int where "InputTaskCmd \<equiv> 2"
abbreviation (input) RequestTaskRunSyncCmd :: int where "RequestTaskRunSyncCmd \<equiv> 3"
abbreviation (input) SetBrokerCmd :: int where "SetBrokerCmd \<equiv> 4"
abbreviation (input) RequestDestroyWf :: int where "RequestDestroyWf \<equiv> 5"

abbreviation (input) ReplySetTaskCmd :: int where "ReplySetTaskCmd \<equiv> 0"
abbreviation (input) ReplyStartTaskCmd :: int where "ReplyStartTaskCmd \<equiv> 1"
abbreviation (input) ReplyInputTaskCmd :: int where "ReplyInputTaskCmd \<equiv> 3"
abbreviation (input) ReplySetBrokerCmd :: int where "ReplySetBrokerCmd \<equiv> 6"
abbreviation (input) ReplyDestroyWf :: int where "ReplyDestroyWf \<equiv> 7"

abbreviation (input) PendingDeliver :: int where "PendingDeliver \<equiv> 0"
abbreviation (input) SuccessSetTask :: int where "SuccessSetTask \<equiv> 1"
abbreviation (input) SuccessTriggerTask :: int where "SuccessTriggerTask \<equiv> 3"
abbreviation (input) SuccessSetBroker :: int where "SuccessSetBroker \<equiv> 9"
abbreviation (input) FaultSetBroker :: int where "FaultSetBroker \<equiv> 10"

record point =
  pt_ID :: int
  pt_Type :: int
  pt_Name :: string

definition getChannel :: "point \<Rightarrow> string" where
  "getChannel p =
     (if pt_Type p = ClientPoint then ''kairosdeamon-'' @ int_str (pt_ID p)
      else if pt_Type p = ChannelPoint then pt_Name p @ ''-'' @ int_str (pt_ID p)
      else [])"

record task =
  tk_ID :: int
  tk_Name :: string
  tk_Executor :: string
  tk_Clients :: "string list"
  tk_Metadata :: "(string, string) fmap"
  tk_Payload :: string
  tk_Input :: string
  tk_WorkflowID :: int

record retry =
  ry_ID :: int
  ry_Attempt :: int

record 'f cmdTask =
  ct_Cmd :: int
  ct_Task :: "task option"
  ct_Broker :: "wf_broker option"
  ct_Message :: "'f val"
  ct_DeliverID :: int
  ct_WorkflowID :: int
  ct_Channel :: string
  ct_Status :: int
  ct_SendAt :: int
  ct_RunCount :: int
  ct_Group :: string
  ct_Parent :: string
  ct_Part :: string
  ct_Retry :: "retry option"
  ct_Attempt :: int

record 'f cmdReplyTask =
  cr_Cmd :: int
  cr_TaskID :: int
  cr_TaskName :: string
  cr_BrokerID :: int
  cr_DeliverID :: int
  cr_RunOn :: string
  cr_Status :: int
  cr_WorkflowID :: int
  cr_Message :: string
  cr_Content :: "'f val option"
  cr_Result :: "'f val option"
  cr_RunCount :: int
  cr_Group :: string
  cr_Parent :: string
  cr_Part :: string
  cr_Start :: bool
  cr_TaskInput :: string

definition no_cmdTask :: "'f cmdTask" where
  "no_cmdTask = \<lparr>ct_Cmd = 0, ct_Task = None, ct_Broker = None, ct_Message = VNil, ct_DeliverID = 0, ct_WorkflowID = 0, ct_Channel = [],
     ct_Status = 0, ct_SendAt = 0, ct_RunCount = 0, ct_Group = [], ct_Parent = [], ct_Part = [], ct_Retry = None, ct_Attempt = 0\<rparr>"

definition no_cmdReply :: "'f cmdReplyTask" where
  "no_cmdReply = \<lparr>cr_Cmd = 0, cr_TaskID = 0, cr_TaskName = [], cr_BrokerID = 0, cr_DeliverID = 0, cr_RunOn = [], cr_Status = 0,
     cr_WorkflowID = 0, cr_Message = [], cr_Content = None, cr_Result = None, cr_RunCount = 0, cr_Group = [], cr_Parent = [], cr_Part = [],
     cr_Start = False, cr_TaskInput = []\<rparr>"

text \<open>Commands are shared by pointer between a delivery and its retries: they live in the heap \<open>wk_msgs\<close> and are
  referred to by their index there.  The same holds for the runtimes of templates.\<close>

record 'f deliverErr =
  de_err :: "string option"
  de_From :: point
  de_Receiver :: point
  de_Msg :: nat
  de_Reply :: "'f cmdReplyTask"

record taskDeliver =
  dl_client :: string
  dl_status :: int

text \<open>The callbacks of the request table: those of \<open>deliverTaskToClient\<close>, of \<open>deliverInputTaskCmd\<close>, of
  \<open>deliverRequestRunTaskSync\<close> (the reply that started it, the runtime and the result channel), and the two of
  \<open>handleRetryDeliver\<close>.\<close>

datatype 'f worker_cb =
    CbSetup point point nat
  | CbInput point point nat
  | CbSync point point nat "'f cmdReplyTask option" nat "nat option"
  | CbRetry "'f deliverErr"
  | CbRetryLater "'f deliverErr"

datatype 'f worker_event = ReceiveDeliverTask "'f cmdReplyTask" | ReceiveDeliverBroker "'f cmdReplyTask"

text \<open>The frames.  \<open>TimerWait\<close> to \<open>RemoveRequest\<close> belong to the goroutine of a delivery, \<open>Nats\<close> to
  \<open>RecvRemove\<close> to the subscription of the message bus, \<open>EventLoop\<close> is the loop of \<open>Run\<close>, \<open>RetryLoop\<close> that of
  \<open>retryDeliver\<close>; \<open>PushTasks\<close> and \<open>PushBrokers\<close> are the loops over tasks and brokers with what is left of them,
  \<open>ComputeBrokers\<close> is the loop of \<open>computeMsg\<close>; the frames after it are calls.\<close>

datatype 'f worker_frame =
    TimerWait int
  | CallBack "'f worker_cb" "'f cmdReplyTask" "string option"
  | RemoveRequest int
  | Nats
  | RecvReply "'f cmdReplyTask"
  | RecvRemove "'f cmdReplyTask" "'f worker_cb option"
  | SendErr "'f deliverErr"
  | SendEvent "'f worker_event"
  | SendResult nat "'f val"
  | RecvResult nat
  | RetryLoop
  | EventLoop
  | SetStatus int
  | PushTasks int "(task \<times> string list) option" "task list"
  | PushBrokers int "(wf_broker \<times> string list) option" "wf_broker list"
  | RetryFire "'f deliverErr"
  | DeliverInput point "point option" nat
  | DeliverSync point "point option" nat "'f cmdReplyTask option" nat "nat option"
  | Resume point nat "'f cmdReplyTask option" nat "nat option" "'f val"
  | HandleDeliver point "'f deliverFlow list" "'f cmdReplyTask option" nat nat "nat option"
  | ComputeBrokers "wf_broker list" "'f cmdReplyTask" nat "nat option"

record 'f worker =
  wk_workflowID :: int
  wk_status :: int
  wk_deliverCmd :: int
  wk_tasks :: "(string \<times> task) list"
  wk_brokers :: "(string \<times> wf_broker) list"
  wk_templates :: "(int, unit template) fmap"
  wk_requests :: "(int, 'f worker_cb) fmap"
  wk_responsesIDs :: "int fset"
  wk_points :: "(string, point) fmap"
  wk_taskDelivers :: "(int, taskDeliver list) fmap"
  wk_brokerDelivers :: "(int, taskDeliver list) fmap"
  wk_flowMap :: "(string, string) fmap"
  wk_requestMap :: "(string, string) fmap"
  wk_DynamicVars :: "(int, (string, 'f cmdReplyTask) fmap) fmap"
  wk_CBQueue :: "'f deliverErr list"
  wk_closed :: bool
  wk_msgs :: "'f cmdTask list"
  wk_truns :: "((string, (string, 'f val) fmap) fmap \<times> 'f runtime) list"
  wk_published :: "(nat \<times> bool \<times> 'f cmdTask) list"
  wk_threads :: "'f worker_frame list list"

text \<open>What the environment answers in one step: the clock, the message bus and the JSON encoder, the records of the
  database (an identifier, no row, or an error) and the broker queue, and the evaluator of expressions on
  given replies.\<close>

datatype record_answer = RecordID int | NoRows | RecordError

record 'f wk_env =
  we_now :: int
  we_publish :: bool
  we_json :: bool
  we_record :: record_answer
  we_logID :: int
  we_SetWfRecovered :: bool
  we_UpdateAttempt :: bool
  we_timeout :: bool
  we_queue :: "(string \<times> 'f cmdReplyTask option) list option"
  we_eval :: "(string, (string, 'f val) fmap) fmap \<Rightarrow> 'f evaluator"
  we_order :: "string fset \<Rightarrow> string list"
  we_answer :: "'f val option \<Rightarrow> 'f val"
  we_text :: "'f val \<Rightarrow> string"

section \<open>Identifiers\<close>

text \<open>The counter starts at the time in milliseconds, so its 64 bits never run out.\<close>

definition worker_nextCmdID :: "'f worker \<Rightarrow> int \<times> 'f worker" where
  "worker_nextCmdID w = (wk_deliverCmd w + 1, w\<lparr>wk_deliverCmd := wk_deliverCmd w + 1\<rparr>)"

definition part_name :: "int \<Rightarrow> int \<Rightarrow> string" where
  "part_name wid i = ''part-'' @ int_str wid @ ''-'' @ int_str i"

definition part_key :: "string \<Rightarrow> int \<Rightarrow> int \<Rightarrow> string" where
  "part_key part rvID rvType = part @ ''@'' @ int_str rvID @ ''-'' @ int_str rvType"

definition getPart :: "string \<Rightarrow> int \<Rightarrow> int \<Rightarrow> 'f worker \<Rightarrow> string \<times> 'f worker" where
  "getPart replyPart rvID rvType w =
     (if replyPart = [] then (let (i, w1) = worker_nextCmdID w in (part_name (wk_workflowID w) i, w1))
      else (case fmlookup (wk_flowMap w) (part_key replyPart rvID rvType) of
              Some reqPart \<Rightarrow> (reqPart, w)
            | None \<Rightarrow>
                (let (i, w1) = worker_nextCmdID w; p = part_name (wk_workflowID w) i
                 in (p, w1\<lparr>wk_flowMap := fmupd (part_key replyPart rvID rvType) p (wk_flowMap w1)\<rparr>))))"

definition getReplyPart :: "string \<Rightarrow> int \<Rightarrow> int \<Rightarrow> 'f worker \<Rightarrow> string \<times> 'f worker" where
  "getReplyPart parentPart rvID rvType w =
     (if parentPart = [] then (let (i, w1) = worker_nextCmdID w in (part_name (wk_workflowID w) i, w1))
      else (case fmlookup (wk_requestMap w) (part_key parentPart rvID rvType) of
              Some reqPart \<Rightarrow> (reqPart, w)
            | None \<Rightarrow>
                (let (i, w1) = worker_nextCmdID w; p = part_name (wk_workflowID w) i
                 in (p, w1\<lparr>wk_requestMap := fmupd (part_key parentPart rvID rvType) p (wk_requestMap w1)\<rparr>))))"

definition getGroup :: "'f worker \<Rightarrow> string \<times> 'f worker" where
  "getGroup w = (let (i, w1) = worker_nextCmdID w in (''kairos-'' @ int_str (wk_workflowID w) @ ''-'' @ int_str i @ ''-0'', w1))"

definition getBrokerGroup :: "'f worker \<Rightarrow> string \<times> 'f worker" where
  "getBrokerGroup w = (let (i, w1) = worker_nextCmdID w in (''kairosbroker-'' @ int_str (wk_workflowID w) @ ''-'' @ int_str i @ ''-0'', w1))"

section \<open>What has to be set up\<close>

text \<open>Every entry that fits is replaced; without one the new entry is appended.\<close>

definition update_deliver :: "(taskDeliver \<Rightarrow> bool) \<Rightarrow> int \<Rightarrow> taskDeliver \<Rightarrow> (int, taskDeliver list) fmap \<Rightarrow> (int, taskDeliver list) fmap" where
  "update_deliver fits i d m =
     (case fmlookup m i of
        None \<Rightarrow> fmupd i [d] m
      | Some v \<Rightarrow> fmupd i (if list_ex fits v then map (\<lambda>e. if fits e then d else e) v else v @ [d]) m)"

definition updateStatusDeliverTask :: "int \<Rightarrow> taskDeliver \<Rightarrow> 'f worker \<Rightarrow> 'f worker" where
  "updateStatusDeliverTask taskID d w =
     w\<lparr>wk_taskDelivers := update_deliver (\<lambda>e. dl_client e @ SubClient = dl_client d \<or> dl_client e = ''kairos'') taskID d (wk_taskDelivers w)\<rparr>"

definition updateStatusDeliverBroker :: "int \<Rightarrow> taskDeliver \<Rightarrow> 'f worker \<Rightarrow> 'f worker" where
  "updateStatusDeliverBroker brokerID d w =
     w\<lparr>wk_brokerDelivers := update_deliver (\<lambda>e. dl_client e @ SubClient = dl_client d) brokerID d (wk_brokerDelivers w)\<rparr>"

definition all_status :: "int \<Rightarrow> (int, taskDeliver list) fmap \<Rightarrow> bool" where
  "all_status st m = fBall (fmdom m) (\<lambda>k. list_all (\<lambda>e. dl_status e = st) (the (fmlookup m k)))"

definition allDelivered :: "'f worker \<Rightarrow> bool" where
  "allDelivered w \<longleftrightarrow> all_status SuccessSetTask (wk_taskDelivers w) \<and> all_status SuccessSetBroker (wk_brokerDelivers w)"

text \<open>The points of a workflow; channels and clients are given by identifier and name.\<close>

definition setPoints :: "(int \<times> string) list \<Rightarrow> (int \<times> string) list \<Rightarrow> 'f worker \<Rightarrow> 'f worker" where
  "setPoints channels clients w =
     (let ps0 = fmupd ''kairos'' \<lparr>pt_ID = - 1, pt_Type = KairosPoint, pt_Name = ''kairos''\<rparr> (wk_points w);
          ps1 = fold (\<lambda>(key, b). fmupd (GetBrokerName key) \<lparr>pt_ID = bk_ID b, pt_Type = BrokerPoint, pt_Name = bk_Name b\<rparr>) (wk_brokers w) ps0;
          ps2 = fold (\<lambda>(key, t). fmupd (GetTaskName key) \<lparr>pt_ID = tk_ID t, pt_Type = TaskPoint, pt_Name = tk_Name t\<rparr>) (wk_tasks w) ps1;
          ps3 = fold (\<lambda>(i, nm). fmupd (GetChannelName nm) \<lparr>pt_ID = i, pt_Type = ChannelPoint, pt_Name = nm\<rparr>) channels ps2;
          ps4 = fold (\<lambda>(i, nm). fmupd (GetClientName nm) \<lparr>pt_ID = i, pt_Type = ClientPoint, pt_Name = nm\<rparr>) clients ps3
      in w\<lparr>wk_points := ps4\<rparr>)"

section \<open>Deliveries\<close>

definition worker_addRequest :: "int \<Rightarrow> 'f worker_cb \<Rightarrow> 'f worker \<Rightarrow> 'f worker" where
  "worker_addRequest i cb w = w\<lparr>wk_requests := fmupd i cb (wk_requests w)\<rparr>"

definition worker_removeRequest :: "int \<Rightarrow> 'f worker \<Rightarrow> 'f worker" where
  "worker_removeRequest i w = w\<lparr>wk_requests := fmdrop i (wk_requests w)\<rparr>"

definition worker_spawn :: "'f worker_frame list \<Rightarrow> 'f worker \<Rightarrow> 'f worker" where
  "worker_spawn th w = w\<lparr>wk_threads := wk_threads w @ [th]\<rparr>"

definition set_msg :: "nat \<Rightarrow> 'f cmdTask \<Rightarrow> 'f worker \<Rightarrow> 'f worker" where
  "set_msg m msg w = w\<lparr>wk_msgs := (wk_msgs w)[m := msg]\<rparr>"

definition new_msg :: "'f cmdTask \<Rightarrow> 'f worker \<Rightarrow> nat \<times> 'f worker" where
  "new_msg msg w = (length (wk_msgs w), w\<lparr>wk_msgs := wk_msgs w @ [msg]\<rparr>)"

text \<open>The commands published so far are kept with their place in the heap and whether they are retries.\<close>

fun is_retry :: "'f worker_cb \<Rightarrow> bool" where
  "is_retry (CbRetry e) = True"
| "is_retry (CbRetryLater e) = True"
| "is_retry cb = False"

text \<open>The command is copied, so a fresh identifier does not get into the original.  The result says whether the
  command was published; if not, the request stays in the table.\<close>

definition deliverAsync :: "'f wk_env \<Rightarrow> point \<Rightarrow> nat \<Rightarrow> 'f worker_cb \<Rightarrow> 'f worker \<Rightarrow> (bool \<times> 'f worker) go" where
  "deliverAsync env receiver m cb w = do {
     cmd \<leftarrow> go_index (wk_msgs w) m;
     let (i, w1) = (if ct_DeliverID cmd = 0 then worker_nextCmdID w else (ct_DeliverID cmd, w));
     let cmdDeliver = cmd\<lparr>ct_Channel := getChannel receiver, ct_Status := PendingDeliver, ct_SendAt := we_now env, ct_DeliverID := i\<rparr>;
     let w2 = worker_addRequest i cb w1;
     Some (if we_publish env
           then (True, worker_spawn [TimerWait i, RemoveRequest i] (w2\<lparr>wk_published := wk_published w2 @ [(m, is_retry cb, cmdDeliver)]\<rparr>))
           else (False, w2))
   }"

definition worker_numbered :: "'f cmdTask \<Rightarrow> 'f worker \<Rightarrow> 'f cmdTask \<times> 'f worker" where
  "worker_numbered msg w =
     (let (i, w1) = (if ct_DeliverID msg = 0 then worker_nextCmdID w else (ct_DeliverID msg, w))
      in (msg\<lparr>ct_DeliverID := i, ct_Attempt := (if ct_Attempt msg = 0 then 1 else ct_Attempt msg)\<rparr>, w1))"

definition deliverTaskToClient :: "'f wk_env \<Rightarrow> point \<Rightarrow> point \<Rightarrow> 'f cmdTask \<Rightarrow> 'f worker \<Rightarrow> (bool \<times> 'f worker) go" where
  "deliverTaskToClient env sender receiver msg0 w0 =
     (let (msg, w1) = worker_numbered msg0 w0;
          (part, w2) = getPart [] (- 1) (- 1) w1;
          (m, w3) = new_msg (msg\<lparr>ct_Part := part\<rparr>) w2
      in deliverAsync env receiver m (CbSetup sender receiver m) w3)"

definition wrapDeliverErr :: "point \<Rightarrow> point \<Rightarrow> nat \<Rightarrow> 'f cmdReplyTask \<Rightarrow> string option \<Rightarrow> 'f worker_frame" where
  "wrapDeliverErr sender receiver m reply err = SendErr \<lparr>de_err = err, de_From = sender, de_Receiver = receiver, de_Msg = m, de_Reply = reply\<rparr>"

text \<open>What a reply to a set-up command leads to; the second argument suppresses the retry.\<close>

definition checkCmdReply ::
  "point \<Rightarrow> point \<Rightarrow> nat \<Rightarrow> 'f cmdReplyTask \<Rightarrow> string option \<Rightarrow> bool \<Rightarrow> 'f worker_frame list" where
  "checkCmdReply sender receiver m r err ignore =
     (if err \<noteq> None then (if ignore then [] else [wrapDeliverErr sender receiver m r err])
      else if cr_Cmd r = ReplySetTaskCmd then [SendEvent (ReceiveDeliverTask r)]
      else if cr_Cmd r = ReplySetBrokerCmd then
        (if cr_Status r = FaultSetBroker then (if ignore then [] else [wrapDeliverErr sender receiver m r None])
         else [SendEvent (ReceiveDeliverBroker r)])
      else [])"

section \<open>Setting a workflow up\<close>

definition deliverTask :: "'f wk_env \<Rightarrow> int \<Rightarrow> task \<Rightarrow> string \<Rightarrow> 'f worker \<Rightarrow> (bool \<times> 'f worker) go" where
  "deliverTask env cmd t c w0 = do {
     let w1 = updateStatusDeliverTask (tk_ID t) \<lparr>dl_client = c, dl_status = PendingDeliver\<rparr> w0;
     sender \<leftarrow> fmlookup (wk_points w1) ''kairos'';
     p \<leftarrow> fmlookup (wk_points w1) (GetClientName c);
     let (i, w2) = worker_nextCmdID w1;
     (case ParseInt (case fmlookup (tk_Metadata t) c of None \<Rightarrow> [] | Some s \<Rightarrow> s) of
        None \<Rightarrow> Some (False, w2)
      | Some clientID \<Rightarrow> do {
          (ok, w3) \<leftarrow> deliverTaskToClient env sender \<lparr>pt_ID = clientID, pt_Type = ClientPoint, pt_Name = c\<rparr>
             (no_cmdTask\<lparr>ct_Task := Some t, ct_Cmd := cmd, ct_WorkflowID := wk_workflowID w2, ct_DeliverID := i, ct_Channel := pt_Name p\<rparr>) w2;
          Some (True, w3)
        })
   }"

text \<open>The loop over the tasks: a task of the worker itself answers at once through the event channel, the others are
  delivered to their clients, one per step; an error ends the loop.\<close>

fun pushAllCmdTask ::
  "'f wk_env \<Rightarrow> int \<Rightarrow> (task \<times> string list) option \<Rightarrow> task list \<Rightarrow> 'f worker \<Rightarrow> ('f worker_frame list \<times> 'f worker) go" where
  "pushAllCmdTask env cmd (Some (t, c # cs)) ts w = do {
     (ok, w1) \<leftarrow> deliverTask env cmd t c w;
     Some (if ok then [PushTasks cmd (Some (t, cs)) ts] else [], w1)
   }"
| "pushAllCmdTask env cmd (Some (t, [])) ts w = Some ([PushTasks cmd None ts], w)"
| "pushAllCmdTask env cmd None [] w = Some ([], w)"
| "pushAllCmdTask env cmd None (t # ts) w =
     (if tk_Executor t = ''pubsub'' then
        (let w1 = updateStatusDeliverTask (tk_ID t) \<lparr>dl_client = ''kairos'', dl_status = PendingDeliver\<rparr> w;
             trigger = (cmd = TriggerStartTaskCmd);
             r = no_cmdReply\<lparr>cr_Cmd := (if trigger then ReplyStartTaskCmd else ReplySetTaskCmd),
                   cr_Status := (if trigger then SuccessTriggerTask else SuccessSetTask), cr_RunOn := ''kairos'', cr_TaskID := tk_ID t\<rparr>
         in Some (if we_json env then [SendEvent (ReceiveDeliverTask r), PushTasks cmd None ts] else [], w1))
      else if tk_Executor t = ''httphook'' then Some ([PushTasks cmd None ts], w)
      else Some ([PushTasks cmd (Some (t, tk_Clients t)) ts], w))"

fun deliverBrokers ::
  "'f wk_env \<Rightarrow> int \<Rightarrow> (wf_broker \<times> string list) option \<Rightarrow> wf_broker list \<Rightarrow> 'f worker \<Rightarrow> ('f worker_frame list \<times> 'f worker) go" where
  "deliverBrokers env cmd (Some (b, c # cs)) bs w0 =
     (let w = updateStatusDeliverBroker (bk_ID b) \<lparr>dl_client = c, dl_status = PendingDeliver\<rparr> w0
      in if \<not> we_json env then Some ([], w)
         else do {
           sender \<leftarrow> fmlookup (wk_points w) ''kairos'';
           receiver \<leftarrow> fmlookup (wk_points w) (GetClientName c);
           (ok, w1) \<leftarrow> deliverTaskToClient env sender receiver
              (no_cmdTask\<lparr>ct_Cmd := cmd, ct_Broker := Some b, ct_WorkflowID := wk_workflowID w, ct_Channel := pt_Name receiver\<rparr>) w;
           Some (if ok then [PushBrokers cmd (Some (b, cs)) bs] else [], w1)
         })"
| "deliverBrokers env cmd (Some (b, [])) bs w = Some ([PushBrokers cmd None bs], w)"
| "deliverBrokers env cmd None [] w = Some ([], w)"
| "deliverBrokers env cmd None (b # bs) w = Some ([PushBrokers cmd (Some (b, bk_Clients b)) bs], w)"

text \<open>The body of the event loop.\<close>

definition handle_event :: "'f worker_event \<Rightarrow> 'f worker \<Rightarrow> 'f worker_frame list \<times> 'f worker" where
  "handle_event ev w =
     (let w1 = (case ev of
                  ReceiveDeliverTask r \<Rightarrow> updateStatusDeliverTask (cr_TaskID r) \<lparr>dl_client = cr_RunOn r, dl_status = cr_Status r\<rparr> w
                | ReceiveDeliverBroker r \<Rightarrow> updateStatusDeliverBroker (cr_BrokerID r) \<lparr>dl_client = cr_RunOn r, dl_status = cr_Status r\<rparr> w)
      in if allDelivered w1
         then ([PushTasks TriggerStartTaskCmd None (map snd (wk_tasks w1)), EventLoop], worker_spawn [SetStatus Running] w1)
         else ([EventLoop], w1))"

section \<open>Retries\<close>

definition handleRetryDeliver :: "'f wk_env \<Rightarrow> 'f deliverErr \<Rightarrow> 'f worker \<Rightarrow> 'f worker go" where
  "handleRetryDeliver env e w = do {
     msg \<leftarrow> go_index (wk_msgs w) (de_Msg e);
     (case ct_Retry msg of
        Some ry \<Rightarrow>
          if ct_Attempt msg > 3 then Some w
          else
            (case (if ry_ID ry = 0 then we_record env else RecordID (ry_ID ry)) of
               RecordID i \<Rightarrow>
                 (let msg1 = msg\<lparr>ct_Attempt := ct_Attempt msg + 1, ct_Retry := Some \<lparr>ry_ID = i, ry_Attempt = ry_Attempt ry + 1\<rparr>\<rparr>;
                      w1 = set_msg (de_Msg e) msg1 w
                  in Some (if we_SetWfRecovered env \<and> we_UpdateAttempt env then worker_spawn [RetryFire e] w1 else w1))
             | _ \<Rightarrow> Some w)
      | None \<Rightarrow>
          (case (case we_record env of RecordID i \<Rightarrow> Some i | NoRows \<Rightarrow> Some (we_logID env) | RecordError \<Rightarrow> None) of
             None \<Rightarrow> Some w
           | Some i \<Rightarrow> do {
               let msg1 = msg\<lparr>ct_Attempt := ct_Attempt msg + 1, ct_Retry := Some \<lparr>ry_ID = i, ry_Attempt = ct_Attempt msg + 1\<rparr>,
                              ct_DeliverID := cr_DeliverID (de_Reply e)\<rparr>;
               (ok, w1) \<leftarrow> deliverAsync env (de_Receiver e) (de_Msg e) (CbRetry e) (set_msg (de_Msg e) msg1 w);
               Some w1
             }))
   }"

text \<open>The closure that \<open>retryDeliver\<close> queues for every failed delivery.\<close>

definition retryDeliver :: "'f wk_env \<Rightarrow> 'f deliverErr \<Rightarrow> 'f worker \<Rightarrow> 'f worker go" where
  "retryDeliver env e w = do {
     msg \<leftarrow> go_index (wk_msgs w) (de_Msg e);
     let reply = de_Reply e;
     let reply1 = reply\<lparr>cr_TaskID := (case ct_Task msg of None \<Rightarrow> cr_TaskID reply | Some t \<Rightarrow> tk_ID t), cr_WorkflowID := wk_workflowID w,
           cr_Message := (if cr_Message reply = [] \<and> de_err e \<noteq> None then the (de_err e) else cr_Message reply), cr_Status := - 99\<rparr>;
     let go_on = (\<lambda>cmd. handleRetryDeliver env (e\<lparr>de_Reply := reply1\<lparr>cr_Cmd := cmd\<rparr>\<rparr>) w);
     if ct_Cmd msg = SetTaskCmd then (if ct_Task msg = None then None else go_on ReplySetTaskCmd)
     else if ct_Cmd msg = TriggerStartTaskCmd then (if ct_Task msg = None then None else go_on ReplyStartTaskCmd)
     else if ct_Cmd msg = InputTaskCmd then (if ct_Task msg = None then Some w else go_on ReplyInputTaskCmd)
     else if ct_Cmd msg = SetBrokerCmd then (if ct_Broker msg = None then None else go_on ReplySetBrokerCmd)
     else if ct_Cmd msg = RequestDestroyWf then (if ct_Broker msg = None then Some w else go_on ReplyDestroyWf)
     else Some w
   }"

text \<open>What the callback of a request does with a reply or an error.\<close>

fun call_worker_cb ::
  "'f wk_env \<Rightarrow> 'f worker_cb \<Rightarrow> 'f cmdReplyTask \<Rightarrow> string option \<Rightarrow> 'f worker \<Rightarrow> 'f worker_frame list go" where
  "call_worker_cb env (CbSetup sender receiver m) r err w = Some (checkCmdReply sender receiver m r err False)"
| "call_worker_cb env (CbInput sender receiver m) r err w =
     Some (if err \<noteq> None then [wrapDeliverErr sender receiver m r err] else [])"
| "call_worker_cb env (CbSync sender receiver m reply tr ch) r err w =
     (case err of
        Some er \<Rightarrow> Some [wrapDeliverErr sender receiver m r err, Resume sender m reply tr ch (VStr er)]
      | None \<Rightarrow>
          if pt_Type receiver = TaskPoint \<or> pt_Type receiver = ClientPoint
          then Some [Resume sender m reply tr ch (we_answer env (cr_Result r))]
          else (case reply of None \<Rightarrow> None | Some rp \<Rightarrow> Some [Resume sender m reply tr ch (we_answer env (cr_Content rp))]))"
| "call_worker_cb env (CbRetry e) r err w =
     Some (if err \<noteq> None then [wrapDeliverErr (de_From e) (de_Receiver e) (de_Msg e) r err] else [])"
| "call_worker_cb env (CbRetryLater e) r err w = do {
     msg \<leftarrow> go_index (wk_msgs w) (de_Msg e);
     let r1 = r\<lparr>cr_Group := ct_Group msg, cr_Parent := ct_Parent msg, cr_Part := ct_Part msg\<rparr>;
     Some (if err \<noteq> None then [wrapDeliverErr (de_From e) (de_Receiver e) (de_Msg e) r1 err] else [])
   }"

section \<open>Routing\<close>

text \<open>The clients of the tasks with a given identifier, in the order of the workflow, and the goroutines that
  deliver one shared command to each of them.\<close>

definition task_clients :: "int \<Rightarrow> 'f worker \<Rightarrow> string list" where
  "task_clients i w = concat (map (\<lambda>(_, t). if tk_ID t = i then tk_Clients t else []) (wk_tasks w))"

definition spawn_all :: "(point option \<Rightarrow> 'f worker_frame) \<Rightarrow> string list \<Rightarrow> 'f worker \<Rightarrow> 'f worker" where
  "spawn_all frm cs w = fold (\<lambda>c. worker_spawn [frm (fmlookup (wk_points w) (GetClientName c))]) cs w"

text \<open>One receiver of a flow: the command made for it, and the goroutines that deliver it.\<close>

definition reqDeliver ::
  "'f wk_env \<Rightarrow> 'f deliverFlow \<Rightarrow> string \<Rightarrow> point \<Rightarrow> 'f cmdReplyTask option \<Rightarrow> nat \<Rightarrow> 'f worker \<Rightarrow> ('f cmdTask \<times> 'f worker) go" where
  "reqDeliver env path rv receiver reply m w = do {
     req \<leftarrow> go_index (wk_msgs w) m;
     let req1 = req\<lparr>ct_WorkflowID := wk_workflowID w\<rparr>;
     let (req2, w1) = (case reply of
            None \<Rightarrow> (req1, w)
          | Some r \<Rightarrow> (let (part, w') = getPart (cr_Part r) (pt_ID receiver) (pt_Type receiver) w
                      in (req1\<lparr>ct_Part := part, ct_Parent := cr_Part r\<rparr>, w')));
     req3 \<leftarrow> (if HasSuffix rv SubChannel then Some (req2\<lparr>ct_Message := df_Msg path\<rparr>)
              else if HasSuffix rv SubTask then
                (case reply of
                   None \<Rightarrow> None
                 | Some r \<Rightarrow> Some (req2\<lparr>ct_Task := Some \<lparr>tk_ID = pt_ID receiver, tk_Name = pt_Name receiver, tk_Executor = [], tk_Clients = [],
                     tk_Metadata = fmempty, tk_Payload = [], tk_Input = (case df_Msg path of VStr s \<Rightarrow> s | v \<Rightarrow> we_text env v),
                     tk_WorkflowID = cr_WorkflowID r\<rparr>\<rparr>))
              else Some req2);
     let (req4, w2) = (if df_Send path = SENDU_EXP
        then (let (i, w') = worker_nextCmdID w1
              in (req3\<lparr>ct_DeliverID := i, ct_RunCount := i\<rparr>, w'\<lparr>wk_responsesIDs := finsert i (wk_responsesIDs w')\<rparr>))
        else (req3, w1));
     Some (if df_Send path = SENDSYNC_EXP then req4\<lparr>ct_Cmd := RequestTaskRunSyncCmd\<rparr> else req4, w2)
   }"

definition deliver_to ::
  "'f wk_env \<Rightarrow> point \<Rightarrow> 'f deliverFlow \<Rightarrow> string \<Rightarrow> point \<Rightarrow> 'f cmdReplyTask option \<Rightarrow> nat \<Rightarrow> nat \<Rightarrow> nat option \<Rightarrow> 'f worker \<Rightarrow> 'f worker go" where
  "deliver_to env sender path rv receiver reply m tr ch w = do {
     (req, w1) \<leftarrow> reqDeliver env path rv receiver reply m w;
     let (m', w2) = new_msg req w1;
     Some (if pt_Type receiver = TaskPoint
           then spawn_all (\<lambda>p. if df_Send path = SENDSYNC_EXP then DeliverSync sender p m' reply tr ch else DeliverInput sender p m')
                  (task_clients (pt_ID receiver) w2) w2
           else worker_spawn [DeliverInput sender (Some receiver) m'] w2)
   }"

text \<open>The loop over flows and receivers; an unknown receiver ends the whole call.\<close>

fun deliver_receivers ::
  "'f wk_env \<Rightarrow> point \<Rightarrow> 'f deliverFlow \<Rightarrow> string list \<Rightarrow> 'f cmdReplyTask option \<Rightarrow> nat \<Rightarrow> nat \<Rightarrow> nat option \<Rightarrow> 'f worker \<Rightarrow> (bool \<times> 'f worker) go" where
  "deliver_receivers env sender path [] reply m tr ch w = Some (True, w)"
| "deliver_receivers env sender path (rv # rvs) reply m tr ch w =
     (case fmlookup (wk_points w) rv of
        None \<Rightarrow> Some (False, w)
      | Some receiver \<Rightarrow> do {
          w1 \<leftarrow> deliver_to env sender path rv receiver reply m tr ch w;
          deliver_receivers env sender path rvs reply m tr ch w1
        })"

fun deliver_flows ::
  "'f wk_env \<Rightarrow> point \<Rightarrow> 'f deliverFlow list \<Rightarrow> 'f cmdReplyTask option \<Rightarrow> nat \<Rightarrow> nat \<Rightarrow> nat option \<Rightarrow> 'f worker \<Rightarrow> (bool \<times> 'f worker) go" where
  "deliver_flows env sender [] reply m tr ch w = Some (True, w)"
| "deliver_flows env sender (path # paths) reply m tr ch w = do {
     (ok, w1) \<leftarrow> deliver_receivers env sender path (go_split CHR '','' (df_Reciever path)) reply m tr ch w;
     if ok then deliver_flows env sender paths reply m tr ch w1 else Some (False, w1)
   }"

definition handleDeliver ::
  "'f wk_env \<Rightarrow> point \<Rightarrow> 'f deliverFlow list \<Rightarrow> 'f cmdReplyTask option \<Rightarrow> nat \<Rightarrow> nat \<Rightarrow> nat option \<Rightarrow> 'f worker \<Rightarrow> ('f worker_frame list \<times> 'f worker) go" where
  "handleDeliver env sender delivers reply m tr ch w = do {
     (ok, w1) \<leftarrow> deliver_flows env sender delivers reply m tr ch w;
     if \<not> ok then Some ([], w1)
     else do {
       req \<leftarrow> go_index (wk_msgs w1) m;
       let w2 = (case (delivers, reply) of
           ([], Some r) \<Rightarrow>
             (let (part, w') = getPart (cr_Part r) (pt_ID sender) (pt_Type sender) w1;
                  (m', w'') = new_msg (req\<lparr>ct_WorkflowID := wk_workflowID w1, ct_Part := part, ct_Parent := cr_Part r, ct_Message := VOther\<rparr>) w'
              in worker_spawn [DeliverInput sender (Some sender) m'] w'')
         | _ \<Rightarrow> w1);
       Some (case ch of
               None \<Rightarrow> ([], w2)
             | Some c \<Rightarrow> (if list_ex (\<lambda>p. df_Send p = SENDSYNC_EXP) delivers then [] else [SendResult c (VStr [])], w2))
     }
   }"

definition deliverInputTaskCmd :: "'f wk_env \<Rightarrow> point \<Rightarrow> point \<Rightarrow> nat \<Rightarrow> 'f worker \<Rightarrow> ('f worker_frame list \<times> 'f worker) go" where
  "deliverInputTaskCmd env sender receiver m w = do {
     req \<leftarrow> go_index (wk_msgs w) m;
     let (req1, w1) = worker_numbered req w;
     let w2 = set_msg m req1 w1;
     if pt_ID sender = pt_ID receiver \<and> pt_Name sender = pt_Name receiver \<and> pt_Type sender = pt_Type receiver then Some ([], w2)
     else do {
       (ok, w3) \<leftarrow> deliverAsync env receiver m (CbInput sender receiver m) w2;
       Some (if ok then [] else [wrapDeliverErr sender receiver m no_cmdReply (Some ''publish'')], w3)
     }
   }"

definition deliverRequestRunTaskSync ::
  "'f wk_env \<Rightarrow> point \<Rightarrow> point \<Rightarrow> nat \<Rightarrow> 'f cmdReplyTask option \<Rightarrow> nat \<Rightarrow> nat option \<Rightarrow> 'f worker \<Rightarrow> ('f worker_frame list \<times> 'f worker) go" where
  "deliverRequestRunTaskSync env sender receiver m reply tr ch w = do {
     req \<leftarrow> go_index (wk_msgs w) m;
     let (req1, w1) = worker_numbered req w;
     (ok, w2) \<leftarrow> deliverAsync env receiver m (CbSync sender receiver m reply tr ch) (set_msg m req1 w1);
     Some (if ok then [] else [wrapDeliverErr sender receiver m no_cmdReply (Some ''publish'')], w2)
   }"

text \<open>Resuming a template with the answer to a synchronous send.\<close>

definition resume_template ::
  "'f wk_env \<Rightarrow> point \<Rightarrow> nat \<Rightarrow> 'f cmdReplyTask option \<Rightarrow> nat \<Rightarrow> nat option \<Rightarrow> 'f val \<Rightarrow> 'f worker \<Rightarrow> ('f worker_frame list \<times> 'f worker) go" where
  "resume_template env sender m reply tr ch answer w = do {
     (replies, rt) \<leftarrow> go_index (wk_truns w) tr;
     let rt1 = rt\<lparr>rt_ExpInput := rt_ExpInput rt @ [answer]\<rparr>;
     (case Execute (we_eval env replies) (we_order env) rt1 of
        Some (Some (eo, rt2)) \<Rightarrow>
          Some ((case ch of Some c \<Rightarrow> if eo_Err eo \<noteq> [] then [SendResult c (VStr (eo_Err eo))] else [] | None \<Rightarrow> []) @
                (if eo_DeliverFlows eo \<noteq> [] then [HandleDeliver sender (eo_DeliverFlows eo) reply m tr ch]
                 else (case ch of Some c \<Rightarrow> [SendResult c (case eo_Result eo of None \<Rightarrow> VNil | Some vs \<Rightarrow> VArr vs)] | None \<Rightarrow> [])),
                w\<lparr>wk_truns := (wk_truns w)[tr := (replies, rt2)]\<rparr>)
      | _ \<Rightarrow> None)
   }"

text \<open>A reply reaches a broker.  With end points the one command is delivered to all of them; the variable of the
  receiver is reassigned in the loop over the tasks, so later tasks are compared with the last client.  Otherwise the
  broker's template is run on the replies.\<close>

fun endpoint_tasks :: "(point option \<Rightarrow> 'f worker_frame) \<Rightarrow> (string \<times> task) list \<Rightarrow> point option \<Rightarrow> 'f worker \<Rightarrow> 'f worker go" where
  "endpoint_tasks frm [] receiver w = Some w"
| "endpoint_tasks frm ((_, t) # ts) receiver w = do {
     r \<leftarrow> receiver;
     if pt_ID r = tk_ID t
     then endpoint_tasks frm ts
            (if tk_Clients t = [] then receiver else fmlookup (wk_points w) (GetClientName (last (tk_Clients t)))) (spawn_all frm (tk_Clients t) w)
     else endpoint_tasks frm ts receiver w
   }"

fun deliver_endpoints :: "point \<Rightarrow> nat \<Rightarrow> string list \<Rightarrow> 'f worker \<Rightarrow> 'f worker go" where
  "deliver_endpoints sender m [] w = Some w"
| "deliver_endpoints sender m (endpoint # es) w = do {
     receiver \<leftarrow> fmlookup (wk_points w) endpoint;
     w1 \<leftarrow> (if pt_Type receiver = TaskPoint
            then endpoint_tasks (\<lambda>p. DeliverInput sender p m) (wk_tasks w) (Some receiver) w
            else Some (worker_spawn [DeliverInput sender (Some receiver) m] w));
     deliver_endpoints sender m es w1
   }"

text \<open>The variables of a broker.  A broker with a queue reads the stored replies and stops at one that does not decode.\<close>

fun read_queue :: "(string \<times> 'f cmdReplyTask option) list \<Rightarrow> (string, 'f cmdReplyTask) fmap \<Rightarrow> (string, 'f cmdReplyTask) fmap \<times> bool" where
  "read_queue [] vars = (vars, True)"
| "read_queue ((k, None) # bqs) vars = (vars, False)"
| "read_queue ((k, Some r) # bqs) vars = read_queue bqs (fmupd k r vars)"

definition dynamicVars ::
  "'f wk_env \<Rightarrow> wf_broker \<Rightarrow> 'f cmdReplyTask \<Rightarrow> 'f worker \<Rightarrow> (string, 'f cmdReplyTask) fmap \<times> bool" where
  "dynamicVars env b reply w =
     (if \<not> bk_Queue b then
        (let runOn = ToLower (cr_RunOn reply);
             v1 = (if HasSuffix (cr_RunOn reply) SubChannel \<or> HasSuffix (cr_RunOn reply) SubClient then fmupd runOn reply fmempty else fmempty);
             v2 = (if HasSuffix (cr_RunOn reply) SubClient \<and> list_ex (\<lambda>(k, _). k = cr_TaskName reply) (wk_tasks w)
                   then fmupd (ToLower (GetTaskName (cr_TaskName reply))) reply v1 else v1)
         in (v2, True))
      else
        (let old = (case fmlookup (wk_DynamicVars w) (bk_ID b) of None \<Rightarrow> fmempty | Some v \<Rightarrow> v)
         in case we_queue env of None \<Rightarrow> (old, False) | Some bqs \<Rightarrow> read_queue bqs old))"

definition replyData :: "'f cmdReplyTask \<Rightarrow> (string, 'f val) fmap" where
  "replyData r =
     (let m1 = (case cr_Content r of None \<Rightarrow> fmempty | Some c \<Rightarrow> fmupd ''content'' c fmempty)
      in case cr_Result r of None \<Rightarrow> m1 | Some v \<Rightarrow> fmupd ''result'' v m1)"

definition processBroker ::
  "'f wk_env \<Rightarrow> wf_broker \<Rightarrow> 'f cmdReplyTask \<Rightarrow> nat \<Rightarrow> (string, (string, 'f val) fmap) fmap \<Rightarrow> nat option \<Rightarrow> 'f worker
     \<Rightarrow> ('f worker_frame list \<times> 'f worker) go" where
  "processBroker env b reply m input ch w0 = do {
     let sender = \<lparr>pt_ID = bk_ID b, pt_Type = BrokerPoint, pt_Name = bk_Name b\<rparr>;
     let (bg, w1) = getBrokerGroup w0;
     req \<leftarrow> go_index (wk_msgs w1) m;
     let w = set_msg m (req\<lparr>ct_Task := Some \<lparr>tk_ID = cr_TaskID reply, tk_Name = cr_TaskName reply, tk_Executor = [], tk_Clients = [],
                tk_Metadata = fmempty, tk_Payload = [], tk_Input = [], tk_WorkflowID = cr_WorkflowID reply\<rparr>\<rparr>) w1;
     if bk_Endpoints b \<noteq> [] then do { w2 \<leftarrow> deliver_endpoints sender m (bk_Endpoints b) w; Some ([], w2) }
     else
       (let (vars, ok) = dynamicVars env b reply w;
            w2 = w\<lparr>wk_DynamicVars := fmupd (bk_ID b) vars (wk_DynamicVars w)\<rparr>
        in if \<not> ok then Some ([], w2)
           else do {
             let replies = fmadd (fmmap replyData vars) input;
             t \<leftarrow> fmlookup (wk_templates w) (bk_ID b);
             (case Execute (we_eval env replies) (we_order env) (NewRutime t) of
                Some (Some (eo, rt)) \<Rightarrow>
                  Some ([HandleDeliver sender (eo_DeliverFlows eo) (Some reply) m (length (wk_truns w)) ch],
                        w2\<lparr>wk_truns := wk_truns w @ [(replies, rt)]\<rparr>)
              | _ \<Rightarrow> None)
           })
   }"

text \<open>The loop of \<open>computeMsg\<close> over the brokers, one per step.\<close>

fun compute_brokers ::
  "'f wk_env \<Rightarrow> wf_broker list \<Rightarrow> 'f cmdReplyTask \<Rightarrow> nat \<Rightarrow> nat option \<Rightarrow> 'f worker \<Rightarrow> ('f worker_frame list \<times> 'f worker) go" where
  "compute_brokers env [] reply m ch w = Some ([], w)"
| "compute_brokers env (b # bs) reply m ch w =
     (if cr_WorkflowID reply \<noteq> wk_workflowID w then Some ([], w)
      else if (IsListen b (cr_TaskName reply) \<or> IsListen b (cr_RunOn reply)) \<and> bk_Clients b = [] then
        (let (part, w1) = getPart (cr_Part reply) (bk_ID b) BrokerPoint w;
             newReply = reply\<lparr>cr_Parent := cr_Part reply, cr_Part := part\<rparr>
         in if HasSuffix (cr_RunOn reply) SubTask \<and> cr_Result reply = None then Some ([], w1)
            else if HasSuffix (cr_RunOn reply) SubChannel \<and> cr_Content reply = None then Some ([], w1)
            else do {
              (fs, w2) \<leftarrow> processBroker env b newReply m fmempty ch w1;
              Some (fs @ [ComputeBrokers bs reply m ch], w2)
            })
      else Some ([ComputeBrokers bs reply m ch], w))"

definition computeMsg :: "'f cmdReplyTask \<Rightarrow> nat \<Rightarrow> nat option \<Rightarrow> 'f worker \<Rightarrow> ('f worker_frame list \<times> 'f worker) go" where
  "computeMsg reply m ch w =
     (if cr_Group reply = [] then Some ([], w)
      else do {
        req \<leftarrow> go_index (wk_msgs w) m;
        let w1 = set_msg m (req\<lparr>ct_Group := cr_Group reply\<rparr>) w;
        Some (if fmlookup (wk_points w) (cr_RunOn reply) = None then []
              else [ComputeBrokers (map snd (wk_brokers w))
                      (reply\<lparr>cr_Start := (if cr_TaskInput reply \<noteq> [] then False else cr_Start reply)\<rparr>) m ch], w1)
      })"

text \<open>What the subscription does with a reply: a message for the brokers has the delivery number 0, the others answer a request.\<close>

definition receive_reply :: "'f cmdReplyTask \<Rightarrow> 'f worker \<Rightarrow> ('f worker_frame list \<times> 'f worker) go" where
  "receive_reply reply0 w =
     (if cr_Cmd reply0 = 8 then Some ([], w)
      else
        (let reply = reply0\<lparr>cr_WorkflowID := wk_workflowID w\<rparr>
         in if cr_DeliverID reply = 0 then
              (let (m, w1) = new_msg (no_cmdTask\<lparr>ct_Cmd := InputTaskCmd, ct_WorkflowID := wk_workflowID w\<rparr>) w
               in if cr_RunCount reply \<noteq> 0 \<and> cr_RunCount reply |\<notin>| wk_responsesIDs w then Some ([], w1)
                  else computeMsg (reply\<lparr>cr_Status := 6\<rparr>) m None
                         (if cr_RunCount reply \<noteq> 0 then w1\<lparr>wk_responsesIDs := wk_responsesIDs w |-| {|cr_RunCount reply|}\<rparr> else w1))
            else Some ([RecvRemove reply (fmlookup (wk_requests w) (cr_DeliverID reply))], w)))"

text \<open>The synchronous subscription: the same goroutine runs the brokers and then waits for the result.\<close>

definition receive_sync :: "'f cmdReplyTask \<Rightarrow> nat \<Rightarrow> 'f worker \<Rightarrow> ('f worker_frame list \<times> 'f worker) go" where
  "receive_sync reply0 ch w =
     (if cr_WorkflowID reply0 \<noteq> wk_workflowID w \<and> \<not> HasSuffix (cr_RunOn reply0) SubChannel then Some ([], w)
      else
        (let reply = reply0\<lparr>cr_WorkflowID := wk_workflowID w\<rparr>;
             (i, w1) = worker_nextCmdID w;
             (m, w2) = new_msg (no_cmdTask\<lparr>ct_Cmd := InputTaskCmd, ct_DeliverID := i, ct_WorkflowID := wk_workflowID w\<rparr>) w1
         in do { (fs, w3) \<leftarrow> computeMsg reply m (Some ch) w2; Some (fs @ [RecvResult ch], w3) }))"

section \<open>Steps\<close>

text \<open>Running the topmost frame of a thread; the result is what replaces it.  Frames that wait for a channel have no
  step of their own.\<close>

fun exec_frame :: "'f wk_env \<Rightarrow> 'f worker_frame \<Rightarrow> 'f worker \<Rightarrow> ('f worker_frame list \<times> 'f worker) go" where
  "exec_frame env (TimerWait i) w =
     (if \<not> we_timeout env \<and> \<not> wk_closed w then None
      else (case fmlookup (wk_requests w) i of
              None \<Rightarrow> Some ([], w)
            | Some cb \<Rightarrow> Some ([CallBack cb (no_cmdReply\<lparr>cr_DeliverID := i\<rparr>) (Some (if we_timeout env then ''deliver timeout'' else ''worker: stopped''))], w)))"
| "exec_frame env (CallBack cb r err) w = do { fs \<leftarrow> call_worker_cb env cb r err w; Some (fs, w) }"
| "exec_frame env (RemoveRequest i) w = Some ([], worker_removeRequest i w)"
| "exec_frame env (RecvReply r) w = receive_reply r w"
| "exec_frame env (RecvRemove r cb) w =
     Some (case cb of None \<Rightarrow> [] | Some c \<Rightarrow> [CallBack c r None], worker_removeRequest (cr_DeliverID r) w)"
| "exec_frame env (SetStatus st) w = Some ([], w\<lparr>wk_status := st\<rparr>)"
| "exec_frame env (PushTasks cmd cur ts) w = pushAllCmdTask env cmd cur ts w"
| "exec_frame env (PushBrokers cmd cur bs) w = deliverBrokers env cmd cur bs w"
| "exec_frame env (RetryFire e) w = do { (ok, w1) \<leftarrow> deliverAsync env (de_Receiver e) (de_Msg e) (CbRetryLater e) w; Some ([], w1) }"
| "exec_frame env (DeliverInput sender receiver m) w = do { r \<leftarrow> receiver; deliverInputTaskCmd env sender r m w }"
| "exec_frame env (DeliverSync sender receiver m reply tr ch) w = do { r \<leftarrow> receiver; deliverRequestRunTaskSync env sender r m reply tr ch w }"
| "exec_frame env (Resume sender m reply tr ch v) w = resume_template env sender m reply tr ch v w"
| "exec_frame env (HandleDeliver sender delivers reply m tr ch) w = handleDeliver env sender delivers reply m tr ch w"
| "exec_frame env (ComputeBrokers bs reply m ch) w = compute_brokers env bs reply m ch w"
| "exec_frame env (SendErr e) w = None"
| "exec_frame env (SendEvent ev) w = None"
| "exec_frame env (SendResult c v) w = None"
| "exec_frame env (RecvResult c) w = None"
| "exec_frame env Nats w = None"
| "exec_frame env RetryLoop w = None"
| "exec_frame env EventLoop w = None"

definition top_frame :: "nat \<Rightarrow> 'f worker \<Rightarrow> ('f worker_frame \<times> 'f worker_frame list) option" where
  "top_frame i w = (case go_index (wk_threads w) i of Some (f # fs) \<Rightarrow> Some (f, fs) | _ \<Rightarrow> None)"

definition set_thread :: "nat \<Rightarrow> 'f worker_frame list \<Rightarrow> 'f worker \<Rightarrow> 'f worker" where
  "set_thread i fs w = w\<lparr>wk_threads := (wk_threads w)[i := fs]\<rparr>"

text \<open>The steps of the whole worker: one thread runs, two threads meet at an unbuffered channel, the dispatcher of the
  callback queue takes a closure, a message arrives at a subscription, or the worker is closed.\<close>

datatype 'f worker_action = Run nat | Meet nat nat | DispatchRetry | Arrive nat "'f cmdReplyTask" | ArriveSync nat "'f cmdReplyTask" nat | CloseWorker

fun worker_step :: "'f wk_env \<Rightarrow> 'f worker_action \<Rightarrow> 'f worker \<Rightarrow> 'f worker option" where
  "worker_step env (Run i) w = do {
     (f, fs) \<leftarrow> top_frame i w;
     (fs1, w1) \<leftarrow> exec_frame env f (set_thread i fs w);
     Some (set_thread i (fs1 @ fs) w1)
   }"
| "worker_step env (Meet i j) w =
     (if i = j then None
      else (case (top_frame i w, top_frame j w) of
              (Some (SendErr e, fs), Some (RetryLoop, _)) \<Rightarrow> Some (set_thread i fs (w\<lparr>wk_CBQueue := wk_CBQueue w @ [e]\<rparr>))
            | (Some (SendEvent ev, fs), Some (EventLoop, gs)) \<Rightarrow>
                (let (fs1, w1) = handle_event ev w in Some (set_thread i fs (set_thread j (fs1 @ gs) w1)))
            | (Some (SendResult c v, fs), Some (RecvResult c', gs)) \<Rightarrow>
                if c = c' then Some (set_thread i fs (set_thread j gs w)) else None
            | _ \<Rightarrow> None))"
| "worker_step env DispatchRetry w =
     (case wk_CBQueue w of [] \<Rightarrow> None | e # q \<Rightarrow> retryDeliver env e (w\<lparr>wk_CBQueue := q\<rparr>))"
| "worker_step env (Arrive i r) w = (case top_frame i w of Some (Nats, fs) \<Rightarrow> Some (set_thread i (RecvReply r # Nats # fs) w) | _ \<Rightarrow> None)"
| "worker_step env (ArriveSync i r ch) w =
     (case top_frame i w of
        Some (Nats, fs) \<Rightarrow> do { (fs1, w1) \<leftarrow> receive_sync r ch w; Some (set_thread i (fs1 @ Nats # fs) w1) }
      | _ \<Rightarrow> None)"
| "worker_step env CloseWorker w = Some (w\<lparr>wk_closed := True\<rparr>)"

text \<open>The worker as \<open>Run\<close> starts it.\<close>

definition started ::
  "int \<Rightarrow> int \<Rightarrow> (string \<times> task) list \<Rightarrow> (string \<times> wf_broker) list \<Rightarrow> (int, unit template) fmap \<Rightarrow> (int \<times> string) list \<Rightarrow> (int \<times> string) list \<Rightarrow> 'f worker" where
  "started wid now tasks brokers templates channels clients =
     setPoints channels clients
       \<lparr>wk_workflowID = wid, wk_status = Running, wk_deliverCmd = now, wk_tasks = tasks, wk_brokers = brokers, wk_templates = templates,
        wk_requests = fmempty, wk_responsesIDs = {||}, wk_points = fmempty, wk_taskDelivers = fmempty, wk_brokerDelivers = fmempty,
        wk_flowMap = fmempty, wk_requestMap = fmempty, wk_DynamicVars = fmempty, wk_CBQueue = [], wk_closed = False, wk_msgs = [], wk_truns = [],
        wk_published = [],
        wk_threads = [[EventLoop], [RetryLoop], [Nats], [Nats], [SetStatus Delivering],
          [PushTasks SetTaskCmd None (map snd tasks), PushBrokers SetBrokerCmd None (map snd brokers)]]\<rparr>"

inductive worker_reachable :: "'f worker \<Rightarrow> 'f worker \<Rightarrow> bool" for w0 :: "'f worker" where
  start: "worker_reachable w0 w0"
| step: "worker_reachable w0 w \<Longrightarrow> worker_step env a w = Some w' \<Longrightarrow> worker_reachable w0 w'"

fun worker_run :: "('f wk_env \<times> 'f worker_action) list \<Rightarrow> 'f worker \<Rightarrow> 'f worker option" where
  "worker_run [] w = Some w"
| "worker_run ((env, a) # as) w = do { w1 \<leftarrow> worker_step env a w; worker_run as w1 }"

lemma worker_run_reachable: "worker_run as w = Some w' \<Longrightarrow> worker_reachable w0 w \<Longrightarrow> worker_reachable w0 w'"
proof (induction as arbitrary: w)
  case (Cons a as)
  then show ?case by (cases a) (auto split: bind_splits intro: worker_reachable.step)
qed simp

end
