(* ===== verification/Worker_Run.thy ===== *)
theory Worker_Run
  imports Worker
begin

text \<open>
  What holds in every run of a worker: failed deliveries are retried a bounded number of times, whatever
  the order in which replies, timeouts and retries come.
\<close>

section \<open>The budget of retries\<close>

definition msg_ok :: "'f cmdTask \<Rightarrow> bool" where
  "msg_ok msg \<longleftrightarrow> 0 \<le> ct_Attempt msg \<and> ct_Attempt msg \<le> 4 \<and> (ct_Retry msg = None \<longrightarrow> ct_Attempt msg \<le> 1)"

definition budget :: "nat \<Rightarrow> 'f worker \<Rightarrow> nat" where
  "budget m w = (if m < length (wk_msgs w) then nat (ct_Attempt (wk_msgs w ! m) - 1) else 0)"

definition fires_of :: "nat \<Rightarrow> 'f worker_frame list \<Rightarrow> nat" where
  "fires_of m fs = length (filter (\<lambda>f. case f of RetryFire e \<Rightarrow> de_Msg e = m | _ \<Rightarrow> False) fs)"

definition retries :: "nat \<Rightarrow> 'f worker \<Rightarrow> nat" where
  "retries m w = length (filter (\<lambda>(m', r, _). m' = m \<and> r) (wk_published w))"

text \<open>A command that has been given out has been counted.\<close>

definition live :: "'f worker \<Rightarrow> nat \<Rightarrow> bool" where
  "live w m \<longleftrightarrow> m < length (wk_msgs w) \<and> 1 \<le> ct_Attempt (wk_msgs w ! m)"

fun cb_msg :: "'f worker_cb \<Rightarrow> nat" where
  "cb_msg (CbSetup _ _ m) = m"
| "cb_msg (CbInput _ _ m) = m"
| "cb_msg (CbSync _ _ m _ _ _) = m"
| "cb_msg (CbRetry e) = de_Msg e"
| "cb_msg (CbRetryLater e) = de_Msg e"

fun frame_msgs :: "'f worker_frame \<Rightarrow> nat list" where
  "frame_msgs (CallBack cb _ _) = [cb_msg cb]"
| "frame_msgs (RecvRemove _ (Some cb)) = [cb_msg cb]"
| "frame_msgs (SendErr e) = [de_Msg e]"
| "frame_msgs (RetryFire e) = [de_Msg e]"
| "frame_msgs _ = []"

definition frames_live :: "'f worker \<Rightarrow> 'f worker_frame list \<Rightarrow> bool" where
  "frames_live w fs \<longleftrightarrow> (\<forall>f\<in>set fs. \<forall>m\<in>set (frame_msgs f). live w m)"

definition all_live :: "'f worker \<Rightarrow> bool" where
  "all_live w \<longleftrightarrow> frames_live w (concat (wk_threads w)) \<and> (\<forall>i cb. fmlookup (wk_requests w) i = Some cb \<longrightarrow> live w (cb_msg cb)) \<and>
     (\<forall>e\<in>set (wk_CBQueue w). live w (de_Msg e))"

text \<open>The invariant, with \<open>x\<close> retries set aside.\<close>

definition wk_inv :: "(nat \<Rightarrow> nat) \<Rightarrow> 'f worker \<Rightarrow> bool" where
  "wk_inv x w \<longleftrightarrow> list_all msg_ok (wk_msgs w) \<and> all_live w \<and>
     (\<forall>m. retries m w + fires_of m (concat (wk_threads w)) + x m \<le> budget m w)"

text \<open>What every operation does: it keeps the invariant, commands stay live, and new threads come at the end.\<close>

definition grows :: "'f worker \<Rightarrow> 'f worker \<Rightarrow> bool" where
  "grows w w' \<longleftrightarrow> (\<forall>m. live w m \<longrightarrow> live w' m) \<and> (\<exists>new. wk_threads w' = wk_threads w @ new)"

definition keeps :: "'f worker \<Rightarrow> 'f worker \<Rightarrow> bool" where
  "keeps w w' \<longleftrightarrow> grows w w' \<and> (\<forall>x. wk_inv x w \<longrightarrow> wk_inv x w')"

lemma worker_keeps_refl [simp]: "keeps w w"
  by (simp add: keeps_def grows_def)

lemma worker_keeps_trans: "keeps w w1 \<Longrightarrow> keeps w1 w2 \<Longrightarrow> keeps w w2"
  unfolding keeps_def grows_def by (metis append.assoc)

lemma keeps_same:
  assumes "wk_msgs w' = wk_msgs w" "wk_threads w' = wk_threads w" "wk_requests w' = wk_requests w" "wk_CBQueue w' = wk_CBQueue w"
    "wk_published w' = wk_published w"
  shows "keeps w w'"
  using assms by (simp add: keeps_def grows_def wk_inv_def all_live_def frames_live_def live_def retries_def budget_def)

lemma fires_of_append [simp]: "fires_of m (fs @ gs) = fires_of m fs + fires_of m gs"
  by (simp add: fires_of_def)

lemma fires_of_Nil [simp]: "fires_of m [] = 0"
  by (simp add: fires_of_def)

lemma keeps_nextCmdID: "worker_nextCmdID w = (i, w') \<Longrightarrow> keeps w w'"
  by (auto simp: worker_nextCmdID_def intro!: keeps_same)

lemma keeps_getPart: "getPart p rid rt w = (part, w') \<Longrightarrow> keeps w w'"
  by (auto simp: getPart_def worker_nextCmdID_def Let_def split: if_splits option.splits intro!: keeps_same)

lemma keeps_numbered_id: "worker_numbered msg w = (msg', w') \<Longrightarrow> keeps w w'"
  by (auto simp: worker_numbered_def worker_nextCmdID_def Let_def split: if_splits intro!: keeps_same)

lemma numbered_ok:
  assumes "worker_numbered msg w = (msg', w')" "msg_ok msg"
  shows "msg_ok msg'" "1 \<le> ct_Attempt msg'" "ct_Retry msg' = ct_Retry msg" "ct_Attempt msg \<le> ct_Attempt msg'"
  using assms by (auto simp: worker_numbered_def Let_def msg_ok_def split: prod.splits)

lemma live_set_msg:
  assumes "ct_Attempt (wk_msgs w ! m) \<le> ct_Attempt msg"
  shows "live w k \<Longrightarrow> live (set_msg m msg w) k"
  using assms by (cases "k = m") (auto simp: live_def set_msg_def)

lemma all_live_mono:
  assumes "all_live w" "\<And>k. live w k \<Longrightarrow> live w' k" "wk_threads w' = wk_threads w" "wk_requests w' = wk_requests w" "wk_CBQueue w' = wk_CBQueue w"
  shows "all_live w'"
  using assms unfolding all_live_def frames_live_def by metis

lemma keeps_set_msg:
  assumes "ct_Attempt (wk_msgs w ! m) \<le> ct_Attempt msg" "list_all msg_ok (wk_msgs w) \<Longrightarrow> msg_ok msg"
  shows "keeps w (set_msg m msg w)"
proof -
  have live: "live w k \<Longrightarrow> live (set_msg m msg w) k" for k by (rule live_set_msg[OF assms(1)])
  have "wk_inv x (set_msg m msg w)" if i: "wk_inv x w" for x
  proof -
    have "list_all msg_ok (wk_msgs (set_msg m msg w))"
      using i assms(2) set_update_subset_insert[of "wk_msgs w" m msg] by (auto simp: wk_inv_def set_msg_def list_all_iff)
    moreover have "all_live (set_msg m msg w)"
      using i live by (auto simp: wk_inv_def set_msg_def intro: all_live_mono[where w = w])
    moreover have "budget k w \<le> budget k (set_msg m msg w)" for k
      using assms(1) by (cases "k = m") (auto simp: budget_def set_msg_def)
    ultimately show ?thesis using i unfolding wk_inv_def by (auto simp: set_msg_def retries_def intro: order_trans)
  qed
  then show ?thesis using live by (simp add: keeps_def grows_def set_msg_def)
qed

lemma keeps_new_msg:
  assumes "new_msg msg w = (m, w')" "list_all msg_ok (wk_msgs w) \<Longrightarrow> msg_ok msg"
  shows "keeps w w'"
proof -
  have w': "w' = w\<lparr>wk_msgs := wk_msgs w @ [msg]\<rparr>" using assms(1) by (simp add: new_msg_def)
  have live: "live w k \<Longrightarrow> live w' k" for k by (auto simp: w' live_def nth_append)
  have "wk_inv x w'" if i: "wk_inv x w" for x
  proof -
    have "all_live w'" using i live by (auto simp: wk_inv_def w' intro: all_live_mono[where w = w])
    moreover have "budget k w \<le> budget k w'" for k by (auto simp: budget_def w' nth_append)
    ultimately show ?thesis using i assms(2) unfolding wk_inv_def by (auto simp: w' retries_def intro: order_trans)
  qed
  then show ?thesis using live by (simp add: keeps_def grows_def w')
qed

lemma grows_live: "grows w w' \<Longrightarrow> frames_live w fs \<Longrightarrow> frames_live w' fs"
  by (auto simp: grows_def frames_live_def)

lemma keeps_live: "keeps w w' \<Longrightarrow> live w m \<Longrightarrow> live w' m"
  by (simp add: keeps_def grows_def)

lemma keeps_addRequest:
  assumes "live w (cb_msg cb)"
  shows "keeps w (worker_addRequest i cb w)"
  using assms by (auto simp: keeps_def grows_def wk_inv_def all_live_def frames_live_def live_def retries_def budget_def worker_addRequest_def)

lemma keeps_removeRequest: "keeps w (worker_removeRequest i w)"
  by (auto simp: keeps_def grows_def wk_inv_def all_live_def frames_live_def live_def retries_def budget_def worker_removeRequest_def
      fmlookup_drop split: if_splits)

lemma keeps_spawn:
  assumes "frames_live w th" "\<And>m. fires_of m th = 0"
  shows "keeps w (worker_spawn th w)"
  using assms by (auto simp: keeps_def grows_def wk_inv_def all_live_def frames_live_def live_def retries_def budget_def worker_spawn_def)

lemma keeps_spawn_plain:
  assumes "frame_msgs f = []" "\<And>m. fires_of m [f] = 0"
  shows "keeps w (worker_spawn [f] w)"
  using assms by (intro keeps_spawn) (auto simp: frames_live_def)

lemma budget_cong: "wk_msgs w' = wk_msgs w \<Longrightarrow> budget m w' = budget m w"
  by (simp add: budget_def)

lemma spawn_fire:
  assumes "wk_inv x w" "live w (de_Msg e)" "x (de_Msg e) > 0"
  shows "wk_inv (x(de_Msg e := x (de_Msg e) - 1)) (worker_spawn [RetryFire e] w)"
proof -
  have "fires_of m [RetryFire e] = (if m = de_Msg e then 1 else 0)" for m by (simp add: fires_of_def)
  then have "retries m w + (fires_of m (concat (wk_threads w)) + fires_of m [RetryFire e]) + (x(de_Msg e := x (de_Msg e) - 1)) m \<le> budget m w" for m
    using assms(1,3) by (auto simp: wk_inv_def)
  moreover have "all_live (worker_spawn [RetryFire e] w)"
    using assms(1,2) by (auto simp: wk_inv_def all_live_def frames_live_def live_def worker_spawn_def)
  moreover have "budget m (worker_spawn [RetryFire e] w) = budget m w" "retries m (worker_spawn [RetryFire e] w) = retries m w" for m
    by (simp_all add: worker_spawn_def budget_def retries_def)
  ultimately show ?thesis using assms(1) unfolding wk_inv_def by (simp add: worker_spawn_def)
qed

text \<open>Delivering a command, for the first time or again.\<close>

lemma deliverAsync_grows:
  assumes "deliverAsync env receiver m cb w = Some (ok, w')"
  shows "grows w w'"
  using assms
  by (auto simp: deliverAsync_def worker_nextCmdID_def worker_addRequest_def worker_spawn_def grows_def live_def Let_def
      split: bind_splits if_splits prod.splits)

lemma deliverAsync_inv:
  assumes "deliverAsync env receiver m cb w = Some (ok, w')" "live w (cb_msg cb)" "wk_inv x w" "is_retry cb \<Longrightarrow> 0 < x m"
  shows "wk_inv (if is_retry cb then x(m := x m - 1) else x) w'"
proof -
  obtain cmd i w1 where w1: "w1 = w \<or> (\<exists>i. worker_nextCmdID w = (i, w1))" and
    w': "w' = (if we_publish env then worker_spawn [TimerWait i, RemoveRequest i] ((worker_addRequest i cb w1)\<lparr>wk_published := wk_published w1 @
       [(m, is_retry cb, cmd)]\<rparr>) else worker_addRequest i cb w1)"
    using assms(1)
    by (auto simp: deliverAsync_def worker_addRequest_def Let_def split: bind_splits if_splits prod.splits)
  have "keeps w w1" using w1 keeps_nextCmdID by auto
  then have k2: "keeps w (worker_addRequest i cb w1)" using assms(2) keeps_addRequest[of w1 cb i] keeps_live worker_keeps_trans by blast
  define w2 where "w2 = worker_addRequest i cb w1"
  have i2: "wk_inv x w2" using k2 assms(3) by (simp add: keeps_def w2_def)
  have pub: "wk_published w2 = wk_published w1" by (simp add: w2_def worker_addRequest_def)
  let ?y = "if is_retry cb then x(m := x m - 1) else x"
  have le: "?y k \<le> x k" for k by simp
  have inv_y: "wk_inv ?y w2" using i2 unfolding wk_inv_def by (meson add_le_mono le le_trans order_refl)
  let ?w3 = "w2\<lparr>wk_published := wk_published w1 @ [(m, is_retry cb, cmd)]\<rparr>"
  have "retries k ?w3 + fires_of k (concat (wk_threads w2)) + ?y k \<le> budget k w2" for k
  proof (cases "is_retry cb \<and> k = m")
    case True
    have "retries k w2 + fires_of k (concat (wk_threads w2)) + x k \<le> budget k w2" using i2 by (simp add: wk_inv_def)
    then show ?thesis using True assms(4) by (simp add: retries_def pub)
  next
    case False
    have "retries k w2 + fires_of k (concat (wk_threads w2)) + ?y k \<le> budget k w2" using inv_y by (simp add: wk_inv_def)
    then show ?thesis using False by (cases "is_retry cb") (auto simp: retries_def pub)
  qed
  moreover have "all_live ?w3" using inv_y by (simp add: wk_inv_def all_live_def frames_live_def live_def)
  moreover have "budget k ?w3 = budget k w2" for k by (rule budget_cong) simp
  ultimately have i3: "wk_inv ?y ?w3" using inv_y unfolding wk_inv_def by simp
  have "wk_inv ?y (worker_spawn [TimerWait i, RemoveRequest i] ?w3)"
    using keeps_spawn[of ?w3 "[TimerWait i, RemoveRequest i]"] i3 by (simp add: keeps_def frames_live_def fires_of_def)
  then show ?thesis using w' inv_y by (simp add: w2_def)
qed

lemma keeps_deliverAsync:
  assumes "deliverAsync env receiver m cb w = Some (ok, w')" "live w (cb_msg cb)" "\<not> is_retry cb"
  shows "keeps w w'"
  using deliverAsync_grows[OF assms(1)] deliverAsync_inv[OF assms(1,2)] assms(3) by (simp add: keeps_def)

section \<open>Retries stay within the budget\<close>

lemma set_msg_gain:
  assumes "wk_inv x w" "live w m" "msg_ok msg" "ct_Attempt msg = ct_Attempt (wk_msgs w ! m) + 1"
  shows "wk_inv (x(m := x m + 1)) (set_msg m msg w)"
proof -
  have k: "keeps w (set_msg m msg w)" using assms(3,4) by (intro keeps_set_msg) simp_all
  then have i: "wk_inv x (set_msg m msg w)" using assms(1) by (simp add: keeps_def)
  have "budget m (set_msg m msg w) = budget m w + 1" using assms(2,4) by (simp add: budget_def set_msg_def live_def Suc_nat_eq_nat_zadd1)
  moreover have "retries m (set_msg m msg w) = retries m w" "wk_threads (set_msg m msg w) = wk_threads w" by (simp_all add: set_msg_def retries_def)
  moreover have "retries m w + fires_of m (concat (wk_threads w)) + x m \<le> budget m w" using assms(1) by (simp add: wk_inv_def)
  ultimately have "retries m (set_msg m msg w) + fires_of m (concat (wk_threads (set_msg m msg w))) + (x m + 1) \<le> budget m (set_msg m msg w)" by simp
  then show ?thesis using i unfolding wk_inv_def by simp
qed

lemma handleRetryDeliver_inv:
  assumes "handleRetryDeliver env e w = Some w'" "wk_inv (\<lambda>_. 0) w" "live w (de_Msg e)"
  shows "wk_inv (\<lambda>_. 0) w' \<and> grows w w'"
proof -
  let ?m = "de_Msg e"
  obtain msg where msg: "go_index (wk_msgs w) ?m = Some msg" using assms(1) by (auto simp: handleRetryDeliver_def split: bind_splits)
  then have nth: "wk_msgs w ! ?m = msg" "?m < length (wk_msgs w)" by (auto simp: go_index_def split: if_splits)
  then have ok: "msg_ok msg" using assms(2) by (auto simp: wk_inv_def list_all_iff)
  have at: "1 \<le> ct_Attempt msg" using assms(3) nth by (simp add: live_def)
  have gain: "wk_inv ((\<lambda>_. 0)(?m := 1)) (set_msg ?m msg1 w)" "live (set_msg ?m msg1 w) ?m" "grows w (set_msg ?m msg1 w)"
    if "msg_ok msg1" "ct_Attempt msg1 = ct_Attempt msg + 1" for msg1
    using set_msg_gain[OF assms(2,3) that(1)] keeps_set_msg[of w ?m msg1] assms(3) that nth by (auto simp: keeps_def grows_def)
  show ?thesis
  proof (cases "ct_Retry msg")
    case (Some ry)
    show ?thesis
    proof (cases "ct_Attempt msg > 3 \<or> (\<forall>i. (if ry_ID ry = 0 then we_record env else RecordID (ry_ID ry)) \<noteq> RecordID i)")
      case True
      then have "w' = w" using assms(1) msg Some by (auto simp: handleRetryDeliver_def split: record_answer.splits if_splits)
      then show ?thesis using assms(2) by (simp add: grows_def)
    next
      case False
      then obtain i where i: "(if ry_ID ry = 0 then we_record env else RecordID (ry_ID ry)) = RecordID i" "ct_Attempt msg \<le> 3" by (meson not_le)
      define msg1 where "msg1 = msg\<lparr>ct_Attempt := ct_Attempt msg + 1, ct_Retry := Some \<lparr>ry_ID = i, ry_Attempt = ry_Attempt ry + 1\<rparr>\<rparr>"
      have w': "w' = (if we_SetWfRecovered env \<and> we_UpdateAttempt env then worker_spawn [RetryFire e] (set_msg ?m msg1 w) else set_msg ?m msg1 w)"
        using assms(1) msg Some i by (auto simp: handleRetryDeliver_def msg1_def Let_def)
      have m1: "msg_ok msg1" "ct_Attempt msg1 = ct_Attempt msg + 1" using ok at i(2) by (simp_all add: msg_ok_def msg1_def)
      have "wk_inv (\<lambda>_. 0) (set_msg ?m msg1 w)" using gain(1)[OF m1] unfolding wk_inv_def by (metis add.right_neutral add_leD1)
      moreover have "wk_inv (\<lambda>_. 0) (worker_spawn [RetryFire e] (set_msg ?m msg1 w))"
        using spawn_fire[OF gain(1,2)[OF m1]] by (simp add: fun_upd_idem)
      moreover have "grows w (worker_spawn [RetryFire e] (set_msg ?m msg1 w))"
        using gain(3)[OF m1] by (auto simp: grows_def worker_spawn_def live_def)
      ultimately show ?thesis using w' gain(3)[OF m1] by simp
    qed
  next
    case None
    show ?thesis
    proof (cases "we_record env = RecordError")
      case True
      then have "w' = w" using assms(1) msg None by (simp add: handleRetryDeliver_def)
      then show ?thesis using assms(2) by (simp add: grows_def)
    next
      case False
      then obtain i where i: "(case we_record env of RecordID i \<Rightarrow> Some i | NoRows \<Rightarrow> Some (we_logID env) | RecordError \<Rightarrow> None) = Some i"
        by (cases "we_record env") auto
      define msg1 where "msg1 = msg\<lparr>ct_Attempt := ct_Attempt msg + 1, ct_Retry := Some \<lparr>ry_ID = i, ry_Attempt = ct_Attempt msg + 1\<rparr>,
                              ct_DeliverID := cr_DeliverID (de_Reply e)\<rparr>"
      obtain b where d: "deliverAsync env (de_Receiver e) ?m (CbRetry e) (set_msg ?m msg1 w) = Some (b, w')"
        using assms(1) msg None i by (auto simp: handleRetryDeliver_def msg1_def Let_def split: bind_splits)
      have m1: "msg_ok msg1" "ct_Attempt msg1 = ct_Attempt msg + 1" using ok at None by (simp_all add: msg_ok_def msg1_def)
      have "wk_inv (((\<lambda>_. 0)(?m := 1))(?m := 0)) w'" using deliverAsync_inv[OF d _ gain(1)[OF m1]] gain(2)[OF m1] by simp
      then have "wk_inv (\<lambda>_. 0) w'" by (simp add: fun_upd_idem)
      moreover have "grows w w'" using gain(3)[OF m1] deliverAsync_grows[OF d] by (auto simp: grows_def)
      ultimately show ?thesis by simp
    qed
  qed
qed

lemma retryDeliver_inv:
  assumes "retryDeliver env e w = Some w'" "wk_inv (\<lambda>_. 0) w" "live w (de_Msg e)"
  shows "wk_inv (\<lambda>_. 0) w' \<and> grows w w'"
proof -
  have "w' = w \<or> (\<exists>r. handleRetryDeliver env (e\<lparr>de_Reply := r\<rparr>) w = Some w')"
    using assms(1) unfolding retryDeliver_def Let_def by (auto simp del: cmdReplyTask.update_convs split: bind_splits if_splits)
  then show ?thesis using handleRetryDeliver_inv[OF _ assms(2)] assms(2,3) by (force simp: grows_def)
qed

section \<open>The other operations keep the invariant\<close>

definition frames_ok :: "'f worker \<Rightarrow> 'f worker_frame list \<Rightarrow> bool" where
  "frames_ok w fs \<longleftrightarrow> frames_live w fs \<and> (\<forall>m. fires_of m fs = 0)"

lemma frames_ok_Nil [simp]: "frames_ok w []"
  by (simp add: frames_ok_def frames_live_def)

lemma frames_ok_append [simp]: "frames_ok w (fs @ gs) \<longleftrightarrow> frames_ok w fs \<and> frames_ok w gs"
  by (auto simp: frames_ok_def frames_live_def)

lemma frames_ok_Cons:
  "frames_ok w (f # fs) \<longleftrightarrow> (\<forall>m\<in>set (frame_msgs f). live w m) \<and> (\<forall>e. f \<noteq> RetryFire e) \<and> frames_ok w fs"
  by (cases f) (auto simp: frames_ok_def frames_live_def fires_of_def)

lemma go_index_ok: "go_index (wk_msgs w) m = Some msg \<Longrightarrow> list_all msg_ok (wk_msgs w) \<Longrightarrow> msg_ok msg"
  by (auto simp: go_index_def list_all_iff split: if_splits)

lemma no_cmdTask_ok [simp]: "msg_ok no_cmdTask"
  by (simp add: msg_ok_def no_cmdTask_def)

text \<open>Changes of a command that leave its counters alone.\<close>

lemma msg_ok_cong: "ct_Attempt msg' = ct_Attempt msg \<Longrightarrow> ct_Retry msg' = ct_Retry msg \<Longrightarrow> msg_ok msg' = msg_ok msg"
  by (simp add: msg_ok_def)

lemma keeps_deliverTaskToClient:
  assumes "deliverTaskToClient env sender receiver msg0 w0 = Some (ok, w')" "msg_ok msg0"
  shows "keeps w0 w'"
proof -
  obtain msg w1 part w2 m w3 where n: "worker_numbered msg0 w0 = (msg, w1)" "getPart [] (- 1) (- 1) w1 = (part, w2)" "new_msg (msg\<lparr>ct_Part := part\<rparr>) w2 = (m, w3)"
    and d: "deliverAsync env receiver m (CbSetup sender receiver m) w3 = Some (ok, w')"
    using assms(1) by (auto simp: deliverTaskToClient_def Let_def split: prod.splits)
  note ok = numbered_ok[OF n(1) assms(2)]
  have "keeps w0 w3"
    using worker_keeps_trans[OF worker_keeps_trans[OF keeps_numbered_id[OF n(1)] keeps_getPart[OF n(2)]] keeps_new_msg[OF n(3)]] ok(1) by (simp add: msg_ok_def)
  moreover have "live w3 m" using n(3) ok(2) by (auto simp: new_msg_def live_def)
  ultimately show ?thesis using keeps_deliverAsync[OF d] worker_keeps_trans by auto
qed

lemma keeps_updateStatus: "keeps w (updateStatusDeliverTask i d w)" "keeps w (updateStatusDeliverBroker i d w)"
  by (auto simp: updateStatusDeliverTask_def updateStatusDeliverBroker_def intro!: keeps_same)

lemma keeps_deliverTask:
  assumes "deliverTask env cmd t c w = Some (ok, w')"
  shows "keeps w w'"
proof -
  let ?w1 = "updateStatusDeliverTask (tk_ID t) \<lparr>dl_client = c, dl_status = PendingDeliver\<rparr> w"
  obtain i w2 where n: "worker_nextCmdID ?w1 = (i, w2)" by (cases "worker_nextCmdID ?w1")
  have k: "keeps w w2" using worker_keeps_trans[OF keeps_updateStatus(1) keeps_nextCmdID[OF n]] .
  have kt: "deliverTaskToClient env sender receiver msg w2 = Some (b, w') \<Longrightarrow> msg_ok msg \<Longrightarrow> keeps w w'" for sender receiver msg b
    using worker_keeps_trans[OF k keeps_deliverTaskToClient] by blast
  show ?thesis using assms n k
    by (auto simp: deliverTask_def Let_def split: bind_splits option.splits dest!: kt) (simp_all add: msg_ok_def no_cmdTask_def)
qed

lemma pushAllCmdTask_runs:
  assumes "pushAllCmdTask env cmd cur ts w = Some (fs, w')"
  shows "keeps w w' \<and> frames_ok w' fs"
  using assms
proof (induction env cmd cur ts w rule: pushAllCmdTask.induct)
  case (1 env cmd t c cs ts w)
  then show ?case using keeps_deliverTask by (auto simp: frames_ok_Cons split: bind_splits)
next
  case (4 env cmd t ts w)
  then show ?case using keeps_updateStatus(1) by (auto simp: frames_ok_Cons Let_def split: if_splits)
qed (auto simp: frames_ok_Cons)

lemma deliverBrokers_runs:
  assumes "deliverBrokers env cmd cur bs w = Some (fs, w')"
  shows "keeps w w' \<and> frames_ok w' fs"
  using assms
proof (induction env cmd cur bs w rule: deliverBrokers.induct)
  case (1 env cmd b c cs bs w)
  let ?w = "updateStatusDeliverBroker (bk_ID b) \<lparr>dl_client = c, dl_status = PendingDeliver\<rparr> w"
  have kt: "deliverTaskToClient env sender receiver msg ?w = Some (b', w') \<Longrightarrow> msg_ok msg \<Longrightarrow> keeps w w'" for sender receiver msg b'
    using worker_keeps_trans[OF keeps_updateStatus(2) keeps_deliverTaskToClient] by blast
  show ?case using 1 keeps_updateStatus(2)
    by (auto simp: Let_def frames_ok_Cons split: bind_splits if_splits dest!: kt) (simp_all add: msg_ok_def no_cmdTask_def)
qed (auto simp: frames_ok_Cons)

lemma handle_event_runs:
  assumes "handle_event ev w = (fs, w')"
  shows "keeps w w' \<and> frames_ok w' fs"
proof -
  have "keeps w1 (worker_spawn [SetStatus Running] w1)" for w1 :: "'a worker" by (rule keeps_spawn_plain) (simp_all add: fires_of_def)
  then show ?thesis using assms keeps_updateStatus worker_keeps_trans
    by (auto simp: handle_event_def Let_def frames_ok_Cons split: worker_event.splits if_splits) blast+
qed

lemma call_worker_cb_ok:
  assumes "call_worker_cb env cb r err w = Some fs" "live w (cb_msg cb)"
  shows "frames_ok w fs"
  using assms
  by (cases cb) (auto simp: checkCmdReply_def wrapDeliverErr_def frames_ok_Cons Let_def split: if_splits option.splits bind_splits)

subsection \<open>Routing\<close>

lemma keeps_reqDeliver:
  assumes "reqDeliver env path rv receiver reply m w = Some (req, w')"
  shows "keeps w w'" "list_all msg_ok (wk_msgs w) \<Longrightarrow> msg_ok req"
proof -
  obtain req0 where r0: "go_index (wk_msgs w) m = Some req0" using assms by (auto simp: reqDeliver_def split: bind_splits)
  have "keeps w w' \<and> ct_Attempt req = ct_Attempt req0 \<and> ct_Retry req = ct_Retry req0"
  proof -
    define a where "a = (case reply of None \<Rightarrow> (req0\<lparr>ct_WorkflowID := wk_workflowID w\<rparr>, w)
          | Some r \<Rightarrow> (let (part, w') = getPart (cr_Part r) (pt_ID receiver) (pt_Type receiver) w
                      in (req0\<lparr>ct_WorkflowID := wk_workflowID w, ct_Part := part, ct_Parent := cr_Part r\<rparr>, w')))"
    have a: "keeps w (snd a) \<and> ct_Attempt (fst a) = ct_Attempt req0 \<and> ct_Retry (fst a) = ct_Retry req0"
      using keeps_getPart by (auto simp: a_def split: option.splits prod.splits)
    obtain req2 w1 where a2: "a = (req2, w1)" by (cases a)
    have k: "keeps w (w2\<lparr>wk_responsesIDs := X\<rparr>)" if "worker_nextCmdID w1 = (i, w2)" for i w2 X
      using a a2 worker_keeps_trans[OF worker_keeps_trans[OF _ keeps_nextCmdID[OF that]] keeps_same[of "w2\<lparr>wk_responsesIDs := X\<rparr>" w2]] by simp
    show ?thesis using assms r0 a a2 k unfolding reqDeliver_def a_def
      by (auto simp: Let_def split: bind_splits if_splits option.splits prod.splits)
  qed
  then show "keeps w w'" "list_all msg_ok (wk_msgs w) \<Longrightarrow> msg_ok req" using go_index_ok[OF r0] by (auto simp: msg_ok_def)
qed

lemma keeps_spawn_all:
  assumes "\<And>p. frame_msgs (frm p) = []" "\<And>p m. fires_of m [frm p] = 0"
  shows "keeps w (spawn_all frm cs w)"
proof -
  have "keeps w w1 \<Longrightarrow> keeps w (fold (\<lambda>c. worker_spawn [frm (look c)]) cs w1)" for w1 look
    by (induction cs arbitrary: w1) (auto intro: worker_keeps_trans[OF _ keeps_spawn_plain] assms)
  then show ?thesis by (simp add: spawn_all_def)
qed

lemma fires_of_deliver [simp]:
  "fires_of m [DeliverInput s p k] = 0" "fires_of m [DeliverSync s p k r tr ch] = 0"
  by (simp_all add: fires_of_def)

lemma keeps_deliver_to:
  assumes "deliver_to env sender path rv receiver reply m tr ch w = Some w'"
  shows "keeps w w'"
proof -
  obtain req w1 m' w2 where r: "reqDeliver env path rv receiver reply m w = Some (req, w1)" and n: "new_msg req w1 = (m', w2)"
    and w': "w' = (if pt_Type receiver = TaskPoint
           then spawn_all (\<lambda>p. if df_Send path = SENDSYNC_EXP then DeliverSync sender p m' reply tr ch else DeliverInput sender p m')
                  (task_clients (pt_ID receiver) w2) w2
           else worker_spawn [DeliverInput sender (Some receiver) m'] w2)"
    using assms by (auto simp: deliver_to_def Let_def split: bind_splits prod.splits)
  have same: "wk_msgs w1 = wk_msgs w"
    using r by (auto simp: reqDeliver_def getPart_def worker_nextCmdID_def Let_def split: bind_splits if_splits option.splits prod.splits)
  have "keeps w w2" using worker_keeps_trans[OF keeps_reqDeliver(1)[OF r] keeps_new_msg[OF n]] keeps_reqDeliver(2)[OF r] same by simp
  moreover have "keeps w2 w'" unfolding w' by (auto intro!: keeps_spawn_all keeps_spawn_plain)
  ultimately show ?thesis by (rule worker_keeps_trans)
qed

lemma keeps_deliver_receivers: "deliver_receivers env sender path rvs reply m tr ch w = Some (ok, w') \<Longrightarrow> keeps w w'"
proof (induction rvs arbitrary: w)
  case (Cons rv rvs)
  then show ?case by (auto split: option.splits bind_splits intro: worker_keeps_trans[OF keeps_deliver_to])
qed simp

lemma keeps_deliver_flows: "deliver_flows env sender paths reply m tr ch w = Some (ok, w') \<Longrightarrow> keeps w w'"
proof (induction paths arbitrary: w)
  case (Cons path paths)
  then show ?case using keeps_deliver_receivers by (fastforce split: bind_splits if_splits intro: worker_keeps_trans[OF keeps_deliver_receivers])
qed simp

lemma handleDeliver_runs:
  assumes "handleDeliver env sender delivers reply m tr ch w = Some (fs, w')"
  shows "keeps w w' \<and> frames_ok w' fs"
proof -
  obtain ok w1 where d: "deliver_flows env sender delivers reply m tr ch w = Some (ok, w1)" using assms by (auto simp: handleDeliver_def split: bind_splits)
  note k1 = keeps_deliver_flows[OF d]
  show ?thesis
  proof (cases ok)
    case False
    then show ?thesis using assms d k1 by (auto simp: handleDeliver_def)
  next
    case True
    then obtain req where req: "go_index (wk_msgs w1) m = Some req" using assms d by (auto simp: handleDeliver_def split: bind_splits)
    define w2 where "w2 = (case (delivers, reply) of
           ([], Some r) \<Rightarrow>
             (let (part, w') = getPart (cr_Part r) (pt_ID sender) (pt_Type sender) w1;
                  (m', w'') = new_msg (req\<lparr>ct_WorkflowID := wk_workflowID w1, ct_Part := part, ct_Parent := cr_Part r, ct_Message := VOther\<rparr>) w'
              in worker_spawn [DeliverInput sender (Some sender) m'] w'')
         | _ \<Rightarrow> w1)"
    have "keeps w1 w2"
    proof (cases "\<exists>r. delivers = [] \<and> reply = Some r")
      case True
      then obtain r where r: "delivers = []" "reply = Some r" by blast
      obtain part wa where p: "getPart (cr_Part r) (pt_ID sender) (pt_Type sender) w1 = (part, wa)" by (cases "getPart (cr_Part r) (pt_ID sender) (pt_Type sender) w1")
      obtain m' wb where n: "new_msg (req\<lparr>ct_WorkflowID := wk_workflowID w1, ct_Part := part, ct_Parent := cr_Part r, ct_Message := VOther\<rparr>) wa = (m', wb)"
        by (cases "new_msg (req\<lparr>ct_WorkflowID := wk_workflowID w1, ct_Part := part, ct_Parent := cr_Part r, ct_Message := VOther\<rparr>) wa")
      have "wk_msgs wa = wk_msgs w1" using p by (auto simp: getPart_def worker_nextCmdID_def Let_def split: if_splits option.splits)
      then have "keeps w1 wb" using worker_keeps_trans[OF keeps_getPart[OF p] keeps_new_msg[OF n]] go_index_ok[OF req] by (simp add: msg_ok_def)
      then have "keeps w1 (worker_spawn [DeliverInput sender (Some sender) m'] wb)" by (rule worker_keeps_trans) (auto intro: keeps_spawn_plain)
      then show ?thesis using r p n by (simp add: w2_def)
    qed (auto simp: w2_def split: list.splits option.splits)
    moreover have "w' = w2 \<and> frames_ok w' fs"
      using assms d True req unfolding w2_def[symmetric] handleDeliver_def Let_def by (auto simp: frames_ok_Cons w2_def Let_def split: option.splits list.splits prod.splits)
    ultimately show ?thesis using worker_keeps_trans[OF k1] by blast
  qed
qed

lemma numbered_set_msg:
  assumes "go_index (wk_msgs w) m = Some req" "worker_numbered req w = (req1, w1)"
  shows "keeps w (set_msg m req1 w1)" "list_all msg_ok (wk_msgs w) \<Longrightarrow> live (set_msg m req1 w1) m"
proof -
  have same: "wk_msgs w1 = wk_msgs w" using assms(2) by (auto simp: worker_numbered_def worker_nextCmdID_def Let_def split: if_splits)
  have m: "m < length (wk_msgs w)" "wk_msgs w ! m = req" using assms(1) by (auto simp: go_index_def split: if_splits)
  have at: "ct_Attempt req1 = (if ct_Attempt req = 0 then 1 else ct_Attempt req)" using assms(2) by (auto simp: worker_numbered_def Let_def split: prod.splits)
  have "ct_Attempt (wk_msgs w1 ! m) \<le> ct_Attempt req1" using at m(2) same by simp
  then show "keeps w (set_msg m req1 w1)"
    using worker_keeps_trans[OF keeps_numbered_id[OF assms(2)] keeps_set_msg] numbered_ok(1)[OF assms(2)] go_index_ok[OF assms(1)] same by simp
  show "live (set_msg m req1 w1) m" if "list_all msg_ok (wk_msgs w)"
    using numbered_ok(2)[OF assms(2) go_index_ok[OF assms(1) that]] m same by (simp add: live_def set_msg_def)
qed

lemma deliverInputTaskCmd_runs:
  assumes "deliverInputTaskCmd env sender receiver m w = Some (fs, w')" "list_all msg_ok (wk_msgs w)"
  shows "keeps w w' \<and> frames_ok w' fs"
proof -
  obtain req req1 w1 where r: "go_index (wk_msgs w) m = Some req" "worker_numbered req w = (req1, w1)"
    using assms(1) by (auto simp: deliverInputTaskCmd_def Let_def split: bind_splits prod.splits)
  note n = numbered_set_msg[OF r]
  show ?thesis
  proof (cases "pt_ID sender = pt_ID receiver \<and> pt_Name sender = pt_Name receiver \<and> pt_Type sender = pt_Type receiver")
    case True
    then have "fs = [] \<and> w' = set_msg m req1 w1" using assms(1) by (simp add: deliverInputTaskCmd_def r)
    then show ?thesis using n(1) by simp
  next
    case False
    obtain ok where d: "deliverAsync env receiver m (CbInput sender receiver m) (set_msg m req1 w1) = Some (ok, w')"
      and fs: "fs = (if ok then [] else [wrapDeliverErr sender receiver m no_cmdReply (Some ''publish'')])"
      using assms(1) unfolding deliverInputTaskCmd_def r(1) Option.bind.simps r(2) Let_def prod.case if_not_P[OF False] by (auto split: bind_splits)
    have "keeps w w' \<and> live w' m"
      using worker_keeps_trans[OF n(1) keeps_deliverAsync[OF d]] n(2)[OF assms(2)] keeps_live[OF keeps_deliverAsync[OF d]] by simp
    then show ?thesis by (auto simp: fs wrapDeliverErr_def frames_ok_Cons)
  qed
qed

lemma deliverRequestRunTaskSync_runs:
  assumes "deliverRequestRunTaskSync env sender receiver m reply tr ch w = Some (fs, w')" "list_all msg_ok (wk_msgs w)"
  shows "keeps w w' \<and> frames_ok w' fs"
proof -
  obtain req req1 w1 where r: "go_index (wk_msgs w) m = Some req" "worker_numbered req w = (req1, w1)"
    using assms(1) by (auto simp: deliverRequestRunTaskSync_def Let_def split: bind_splits prod.splits)
  note n = numbered_set_msg[OF r]
  obtain ok where d: "deliverAsync env receiver m (CbSync sender receiver m reply tr ch) (set_msg m req1 w1) = Some (ok, w')"
    and fs: "fs = (if ok then [] else [wrapDeliverErr sender receiver m no_cmdReply (Some ''publish'')])"
    using assms(1) r by (auto simp: deliverRequestRunTaskSync_def Let_def split: bind_splits)
  have "keeps w w' \<and> live w' m"
    using worker_keeps_trans[OF n(1) keeps_deliverAsync[OF d]] n(2)[OF assms(2)] keeps_live[OF keeps_deliverAsync[OF d]] by simp
  then show ?thesis by (auto simp: fs wrapDeliverErr_def frames_ok_Cons)
qed

lemma resume_template_runs:
  assumes "resume_template env sender m reply tr ch v w = Some (fs, w')"
  shows "keeps w w' \<and> frames_ok w' fs"
  using assms
  by (auto simp: resume_template_def Let_def frames_ok_Cons split: bind_splits option.splits intro!: keeps_same)

lemma keeps_endpoint_tasks:
  assumes "\<And>p. frame_msgs (frm p) = []" "\<And>p m. fires_of m [frm p] = 0"
  shows "endpoint_tasks frm ts receiver w = Some w' \<Longrightarrow> keeps w w'"
proof (induction ts arbitrary: receiver w)
  case (Cons a ts)
  obtain k t where a: "a = (k, t)" by (cases a)
  obtain r where r: "receiver = Some r" using Cons.prems a by (auto split: bind_splits)
  show ?case
  proof (cases "pt_ID r = tk_ID t")
    case True
    then obtain rc where "endpoint_tasks frm ts rc (spawn_all frm (tk_Clients t) w) = Some w'" using Cons.prems a r by auto
    then show ?thesis using Cons.IH worker_keeps_trans[OF keeps_spawn_all[of frm, OF assms]] by blast
  next
    case False
    then show ?thesis using Cons.IH Cons.prems a r by simp
  qed
qed simp

lemma keeps_deliver_endpoints: "deliver_endpoints sender m es w = Some w' \<Longrightarrow> keeps w w'"
proof (induction es arbitrary: w)
  case (Cons e es)
  obtain receiver w1 where r: "deliver_endpoints sender m es w1 = Some w'" and
    w1: "(if pt_Type receiver = TaskPoint then endpoint_tasks (\<lambda>p. DeliverInput sender p m) (wk_tasks w) (Some receiver) w
       else Some (worker_spawn [DeliverInput sender (Some receiver) m] w)) = Some w1"
    using Cons.prems by (auto simp: Option.bind_eq_Some_conv)
  have "keeps w w1" using w1 keeps_endpoint_tasks[of "\<lambda>p. DeliverInput sender p m" "wk_tasks w" "Some receiver" w w1]
    by (auto split: if_splits intro: keeps_spawn_plain)
  then show ?case using Cons.IH[OF r] worker_keeps_trans by blast
qed simp

lemma processBroker_runs:
  assumes "processBroker env b reply m input ch w0 = Some (fs, w')"
  shows "keeps w0 w' \<and> frames_ok w' fs"
proof -
  obtain bg w1 where g: "getBrokerGroup w0 = (bg, w1)" by (cases "getBrokerGroup w0")
  have k1: "keeps w0 w1" using g by (auto simp: getBrokerGroup_def worker_nextCmdID_def intro!: keeps_same)
  obtain req where req: "go_index (wk_msgs w1) m = Some req" using assms g by (auto simp: processBroker_def Let_def split: bind_splits)
  define req1 where "req1 = req\<lparr>ct_Task := Some \<lparr>tk_ID = cr_TaskID reply, tk_Name = cr_TaskName reply, tk_Executor = [], tk_Clients = [],
                tk_Metadata = fmempty, tk_Payload = [], tk_Input = [], tk_WorkflowID = cr_WorkflowID reply\<rparr>\<rparr>"
  define w where "w = set_msg m req1 w1"
  have "ct_Attempt (wk_msgs w1 ! m) \<le> ct_Attempt req1" "list_all msg_ok (wk_msgs w1) \<Longrightarrow> msg_ok req1"
    using req go_index_ok[OF req] by (auto simp: req1_def go_index_def msg_ok_def split: if_splits)
  then have k: "keeps w0 w" unfolding w_def using k1 worker_keeps_trans keeps_set_msg by blast
  have keep_rt: "keeps w0 (w\<lparr>wk_DynamicVars := d, wk_truns := t\<rparr>)" for d t
    using worker_keeps_trans[OF k keeps_same[of "w\<lparr>wk_DynamicVars := d, wk_truns := t\<rparr>" w]] by simp
  show ?thesis
  proof (cases "bk_Endpoints b = []")
    case False
    then have "\<exists>w2. deliver_endpoints \<lparr>pt_ID = bk_ID b, pt_Type = BrokerPoint, pt_Name = bk_Name b\<rparr> m (bk_Endpoints b) w = Some w2 \<and> w' = w2 \<and> fs = []"
      using assms g req by (auto simp: processBroker_def Let_def w_def req1_def split: bind_splits)
    then show ?thesis using keeps_deliver_endpoints worker_keeps_trans[OF k] by (metis frames_ok_Nil)
  next
    case True
    then have "(\<exists>d. fs = [] \<and> w' = w\<lparr>wk_DynamicVars := d\<rparr>) \<or> (\<exists>d t s dl tr. w' = w\<lparr>wk_DynamicVars := d, wk_truns := t\<rparr> \<and> fs = [HandleDeliver s dl (Some reply) m tr ch])"
      using assms g req by (auto simp: processBroker_def Let_def w_def req1_def split: bind_splits option.splits prod.splits if_splits)
    moreover have "keeps w0 (w\<lparr>wk_DynamicVars := d\<rparr>)" for d
      using worker_keeps_trans[OF k keeps_same[of "w\<lparr>wk_DynamicVars := d\<rparr>" w]] by simp
    ultimately show ?thesis using keep_rt by (auto simp: frames_ok_Cons)
  qed
qed

lemma compute_brokers_runs:
  assumes "compute_brokers env bs reply m ch w = Some (fs, w')"
  shows "keeps w w' \<and> frames_ok w' fs"
proof (cases bs)
  case Nil
  then show ?thesis using assms by simp
next
  case (Cons b bs')
  obtain part w1 where p: "getPart (cr_Part reply) (bk_ID b) BrokerPoint w = (part, w1)" by (cases "getPart (cr_Part reply) (bk_ID b) BrokerPoint w")
  note k = keeps_getPart[OF p]
  have "fs = [] \<and> (w' = w \<or> w' = w1) \<or> fs = [ComputeBrokers bs' reply m ch] \<and> w' = w \<or>
      (\<exists>r fs1. processBroker env b r m fmempty ch w1 = Some (fs1, w') \<and> fs = fs1 @ [ComputeBrokers bs' reply m ch])"
    using assms Cons p by (auto simp: Let_def split: bind_splits if_splits)
  then show ?thesis using k processBroker_runs worker_keeps_trans[OF k] by (fastforce simp: frames_ok_Cons)
qed

lemma computeMsg_runs:
  assumes "computeMsg reply m ch w = Some (fs, w')"
  shows "keeps w w' \<and> frames_ok w' fs"
proof -
  have set: "keeps w (set_msg m (req\<lparr>ct_Group := g\<rparr>) w)" if "go_index (wk_msgs w) m = Some req" for req g
    using that go_index_ok[OF that] by (intro keeps_set_msg) (auto simp: go_index_def msg_ok_def split: if_splits)
  show ?thesis using assms set by (auto simp: computeMsg_def Let_def frames_ok_Cons split: bind_splits if_splits)
qed

lemma receive_reply_runs:
  assumes "receive_reply r w = Some (fs, w')" "all_live w"
  shows "keeps w w' \<and> frames_ok w' fs"
proof -
  let ?r = "r\<lparr>cr_WorkflowID := wk_workflowID w\<rparr>"
  obtain m w1 where n: "new_msg (no_cmdTask\<lparr>ct_Cmd := InputTaskCmd, ct_WorkflowID := wk_workflowID w\<rparr>) w = (m, w1)"
    by (cases "new_msg (no_cmdTask\<lparr>ct_Cmd := InputTaskCmd, ct_WorkflowID := wk_workflowID w\<rparr>) w")
  have k1: "keeps w w1" using keeps_new_msg[OF n] by (simp add: msg_ok_def no_cmdTask_def)
  have k2: "keeps w (w1\<lparr>wk_responsesIDs := X\<rparr>)" for X using worker_keeps_trans[OF k1 keeps_same[of "w1\<lparr>wk_responsesIDs := X\<rparr>" w1]] by simp
  have "fs = [] \<and> (w' = w \<or> w' = w1) \<or> (\<exists>w2 r'. computeMsg r' m None w2 = Some (fs, w') \<and> keeps w w2) \<or>
      (fs = [RecvRemove ?r (fmlookup (wk_requests w) (cr_DeliverID r))] \<and> w' = w)"
    using assms(1) n k1 k2 by (auto simp: receive_reply_def Let_def split: if_splits)
  moreover have "frames_ok w [RecvRemove ?r (fmlookup (wk_requests w) (cr_DeliverID r))]"
    using assms(2) by (cases "fmlookup (wk_requests w) (cr_DeliverID r)") (auto simp: frames_ok_Cons all_live_def)
  ultimately show ?thesis using k1 computeMsg_runs worker_keeps_trans by (metis frames_ok_Nil worker_keeps_refl)
qed

lemma receive_sync_runs:
  assumes "receive_sync r ch w = Some (fs, w')"
  shows "keeps w w' \<and> frames_ok w' fs"
proof -
  obtain i w1 where i: "worker_nextCmdID w = (i, w1)" by (cases "worker_nextCmdID w")
  obtain m w2 where n: "new_msg (no_cmdTask\<lparr>ct_Cmd := InputTaskCmd, ct_DeliverID := i, ct_WorkflowID := wk_workflowID w\<rparr>) w1 = (m, w2)"
    by (cases "new_msg (no_cmdTask\<lparr>ct_Cmd := InputTaskCmd, ct_DeliverID := i, ct_WorkflowID := wk_workflowID w\<rparr>) w1")
  have k: "keeps w w2" using worker_keeps_trans[OF keeps_nextCmdID[OF i] keeps_new_msg[OF n]] by (simp add: msg_ok_def no_cmdTask_def)
  have "fs = [] \<and> w' = w \<or> (\<exists>fs1 r'. computeMsg r' m (Some ch) w2 = Some (fs1, w') \<and> fs = fs1 @ [RecvResult ch])"
    using assms i n by (auto simp: receive_sync_def Let_def split: if_splits bind_splits)
  then show ?thesis using k computeMsg_runs worker_keeps_trans[OF k] by (fastforce simp: frames_ok_Cons)
qed

section \<open>Every step\<close>

lemma exec_frame_runs:
  assumes "exec_frame env f w = Some (fs, w')" "wk_inv x w" "\<forall>m\<in>set (frame_msgs f). live w m" "\<forall>e. f \<noteq> RetryFire e"
  shows "keeps w w' \<and> frames_ok w' fs"
proof -
  have ok: "list_all msg_ok (wk_msgs w)" "all_live w" using assms(2) by (simp_all add: wk_inv_def)
  show ?thesis
  proof (cases f)
    case (TimerWait i)
    then show ?thesis using assms(1) ok(2) by (auto simp: frames_ok_Cons all_live_def split: if_splits option.splits)
  next
    case (CallBack cb r err)
    then show ?thesis using assms(1,3) call_worker_cb_ok by (auto split: bind_splits)
  next
    case (RecvRemove r cb)
    then show ?thesis using assms(1,3) keeps_removeRequest keeps_live[OF keeps_removeRequest]
      by (cases cb) (auto simp: frames_ok_Cons)
  next
    case (SetStatus st)
    then have "fs = []" "w' = w\<lparr>wk_status := st\<rparr>" using assms(1) by simp_all
    then show ?thesis using keeps_same[of w' w] by simp
  next
    case (RemoveRequest i)
    then show ?thesis using assms(1) keeps_removeRequest by auto
  qed (use assms(1,4) ok in \<open>auto split: bind_splits
      dest: receive_reply_runs pushAllCmdTask_runs deliverBrokers_runs deliverInputTaskCmd_runs deliverRequestRunTaskSync_runs
        resume_template_runs handleDeliver_runs compute_brokers_runs\<close>)
qed

lemma fires_of_concat: "fires_of m (concat ts) = sum_list (map (fires_of m) ts)"
  by (induction ts) auto

lemma fires_of_update:
  assumes "i < length ts"
  shows "fires_of m (concat (ts[i := fs])) + fires_of m (ts ! i) = fires_of m (concat ts) + fires_of m fs"
proof -
  have "fires_of m (ts ! i) \<le> sum_list (map (fires_of m) ts)"
    using elem_le_sum_list[of i "map (fires_of m) ts"] assms by simp
  then show ?thesis using assms by (simp add: fires_of_concat map_update sum_list_update)
qed

lemma set_thread_same:
  "wk_msgs (set_thread i fs w) = wk_msgs w" "wk_requests (set_thread i fs w) = wk_requests w" "wk_CBQueue (set_thread i fs w) = wk_CBQueue w"
  "wk_published (set_thread i fs w) = wk_published w" "wk_threads (set_thread i fs w) = (wk_threads w)[i := fs]"
  by (simp_all add: set_thread_def)

lemma live_set_thread [simp]: "live (set_thread i fs w) m = live w m"
  by (simp add: live_def set_thread_same)

lemma frames_live_set_thread [simp]: "frames_live (set_thread i fs w) gs = frames_live w gs"
  by (simp add: frames_live_def)

lemma set_thread_inv:
  assumes "wk_inv x w" "i < length (wk_threads w)" "frames_live w fs" "\<And>m. fires_of m fs + y m \<le> fires_of m (wk_threads w ! i) + x m"
  shows "wk_inv y (set_thread i fs w)"
proof -
  have "frames_live w (concat ((wk_threads w)[i := fs]))"
    using assms(1,3) set_update_subset_insert[of "wk_threads w" i fs] by (fastforce simp: wk_inv_def all_live_def frames_live_def)
  then have "all_live (set_thread i fs w)"
    using assms(1) by (simp add: wk_inv_def all_live_def frames_live_def set_thread_same)
  moreover have "retries m (set_thread i fs w) + fires_of m (concat ((wk_threads w)[i := fs])) + y m \<le> budget m (set_thread i fs w)" for m
  proof -
    have "retries m w + fires_of m (concat (wk_threads w)) + x m \<le> budget m w" using assms(1) by (simp add: wk_inv_def)
    moreover have "retries m (set_thread i fs w) = retries m w" "budget m (set_thread i fs w) = budget m w"
      by (simp_all add: retries_def budget_def set_thread_same)
    ultimately show ?thesis using fires_of_update[OF assms(2), of m fs] assms(4)[of m] by simp
  qed
  ultimately show ?thesis using assms(1) by (simp add: wk_inv_def set_thread_same)
qed

abbreviation wk_ok :: "'f worker \<Rightarrow> bool" where "wk_ok \<equiv> wk_inv (\<lambda>_. 0)"

lemma set_thread_ok:
  assumes "wk_ok w" "i < length (wk_threads w)" "frames_live w fs" "\<And>m. fires_of m fs \<le> fires_of m (wk_threads w ! i)"
  shows "wk_ok (set_thread i fs w)"
  using set_thread_inv[OF assms(1-3), of "\<lambda>_. 0"] assms(4) by simp

lemma top_Some:
  assumes "top_frame i w = Some (f, fs)"
  shows "i < length (wk_threads w)" "wk_threads w ! i = f # fs"
  using assms by (auto simp: top_frame_def go_index_def split: option.splits if_splits list.splits)

lemma top_live:
  assumes "top_frame i w = Some (f, fs)" "wk_inv x w"
  shows "frames_live w (f # fs)"
proof -
  have "f # fs \<in> set (wk_threads w)" using top_Some[OF assms(1)] nth_mem[of i "wk_threads w"] by simp
  then have "set (f # fs) \<subseteq> set (concat (wk_threads w))" unfolding set_concat by blast
  then show ?thesis using assms(2) unfolding wk_inv_def all_live_def frames_live_def by blast
qed

lemma frames_live_Cons: "frames_live w (f # fs) \<longleftrightarrow> (\<forall>m\<in>set (frame_msgs f). live w m) \<and> frames_live w fs"
  by (simp add: frames_live_def)

lemma fires_of_Cons: "fires_of m (f # fs) = fires_of m [f] + fires_of m fs"
  using fires_of_append[of m "[f]" fs] by simp

lemma run_inv:
  assumes "worker_step env (Run i) w = Some w'" "wk_ok w"
  shows "wk_ok w'"
proof -
  obtain f fs fs1 w1 where t: "top_frame i w = Some (f, fs)" and e: "exec_frame env f (set_thread i fs w) = Some (fs1, w1)" and w': "w' = set_thread i (fs1 @ fs) w1"
    using assms(1) by (auto simp: Option.bind_eq_Some_conv)
  let ?w = "set_thread i fs w"
  note i = top_Some[OF t] and l = top_live[OF t assms(2)]
  have inv: "wk_inv (\<lambda>m. fires_of m [f]) ?w"
    using set_thread_inv[OF assms(2) i(1), of fs "\<lambda>m. fires_of m [f]"] l fires_of_Cons[of _ f fs] i(2) by (simp add: frames_live_Cons)
  have th: "wk_threads ?w ! i = fs" "i < length (wk_threads ?w)" using i by (simp_all add: set_thread_same)
  have "wk_ok w1 \<and> grows ?w w1 \<and> frames_ok w1 fs1"
  proof (cases "\<exists>e. f = RetryFire e")
    case True
    then obtain de where f: "f = RetryFire de" by blast
    obtain ok where d: "deliverAsync env (de_Receiver de) (de_Msg de) (CbRetryLater de) ?w = Some (ok, w1)" "fs1 = []"
      using e f by (auto split: bind_splits)
    have "wk_inv ((\<lambda>m. fires_of m [f])(de_Msg de := fires_of (de_Msg de) [f] - 1)) w1"
      using deliverAsync_inv[OF d(1) _ inv] l f by (simp add: frames_live_def fires_of_def)
    moreover have "(\<lambda>m. fires_of m [f])(de_Msg de := fires_of (de_Msg de) [f] - 1) = (\<lambda>_. 0)" by (auto simp: f fires_of_def)
    ultimately show ?thesis using d deliverAsync_grows[OF d(1)] by simp
  next
    case False
    have "wk_ok ?w" using inv unfolding wk_inv_def by (metis add.right_neutral add_leD1)
    then show ?thesis using exec_frame_runs[OF e inv] False l by (auto simp: frames_live_def keeps_def)
  qed
  then obtain new where ok: "wk_ok w1" "frames_ok w1 fs1" "grows ?w w1" and th1: "wk_threads w1 = wk_threads ?w @ new" by (auto simp: grows_def)
  have "frames_live w1 fs" using grows_live[OF ok(3), of fs] l by (simp add: frames_live_Cons)
  then show ?thesis unfolding w' using ok th th1 by (intro set_thread_ok) (auto simp: frames_ok_def frames_live_def nth_append)
qed

lemma meet_cases:
  assumes "worker_step env (Meet i j) w = Some w'"
  shows "\<exists>f fs g gs. top_frame i w = Some (f, fs) \<and> top_frame j w = Some (g, gs) \<and> i \<noteq> j \<and>
    ((\<exists>e. f = SendErr e \<and> w' = set_thread i fs (w\<lparr>wk_CBQueue := wk_CBQueue w @ [e]\<rparr>)) \<or>
     (\<exists>ev fs1 w1. f = SendEvent ev \<and> g = EventLoop \<and> handle_event ev w = (fs1, w1) \<and> w' = set_thread i fs (set_thread j (fs1 @ gs) w1)) \<or>
     w' = set_thread i fs (set_thread j gs w))"
proof (cases "top_frame i w")
  case None
  then show ?thesis using assms by (simp split: if_splits)
next
  case (Some a)
  then obtain f fs where f: "top_frame i w = Some (f, fs)" by (cases a) auto
  show ?thesis
  proof (cases "top_frame j w")
    case None
    then show ?thesis using assms f by (cases f) (simp_all split: if_splits)
  next
    case (Some b)
    then obtain g gs where g: "top_frame j w = Some (g, gs)" by (cases b) auto
    have ij: "i \<noteq> j" using assms by auto
    show ?thesis
    proof (cases f)
      case (SendErr e)
      then show ?thesis using assms f g ij by (cases g) simp_all
    next
      case (SendEvent ev)
      then show ?thesis using assms f g ij by (cases g) (auto split: prod.splits)
    next
      case (SendResult c v)
      then show ?thesis using assms f g ij by (cases g) (auto split: if_splits)
    qed (use assms f ij in simp_all)
  qed
qed

lemma meet_inv:
  assumes "worker_step env (Meet i j) w = Some w'" "wk_ok w"
  shows "wk_ok w'"
proof -
  obtain f fs g gs where t: "top_frame i w = Some (f, fs)" "top_frame j w = Some (g, gs)" and ij: "i \<noteq> j" and
    c: "(\<exists>e. f = SendErr e \<and> w' = set_thread i fs (w\<lparr>wk_CBQueue := wk_CBQueue w @ [e]\<rparr>)) \<or>
     (\<exists>ev fs1 w1. f = SendEvent ev \<and> g = EventLoop \<and> handle_event ev w = (fs1, w1) \<and> w' = set_thread i fs (set_thread j (fs1 @ gs) w1)) \<or>
     w' = set_thread i fs (set_thread j gs w)"
    using meet_cases[OF assms(1)] by blast
  note i = top_Some[OF t(1)] and j = top_Some[OF t(2)] and li = top_live[OF t(1) assms(2)] and lj = top_live[OF t(2) assms(2)]
  consider (err) e where "f = SendErr e" "w' = set_thread i fs (w\<lparr>wk_CBQueue := wk_CBQueue w @ [e]\<rparr>)"
    | (event) ev fs1 w1 where "f = SendEvent ev" "g = EventLoop" "handle_event ev w = (fs1, w1)" "w' = set_thread i fs (set_thread j (fs1 @ gs) w1)"
    | (result) "w' = set_thread i fs (set_thread j gs w)"
    using c by blast
  then show ?thesis
  proof cases
    case err
    let ?w1 = "w\<lparr>wk_CBQueue := wk_CBQueue w @ [e]\<rparr>"
    have "budget m ?w1 = budget m w" "retries m ?w1 = retries m w" for m by (simp_all add: budget_def retries_def)
    moreover have "all_live ?w1" using assms(2) li err(1) by (auto simp: wk_inv_def all_live_def frames_live_def live_def)
    ultimately have "wk_ok ?w1" using assms(2) unfolding wk_inv_def by simp
    then show ?thesis unfolding err(2) using i li by (intro set_thread_ok) (auto simp: frames_live_def live_def fires_of_Cons[of _ f fs])
  next
    case event
    obtain new where ok: "wk_ok w1" "frames_ok w1 fs1" "grows w w1" and th1: "wk_threads w1 = wk_threads w @ new"
      using handle_event_runs[OF event(3)] assms(2) by (auto simp: keeps_def grows_def)
    have l: "frames_live w1 fs" "frames_live w1 gs" using grows_live[OF ok(3)] li lj by (simp_all add: frames_live_Cons)
    have o1: "wk_ok (set_thread j (fs1 @ gs) w1)"
      using ok l j th1 by (intro set_thread_ok) (auto simp: frames_ok_def frames_live_def nth_append fires_of_Cons[of _ g gs])
    show ?thesis unfolding event(4)
      by (rule set_thread_ok[OF o1]) (use l i th1 ij in \<open>auto simp: set_thread_same frames_live_def nth_append fires_of_Cons[of _ f fs]\<close>)
  next
    case result
    have o1: "wk_ok (set_thread j gs w)" using assms(2) lj j by (intro set_thread_ok) (auto simp: frames_live_def fires_of_Cons[of _ g gs])
    show ?thesis unfolding result by (rule set_thread_ok[OF o1]) (use li i ij in \<open>auto simp: set_thread_same frames_live_def fires_of_Cons[of _ f fs]\<close>)
  qed
qed

lemma worker_step_ok:
  assumes "worker_step env a w = Some w'" "wk_ok w"
  shows "wk_ok w'"
proof (cases a)
  case (Run i)
  then show ?thesis using run_inv assms by blast
next
  case (Meet i j)
  then show ?thesis using meet_inv assms by blast
next
  case DispatchRetry
  then obtain e q where q: "wk_CBQueue w = e # q" and r: "retryDeliver env e (w\<lparr>wk_CBQueue := q\<rparr>) = Some w'" using assms(1) by (auto split: list.splits)
  let ?w = "w\<lparr>wk_CBQueue := q\<rparr>"
  have "budget m ?w = budget m w" "retries m ?w = retries m w" for m by (simp_all add: budget_def retries_def)
  moreover have "all_live ?w" "live ?w (de_Msg e)" using assms(2) q by (auto simp: wk_inv_def all_live_def frames_live_def live_def)
  ultimately have "wk_ok ?w" using assms(2) unfolding wk_inv_def by simp
  then show ?thesis using retryDeliver_inv[OF r] \<open>live ?w (de_Msg e)\<close> by blast
next
  case (Arrive i r)
  then obtain fs where t: "top_frame i w = Some (Nats, fs)" and w': "w' = set_thread i (RecvReply r # Nats # fs) w"
    using assms(1) by (auto split: option.splits prod.splits worker_frame.splits)
  show ?thesis unfolding w' using assms(2) top_Some[OF t] top_live[OF t assms(2)]
    by (intro set_thread_ok) (auto simp: frames_live_def fires_of_Cons[of _ "RecvReply r"] fires_of_def)
next
  case (ArriveSync i r ch)
  then obtain fs where t: "top_frame i w = Some (Nats, fs)"
    using assms(1) by (cases "top_frame i w") (auto split: worker_frame.splits)
  then obtain fs1 w1 where r: "receive_sync r ch w = Some (fs1, w1)" and w': "w' = set_thread i (fs1 @ Nats # fs) w1"
    using assms(1) ArriveSync by (auto split: bind_splits)
  obtain new where ok: "wk_ok w1" "frames_ok w1 fs1" "grows w w1" and th: "wk_threads w1 = wk_threads w @ new"
    using receive_sync_runs[OF r] assms(2) by (auto simp: keeps_def grows_def)
  have "frames_live w1 (Nats # fs)" using grows_live[OF ok(3)] top_live[OF t assms(2)] by blast
  then show ?thesis unfolding w' using ok top_Some[OF t] th
    by (intro set_thread_ok) (auto simp: frames_ok_def frames_live_def nth_append)
next
  case CloseWorker
  have "keeps w (w\<lparr>wk_closed := True\<rparr>)" by (rule keeps_same) simp_all
  then show ?thesis using assms CloseWorker by (simp add: keeps_def)
qed

lemma started_ok: "wk_ok (started wid now tasks brokers templates channels clients)"
  by (simp add: started_def setPoints_def Let_def wk_inv_def all_live_def frames_live_def retries_def fires_of_def)

lemma worker_reachable_ok: "worker_reachable w0 w \<Longrightarrow> wk_ok w0 \<Longrightarrow> wk_ok w"
  by (induction rule: worker_reachable.induct) (auto intro: worker_step_ok)

end
