(* ===== verification/Worker_Props.thy ===== *)
theory Worker_Props
  imports Worker_Run
begin

text \<open>
  Properties of the worker: retries are bounded, and the tasks are started when the set-up is complete; with
  runs that show where deliveries get lost or stuck.
\<close>

section \<open>Retries\<close>

text \<open>C34. In every run of a worker, whatever the order in which replies, timeouts, retries and database errors
  come, a command is published again at most three times after its first delivery, and its attempt counter stays
  between zero and four.\<close>

theorem retries_bounded:
  assumes "worker_reachable (started wid now tasks brokers templates channels clients) w"
  shows "length (filter (\<lambda>(m', retry, _). m' = m \<and> retry) (wk_published w)) \<le> 3 \<and>
    (m < length (wk_msgs w) \<longrightarrow> 0 \<le> ct_Attempt (wk_msgs w ! m) \<and> ct_Attempt (wk_msgs w ! m) \<le> 4)"
proof -
  have ok: "wk_ok w" using worker_reachable_ok[OF assms started_ok] .
  then have msg: "m < length (wk_msgs w) \<Longrightarrow> msg_ok (wk_msgs w ! m)" by (simp add: wk_inv_def list_all_length)
  have "retries m w \<le> budget m w" using ok unfolding wk_inv_def by (metis add_leD1)
  also have "\<dots> \<le> 3" using msg by (auto simp: budget_def msg_ok_def)
  finally show ?thesis using msg by (auto simp: retries_def msg_ok_def)
qed

section \<open>Concrete runs\<close>

definition demo_env :: "unit wk_env" where
  "demo_env = \<lparr>we_now = 0, we_publish = True, we_json = True, we_record = NoRows, we_logID = 5, we_SetWfRecovered = True, we_UpdateAttempt = True,
     we_timeout = True, we_queue = None, we_eval = (\<lambda>_. demo_eval), we_order = (\<lambda>_. []), we_answer = (\<lambda>_. VOther), we_text = (\<lambda>_. [])\<rparr>"

definition demo_task :: "string \<Rightarrow> string list \<Rightarrow> task" where
  "demo_task executor cs = \<lparr>tk_ID = 1, tk_Name = ''t'', tk_Executor = executor, tk_Clients = cs,
     tk_Metadata = fmap_of_list [(''c'', ''7''), (''d'', ''8'')], tk_Payload = [], tk_Input = [], tk_WorkflowID = 9\<rparr>"

definition demo_worker :: "task \<Rightarrow> (string \<times> wf_broker) list \<Rightarrow> (int, unit template) fmap \<Rightarrow> unit worker" where
  "demo_worker t brokers templates = started 9 100 [(''t'', t)] brokers templates [(4, ''ch'')] [(7, ''c''), (8, ''d'')]"

definition demo_steps :: "unit worker_action list \<Rightarrow> unit worker \<Rightarrow> unit worker option" where
  "demo_steps as w = worker_run (map (\<lambda>a. (demo_env, a)) as) w"

text \<open>One timeout after another: the timer fires, the error goes to the retry loop, the goroutine of the delivery ends,
  and the queued closure delivers again, from the second time on after a delay.\<close>

definition timeout_steps :: "nat \<Rightarrow> unit worker_action list" where
  "timeout_steps i = [Run i, Run i, Meet i 1, Run i, DispatchRetry]"

definition retry_script :: "unit worker_action list" where
  "retry_script = [Run 5, Run 5] @ timeout_steps 6 @ timeout_steps 7 @ [Run 8] @ timeout_steps 9 @ [Run 10] @ timeout_steps 11"

definition retry_end :: "unit worker" where
  "retry_end = the (demo_steps retry_script (demo_worker (demo_task ''http'' [''c'']) [] fmempty))"

lemma demo_reachable:
  assumes "demo_steps as (demo_worker t brokers templates) = Some w"
  shows "worker_reachable (started 9 100 [(''t'', t)] brokers templates [(4, ''ch'')] [(7, ''c''), (8, ''d'')]) w"
  using worker_run_reachable[OF assms[unfolded demo_steps_def] worker_reachable.start] by (simp add: demo_worker_def)

lemma retry_script_runs: "demo_steps retry_script (demo_worker (demo_task ''http'' [''c'']) [] fmempty) \<noteq> None"
  by code_simp

lemma retry_end_counts: "length (filter (\<lambda>(m', retry, _). m' = 0 \<and> retry) (wk_published retry_end)) = 3" "length (wk_msgs retry_end) = 1"
  by code_simp+

lemma retry_end_reachable:
  "worker_reachable (started 9 100 [(''t'', demo_task ''http'' [''c''])] [] fmempty [(4, ''ch'')] [(7, ''c''), (8, ''d'')]) retry_end"
  using demo_reachable[of retry_script "demo_task ''http'' [''c'']" "[]" fmempty retry_end] retry_script_runs unfolding retry_end_def by force

theorem retries_bounded_witness:
  "worker_reachable (started 9 100 [(''t'', demo_task ''http'' [''c''])] [] fmempty [(4, ''ch'')] [(7, ''c''), (8, ''d'')]) retry_end \<and>
   length (filter (\<lambda>(m', retry, _). m' = 0 \<and> retry) (wk_published retry_end)) = 3 \<and> ct_Attempt (wk_msgs retry_end ! 0) \<le> 4"
  using retries_bounded[OF retry_end_reachable, of 0] retry_end_reachable retry_end_counts by simp

section \<open>When a workflow is set up\<close>

text \<open>The history of a set-up: what is registered before it is delivered, and what the clients answer.\<close>

datatype setup_event = RegisterTask int string | AnswerTask int string int | RegisterBroker int string | AnswerBroker int string int

fun setup_apply :: "setup_event \<Rightarrow> 'f worker \<Rightarrow> 'f worker" where
  "setup_apply (RegisterTask i c) = updateStatusDeliverTask i \<lparr>dl_client = c, dl_status = PendingDeliver\<rparr>"
| "setup_apply (AnswerTask i runOn st) = updateStatusDeliverTask i \<lparr>dl_client = runOn, dl_status = st\<rparr>"
| "setup_apply (RegisterBroker i c) = updateStatusDeliverBroker i \<lparr>dl_client = c, dl_status = PendingDeliver\<rparr>"
| "setup_apply (AnswerBroker i runOn st) = updateStatusDeliverBroker i \<lparr>dl_client = runOn, dl_status = st\<rparr>"

definition setup_run :: "setup_event list \<Rightarrow> 'f worker \<Rightarrow> 'f worker" where
  "setup_run h w = fold setup_apply h w"

text \<open>Every registration is new and for a client with an ordinary name, and every answer comes from a registered client.\<close>

fun history_ok :: "setup_event list \<Rightarrow> bool" where
  "history_ok [] = True"
| "history_ok (RegisterTask i c # past) \<longleftrightarrow> history_ok past \<and> c \<noteq> ''kairos'' \<and> \<not> HasSuffix c SubClient \<and> RegisterTask i c \<notin> set past"
| "history_ok (RegisterBroker i c # past) \<longleftrightarrow> history_ok past \<and> \<not> HasSuffix c SubClient \<and> RegisterBroker i c \<notin> set past"
| "history_ok (AnswerTask i r st # past) \<longleftrightarrow> history_ok past \<and> list_ex (\<lambda>e. case e of RegisterTask j c \<Rightarrow> j = i \<and> r = c @ SubClient | _ \<Rightarrow> False) past"
| "history_ok (AnswerBroker i r st # past) \<longleftrightarrow> history_ok past \<and> list_ex (\<lambda>e. case e of RegisterBroker j c \<Rightarrow> j = i \<and> r = c @ SubClient | _ \<Rightarrow> False) past"

text \<open>One register: pending entries for what is registered and not yet answered, and one entry per answer.\<close>

definition register_spec ::
  "(int \<Rightarrow> string \<Rightarrow> bool) \<Rightarrow> (int \<Rightarrow> string \<Rightarrow> int \<Rightarrow> bool) \<Rightarrow> (int, taskDeliver list) fmap \<Rightarrow> bool" where
  "register_spec reg ans m \<longleftrightarrow>
     (\<forall>i. set (case fmlookup m i of None \<Rightarrow> [] | Some v \<Rightarrow> v) =
        {\<lparr>dl_client = c, dl_status = PendingDeliver\<rparr> | c. reg i c \<and> (\<forall>st. \<not> ans i (c @ SubClient) st)} \<union>
        {\<lparr>dl_client = r, dl_status = st\<rparr> | r st. ans i r st})"

lemma update_deliver_set:
  "set (case fmlookup (update_deliver fits i d m) j of None \<Rightarrow> [] | Some v \<Rightarrow> v) =
     (let old = set (case fmlookup m j of None \<Rightarrow> [] | Some v \<Rightarrow> v) in if j = i then insert d {e \<in> old. \<not> fits e} else old)"
  by (auto simp: update_deliver_def list_ex_iff Let_def split: option.splits)

lemma register_spec_register:
  assumes "register_spec reg ans m" "\<not> HasSuffix c SubClient" "\<And>e. fits e \<longleftrightarrow> dl_client e @ SubClient = c \<or> odd_client e"
    "\<And>j r st. ans j r st \<Longrightarrow> \<not> odd_client \<lparr>dl_client = r, dl_status = st\<rparr>" "\<And>j c. reg j c \<Longrightarrow> \<not> odd_client \<lparr>dl_client = c, dl_status = PendingDeliver\<rparr>"
    "\<And>st. \<not> ans i (c @ SubClient) st"
  shows "register_spec (\<lambda>j b. reg j b \<or> j = i \<and> b = c) ans (update_deliver fits i \<lparr>dl_client = c, dl_status = PendingDeliver\<rparr> m)"
proof -
  have nf: "dl_client e @ SubClient \<noteq> c" for e using assms(2) by (auto simp: HasSuffix_append)
  show ?thesis using assms unfolding register_spec_def update_deliver_set Let_def by (auto simp: nf)
qed

lemma register_spec_answer:
  assumes "register_spec reg ans m" "reg i c" "r = c @ SubClient" "\<And>e. fits e \<longleftrightarrow> dl_client e @ SubClient = r \<or> odd_client e"
    "\<And>j r st. ans j r st \<Longrightarrow> \<not> odd_client \<lparr>dl_client = r, dl_status = st\<rparr>" "\<And>j c. reg j c \<Longrightarrow> \<not> odd_client \<lparr>dl_client = c, dl_status = PendingDeliver\<rparr>"
    "\<And>j c. reg j c \<Longrightarrow> \<not> HasSuffix c SubClient" "\<And>j r st. ans j r st \<Longrightarrow> HasSuffix r SubClient"
  shows "register_spec reg (\<lambda>j r' st'. ans j r' st' \<or> j = i \<and> r' = r \<and> st' = st) (update_deliver fits i \<lparr>dl_client = r, dl_status = st\<rparr> m)"
proof -
  have fits: "fits e \<longleftrightarrow> dl_client e = c \<or> odd_client e" for e using assms(3,4) by auto
  have c: "\<not> ans j c s" for j s using assms(2,7,8) by blast
  show ?thesis using assms(1,2,5,6) c unfolding register_spec_def update_deliver_set Let_def
    by (auto simp: fits assms(3))
qed

lemma all_status_spec:
  assumes "register_spec reg ans m" "st \<noteq> PendingDeliver"
  shows "all_status st m \<longleftrightarrow> (\<forall>i c. reg i c \<longrightarrow> (\<exists>s. ans i (c @ SubClient) s)) \<and> (\<forall>i r s. ans i r s \<longrightarrow> s = st)"
proof -
  have "all_status st m \<longleftrightarrow> (\<forall>i. \<forall>e\<in>set (case fmlookup m i of None \<Rightarrow> [] | Some v \<Rightarrow> v). dl_status e = st)"
    (is "?L \<longleftrightarrow> (\<forall>i. ?R i)")
  proof
    assume l: ?L
    show "\<forall>i. ?R i"
    proof
      fix i show "?R i" using l fmdomI[of m i] by (cases "fmlookup m i") (auto simp: all_status_def list_all_iff)
    qed
  next
    assume r: "\<forall>i. ?R i"
    have "list_all (\<lambda>e. dl_status e = st) (the (fmlookup m k))" if "k |\<in>| fmdom m" for k
      using spec[OF r, of k] that by (cases "fmlookup m k") (auto simp: list_all_iff fmlookup_dom_iff)
    then show ?L by (auto simp: all_status_def)
  qed
  moreover have "?R i \<longleftrightarrow> (\<forall>c. reg i c \<longrightarrow> (\<exists>s. ans i (c @ SubClient) s)) \<and> (\<forall>r s. ans i r s \<longrightarrow> s = st)" for i
  proof -
    have "(\<forall>e\<in>{\<lparr>dl_client = c, dl_status = PendingDeliver\<rparr> | c. P c}. dl_status e = st) \<longleftrightarrow> (\<forall>c. \<not> P c)" for P
      using assms(2) by auto
    moreover have "(\<forall>e\<in>{\<lparr>dl_client = r, dl_status = s\<rparr> | r s. Q r s}. dl_status e = st) \<longleftrightarrow> (\<forall>r s. Q r s \<longrightarrow> s = st)" for Q
      by (safe; fastforce)
    ultimately show ?thesis unfolding assms(1)[unfolded register_spec_def, rule_format] ball_Un by simp
  qed
  ultimately show ?thesis by blast
qed

lemma registered_before:
  "list_ex (\<lambda>e. case e of RegisterTask j c \<Rightarrow> j = i \<and> r = c @ SubClient | _ \<Rightarrow> False) past \<longleftrightarrow> (\<exists>c. RegisterTask i c \<in> set past \<and> r = c @ SubClient)"
  "list_ex (\<lambda>e. case e of RegisterBroker j c \<Rightarrow> j = i \<and> r = c @ SubClient | _ \<Rightarrow> False) past \<longleftrightarrow> (\<exists>c. RegisterBroker i c \<in> set past \<and> r = c @ SubClient)"
  by (induction past) (auto split: setup_event.splits)

lemma setup_register:
  assumes "history_ok p" "wk_taskDelivers w = fmempty" "wk_brokerDelivers w = fmempty"
  shows "register_spec (\<lambda>i c. RegisterTask i c \<in> set p) (\<lambda>i r st. AnswerTask i r st \<in> set p) (wk_taskDelivers (foldr setup_apply p w)) \<and>
    register_spec (\<lambda>i c. RegisterBroker i c \<in> set p) (\<lambda>i r st. AnswerBroker i r st \<in> set p) (wk_brokerDelivers (foldr setup_apply p w))"
  (is "?T p \<and> ?B p")
proof -
  have plain: "history_ok p \<Longrightarrow> RegisterTask i c \<in> set p \<Longrightarrow> c \<noteq> ''kairos'' \<and> \<not> HasSuffix c SubClient"
    "history_ok p \<Longrightarrow> RegisterBroker i c \<in> set p \<Longrightarrow> \<not> HasSuffix c SubClient"
    "history_ok p \<Longrightarrow> AnswerTask i r st \<in> set p \<Longrightarrow> \<exists>c. RegisterTask i c \<in> set p \<and> r = c @ SubClient"
    "history_ok p \<Longrightarrow> AnswerBroker i r st \<in> set p \<Longrightarrow> \<exists>c. RegisterBroker i c \<in> set p \<and> r = c @ SubClient" for p i c r st
    by (induction p rule: history_ok.induct) (auto simp: registered_before)
  have not_kairos: "c @ SubClient \<noteq> ''kairos''" for c by (cases "length c") auto
  show ?thesis using assms(1)
  proof (induction p rule: history_ok.induct)
    case 1
    then show ?case using assms(2,3) by (simp add: register_spec_def)
  next
    case (2 i c past)
    then have ok: "history_ok past" by simp
    have a: "r \<noteq> ''kairos''" if "AnswerTask j r st \<in> set past" for j r st using plain(3)[OF ok that] not_kairos by metis
    have n: "AnswerTask i (c @ SubClient) st \<notin> set past" for st using plain(3)[OF ok, of i "c @ SubClient" st] 2(2) by auto
    have "register_spec (\<lambda>j b. RegisterTask j b \<in> set past \<or> j = i \<and> b = c) (\<lambda>i r st. AnswerTask i r st \<in> set past)
        (wk_taskDelivers (foldr setup_apply (RegisterTask i c # past) w))"
      using 2 plain(1)[OF ok] a n
      by (auto simp: updateStatusDeliverTask_def intro!: register_spec_register[where odd_client = "\<lambda>e. dl_client e = ''kairos''"])
    then show ?case using 2 by (simp add: updateStatusDeliverTask_def disj_commute)
  next
    case (3 i c past)
    then have ok: "history_ok past" by simp
    have n: "AnswerBroker i (c @ SubClient) st \<notin> set past" for st using plain(4)[OF ok, of i "c @ SubClient" st] 3(2) by auto
    have "register_spec (\<lambda>j b. RegisterBroker j b \<in> set past \<or> j = i \<and> b = c) (\<lambda>i r st. AnswerBroker i r st \<in> set past)
        (wk_brokerDelivers (foldr setup_apply (RegisterBroker i c # past) w))"
      using 3 n
      by (auto simp: updateStatusDeliverBroker_def intro!: register_spec_register[where odd_client = "\<lambda>e. False"])
    then show ?case using 3 by (simp add: updateStatusDeliverBroker_def disj_commute)
  next
    case (4 i r st past)
    then have ok: "history_ok past" by simp
    obtain c where c: "RegisterTask i c \<in> set past" "r = c @ SubClient" using 4(2) by (auto simp: registered_before)
    have a: "r \<noteq> ''kairos'' \<and> HasSuffix r SubClient" if "AnswerTask j r st \<in> set past" for j r st
      using plain(3)[OF ok that] not_kairos HasSuffix_append by metis
    have "register_spec (\<lambda>i c. RegisterTask i c \<in> set past) (\<lambda>j r' st'. AnswerTask j r' st' \<in> set past \<or> j = i \<and> r' = r \<and> st' = st)
        (wk_taskDelivers (foldr setup_apply (AnswerTask i r st # past) w))"
      using 4 c plain(1)[OF ok] a
      by (auto simp: updateStatusDeliverTask_def intro!: register_spec_answer[where odd_client = "\<lambda>e. dl_client e = ''kairos''" and c = c])
    then show ?case using 4 by (simp add: updateStatusDeliverTask_def disj_commute)
  next
    case (5 i r st past)
    then have ok: "history_ok past" by simp
    obtain c where c: "RegisterBroker i c \<in> set past" "r = c @ SubClient" using 5(2) by (auto simp: registered_before)
    have a: "HasSuffix r SubClient" if "AnswerBroker j r st \<in> set past" for j r st using plain(4)[OF ok that] HasSuffix_append by metis
    have "register_spec (\<lambda>i c. RegisterBroker i c \<in> set past) (\<lambda>j r' st'. AnswerBroker j r' st' \<in> set past \<or> j = i \<and> r' = r \<and> st' = st)
        (wk_brokerDelivers (foldr setup_apply (AnswerBroker i r st # past) w))"
      using 5 c plain(2)[OF ok] a
      by (auto simp: updateStatusDeliverBroker_def intro!: register_spec_answer[where odd_client = "\<lambda>e. False" and c = c])
    then show ?case using 5 by (simp add: updateStatusDeliverBroker_def disj_commute)
  qed
qed

text \<open>The set-up is complete when every registered client has answered and every answer is a success.\<close>

definition setup_complete :: "setup_event list \<Rightarrow> bool" where
  "setup_complete h \<longleftrightarrow> list_all (\<lambda>e. case e of
       RegisterTask i c \<Rightarrow> list_ex (\<lambda>a. case a of AnswerTask j r _ \<Rightarrow> j = i \<and> r = c @ SubClient | _ \<Rightarrow> False) h
     | RegisterBroker i c \<Rightarrow> list_ex (\<lambda>a. case a of AnswerBroker j r _ \<Rightarrow> j = i \<and> r = c @ SubClient | _ \<Rightarrow> False) h
     | AnswerTask _ _ st \<Rightarrow> st = SuccessSetTask
     | AnswerBroker _ _ st \<Rightarrow> st = SuccessSetBroker) h"

fun answer_of :: "'f worker_event \<Rightarrow> setup_event" where
  "answer_of (ReceiveDeliverTask r) = AnswerTask (cr_TaskID r) (cr_RunOn r) (cr_Status r)"
| "answer_of (ReceiveDeliverBroker r) = AnswerBroker (cr_BrokerID r) (cr_RunOn r) (cr_Status r)"

lemma answered:
  "list_ex (\<lambda>a. case a of AnswerTask j r _ \<Rightarrow> j = i \<and> r = n | _ \<Rightarrow> False) h \<longleftrightarrow> (\<exists>st. AnswerTask i n st \<in> set h)"
  "list_ex (\<lambda>a. case a of AnswerBroker j r _ \<Rightarrow> j = i \<and> r = n | _ \<Rightarrow> False) h \<longleftrightarrow> (\<exists>st. AnswerBroker i n st \<in> set h)"
  by (induction h) (auto split: setup_event.splits)

lemma setup_complete_set:
  "setup_complete h \<longleftrightarrow>
     (\<forall>i c. RegisterTask i c \<in> set h \<longrightarrow> (\<exists>st. AnswerTask i (c @ SubClient) st \<in> set h)) \<and>
     (\<forall>i r st. AnswerTask i r st \<in> set h \<longrightarrow> st = SuccessSetTask) \<and>
     (\<forall>i c. RegisterBroker i c \<in> set h \<longrightarrow> (\<exists>st. AnswerBroker i (c @ SubClient) st \<in> set h)) \<and>
     (\<forall>i r st. AnswerBroker i r st \<in> set h \<longrightarrow> st = SuccessSetBroker)"
  (is "_ \<longleftrightarrow> ?R")
proof
  assume c: "setup_complete h"
  have "e \<in> set h \<Longrightarrow> case e of
       RegisterTask i c \<Rightarrow> \<exists>st. AnswerTask i (c @ SubClient) st \<in> set h
     | RegisterBroker i c \<Rightarrow> \<exists>st. AnswerBroker i (c @ SubClient) st \<in> set h
     | AnswerTask _ _ st \<Rightarrow> st = SuccessSetTask
     | AnswerBroker _ _ st \<Rightarrow> st = SuccessSetBroker" for e
    using c unfolding setup_complete_def list_all_iff answered by blast
  from this[of "RegisterTask _ _"] this[of "AnswerTask _ _ _"] this[of "RegisterBroker _ _"] this[of "AnswerBroker _ _ _"]
  show ?R by simp
next
  assume ?R
  then show "setup_complete h" unfolding setup_complete_def list_all_iff answered by (auto split: setup_event.split)
qed

lemma allDelivered_setup_run:
  assumes "history_ok (rev h)" "wk_taskDelivers w = fmempty" "wk_brokerDelivers w = fmempty"
  shows "allDelivered (setup_run h w) \<longleftrightarrow> setup_complete h"
proof -
  have "setup_run h w = foldr setup_apply (rev h) w" by (simp add: setup_run_def foldr_conv_fold)
  moreover note spec = setup_register[OF assms, unfolded set_rev]
  ultimately show ?thesis unfolding allDelivered_def setup_complete_set
    using all_status_spec[OF conjunct1[OF spec], of SuccessSetTask] all_status_spec[OF conjunct2[OF spec], of SuccessSetBroker] by simp
qed

lemma setup_apply_wk_tasks [simp]: "wk_tasks (setup_apply e w) = wk_tasks w"
  by (cases e) (simp_all add: updateStatusDeliverTask_def updateStatusDeliverBroker_def)

lemma setup_run_wk_tasks [simp]: "wk_tasks (setup_run h w) = wk_tasks w"
  unfolding setup_run_def by (induction h arbitrary: w) auto

text \<open>C35. When every delivery is registered once before it is answered, by a client with an ordinary name, the event loop
  records each answer, and starts the tasks and sets the workflow running exactly when every registered client of every
  task and broker has answered and all the answers are successes; otherwise it goes on waiting.\<close>

theorem setup_starts_when_complete:
  assumes "history_ok (rev (h @ [answer_of ev]))" "wk_taskDelivers w = fmempty" "wk_brokerDelivers w = fmempty"
  shows "handle_event ev (setup_run h w) =
    (if setup_complete (h @ [answer_of ev])
     then ([PushTasks TriggerStartTaskCmd None (map snd (wk_tasks w)), EventLoop],
           worker_spawn [SetStatus Running] (setup_run (h @ [answer_of ev]) w))
     else ([EventLoop], setup_run (h @ [answer_of ev]) w))"
proof -
  have "handle_event ev (setup_run h w) =
    (if allDelivered (setup_run (h @ [answer_of ev]) w)
     then ([PushTasks TriggerStartTaskCmd None (map snd (wk_tasks (setup_run (h @ [answer_of ev]) w))), EventLoop],
           worker_spawn [SetStatus Running] (setup_run (h @ [answer_of ev]) w))
     else ([EventLoop], setup_run (h @ [answer_of ev]) w))"
    by (cases ev) (simp_all add: handle_event_def setup_run_def Let_def)
  then show ?thesis using allDelivered_setup_run[OF assms] by simp
qed

definition demo_history :: "setup_event list" where
  "demo_history = [RegisterTask 1 ''c'', RegisterTask 1 ''d'', AnswerTask 1 ''d_client'' SuccessSetTask]"

definition demo_answer :: "unit worker_event" where
  "demo_answer = ReceiveDeliverTask (no_cmdReply\<lparr>cr_TaskID := 1, cr_RunOn := ''c_client'', cr_Status := SuccessSetTask\<rparr>)"

theorem setup_starts_when_complete_witness:
  "history_ok (rev (demo_history @ [answer_of demo_answer])) \<and>
   fst (handle_event demo_answer (setup_run demo_history (demo_worker (demo_task ''http'' [''c'', ''d'']) [] fmempty))) =
     [PushTasks TriggerStartTaskCmd None [demo_task ''http'' [''c'', ''d'']], EventLoop]"
proof -
  have ok: "history_ok (rev (demo_history @ [answer_of demo_answer]))" "setup_complete (demo_history @ [answer_of demo_answer])" by code_simp+
  moreover have "wk_taskDelivers (demo_worker (demo_task ''http'' [''c'', ''d'']) [] fmempty) = fmempty"
    "wk_brokerDelivers (demo_worker (demo_task ''http'' [''c'', ''d'']) [] fmempty) = fmempty"
    "map snd (wk_tasks (demo_worker (demo_task ''http'' [''c'', ''d'']) [] fmempty)) = [demo_task ''http'' [''c'', ''d'']]"
    by (simp_all add: demo_worker_def started_def setPoints_def)
  ultimately show ?thesis using setup_starts_when_complete[of demo_history demo_answer "demo_worker (demo_task ''http'' [''c'', ''d'']) [] fmempty"] by simp
qed

section \<open>Deliveries that get lost or stuck\<close>

text \<open>A retry runs under the delivery number of the delivery that failed.  When its request is added before the goroutine of
  the failed delivery ends, the deferred \<open>removeRequest\<close> of that goroutine removes the new request: the command is
  published a second time, and neither a reply nor the timer finds anything to call.\<close>

definition lost_retry :: "unit worker_action list" where
  "lost_retry = [Run 5, Run 5, Run 6, Run 6, Meet 6 1, DispatchRetry, Run 6]"

lemma retry_request_lost:
  "map_option (\<lambda>w. (length (wk_published w), wk_requests w = fmempty, wk_threads w ! 7 = [TimerWait 101, RemoveRequest 101]))
     (demo_steps lost_retry (demo_worker (demo_task ''http'' [''c'']) [] fmempty)) = Some (2, True, True)"
  "map_option (\<lambda>w. wk_threads w ! 7 = [RemoveRequest 101])
     (demo_steps (lost_retry @ [Run 7]) (demo_worker (demo_task ''http'' [''c'']) [] fmempty)) = Some True"
  by code_simp+

text \<open>A task of the executor \<open>pubsub\<close> answers through the event channel.  The event loop starts the tasks itself, so the
  answer to the trigger is sent by the only goroutine that receives from this unbuffered channel.\<close>

lemma event_loop_sends_to_itself:
  "map_option (\<lambda>w. (case wk_threads w ! 0 of SendEvent _ # _ \<Rightarrow> True | _ \<Rightarrow> False) \<and>
       list_all (\<lambda>fs. case fs of EventLoop # _ \<Rightarrow> False | _ \<Rightarrow> True) (wk_threads w))
     (demo_steps [Run 5, Meet 5 0, Run 0] (demo_worker (demo_task ''pubsub'' []) [] fmempty)) = Some True"
  by code_simp

text \<open>The register holds what has been delivered so far.  When the only client registered answers before the next one
  is registered, the tasks are started while the set-up is still going on.\<close>

definition early_answer :: "unit worker_action list" where
  "early_answer = [Run 5, Run 5, Arrive 2 (no_cmdReply\<lparr>cr_Cmd := ReplySetTaskCmd, cr_DeliverID := 101, cr_TaskID := 1, cr_RunOn := ''c_client'',
     cr_Status := SuccessSetTask\<rparr>), Run 2, Run 2, Run 2, Meet 2 0]"

lemma started_before_set_up:
  "map_option (\<lambda>w. (case wk_threads w ! 0 of PushTasks cmd _ _ # _ \<Rightarrow> cmd = TriggerStartTaskCmd | _ \<Rightarrow> False) \<and>
       (case wk_threads w ! 5 of PushTasks cmd (Some (_, cs)) _ # _ \<Rightarrow> cmd = SetTaskCmd \<and> cs = [''d''] | _ \<Rightarrow> False))
     (demo_steps early_answer (demo_worker (demo_task ''http'' [''c'', ''d'']) [] fmempty)) = Some True"
  by code_simp

end
