(* ===== verification/Go_Json.thy ===== *)
theory Go_Json
  imports Template_Run
begin

text \<open>
  What the sources use of \<open>encoding/json\<close>: reading a text into an \<open>interface{}\<close>, and the value that encoding
  and decoding a value again gives.  The conversion of a number text is an argument.  Strings are valid
  UTF-8, and the limit of the decoder on nesting is not modelled.
\<close>

section \<open>Tokens\<close>

datatype 'f json_token = TBeginObj | TEndObj | TBeginArr | TEndArr | TColon | TComma | TScalar "'f val"

text \<open>The pieces of a string literal: a byte as it stands, or a code unit of an escape.\<close>

datatype str_piece = Plain char | Unit nat

definition utf8 :: "nat \<Rightarrow> string" where
  "utf8 n = map char_of
     (if n < 0x80 then [n]
      else if n < 0x800 then [0xC0 + n div 0x40, 0x80 + n mod 0x40]
      else if n < 0x10000 then [0xE0 + n div 0x1000, 0x80 + n div 0x40 mod 0x40, 0x80 + n mod 0x40]
      else [0xF0 + n div 0x40000, 0x80 + n div 0x1000 mod 0x40, 0x80 + n div 0x40 mod 0x40, 0x80 + n mod 0x40])"

text \<open>A surrogate pair is one character; a surrogate alone is the replacement character.\<close>

fun str_bytes :: "str_piece list \<Rightarrow> string" where
  "str_bytes [] = []"
| "str_bytes (Plain c # ps) = c # str_bytes ps"
| "str_bytes (Unit hi # Unit lo # ps) =
     (if 0xD800 \<le> hi \<and> hi < 0xDC00 \<and> 0xDC00 \<le> lo \<and> lo < 0xE000
      then utf8 (0x10000 + (hi - 0xD800) * 0x400 + (lo - 0xDC00)) @ str_bytes ps
      else utf8 (if 0xD800 \<le> hi \<and> hi < 0xE000 then 0xFFFD else hi) @ str_bytes (Unit lo # ps))"
| "str_bytes (Unit n # ps) = utf8 (if 0xD800 \<le> n \<and> n < 0xE000 then 0xFFFD else n) @ str_bytes ps"

definition hex_digit :: "char \<Rightarrow> nat option" where
  "hex_digit c =
     (let n = of_char c :: nat
      in if 48 \<le> n \<and> n \<le> 57 then Some (n - 48)
         else if 65 \<le> n \<and> n \<le> 70 then Some (n - 55)
         else if 97 \<le> n \<and> n \<le> 102 then Some (n - 87)
         else None)"

definition escape :: "char \<Rightarrow> char option" where
  "escape c =
     map_of [(CHR 0x22, CHR 0x22), (CHR 0x5C, CHR 0x5C), (CHR ''/'', CHR ''/''), (CHR ''b'', CHR 0x08), (CHR ''f'', CHR 0x0C),
             (CHR ''n'', CHR 0x0A), (CHR ''r'', CHR 0x0D), (CHR ''t'', CHR 0x09)] c"

text \<open>The grammar of numbers as an automaton; the accepting states are 2 (after a leading zero), 3, 5 and 8.\<close>

definition is_digit :: "char \<Rightarrow> bool" where
  "is_digit c = (let n = of_char c :: nat in 48 \<le> n \<and> n \<le> 57)"

fun num_state :: "nat \<Rightarrow> string \<Rightarrow> bool" where
  "num_state q [] = (q \<in> {2, 3, 5, 8})"
| "num_state q (c # s) =
     (if is_digit c then
        (if q = 0 \<or> q = 1 then num_state (if c = CHR ''0'' then 2 else 3) s
         else if q = 3 then num_state 3 s
         else if q = 4 \<or> q = 5 then num_state 5 s
         else if q = 6 \<or> q = 7 \<or> q = 8 then num_state 8 s
         else False)
      else if c = CHR ''-'' \<and> q = 0 then num_state 1 s
      else if c = CHR ''.'' \<and> (q = 2 \<or> q = 3) then num_state 4 s
      else if (c = CHR ''e'' \<or> c = CHR ''E'') \<and> (q = 2 \<or> q = 3 \<or> q = 5) then num_state 6 s
      else if (c = CHR ''+'' \<or> c = CHR ''-'') \<and> q = 6 then num_state 7 s
      else False)"

datatype lex_mode =
    Idle
  | InStr "str_piece list"
  | InEscape "str_piece list"
  | InHex "str_piece list" nat nat
  | InNum string
  | InWord string

definition num_char :: "char \<Rightarrow> bool" where
  "num_char c \<longleftrightarrow> is_digit c \<or> c \<in> {CHR ''-'', CHR ''+'', CHR ''.'', CHR ''e'', CHR ''E''}"

definition lex_idle :: "char \<Rightarrow> ('f json_token list \<times> lex_mode) option" where
  "lex_idle c =
     (if c \<in> {CHR '' '', CHR 0x09, CHR 0x0A, CHR 0x0D} then Some ([], Idle)
      else if c = CHR ''{'' then Some ([TBeginObj], Idle)
      else if c = CHR ''}'' then Some ([TEndObj], Idle)
      else if c = CHR ''['' then Some ([TBeginArr], Idle)
      else if c = CHR '']'' then Some ([TEndArr], Idle)
      else if c = CHR '':'' then Some ([TColon], Idle)
      else if c = CHR '','' then Some ([TComma], Idle)
      else if c = CHR 0x22 then Some ([], InStr [])
      else if c = CHR ''-'' \<or> is_digit c then Some ([], InNum [c])
      else if c \<in> {CHR ''t'', CHR ''f'', CHR ''n''} then Some ([], InWord [c])
      else None)"

text \<open>The token that ends where a mode does.\<close>

fun lex_end :: "(string \<Rightarrow> 'f option) \<Rightarrow> lex_mode \<Rightarrow> 'f json_token list option" where
  "lex_end num Idle = Some []"
| "lex_end num (InNum s) =
     (if num_state 0 s then (case num s of None \<Rightarrow> None | Some x \<Rightarrow> Some [TScalar (VFloat x)]) else None)"
| "lex_end num (InWord s) =
     (if s = ''true'' then Some [TScalar (VBool True)] else if s = ''false'' then Some [TScalar (VBool False)]
      else if s = ''null'' then Some [TScalar VNil] else None)"
| "lex_end num _ = None"

fun lex_char :: "(string \<Rightarrow> 'f option) \<Rightarrow> lex_mode \<Rightarrow> char \<Rightarrow> ('f json_token list \<times> lex_mode) option" where
  "lex_char num Idle c = lex_idle c"
| "lex_char num (InStr ps) c =
     (if c = CHR 0x22 then Some ([TScalar (VStr (str_bytes ps))], Idle)
      else if c = CHR 0x5C then Some ([], InEscape ps)
      else if (of_char c :: nat) < 0x20 then None
      else Some ([], InStr (ps @ [Plain c])))"
| "lex_char num (InEscape ps) c =
     (if c = CHR ''u'' then Some ([], InHex ps 4 0)
      else (case escape c of None \<Rightarrow> None | Some d \<Rightarrow> Some ([], InStr (ps @ [Plain d]))))"
| "lex_char num (InHex ps k n) c =
     (case hex_digit c of
        None \<Rightarrow> None
      | Some d \<Rightarrow> Some ([], if k \<le> 1 then InStr (ps @ [Unit (16 * n + d)]) else InHex ps (k - 1) (16 * n + d)))"
| "lex_char num (InNum s) c =
     (if num_char c then Some ([], InNum (s @ [c]))
      else do { ts \<leftarrow> lex_end num (InNum s); (ts', m) \<leftarrow> lex_idle c; Some (ts @ ts', m) })"
| "lex_char num (InWord s) c =
     (if 97 \<le> (of_char c :: nat) \<and> (of_char c :: nat) \<le> 122 then Some ([], InWord (s @ [c]))
      else do { ts \<leftarrow> lex_end num (InWord s); (ts', m) \<leftarrow> lex_idle c; Some (ts @ ts', m) })"

fun json_lex :: "(string \<Rightarrow> 'f option) \<Rightarrow> lex_mode \<Rightarrow> string \<Rightarrow> 'f json_token list option" where
  "json_lex num m [] = lex_end num m"
| "json_lex num m (c # s) = do { (ts, m1) \<leftarrow> lex_char num m c; rest \<leftarrow> json_lex num m1 s; Some (ts @ rest) }"

section \<open>Values\<close>

text \<open>The open containers, innermost first, and what may come next.\<close>

datatype 'f json_frame = InArr "'f val list" | InObj "(string, 'f val) fmap" string

datatype json_mode = WantValue | WantValueOrEnd | WantKey | WantKeyOrEnd | WantColon string | WantMore

text \<open>A finished value goes into the innermost open container, or is the result.\<close>

fun json_put :: "'f val \<Rightarrow> 'f json_frame list \<Rightarrow> 'f val + 'f json_frame list" where
  "json_put v [] = Inl v"
| "json_put v (InArr xs # st) = Inr (InArr (xs @ [v]) # st)"
| "json_put v (InObj m k # st) = Inr (InObj (fmupd k v m) k # st)"

fun json_close :: "'f json_frame list \<Rightarrow> bool \<Rightarrow> ('f val \<times> 'f json_frame list) option" where
  "json_close (InArr xs # st) False = Some (VArr xs, st)"
| "json_close (InObj m k # st) True = Some (VMap m, st)"
| "json_close st b = None"

fun json_run :: "'f json_frame list \<Rightarrow> json_mode \<Rightarrow> 'f json_token list \<Rightarrow> 'f val option" where
  "json_run st mode [] = None"
| "json_run st mode (t # ts) =
     (let finish = (\<lambda>v st1. case json_put v st1 of Inl w \<Rightarrow> (if ts = [] then Some w else None) | Inr st2 \<Rightarrow> json_run st2 WantMore ts)
      in case t of
           TBeginObj \<Rightarrow> if mode = WantValue \<or> mode = WantValueOrEnd then json_run (InObj fmempty [] # st) WantKeyOrEnd ts else None
         | TBeginArr \<Rightarrow> if mode = WantValue \<or> mode = WantValueOrEnd then json_run (InArr [] # st) WantValueOrEnd ts else None
         | TEndObj \<Rightarrow> if mode = WantKeyOrEnd \<or> mode = WantMore then (case json_close st True of None \<Rightarrow> None | Some (v, st1) \<Rightarrow> finish v st1) else None
         | TEndArr \<Rightarrow> if mode = WantValueOrEnd \<or> mode = WantMore then (case json_close st False of None \<Rightarrow> None | Some (v, st1) \<Rightarrow> finish v st1) else None
         | TColon \<Rightarrow>
             (case (mode, st) of (WantColon k, InObj m _ # st1) \<Rightarrow> json_run (InObj m k # st1) WantValue ts | _ \<Rightarrow> None)
         | TComma \<Rightarrow>
             (if mode = WantMore
              then (case st of InArr _ # _ \<Rightarrow> json_run st WantValue ts | InObj _ _ # _ \<Rightarrow> json_run st WantKey ts | [] \<Rightarrow> None)
              else None)
         | TScalar v \<Rightarrow>
             if mode = WantValue \<or> mode = WantValueOrEnd then finish v st
             else if mode = WantKey \<or> mode = WantKeyOrEnd then (case v of VStr k \<Rightarrow> json_run st (WantColon k) ts | _ \<Rightarrow> None)
             else None)"

definition json_text :: "(string \<Rightarrow> 'f option) \<Rightarrow> string \<Rightarrow> 'f val option" where
  "json_text num s = do { ts \<leftarrow> json_lex num Idle s; json_run [] WantValue ts }"

text \<open>Reading a text.\<close>

lemma json_text_example:
  "json_text (\<lambda>_. Some ()) ''{\"a\": [1, true, null, -2.5e+3], \"b\" : {\"c\":\"x\"}, \"b\":{}}'' =
     Some (VMap (fmap_of_list [(''b'', VMap fmempty), (''a'', VArr [VFloat (), VBool True, VNil, VFloat ()])]))"
  "json_text (\<lambda>_. Some ()) ''[1,]'' = None" "json_text (\<lambda>_. Some ()) ''[01]'' = None" "json_text (\<lambda>_. Some ()) ''[1] 2'' = None"
  by code_simp+

end
