(* ===== verification/Expressions.thy ===== *)
theory Expressions
  imports Go_Json Workflow_Names
begin

text \<open>
  The evaluation of one expression of a template (\<open>pkg/workflow/func.go\<close>): the values of its parameters and the
  built-in functions.

  Arithmetic on \<open>float64\<close>, the conversion of number texts, \<open>fmt.Sprintf\<close> and the functions of the JavaScript
  runtime are the record \<open>ex_env\<close>.  An error is represented by its message without arguments.  Slices are values: that
  \<open>append\<close> may share an array between two slices is not modelled.
\<close>

section \<open>The environment\<close>

text \<open>The kind that reflection reports, with the value where the sources read it.\<close>

datatype 'f kind = KNil | KFloat 'f | KInt int | KString string | KSlice | KMap "(string, 'f val) fmap" | KOther

text \<open>What a JavaScript function returns: an object with its properties, a number, a string, undefined or null, or
  something else.  The export type of undefined and of null is nil, so asking for its kind panics.\<close>

datatype js_result = JsObject "(string, nat) fmap" | JsNumber nat | JsString nat | JsNil | JsUnsupported

text \<open>\<open>ee_canon\<close> gives equal results exactly for numbers that compare equal, and none for a number that is not equal
  to itself; \<open>ee_ParseFloat\<close> gives the result and whether there was no error.\<close>

record 'f ex_env =
  ee_zero :: 'f
  ee_add :: "'f \<Rightarrow> 'f \<Rightarrow> 'f"
  ee_sub :: "'f \<Rightarrow> 'f \<Rightarrow> 'f"
  ee_less :: "'f \<Rightarrow> 'f \<Rightarrow> bool"
  ee_canon :: "'f \<Rightarrow> 'f option"
  ee_of_int :: "int \<Rightarrow> 'f"
  ee_finite :: "'f \<Rightarrow> bool"
  ee_ParseFloat :: "string \<Rightarrow> 'f \<times> bool"
  ee_Sprintf :: "string \<Rightarrow> 'f val list \<Rightarrow> string"
  ee_js_call :: "string \<Rightarrow> 'f val list \<Rightarrow> string + js_result"
  ee_js_json :: "nat \<Rightarrow> 'f val option"
  ee_js_kind :: "nat \<Rightarrow> 'f kind"

section \<open>Conversions\<close>

text \<open>All values of a map, when all of them convert.\<close>

definition fmap_those :: "('k, 'v option) fmap \<Rightarrow> ('k, 'v) fmap option" where
  "fmap_those m = (if fBall (fmdom m) (\<lambda>k. the (fmlookup m k) \<noteq> None) then Some (fmmap the m) else None)"

text \<open>The value that encoding to JSON and decoding again gives.  A number that is not finite and a map whose
  key type is an interface cannot be encoded.\<close>

primrec json_view :: "'f ex_env \<Rightarrow> 'f val \<Rightarrow> 'f val option" where
  "json_view E VNil = Some VNil"
| "json_view E (VBool b) = Some (VBool b)"
| "json_view E (VStr s) = Some (VStr s)"
| "json_view E (VFloat x) = (if ee_finite E x then Some (VFloat x) else None)"
| "json_view E (VInt i) = Some (VFloat (ee_of_int E i))"
| "json_view E (VInt64 i) = Some (VFloat (ee_of_int E i))"
| "json_view E (VArr xs) = map_option VArr (those (map (json_view E) xs))"
| "json_view E (VMap m) = map_option VMap (fmap_those (fmmap (json_view E) m))"
| "json_view E (VMapPtr m) = map_option VMap (fmap_those (fmmap (json_view E) m))"
| "json_view E (VReply m) = map_option VMap (fmap_those (fmmap (json_view E) m))"
| "json_view E (VReplyPtr m) = map_option VMap (fmap_those (fmmap (json_view E) m))"
| "json_view E VReplyNil = Some VNil"
| "json_view E VReplyNilPtr = Some VNil"
| "json_view E (VAnyMap m) = None"
| "json_view E (VResult t m) = map_option VMap (fmap_those (fmmap (json_view E) m))"
| "json_view E (VStruct m) = map_option VMap (fmap_those (fmmap (json_view E) m))"
| "json_view E (VJs j) = ee_js_json E j"
| "json_view E VOther = None"

definition decode :: "'f ex_env \<Rightarrow> string \<Rightarrow> 'f val option" where
  "decode E s = json_text (\<lambda>n. case ee_ParseFloat E n of (x, ok) \<Rightarrow> if ok then Some x else None) s"

text \<open>A JSON value as a map: a null gives a nil map.\<close>

definition as_reply :: "'f val option \<Rightarrow> (string, 'f val) fmap option option" where
  "as_reply v = (case v of Some (VMap m) \<Rightarrow> Some (Some m) | Some VNil \<Rightarrow> Some None | _ \<Rightarrow> None)"

definition as_array :: "'f val option \<Rightarrow> 'f val list option" where
  "as_array v = (case v of Some (VArr xs) \<Rightarrow> Some xs | Some VNil \<Rightarrow> Some [] | _ \<Rightarrow> None)"

definition convertInterfaceToReply :: "'f ex_env \<Rightarrow> 'f val \<Rightarrow> (string, 'f val) fmap option option" where
  "convertInterfaceToReply E v = as_reply (json_view E v)"

definition convertInterfaceToArray :: "'f ex_env \<Rightarrow> 'f val \<Rightarrow> 'f val list option" where
  "convertInterfaceToArray E v = as_array (case v of VStr s \<Rightarrow> decode E s | _ \<Rightarrow> json_view E v)"

text \<open>A value as a \<open>ReplyData\<close>, by type assertion or by conversion, and as an array.\<close>

definition reply_of :: "'f ex_env \<Rightarrow> 'f val \<Rightarrow> (string, 'f val) fmap option option" where
  "reply_of E v = (case v of VReply m \<Rightarrow> Some (Some m) | VReplyNil \<Rightarrow> Some None | _ \<Rightarrow> convertInterfaceToReply E v)"

definition array_of :: "'f ex_env \<Rightarrow> 'f val \<Rightarrow> 'f val list option" where
  "array_of E v = (case v of VArr xs \<Rightarrow> Some xs | _ \<Rightarrow> convertInterfaceToArray E v)"

definition reply_val :: "(string, 'f val) fmap option \<Rightarrow> 'f val" where
  "reply_val r = (case r of None \<Rightarrow> VReplyNil | Some m \<Rightarrow> VReply m)"

definition reply_ptr :: "(string, 'f val) fmap option \<Rightarrow> 'f val" where
  "reply_ptr r = (case r of None \<Rightarrow> VReplyNilPtr | Some m \<Rightarrow> VReplyPtr m)"

section \<open>Values of parameters\<close>

text \<open>The variables of a run: the global variables, which may be missing, and the replies of the parts.\<close>

record 'f ex_vars =
  xv_globalVar :: "(string, string) fmap option"
  xv_outputVars :: "(string, (string, 'f val) fmap) fmap"

definition extractValue :: "(string, (string, 'f val) fmap) fmap \<Rightarrow> string \<Rightarrow> 'f val option" where
  "extractValue outputVars p =
     (case fmlookup outputVars (GetRootDefaultVar (TrimPrefix p ''.'')) of
        None \<Rightarrow> None
      | Some value \<Rightarrow> if HasSuffix p SubTask \<or> HasSuffix p SubChannel \<or> HasSuffix p SubClient then Some (VReply value) else None)"

definition getConstVar :: "string \<Rightarrow> string" where
  "getConstVar s = filter (\<lambda>c. c \<noteq> CHR ''('' \<and> c \<noteq> CHR '')'') s"

definition trim_quotes :: "string \<Rightarrow> string" where
  "trim_quotes s =
     (let cut = (\<lambda>c. c \<in> {CHR ''('', CHR '')'', CHR 0x22}) in rev (dropWhile cut (rev (dropWhile cut s))))"

definition const_value :: "'f ex_env \<Rightarrow> string \<Rightarrow> 'f val" where
  "const_value E p =
     (let v = getConstVar p in if HasPrefix v [CHR 0x22] then VStr (trim_quotes v) else VFloat (fst (ee_ParseFloat E v)))"

definition GlobalVars :: "(string \<times> string) list" where
  "GlobalVars = [(''.TASK_STATUS_SUCCESS'', ''1'')]"

text \<open>The value of one parameter.  A missing table of global variables is a nil pointer.\<close>

definition param_value :: "'f ex_env \<Rightarrow> 'f ex_vars \<Rightarrow> 'f val varTemp \<Rightarrow> string \<Rightarrow> 'f val option go" where
  "param_value E X vt p =
     (if p = ''_ping'' then Some (Some (VMap fmempty))
      else if isContants p = None then Some (Some (const_value E p))
      else
        (case varTemp_GetValue vt p of
           Some v \<Rightarrow> Some (Some v)
         | None \<Rightarrow>
             (case extractValue (xv_outputVars X) p of
                Some v \<Rightarrow> Some (Some v)
              | None \<Rightarrow> do {
                  g \<leftarrow> xv_globalVar X;
                  Some (case fmlookup g (TrimPrefix p ''.'') of
                          Some s \<Rightarrow> Some (VStr s)
                        | None \<Rightarrow> map_option VStr (map_of GlobalVars p))
                })))"

fun setValue :: "'f ex_env \<Rightarrow> 'f ex_vars \<Rightarrow> 'f val varTemp \<Rightarrow> string list \<Rightarrow> (string, 'f val) fmap \<Rightarrow> (string, 'f val) fmap option go" where
  "setValue E X vt [] mp = Some (Some mp)"
| "setValue E X vt (p # ps) mp = do {
     r \<leftarrow> param_value E X vt p;
     (case r of None \<Rightarrow> Some None | Some v \<Rightarrow> setValue E X vt ps (fmupd p v mp))
   }"

definition mp_get :: "(string, 'f val) fmap \<Rightarrow> string \<Rightarrow> 'f val" where
  "mp_get mp k = (case fmlookup mp k of None \<Rightarrow> VNil | Some v \<Rightarrow> v)"

section \<open>Comparing, subtracting and merging\<close>

text \<open>Numbers in a form in which equal ones are equal; a number that is not equal to itself has none.\<close>

primrec canon :: "'f ex_env \<Rightarrow> 'f val \<Rightarrow> 'f val option" where
  "canon E VNil = Some VNil"
| "canon E (VBool b) = Some (VBool b)"
| "canon E (VStr s) = Some (VStr s)"
| "canon E (VFloat x) = map_option VFloat (ee_canon E x)"
| "canon E (VInt i) = Some (VInt i)"
| "canon E (VInt64 i) = Some (VInt64 i)"
| "canon E (VArr xs) = map_option VArr (those (map (canon E) xs))"
| "canon E (VMap m) = map_option VMap (fmap_those (fmmap (canon E) m))"
| "canon E (VMapPtr m) = map_option VMapPtr (fmap_those (fmmap (canon E) m))"
| "canon E (VReply m) = map_option VReply (fmap_those (fmmap (canon E) m))"
| "canon E (VReplyPtr m) = map_option VReplyPtr (fmap_those (fmmap (canon E) m))"
| "canon E VReplyNil = Some VReplyNil"
| "canon E VReplyNilPtr = Some VReplyNilPtr"
| "canon E (VAnyMap m) = map_option VAnyMap (fmap_those (fmmap (canon E) m))"
| "canon E (VResult t m) = map_option (VResult t) (fmap_those (fmmap (canon E) m))"
| "canon E (VStruct m) = map_option VStruct (fmap_those (fmmap (canon E) m))"
| "canon E (VJs j) = Some (VJs j)"
| "canon E VOther = Some VOther"

definition DeepEqual :: "'f ex_env \<Rightarrow> 'f val \<Rightarrow> 'f val \<Rightarrow> bool" where
  "DeepEqual E a b = (case canon E a of None \<Rightarrow> False | Some x \<Rightarrow> (case canon E b of None \<Rightarrow> False | Some y \<Rightarrow> x = y))"

fun str_less :: "string \<Rightarrow> string \<Rightarrow> bool" where
  "str_less s [] = False"
| "str_less [] (c # t) = True"
| "str_less (b # s) (c # t) = ((of_char b :: nat) < of_char c \<or> b = c \<and> str_less s t)"

definition compare_op :: "string \<Rightarrow> bool \<Rightarrow> bool \<Rightarrow> bool \<Rightarrow> bool" where
  "compare_op op lt same gt =
     (if op = ''lt'' then lt else if op = ''le'' then lt \<or> same else if op = ''gt'' then gt else gt \<or> same)"

text \<open>A string that is not less counts as greater.  Only \<open>float64\<close> can be ordered: the assertion fails for an integer.\<close>

definition CompareStringsAndNumbers :: "'f ex_env \<Rightarrow> 'f val \<Rightarrow> 'f val \<Rightarrow> string \<Rightarrow> (string + bool) go" where
  "CompareStringsAndNumbers E a b op =
     (if op = EQ_EXP then Some (Inr (DeepEqual E a b))
      else if op = NE_EXP then Some (Inr (\<not> DeepEqual E a b))
      else if \<not> go_includes [''lt'', ''le'', ''gt'', ''ge''] op then Some (Inl ''Unsupported operator'')
      else
        (case a of
           VStr x \<Rightarrow> Some (case b of VStr y \<Rightarrow> Inr (compare_op op (str_less x y) (x = y) (\<not> str_less x y)) | _ \<Rightarrow> Inl ''Type mismatch'')
         | VFloat x \<Rightarrow>
             Some (case b of VFloat y \<Rightarrow> Inr (compare_op op (ee_less E x y) (DeepEqual E a b) (ee_less E y x)) | _ \<Rightarrow> Inl ''Type mismatch'')
         | VInt x \<Rightarrow> (case b of VInt y \<Rightarrow> None | _ \<Rightarrow> Some (Inl ''Type mismatch''))
         | VInt64 x \<Rightarrow> (case b of VInt64 y \<Rightarrow> None | _ \<Rightarrow> Some (Inl ''Type mismatch''))
         | _ \<Rightarrow> Some (Inl ''Unsupported type'')))"

definition subtract :: "'f ex_env \<Rightarrow> 'f val \<Rightarrow> 'f val \<Rightarrow> string + 'f val" where
  "subtract E a b =
     (case a of
        VInt x \<Rightarrow> (case b of VInt y \<Rightarrow> Inr (VInt (i64 (x - y))) | _ \<Rightarrow> Inl ''Type mismatch'')
      | VFloat x \<Rightarrow> (case b of VFloat y \<Rightarrow> Inr (VFloat (ee_sub E x y)) | _ \<Rightarrow> Inl ''Type mismatch'')
      | _ \<Rightarrow> Inl ''Unsupported type'')"

fun kind_of :: "'f ex_env \<Rightarrow> 'f val \<Rightarrow> 'f kind" where
  "kind_of E VNil = KNil"
| "kind_of E (VStr s) = KString s"
| "kind_of E (VFloat x) = KFloat x"
| "kind_of E (VInt i) = KInt i"
| "kind_of E (VInt64 i) = KInt i"
| "kind_of E (VArr xs) = KSlice"
| "kind_of E (VMap m) = KMap m"
| "kind_of E (VReply m) = KMap m"
| "kind_of E VReplyNil = KMap fmempty"
| "kind_of E (VAnyMap m) = KMap m"
| "kind_of E (VJs j) = ee_js_kind E j"
| "kind_of E _ = KOther"

text \<open>The loops of \<open>merge\<close>: a nil value has no type to ask for its kind.\<close>

fun merge_loop :: "'f ex_env \<Rightarrow> ('f kind \<Rightarrow> 'a \<Rightarrow> 'a option) \<Rightarrow> 'f val list \<Rightarrow> 'a \<Rightarrow> (string + 'a) go" where
  "merge_loop E f [] acc = Some (Inr acc)"
| "merge_loop E f (v # vs) acc =
     (case kind_of E v of
        KNil \<Rightarrow> None
      | k \<Rightarrow> (case f k acc of None \<Rightarrow> Some (Inl ''can't merge type'') | Some acc1 \<Rightarrow> merge_loop E f vs acc1))"

definition merge :: "'f ex_env \<Rightarrow> 'f val list \<Rightarrow> (string + 'f val) go" where
  "merge E input =
     (case input of
        [] \<Rightarrow> Some (Inl ''merge: empty input'')
      | v # _ \<Rightarrow>
          (case kind_of E v of
             KNil \<Rightarrow> None
           | KFloat _ \<Rightarrow> map_option (map_sum id VFloat) (merge_loop E (\<lambda>k s. case k of KFloat x \<Rightarrow> Some (ee_add E s x) | _ \<Rightarrow> None) input (ee_zero E))
           | KInt _ \<Rightarrow> map_option (map_sum id VInt64) (merge_loop E (\<lambda>k s. case k of KInt x \<Rightarrow> Some (i64 (s + x)) | _ \<Rightarrow> None) input 0)
           | KString _ \<Rightarrow> map_option (map_sum id VStr) (merge_loop E (\<lambda>k s. case k of KString x \<Rightarrow> Some (s @ x) | _ \<Rightarrow> None) input [])
           | KSlice \<Rightarrow> map_option (map_sum id (\<lambda>_. VArr input)) (merge_loop E (\<lambda>k s. case k of KSlice \<Rightarrow> Some s | _ \<Rightarrow> None) input ())
           | KMap _ \<Rightarrow> map_option (map_sum id VAnyMap) (merge_loop E (\<lambda>k s. case k of KMap m \<Rightarrow> Some (fmadd s m) | _ \<Rightarrow> None) input fmempty)
           | KOther \<Rightarrow> Some (Inl ''merge not support type'')))"

section \<open>The built-in functions\<close>

type_synonym 'f ex_result = "(('f val list \<times> string option) \<times> 'f val varTemp) go"

definition ex_ret :: "'f val list \<Rightarrow> 'f val varTemp \<Rightarrow> 'f ex_result" where
  "ex_ret vs vt = Some ((vs, None), vt)"

definition ex_fail :: "string \<Rightarrow> 'f val varTemp \<Rightarrow> 'f ex_result" where
  "ex_fail err vt = Some (([], Some err), vt)"

definition ex_sum :: "string + 'f val \<Rightarrow> 'f val varTemp \<Rightarrow> 'f ex_result" where
  "ex_sum r vt = (case r of Inl err \<Rightarrow> ex_fail err vt | Inr v \<Rightarrow> ex_ret [v] vt)"

definition with_values ::
  "'f ex_env \<Rightarrow> 'f ex_vars \<Rightarrow> 'f val varTemp \<Rightarrow> string list \<Rightarrow> ((string, 'f val) fmap \<Rightarrow> 'f ex_result) \<Rightarrow> 'f ex_result" where
  "with_values E X vt ps k = do {
     r \<leftarrow> setValue E X vt ps fmempty;
     (case r of None \<Rightarrow> ex_fail ''not ready'' vt | Some mp \<Rightarrow> k mp)
   }"

definition truthy :: "'f val \<Rightarrow> bool" where
  "truthy v = (case v of VStr s \<Rightarrow> s \<noteq> [] \<and> s \<noteq> ''false'' | VBool b \<Rightarrow> b | _ \<Rightarrow> True)"

definition if_scope :: "string \<Rightarrow> 'f val varTemp \<Rightarrow> 'f ex_result" where
  "if_scope f vt =
     ex_ret [] (if f = IF_EXP then varTemp_Append vt else (case varTemp_ClearTop vt of None \<Rightarrow> vt | Some vt1 \<Rightarrow> vt1))"

text \<open>Whatever the comparison is called, three parameters are compared for equality.\<close>

definition ev_if :: "'f ex_env \<Rightarrow> 'f ex_vars \<Rightarrow> string \<Rightarrow> string list \<Rightarrow> 'f val varTemp \<Rightarrow> 'f ex_result" where
  "ev_if E X f ps vt =
     (if length ps = 3 then
        with_values E X vt (drop 1 ps) (\<lambda>mp. do {
          r \<leftarrow> CompareStringsAndNumbers E (mp_get mp (ps ! 1)) (mp_get mp (ps ! 2)) EQ_EXP;
          ex_sum (map_sum id VBool r) vt
        })
      else if length ps = 1 then with_values E X vt ps (\<lambda>mp. ex_ret [VBool (truthy (mp_get mp (ps ! 0)))] vt)
      else if length ps = 2 then
        with_values E X vt (drop 1 ps)
          (\<lambda>mp. if ps ! 0 = NE_EXP then ex_ret [VBool (\<not> truthy (mp_get mp (ps ! 1)))] vt else if_scope f vt)
      else if_scope f vt)"

definition get_field :: "'f val \<Rightarrow> (string, 'f val) fmap option \<Rightarrow> 'f val varTemp \<Rightarrow> 'f ex_result" where
  "get_field key src vt =
     (case key of
        VStr k \<Rightarrow> ex_ret [case src of None \<Rightarrow> VNil | Some m \<Rightarrow> mp_get m k] vt
      | _ \<Rightarrow> ex_fail ''has no value'' vt)"

definition ev_get :: "'f ex_env \<Rightarrow> 'f ex_vars \<Rightarrow> string list \<Rightarrow> 'f val list \<Rightarrow> 'f val varTemp \<Rightarrow> 'f ex_result" where
  "ev_get E X ps inp vt = with_values E X vt ps (\<lambda>mp. do {
     p0 \<leftarrow> go_index ps 0;
     if length ps = 1 then
       (case inp of
          [] \<Rightarrow> ex_fail ''has no value'' vt
        | v # _ \<Rightarrow> (case reply_of E v of None \<Rightarrow> ex_fail ''is not map'' vt | Some src \<Rightarrow> get_field (mp_get mp p0) src vt))
     else (case reply_of E (mp_get mp p0) of None \<Rightarrow> ex_fail ''param invalid type'' vt | Some src \<Rightarrow> get_field (mp_get mp (ps ! 1)) src vt)
   })"

definition get_index :: "'f val \<Rightarrow> 'f val list \<Rightarrow> 'f val varTemp \<Rightarrow> 'f ex_result" where
  "get_index key src vt =
     (case key of
        VInt i \<Rightarrow> do { v \<leftarrow> (if i < 0 then None else go_index src (nat i)); ex_ret [v] vt }
      | _ \<Rightarrow> ex_fail ''has no value'' vt)"

definition ev_getp :: "'f ex_env \<Rightarrow> 'f ex_vars \<Rightarrow> string list \<Rightarrow> 'f val list \<Rightarrow> 'f val varTemp \<Rightarrow> 'f ex_result" where
  "ev_getp E X ps inp vt = with_values E X vt ps (\<lambda>mp. do {
     p0 \<leftarrow> go_index ps 0;
     if length ps = 1 \<and> inp = [] then ex_fail ''has no value'' vt
     else do {
       v \<leftarrow> go_index inp 0;
       (case array_of E v of
          None \<Rightarrow> ex_fail ''is not array'' vt
        | Some src \<Rightarrow> get_index (mp_get mp (if length ps = 1 then p0 else ps ! 1)) src vt)
     }
   })"

definition ev_set :: "'f ex_env \<Rightarrow> 'f ex_vars \<Rightarrow> string list \<Rightarrow> 'f val list \<Rightarrow> 'f val varTemp \<Rightarrow> 'f ex_result" where
  "ev_set E X ps inp vt =
     (case ps of
        [] \<Rightarrow> None
      | p0 # rest \<Rightarrow>
          if rest = [] then
            (case inp of [] \<Rightarrow> ex_fail ''set has no value'' vt | v # _ \<Rightarrow> do { vt1 \<leftarrow> varTemp_Set (p0, v) vt; ex_ret [v] vt1 })
          else with_values E X vt rest (\<lambda>mp. do {
            vt1 \<leftarrow> varTemp_Set (p0, mp_get mp (hd rest)) vt;
            ex_ret [mp_get mp (hd rest)] vt1
          }))"

definition send_value :: "'f ex_env \<Rightarrow> 'f val \<Rightarrow> 'f val varTemp \<Rightarrow> 'f ex_result" where
  "send_value E v vt =
     (if (case v of VNil \<Rightarrow> True | _ \<Rightarrow> False) then ex_fail ''can't send nil value'' vt
      else (case convertInterfaceToReply E v of None \<Rightarrow> ex_fail ''Can't send'' vt | Some r \<Rightarrow> ex_ret [reply_ptr r] vt))"

definition ev_send :: "'f ex_env \<Rightarrow> 'f ex_vars \<Rightarrow> string list \<Rightarrow> 'f val list \<Rightarrow> 'f val varTemp \<Rightarrow> 'f ex_result" where
  "ev_send E X ps inp vt =
     (if length ps = 1 then (case inp of [] \<Rightarrow> ex_fail ''has no value to send'' vt | v # _ \<Rightarrow> send_value E v vt)
      else do {
        ps1 \<leftarrow> go_slice ps 0 1;
        with_values E X vt ps1 (\<lambda>mp. send_value E (mp_get mp (ps ! 0)) vt)
      })"

definition ev_sendsync :: "'f ex_env \<Rightarrow> 'f ex_vars \<Rightarrow> string list \<Rightarrow> 'f val list \<Rightarrow> 'f val varTemp \<Rightarrow> 'f ex_result" where
  "ev_sendsync E X ps inp vt =
     (if length ps = 1 then ex_ret inp vt
      else do {
        ps1 \<leftarrow> go_slice ps 0 1;
        with_values E X vt ps1 (\<lambda>mp. ex_ret [mp_get mp (ps ! 0)] vt)
      })"

text \<open>Any string counts as finished.\<close>

definition check_finish :: "'f val \<Rightarrow> 'f val varTemp \<Rightarrow> 'f ex_result" where
  "check_finish r vt =
     (case r of
        VNil \<Rightarrow> ex_fail ''nil result'' vt
      | VResult t _ \<Rightarrow> if t = 0 then ex_fail ''unfinished'' vt else ex_ret [] vt
      | VMap m \<Rightarrow>
          (case mp_get m ''finish'' of
             VBool b \<Rightarrow> if b then ex_ret [] vt else ex_fail ''unfinished'' vt
           | VStr _ \<Rightarrow> ex_ret [] vt
           | _ \<Rightarrow> ex_fail ''unfinished'' vt)
      | _ \<Rightarrow> ex_fail ''invalid result'' vt)"

definition ev_waite :: "'f ex_env \<Rightarrow> 'f ex_vars \<Rightarrow> string list \<Rightarrow> 'f val varTemp \<Rightarrow> 'f ex_result" where
  "ev_waite E X ps vt = with_values E X vt ps (\<lambda>mp. do {
     p0 \<leftarrow> go_index ps 0;
     (case mp_get mp p0 of
        VReply m \<Rightarrow> check_finish (mp_get m ''result'') vt
      | VReplyNil \<Rightarrow> check_finish VNil vt
      | _ \<Rightarrow> ex_fail ''can't convert to reply'' vt)
   })"

text \<open>A text becomes a map, an array or an integer, where it can be read as one.\<close>

definition parse_item :: "'f ex_env \<Rightarrow> 'f val \<Rightarrow> 'f val" where
  "parse_item E item =
     (case item of
        VStr s \<Rightarrow>
          (case as_reply (decode E s) of
             Some r \<Rightarrow> reply_val r
           | None \<Rightarrow>
               (case as_array (decode E s) of
                  Some xs \<Rightarrow> VArr xs
                | None \<Rightarrow> (case ParseInt s of Some i \<Rightarrow> VInt i | None \<Rightarrow> item)))
      | _ \<Rightarrow> item)"

definition ev_parse :: "'f ex_env \<Rightarrow> 'f ex_vars \<Rightarrow> string list \<Rightarrow> 'f val list \<Rightarrow> 'f val varTemp \<Rightarrow> 'f ex_result" where
  "ev_parse E X ps inp vt = with_values E X vt ps (\<lambda>mp. ex_ret (map (parse_item E) (inp @ map (mp_get mp) ps)) vt)"

definition ev_merge :: "'f ex_env \<Rightarrow> 'f ex_vars \<Rightarrow> string list \<Rightarrow> 'f val list \<Rightarrow> 'f val varTemp \<Rightarrow> 'f ex_result" where
  "ev_merge E X ps inp vt = with_values E X vt ps (\<lambda>mp. do { r \<leftarrow> merge E (inp @ map (mp_get mp) ps); ex_sum r vt })"

definition delete_key :: "(string, 'f val) fmap option \<Rightarrow> 'f val \<Rightarrow> 'f val varTemp \<Rightarrow> 'f ex_result" where
  "delete_key rd key vt =
     (case key of VStr k \<Rightarrow> ex_ret [reply_val (map_option (fmdrop k) rd)] vt | _ \<Rightarrow> ex_fail ''is not string'' vt)"

definition ev_delete :: "'f ex_env \<Rightarrow> 'f ex_vars \<Rightarrow> string list \<Rightarrow> 'f val list \<Rightarrow> 'f val varTemp \<Rightarrow> 'f ex_result" where
  "ev_delete E X ps inp vt = with_values E X vt ps (\<lambda>mp.
     if length ps = 2 then
       (case convertInterfaceToReply E (mp_get mp (ps ! 0)) of
          None \<Rightarrow> ex_fail ''err'' vt
        | Some rd \<Rightarrow> delete_key rd (mp_get mp (ps ! 1)) vt)
     else do {
       v \<leftarrow> go_index inp 0;
       (case convertInterfaceToReply E v of
          None \<Rightarrow> ex_fail ''err'' vt
        | Some rd \<Rightarrow> do { p0 \<leftarrow> go_index ps 0; delete_key rd (mp_get mp p0) vt })
     })"

definition ev_pop :: "'f ex_env \<Rightarrow> 'f val list \<Rightarrow> 'f val varTemp \<Rightarrow> 'f ex_result" where
  "ev_pop E inp vt =
     (case inp of
        [] \<Rightarrow> ex_fail ''can't pop empty'' vt
      | v # _ \<Rightarrow>
          (case array_of E v of
             None \<Rightarrow> ex_fail ''is not array'' vt
           | Some xs \<Rightarrow> if xs = [] then ex_fail ''can't pop array empty'' vt else ex_ret [VArr (butlast xs)] vt))"

text \<open>With two parameters a source that is not an array is looked for in the text of the first parameter.\<close>

definition pushExp :: "'f ex_env \<Rightarrow> 'f ex_vars \<Rightarrow> string list \<Rightarrow> 'f val list \<Rightarrow> 'f val varTemp \<Rightarrow> 'f ex_result" where
  "pushExp E X ps inp vt = with_values E X vt ps (\<lambda>mp. do {
     p0 \<leftarrow> go_index ps 0;
     if length ps = 1 then
       (case inp of
          [] \<Rightarrow> ex_fail ''has no value'' vt
        | v # _ \<Rightarrow> (case array_of E v of None \<Rightarrow> ex_fail ''is not array'' vt | Some xs \<Rightarrow> ex_ret [VArr (xs @ [mp_get mp p0])] vt))
     else
       (case (case mp_get mp p0 of VArr xs \<Rightarrow> Some xs | _ \<Rightarrow> convertInterfaceToArray E (VStr p0)) of
          None \<Rightarrow> ex_fail ''is not array'' vt
        | Some xs \<Rightarrow> ex_ret [VArr (xs @ [mp_get mp (ps ! 1)])] vt)
   })"

definition ev_printf :: "'f ex_env \<Rightarrow> 'f ex_vars \<Rightarrow> string list \<Rightarrow> 'f val varTemp \<Rightarrow> 'f ex_result" where
  "ev_printf E X ps vt = with_values E X vt ps (\<lambda>mp.
     (case ps of
        [] \<Rightarrow> None
      | p0 # rest \<Rightarrow>
          (case mp_get mp p0 of VStr f \<Rightarrow> ex_ret [VStr (ee_Sprintf E f (map (mp_get mp) rest))] vt | _ \<Rightarrow> None)))"

definition ev_define :: "'f ex_env \<Rightarrow> string list \<Rightarrow> 'f val varTemp \<Rightarrow> 'f ex_result" where
  "ev_define E ps vt = do {
     k \<leftarrow> go_index ps 1;
     let bind = (\<lambda>v out. do { vt1 \<leftarrow> varTemp_Push (ps ! 0, v) vt; ex_ret out vt1 });
     if k = ''map'' then bind (VMap fmempty) [VMapPtr fmempty]
     else if k = ''array'' then bind (VArr []) [VArr []]
     else if k = ''string'' then bind (VStr []) [VStr []]
     else if k = ''number'' then bind (VFloat (ee_zero E)) []
     else ex_ret [] vt
   }"

text \<open>Writing to a nil map panics.\<close>

definition put_key :: "(string, 'f val) fmap option \<Rightarrow> 'f val \<Rightarrow> 'f val \<Rightarrow> 'f val varTemp \<Rightarrow> 'f ex_result" where
  "put_key rd key v vt =
     (case key of
        VStr k \<Rightarrow> do { m \<leftarrow> rd; ex_ret [VReply (fmupd k v m)] vt }
      | _ \<Rightarrow> ex_fail ''is not string'' vt)"

definition ev_put :: "'f ex_env \<Rightarrow> 'f ex_vars \<Rightarrow> string list \<Rightarrow> 'f val list \<Rightarrow> 'f val varTemp \<Rightarrow> 'f ex_result" where
  "ev_put E X ps inp vt = with_values E X vt ps (\<lambda>mp.
     if length ps = 3 then
       (case convertInterfaceToReply E (mp_get mp (ps ! 0)) of
          None \<Rightarrow> ex_fail ''err'' vt
        | Some rd \<Rightarrow> put_key rd (mp_get mp (ps ! 1)) (mp_get mp (ps ! 2)) vt)
     else if length ps = 2 then
       (case inp of
          [] \<Rightarrow> ex_fail ''can't put nil value'' vt
        | v # _ \<Rightarrow>
            (case convertInterfaceToReply E v of
               None \<Rightarrow> ex_fail ''err'' vt
             | Some rd \<Rightarrow> put_key rd (mp_get mp (ps ! 0)) (mp_get mp (ps ! 1)) vt))
     else do { p0 \<leftarrow> go_index ps 0; ex_fail ''empty queue or value'' vt })"

definition ev_return :: "'f ex_env \<Rightarrow> 'f ex_vars \<Rightarrow> string list \<Rightarrow> 'f val list \<Rightarrow> 'f val varTemp \<Rightarrow> 'f ex_result" where
  "ev_return E X ps inp vt =
     (if ps = [] then ex_ret [VArr inp] vt else with_values E X vt ps (\<lambda>mp. ex_ret (map (mp_get mp) ps) vt))"

text \<open>The parameters are subtracted as texts, never as the values of variables.\<close>

definition ev_sub :: "'f ex_env \<Rightarrow> string list \<Rightarrow> 'f val list \<Rightarrow> 'f val varTemp \<Rightarrow> 'f ex_result" where
  "ev_sub E ps inp vt =
     (if length ps = 2 then ex_sum (subtract E (VStr (ps ! 0)) (VStr (ps ! 1))) vt
      else if length ps = 1 then do { v \<leftarrow> go_index inp 0; ex_sum (subtract E v (VStr (ps ! 0))) vt }
      else (case inp of a # b # _ \<Rightarrow> ex_sum (subtract E a b) vt | _ \<Rightarrow> ex_fail ''invalid params'' vt))"

definition ev_range :: "'f ex_env \<Rightarrow> 'f ex_vars \<Rightarrow> string list \<Rightarrow> 'f val varTemp \<Rightarrow> 'f ex_result" where
  "ev_range E X ps vt = do {
     ps1 \<leftarrow> go_slice ps 0 1;
     with_values E X vt ps1 (\<lambda>mp.
       (case convertInterfaceToReply E (mp_get mp (ps ! 0)) of
          Some r \<Rightarrow> ex_ret [reply_ptr r] vt
        | None \<Rightarrow>
            (case convertInterfaceToArray E (mp_get mp (ps ! 0)) of
               Some xs \<Rightarrow> ex_ret [VArr xs] vt
             | None \<Rightarrow> ex_fail ''invalid param'' vt)))
   }"

definition ev_call ::
  "'f ex_env \<Rightarrow> 'f ex_vars \<Rightarrow> js_runtime \<Rightarrow> string fset \<Rightarrow> string \<Rightarrow> string list \<Rightarrow> 'f val list \<Rightarrow> 'f val varTemp \<Rightarrow> 'f ex_result" where
  "ev_call E X js call f ps inp vt =
     (case js of
        None \<Rightarrow> ex_fail ''not found'' vt
      | Some env \<Rightarrow>
          if \<not> GetFunction env call f then ex_fail ''not define'' vt
          else with_values E X vt ps (\<lambda>mp.
            (case ee_js_call E f (inp @ map (mp_get mp) ps) of
               Inl err \<Rightarrow> ex_fail err vt
             | Inr (JsObject m) \<Rightarrow> ex_ret [VMap (fmmap VJs m)] vt
             | Inr (JsNumber j) \<Rightarrow> ex_ret [VJs j] vt
             | Inr (JsString j) \<Rightarrow> ex_ret [VJs j] vt
             | Inr JsNil \<Rightarrow> None
             | Inr JsUnsupported \<Rightarrow> ex_fail ''can't support return type'' vt)))"

section \<open>Evaluating an expression\<close>

definition Expression_Execute :: "'f ex_env \<Rightarrow> 'f ex_vars \<Rightarrow> js_runtime \<Rightarrow> string fset \<Rightarrow> 'f evaluator" where
  "Expression_Execute E X js call e inp vt =
     (let f = ex_Func e; ps = ex_Params e
      in if f = IF_EXP \<or> f = ELSEIF_EXP then ev_if E X f ps vt
         else if f = GET_EXP then ev_get E X ps inp vt
         else if f = GETP_EXP then ev_getp E X ps inp vt
         else if f = SET_EXP then ev_set E X ps inp vt
         else if f = SEND_EXP \<or> f = SENDU_EXP then ev_send E X ps inp vt
         else if f = WAIT_EXP then with_values E X vt ps (\<lambda>_. ex_ret [] vt)
         else if f = WAITE_EXP then ev_waite E X ps vt
         else if f = PARSE_EXP then ev_parse E X ps inp vt
         else if f = MERGE_EXP then ev_merge E X ps inp vt
         else if f = DELETE_EXP then ev_delete E X ps inp vt
         else if f = POP_EXP then ev_pop E inp vt
         else if f = PUSH_EXP then pushExp E X ps inp vt
         else if f = PRINTF_EXP then ev_printf E X ps vt
         else if f = SENDSYNC_EXP then ev_sendsync E X ps inp vt
         else if f = DEFINE_EXP then ev_define E ps vt
         else if f = PUT_EXP then ev_put E X ps inp vt
         else if f = RETURN_EXP then ev_return E X ps inp vt
         else if f = ELSE_EXP \<or> f = END_EXP then ex_ret [] vt
         else if f = SUB_EXP then ev_sub E ps inp vt
         else if f = RANGE_EXP then ev_range E X ps vt
         else ev_call E X js call f ps inp vt)"

end
