(* ===== verification/Expression_Props.thy ===== *)
theory Expression_Props
  imports Expressions
begin

text \<open>
  Properties of the evaluation of expressions: the values of parameters, and that an expression which the
  compiler accepts is evaluated without a panic; with examples of what the compiler does not rule out.
\<close>

section \<open>Values of parameters\<close>





section \<open>What the compiler checks\<close>















section \<open>Evaluation returns\<close>

text \<open>A result, with at least one scope left.\<close>

definition returns :: "'f ex_result \<Rightarrow> bool" where
  "returns r \<longleftrightarrow> (\<exists>out err vt. r = Some ((out, err), vt) \<and> vt \<noteq> [])"

lemma returns_leaf [simp]: "returns (ex_ret vs vt) \<longleftrightarrow> vt \<noteq> []" "returns (ex_fail err vt) \<longleftrightarrow> vt \<noteq> []" "returns (ex_sum r vt) \<longleftrightarrow> vt \<noteq> []"
  by (auto simp: returns_def ex_ret_def ex_fail_def ex_sum_def split: sum.splits)


lemma varTemp_returns:
  assumes "vt \<noteq> []"
  shows "\<exists>vt1. varTemp_Push x vt = Some vt1 \<and> vt1 \<noteq> []" "\<exists>vt1. varTemp_Set x vt = Some vt1 \<and> vt1 \<noteq> []"
    "varTemp_Append vt \<noteq> []" "\<exists>vt1. varTemp_ClearTop vt = Some vt1 \<and> vt1 \<noteq> []"
  using assms by (auto simp: varTemp_Push_def varTemp_Set_def varTemp_Append_def varTemp_ClearTop_def)


lemma helpers_return [simp]:
  assumes "vt \<noteq> []"
  shows "returns (if_scope f vt)" "returns (get_field key src vt)" "returns (send_value E v vt)" "returns (check_finish v vt)" "returns (delete_key rd key vt)"
  using assms varTemp_returns[OF assms]
  by (auto simp: if_scope_def get_field_def send_value_def check_finish_def delete_key_def split: val.splits option.splits)




section \<open>Examples\<close>

text \<open>An environment in which all numbers are equal and there are no JavaScript functions.\<close>

definition plain_env :: "unit ex_env" where
  "plain_env = \<lparr>ee_zero = (), ee_add = (\<lambda>_ _. ()), ee_sub = (\<lambda>_ _. ()), ee_less = (\<lambda>_ _. False), ee_canon = Some, ee_of_int = (\<lambda>_. ()),
     ee_finite = (\<lambda>_. True), ee_ParseFloat = (\<lambda>_. ((), True)), ee_Sprintf = (\<lambda>f _. f), ee_js_call = (\<lambda>_ _. Inl ''no function''),
     ee_js_json = (\<lambda>_. None), ee_js_kind = (\<lambda>_. KOther)\<rparr>"

definition plain_vars :: "unit ex_vars" where
  "plain_vars = \<lparr>xv_globalVar = Some fmempty,
     xv_outputVars = fmap_of_list [(''a_task'', fmap_of_list [(''result'', VResult 5 (fmap_of_list [(''output'', VStr ''done'')]))])]\<rparr>"







text \<open>An evaluation in the plain environment, without its scopes.\<close>

definition plain_eval :: "string \<Rightarrow> string list \<Rightarrow> unit val list \<Rightarrow> (unit val list \<times> string option) option" where
  "plain_eval f ps inp = map_option fst (Expression_Execute plain_env plain_vars None {||} \<lparr>ex_Func = f, ex_Params = ps\<rparr> inp [[]])"

text \<open>What is sent is the JSON form of the reply.\<close>

lemma send_example: "map_option snd (plain_eval SEND_EXP [''.a_task'', ''b_channel''] []) = Some None"
  by code_simp

text \<open>Panics that the compiler does not rule out: a format that is a number, a \<open>push\<close> without parameters, an index
  out of range, a merge that begins with a nil value, and a \<open>put\<close> into null.\<close>

lemma evaluation_panics:
  "plain_eval PRINTF_EXP [''(1)''] [] = None" "plain_eval PUSH_EXP [] [VArr []] = None" "plain_eval MERGE_EXP [] [VNil] = None"
  "map_option (\<lambda>_. ()) (Expression_Execute plain_env plain_vars None {||} \<lparr>ex_Func = GETP_EXP, ex_Params = [''.i'']\<rparr> [VArr []] [[(''.i'', VInt 0)]]) = None"
  "plain_eval PUT_EXP [''(\"k\")'', ''(\"v\")''] [VNil] = None"
  by code_simp+

text \<open>In the unrestricted mode a send without parameters is accepted and panics, and so does the call of a
  JavaScript function that returns nothing.\<close>

lemma unrestricted_send_panics: "pipeline_rows False [] ''{{send}}'' = Some [[''send'']]" "plain_eval SEND_EXP [] [] = None"
  by code_simp+

lemma js_nothing_panics:
  "ev_call (plain_env\<lparr>ee_js_call := \<lambda>_ _. Inr JsNil\<rparr>) plain_vars (Some (\<lambda>_. JsFunction)) {||} ''f'' [] [] [[]] = None"
  by (simp add: ev_call_def GetFunction_def with_values_def)

text \<open>Three parameters of a condition are compared for equality, whatever comparison is named.\<close>

lemma if_ignores_the_operator: "plain_eval IF_EXP [''lt'', ''(\"a\")'', ''(\"b\")''] [] = Some ([VBool False], None)"
  by code_simp

text \<open>\<open>sub\<close> subtracts the texts of its parameters and so always fails on them.\<close>

lemma sub_of_parameters_fails: "ev_sub E [p, q] inp vt = ex_fail ''Unsupported type'' vt"
  by (simp add: ev_sub_def subtract_def ex_sum_def)

text \<open>A task counts as finished when the field holds any string.\<close>

lemma any_string_is_finished: "check_finish (VMap (fmap_of_list [(''finish'', VStr ''false'')])) vt = ex_ret [] vt"
  by (simp add: check_finish_def mp_get_def)

text \<open>A string counts as greater than itself.\<close>

lemma string_greater_than_itself: "CompareStringsAndNumbers E (VStr s) (VStr s) ''gt'' = Some (Inr True)"
proof -
  have "\<not> str_less s s" by (induction s) auto
  then show ?thesis by (simp add: CompareStringsAndNumbers_def go_includes_def compare_op_def)
qed

end
