(* ===== verification/Agent_Store.thy ===== *)
theory Agent_Store
  imports Go_Strings
begin

text \<open>
  The local database of the daemon (\<open>kairos-local/kairosdeamon/agent/store.go\<close>), which implements the interface
  of \<open>storage.go\<close>: tasks, brokers, workflows, executions, queues, scripts, triggers and meta data in nested
  buckets of a Bolt file, and the nullable times of \<open>pkg/ntime\<close>.

  Bolt is an argument: the record \<open>bolt\<close> has the operations the store calls, with a bucket given by the path of
  its names.  \<open>None\<close> is an error of the operation.  The JSON form of the stored structs is the record
  \<open>store_codec\<close>, and the cron parser is an argument.  A cursor runs over the
  items that its bucket had when the loop began, and of a loop that ends with an error only the error is kept.
  A creation of a bucket whose error the code does not look at is treated like the others.
\<close>

section \<open>Nullable times\<close>

type_synonym nullableTime = "int option"

definition nt_After :: "nullableTime \<Rightarrow> nullableTime \<Rightarrow> bool" where
  "nt_After t u = (case t of None \<Rightarrow> False | Some a \<Rightarrow> (case u of None \<Rightarrow> True | Some b \<Rightarrow> b < a))"

section \<open>Data\<close>

record 'r agent_task =
  at_ID :: string
  at_Name :: string
  at_WorkflowID :: int
  at_Schedule :: string
  at_SuccessCount :: int
  at_ErrorCount :: int
  at_LastSuccess :: nullableTime
  at_LastError :: nullableTime
  at_Disabled :: bool
  at_Metadata :: "(string, string) fmap"
  at_Status :: string
  at_Next :: int
  at_rest :: 'r

record 'r stored_broker =
  sb_ID :: int
  sb_WorkflowID :: int
  sb_rest :: 'r

record 'r execution =
  xe_Id :: string
  xe_Success :: bool
  xe_FinishedAt :: int
  xe_rest :: 'r

record 'r brokerRecordLocal =
  rl_BrokerID :: int
  rl_WorkflowID :: int
  rl_rest :: 'r

record 'r stored_trigger =
  tg_ID :: int
  tg_rest :: 'r

record 'r store_codec =
  sc_task :: "'r agent_task \<Rightarrow> string option"
  sc_task_of :: "string \<Rightarrow> 'r agent_task option"
  sc_task_zero :: "'r agent_task"
  sc_broker :: "'r stored_broker \<Rightarrow> string option"
  sc_broker_of :: "string \<Rightarrow> 'r stored_broker option"
  sc_broker_zero :: "'r stored_broker"
  sc_execution :: "'r execution \<Rightarrow> string option"
  sc_execution_of :: "string \<Rightarrow> 'r execution option"
  sc_record :: "'r brokerRecordLocal \<Rightarrow> string option"
  sc_record_of :: "string \<Rightarrow> 'r brokerRecordLocal option"
  sc_trigger :: "'r stored_trigger \<Rightarrow> string option"
  sc_trigger_of :: "string \<Rightarrow> 'r stored_trigger option"

record taskOptions =
  to_Metadata :: "(string, string) fmap"
  to_WorkflowID :: int
  to_Query :: string
  to_Status :: string
  to_Disabled :: string
  to_NoScheduler :: string
  to_Name :: string

abbreviation workflowBucket :: string where "workflowBucket \<equiv> ''workflows''"
abbreviation tasksBucket :: string where "tasksBucket \<equiv> ''tasks''"
abbreviation executionsBucket :: string where "executionsBucket \<equiv> ''executions''"
abbreviation metaBucket :: string where "metaBucket \<equiv> ''meta''"
abbreviation brokersBucket :: string where "brokersBucket \<equiv> ''brokers''"
abbreviation queueBucket :: string where "queueBucket \<equiv> ''queue''"
abbreviation brokerRecordBucket :: string where "brokerRecordBucket \<equiv> ''broker_record''"
abbreviation scriptBucket :: string where "scriptBucket \<equiv> ''script''"
abbreviation triggerBucket :: string where "triggerBucket \<equiv> ''trigger''"

section \<open>Transactions\<close>

type_synonym path = "string list"

record 'tx bolt =
  bt_create :: "path \<Rightarrow> 'tx \<Rightarrow> 'tx option"
  bt_exists :: "path \<Rightarrow> 'tx \<Rightarrow> bool"
  bt_delete_bucket :: "path \<Rightarrow> 'tx \<Rightarrow> 'tx option"
  bt_get :: "path \<Rightarrow> string \<Rightarrow> 'tx \<Rightarrow> string option"
  bt_put :: "path \<Rightarrow> string \<Rightarrow> string \<Rightarrow> 'tx \<Rightarrow> 'tx option"
  bt_delete :: "path \<Rightarrow> string \<Rightarrow> 'tx \<Rightarrow> 'tx option"
  bt_items :: "path \<Rightarrow> 'tx \<Rightarrow> (string \<times> string option) list"
  bt_commit :: "'tx \<Rightarrow> bool"

datatype store_error = ErrNotFound | ErrBolt | ErrEncode | ErrDecode | ErrSchedule | ErrCommit

text \<open>A part of a transaction: a result or an error, and the transaction after it; an error does not undo what the part
  has already changed.\<close>

type_synonym ('tx, 'a) txm = "'tx \<Rightarrow> (store_error + 'a) \<times> 'tx"

definition tx_ret :: "'a \<Rightarrow> ('tx, 'a) txm" where
  "tx_ret a tx = (Inr a, tx)"

definition tx_fail :: "store_error \<Rightarrow> ('tx, 'a) txm" where
  "tx_fail e tx = (Inl e, tx)"

definition tx_bind :: "('tx, 'a) txm \<Rightarrow> ('a \<Rightarrow> ('tx, 'b) txm) \<Rightarrow> ('tx, 'b) txm" where
  "tx_bind m k tx = (case m tx of (Inl e, tx1) \<Rightarrow> (Inl e, tx1) | (Inr a, tx1) \<Rightarrow> k a tx1)"

text \<open>Going on whatever the result is.\<close>

definition tx_ignore :: "('tx, 'a) txm \<Rightarrow> ('tx, 'b) txm \<Rightarrow> ('tx, 'b) txm" where
  "tx_ignore m k tx = k (snd (m tx))"

definition tx_read :: "('tx \<Rightarrow> 'a) \<Rightarrow> ('tx, 'a) txm" where
  "tx_read f tx = (Inr (f tx), tx)"

definition tx_do :: "('tx \<Rightarrow> 'tx option) \<Rightarrow> ('tx, unit) txm" where
  "tx_do f tx = (case f tx of None \<Rightarrow> (Inl ErrBolt, tx) | Some tx1 \<Rightarrow> (Inr (), tx1))"

definition tx_some :: "store_error \<Rightarrow> 'a option \<Rightarrow> ('tx, 'a) txm" where
  "tx_some e x = (case x of None \<Rightarrow> tx_fail e | Some a \<Rightarrow> tx_ret a)"

text \<open>Making all the buckets on the way to a bucket, and then going on.\<close>

fun tx_buckets :: "'tx bolt \<Rightarrow> path \<Rightarrow> path \<Rightarrow> ('tx, 'a) txm \<Rightarrow> ('tx, 'a) txm" where
  "tx_buckets B pre [] k = k"
| "tx_buckets B pre (b # p) k = tx_bind (tx_do (bt_create B (pre @ [b]))) (\<lambda>_. tx_buckets B (pre @ [b]) p k)"

text \<open>The store.  Write transactions exclude each other: a function that returns with its transaction neither committed
  nor rolled back leaves the database busy, and a call on a busy database never returns, which is \<open>None\<close>.\<close>

record 'tx store =
  st_db :: 'tx
  st_busy :: bool

definition db_Update :: "'tx bolt \<Rightarrow> ('tx, unit) txm \<Rightarrow> 'tx store \<Rightarrow> (store_error option \<times> 'tx store) option" where
  "db_Update B f s =
     (if st_busy s then None
      else Some (case f (st_db s) of
                   (Inl e, _) \<Rightarrow> (Some e, s)
                 | (Inr _, tx) \<Rightarrow> if bt_commit B tx then (None, s\<lparr>st_db := tx\<rparr>) else (Some ErrCommit, s)))"

text \<open>\<open>Begin\<close> with a transaction that ends in \<open>Commit\<close>; the flag says whether a rollback is deferred.  The result of an
  error is given, and so is the default of the first component.\<close>

definition db_Begin :: "'tx bolt \<Rightarrow> bool \<Rightarrow> ('tx, 'a) txm \<Rightarrow> 'tx store \<Rightarrow> ((store_error + 'a) \<times> 'tx store) option" where
  "db_Begin B rollback f s =
     (if st_busy s then None
      else Some (case f (st_db s) of
                   (Inl e, _) \<Rightarrow> (Inl e, s\<lparr>st_busy := \<not> rollback\<rparr>)
                 | (Inr a, tx) \<Rightarrow> if bt_commit B tx then (Inr a, s\<lparr>st_db := tx\<rparr>) else (Inl ErrCommit, s)))"

section \<open>Meta data, scripts and triggers\<close>

definition GetMeta :: "'tx bolt \<Rightarrow> string \<Rightarrow> 'tx store \<Rightarrow> ((store_error + string) \<times> 'tx store) option" where
  "GetMeta B key =
     db_Begin B True (tx_buckets B [] [metaBucket] (tx_read (\<lambda>tx. case bt_get B [metaBucket] key tx of None \<Rightarrow> [] | Some v \<Rightarrow> v)))"

definition setMetaTxFunc :: "'tx bolt \<Rightarrow> string \<Rightarrow> string \<Rightarrow> ('tx, unit) txm" where
  "setMetaTxFunc B key value = tx_buckets B [] [metaBucket] (tx_ignore (tx_do (bt_put B [metaBucket] key value)) (tx_ret ()))"

definition SetMeta :: "'tx bolt \<Rightarrow> string \<Rightarrow> string \<Rightarrow> 'tx store \<Rightarrow> (store_error option \<times> 'tx store) option" where
  "SetMeta B key value = db_Update B (setMetaTxFunc B key value)"

definition setScriptTxFunc :: "'tx bolt \<Rightarrow> string \<Rightarrow> string \<Rightarrow> ('tx, unit) txm" where
  "setScriptTxFunc B nm script = tx_buckets B [] [scriptBucket] (tx_do (bt_put B [scriptBucket] nm script))"

definition SetScript :: "'tx bolt \<Rightarrow> string \<Rightarrow> string \<Rightarrow> 'tx store \<Rightarrow> (store_error option \<times> 'tx store) option" where
  "SetScript B nm script = db_Update B (setScriptTxFunc B nm script)"

definition GetScript :: "'tx bolt \<Rightarrow> string \<Rightarrow> 'tx store \<Rightarrow> ((store_error + string) \<times> 'tx store) option" where
  "GetScript B nm =
     db_Begin B False (tx_buckets B [] [scriptBucket] (tx_read (\<lambda>tx. case bt_get B [scriptBucket] nm tx of None \<Rightarrow> [] | Some v \<Rightarrow> v)))"

definition GetScripts :: "'tx bolt \<Rightarrow> 'tx store \<Rightarrow> ((store_error + string list) \<times> 'tx store) option" where
  "GetScripts B =
     db_Begin B False (tx_buckets B [] [scriptBucket] (tx_read (\<lambda>tx. map (\<lambda>(k, v). case v of None \<Rightarrow> [] | Some s \<Rightarrow> s) (bt_items B [scriptBucket] tx))))"

definition ListScript :: "'tx bolt \<Rightarrow> 'tx store \<Rightarrow> ((store_error + string list) \<times> 'tx store) option" where
  "ListScript B = db_Begin B False (tx_buckets B [] [scriptBucket] (tx_read (\<lambda>tx. map fst (bt_items B [scriptBucket] tx))))"

definition DeleteScript :: "'tx bolt \<Rightarrow> string \<Rightarrow> 'tx store \<Rightarrow> ((store_error + unit) \<times> 'tx store) option" where
  "DeleteScript B nm = db_Begin B False (tx_buckets B [] [scriptBucket] (tx_do (bt_delete B [scriptBucket] nm)))"

text \<open>The loops that decode the items of a bucket and keep some of them.\<close>

fun decode_items :: "(string \<Rightarrow> 'a option) \<Rightarrow> ('a \<Rightarrow> bool) \<Rightarrow> (string \<times> string option) list \<Rightarrow> 'a list option" where
  "decode_items dec keep [] = Some []"
| "decode_items dec keep ((k, v) # items) = do {
     s \<leftarrow> v;
     x \<leftarrow> dec s;
     xs \<leftarrow> decode_items dec keep items;
     Some (if keep x then x # xs else xs)
   }"

definition setTrigger :: "'tx bolt \<Rightarrow> 'r store_codec \<Rightarrow> 'r stored_trigger \<Rightarrow> ('tx, unit) txm" where
  "setTrigger B C tr =
     tx_buckets B [] [triggerBucket]
       (tx_bind (tx_some ErrEncode (sc_trigger C tr)) (\<lambda>trb. tx_do (bt_put B [triggerBucket] (int_str (tg_ID tr)) trb)))"

definition SetTrigger :: "'tx bolt \<Rightarrow> 'r store_codec \<Rightarrow> 'r stored_trigger \<Rightarrow> 'tx store \<Rightarrow> (store_error option \<times> 'tx store) option" where
  "SetTrigger B C tr = db_Update B (setTrigger B C tr)"

definition GetTriggers :: "'tx bolt \<Rightarrow> 'r store_codec \<Rightarrow> 'tx store \<Rightarrow> ((store_error + 'r stored_trigger list) \<times> 'tx store) option" where
  "GetTriggers B C =
     db_Begin B True (tx_buckets B [] [triggerBucket]
       (tx_bind (tx_read (bt_items B [triggerBucket])) (\<lambda>items. tx_some ErrDecode (decode_items (sc_trigger_of C) (\<lambda>_. True) items))))"

definition DeleteTrigger :: "'tx bolt \<Rightarrow> string \<Rightarrow> 'tx store \<Rightarrow> ((store_error + unit) \<times> 'tx store) option" where
  "DeleteTrigger B trid = db_Begin B True (tx_buckets B [] [triggerBucket] (tx_do (bt_delete B [triggerBucket] trid)))"

section \<open>Queues\<close>

text \<open>An item of a queue is stored under the time of the call in nanoseconds.\<close>

definition setQueueTxFunc :: "'tx bolt \<Rightarrow> int \<Rightarrow> string \<Rightarrow> string \<Rightarrow> ('tx, unit) txm" where
  "setQueueTxFunc B now k v = tx_buckets B [] [queueBucket, k] (tx_do (bt_put B [queueBucket, k] (int_str now) v))"

definition SetQueue :: "'tx bolt \<Rightarrow> int \<Rightarrow> string \<Rightarrow> string \<Rightarrow> 'tx store \<Rightarrow> (store_error option \<times> 'tx store) option" where
  "SetQueue B now k v = db_Update B (setQueueTxFunc B now k v)"

definition GetQueue :: "'tx bolt \<Rightarrow> string \<Rightarrow> 'tx store \<Rightarrow> ((store_error + string) \<times> 'tx store) option" where
  "GetQueue B k =
     db_Begin B False (tx_buckets B [] [queueBucket, k]
       (tx_bind (tx_read (bt_items B [queueBucket, k])) (\<lambda>items.
          case items of
            [] \<Rightarrow> tx_ret []
          | (t, v) # _ \<Rightarrow>
              tx_bind (tx_do (bt_delete B [queueBucket, k] t)) (\<lambda>_. tx_ret (case v of None \<Rightarrow> [] | Some s \<Rightarrow> s)))))"

section \<open>Broker records\<close>

text \<open>The record of a broker is stored under the identifier of the broker, so a new record replaces the last one.\<close>

definition setBrokerRecordTxFunc :: "'tx bolt \<Rightarrow> 'r store_codec \<Rightarrow> 'r brokerRecordLocal \<Rightarrow> ('tx, unit) txm" where
  "setBrokerRecordTxFunc B C br =
     (let b = int_str (rl_BrokerID br)
      in tx_buckets B [] [brokerRecordBucket, b]
           (tx_bind (tx_some ErrEncode (sc_record C br)) (\<lambda>v. tx_ignore (tx_do (bt_put B [brokerRecordBucket, b] b v)) (tx_ret ()))))"

definition SetBrokerRecord :: "'tx bolt \<Rightarrow> 'r store_codec \<Rightarrow> 'r brokerRecordLocal \<Rightarrow> 'tx store \<Rightarrow> (store_error option \<times> 'tx store) option" where
  "SetBrokerRecord B C br = db_Update B (setBrokerRecordTxFunc B C br)"

definition deleteBrokerRecordTxFunc :: "'tx bolt \<Rightarrow> string \<Rightarrow> ('tx, unit) txm" where
  "deleteBrokerRecordTxFunc B b =
     tx_buckets B [] [brokerRecordBucket]
       (tx_bind (tx_read (bt_exists B [brokerRecordBucket, b]))
          (\<lambda>found. if found then tx_do (bt_delete_bucket B [brokerRecordBucket, b]) else tx_ret ()))"

definition GetBrokerRecord ::
  "'tx bolt \<Rightarrow> 'r store_codec \<Rightarrow> int \<Rightarrow> int \<Rightarrow> 'tx store \<Rightarrow> ((store_error + 'r brokerRecordLocal list) \<times> 'tx store) option" where
  "GetBrokerRecord B C workflowID brokerID =
     db_Begin B False (tx_buckets B [] [brokerRecordBucket, int_str brokerID]
       (tx_bind (tx_read (bt_items B [brokerRecordBucket, int_str brokerID])) (\<lambda>items.
          tx_some ErrDecode (decode_items (sc_record_of C) (\<lambda>br. workflowID = 0 \<or> workflowID = rl_WorkflowID br) items))))"

section \<open>Tasks\<close>

definition taskHasMetadata :: "(string, string) fmap \<Rightarrow> (string, string) fmap \<Rightarrow> bool" where
  "taskHasMetadata task_md md \<longleftrightarrow>
     fmdom task_md \<noteq> {||} \<and> fBall (fmdom md) (\<lambda>k. fmlookup task_md k = fmlookup md k)"

definition FormatBool :: "bool \<Rightarrow> string" where
  "FormatBool b = (if b then ''true'' else ''false'')"

definition Contains :: "string \<Rightarrow> string \<Rightarrow> bool" where
  "Contains s sub = list_ex (\<lambda>i. HasPrefix (drop i s) sub) [0..<Suc (length s)]"

definition tasksFn :: "taskOptions \<Rightarrow> 'r agent_task \<Rightarrow> bool" where
  "tasksFn opt t \<longleftrightarrow>
     (to_WorkflowID opt = 0 \<or> to_WorkflowID opt = at_WorkflowID t) \<and>
     (fmdom (to_Metadata opt) = {||} \<or> taskHasMetadata (at_Metadata t) (to_Metadata opt)) \<and>
     (to_Query opt = [] \<or> Contains (at_Name t) (to_Query opt)) \<and>
     (to_Disabled opt = [] \<or> FormatBool (at_Disabled t) = to_Disabled opt) \<and>
     (at_Status t = [] \<or> to_Status opt = [] \<or> at_Status t = to_Status opt) \<and>
     (to_NoScheduler opt = [] \<or> to_NoScheduler opt = ''true'' \<and> at_Schedule t = [] \<or> to_NoScheduler opt = ''false'' \<and> at_Schedule t \<noteq> []) \<and>
     (to_Name opt = [] \<or> at_Name t = to_Name opt)"

text \<open>Without options all tasks are returned.\<close>

definition GetTasks ::
  "'tx bolt \<Rightarrow> 'r store_codec \<Rightarrow> taskOptions option \<Rightarrow> 'tx store \<Rightarrow> ((store_error + 'r agent_task list) \<times> 'tx store) option" where
  "GetTasks B C options =
     db_Begin B True (tx_buckets B [] [tasksBucket]
       (tx_bind (tx_read (bt_items B [tasksBucket])) (\<lambda>items.
          tx_some ErrDecode (decode_items (sc_task_of C) (case options of None \<Rightarrow> \<lambda>_. True | Some opt \<Rightarrow> tasksFn opt) items))))"

definition getTaskTxFunc :: "'tx bolt \<Rightarrow> 'r store_codec \<Rightarrow> string \<Rightarrow> ('tx, 'r agent_task) txm" where
  "getTaskTxFunc B C taskID =
     tx_buckets B [] [tasksBucket]
       (tx_bind (tx_read (bt_get B [tasksBucket] taskID)) (\<lambda>v.
          tx_bind (tx_some ErrNotFound v) (\<lambda>s. tx_some ErrDecode (sc_task_of C s))))"

text \<open>The error of the transaction is dropped: a task that is not there is the zero task.\<close>

definition GetTask :: "'tx bolt \<Rightarrow> 'r store_codec \<Rightarrow> string \<Rightarrow> 'tx store \<Rightarrow> ('r agent_task \<times> 'tx store) option" where
  "GetTask B C i s = do {
     (err, s1) \<leftarrow> db_Update B (tx_bind (getTaskTxFunc B C i) (\<lambda>_. tx_ret ())) s;
     Some (case fst (getTaskTxFunc B C i (st_db s)) of Inl _ \<Rightarrow> sc_task_zero C | Inr t \<Rightarrow> t, s1)
   }"

text \<open>What the task takes over from the stored one.  The bytes that are written were made before, so none of it is
  stored; only an unreadable schedule has an effect.\<close>

definition merge_task :: "(string \<Rightarrow> int option) \<Rightarrow> 'r agent_task \<Rightarrow> 'r agent_task \<Rightarrow> 'r agent_task option" where
  "merge_task nxt et t0 =
     (let t = t0\<lparr>at_LastError := (if nt_After (at_LastError et) (at_LastError t0) then at_LastError et else at_LastError t0),
                 at_LastSuccess := (if nt_After (at_LastSuccess et) (at_LastSuccess t0) then at_LastSuccess et else at_LastSuccess t0),
                 at_SuccessCount := max (at_SuccessCount et) (at_SuccessCount t0), at_ErrorCount := max (at_ErrorCount et) (at_ErrorCount t0),
                 at_Status := (if at_Status et \<noteq> [] then at_Status et else at_Status t0)\<rparr>
      in if at_Schedule t \<noteq> at_Schedule et
         then (if at_Schedule t = [] then Some (t\<lparr>at_Next := 0\<rparr>) else map_option (\<lambda>n. t\<lparr>at_Next := n\<rparr>) (nxt (at_Schedule t)))
         else Some (t\<lparr>at_Next := max (at_Next t) (at_Next et)\<rparr>))"

definition setTaskTxFunc :: "'tx bolt \<Rightarrow> 'r store_codec \<Rightarrow> (string \<Rightarrow> int option) \<Rightarrow> 'r agent_task \<Rightarrow> ('tx, unit) txm" where
  "setTaskTxFunc B C nxt t =
     (let w = [workflowBucket, int_str (at_WorkflowID t), tasksBucket]
      in tx_buckets B [] w
           (tx_bind (tx_some ErrEncode (sc_task C t)) (\<lambda>bt.
            tx_bind (tx_do (bt_put B w (at_ID t) bt)) (\<lambda>_.
            tx_buckets B [] [tasksBucket]
              (tx_bind (tx_read (bt_get B [tasksBucket] (at_ID t))) (\<lambda>te.
               tx_bind
                 (case te of
                    None \<Rightarrow> tx_ret t
                  | Some s \<Rightarrow> tx_bind (tx_some ErrDecode (sc_task_of C s)) (\<lambda>et. tx_some ErrSchedule (merge_task nxt et t)))
                 (\<lambda>_. tx_ignore (tx_do (bt_put B [tasksBucket] (at_ID t) bt)) (tx_ret ()))))))))"

definition SetTask ::
  "'tx bolt \<Rightarrow> 'r store_codec \<Rightarrow> (string \<Rightarrow> int option) \<Rightarrow> 'r agent_task \<Rightarrow> 'tx store \<Rightarrow> (store_error option \<times> 'tx store) option" where
  "SetTask B C nxt t = db_Update B (setTaskTxFunc B C nxt t)"

text \<open>The index of the workflow is asked to forget the identifier of the workflow, not that of the task.\<close>

definition deleteTaskTxFunc :: "'tx bolt \<Rightarrow> 'r store_codec \<Rightarrow> string \<Rightarrow> ('tx, unit) txm" where
  "deleteTaskTxFunc B C taskID =
     tx_buckets B [] [tasksBucket]
       (tx_bind (tx_read (bt_get B [tasksBucket] taskID)) (\<lambda>v.
        tx_bind (tx_some ErrNotFound v) (\<lambda>s.
        tx_bind (tx_some ErrDecode (sc_task_of C s)) (\<lambda>t.
          (let w = [workflowBucket, int_str (at_WorkflowID t), tasksBucket]
           in tx_buckets B [] w
                (tx_bind (tx_do (bt_delete B w (int_str (at_WorkflowID t)))) (\<lambda>_. tx_do (bt_delete B [tasksBucket] taskID))))))))"

definition deleteExecutionsTxFunc :: "'tx bolt \<Rightarrow> string \<Rightarrow> ('tx, unit) txm" where
  "deleteExecutionsTxFunc B taskID = tx_buckets B [] [executionsBucket] (tx_do (bt_delete_bucket B [executionsBucket, taskID]))"

text \<open>The error of the transaction is dropped.\<close>

definition DeleteTask :: "'tx bolt \<Rightarrow> 'r store_codec \<Rightarrow> string \<Rightarrow> 'tx store \<Rightarrow> 'tx store option" where
  "DeleteTask B C i s =
     map_option snd (db_Update B (tx_bind (deleteTaskTxFunc B C i) (\<lambda>_. deleteExecutionsTxFunc B i)) s)"

section \<open>Executions\<close>

definition setExecutionTxFunc :: "'tx bolt \<Rightarrow> 'r store_codec \<Rightarrow> string \<Rightarrow> 'r execution \<Rightarrow> ('tx, unit) txm" where
  "setExecutionTxFunc B C taskID ex =
     tx_buckets B [] [executionsBucket, taskID]
       (tx_bind (tx_some ErrEncode (sc_execution C ex)) (\<lambda>eb. tx_do (bt_put B [executionsBucket, taskID] (xe_Id ex) eb)))"

definition SetExecution :: "'tx bolt \<Rightarrow> 'r store_codec \<Rightarrow> string \<Rightarrow> 'r execution \<Rightarrow> 'tx store \<Rightarrow> (store_error option \<times> 'tx store) option" where
  "SetExecution B C taskID ex = db_Update B (setExecutionTxFunc B C taskID ex)"

definition count_execution :: "'r execution \<Rightarrow> 'r agent_task \<Rightarrow> 'r agent_task" where
  "count_execution ex t =
     (if xe_Success ex then t\<lparr>at_LastSuccess := Some (xe_FinishedAt ex), at_SuccessCount := at_SuccessCount t + 1\<rparr>
      else t\<lparr>at_LastError := Some (xe_FinishedAt ex), at_ErrorCount := at_ErrorCount t + 1\<rparr>)"

definition SetExecutionDone ::
  "'tx bolt \<Rightarrow> 'r store_codec \<Rightarrow> (string \<Rightarrow> int option) \<Rightarrow> string \<Rightarrow> 'r execution \<Rightarrow> 'tx store \<Rightarrow> (store_error option \<times> 'tx store) option" where
  "SetExecutionDone B C nxt taskID ex =
     db_Update B (tx_bind (setExecutionTxFunc B C taskID ex) (\<lambda>_.
       tx_bind (getTaskTxFunc B C taskID) (\<lambda>t. setTaskTxFunc B C nxt (count_execution ex t))))"

text \<open>Decoding follows the commit, so an execution that does not decode is an error after it.\<close>

definition GetExecutions :: "'tx bolt \<Rightarrow> 'r store_codec \<Rightarrow> string \<Rightarrow> 'tx store \<Rightarrow> ((store_error + 'r execution list) \<times> 'tx store) option" where
  "GetExecutions B C taskID s = do {
     (r, s1) \<leftarrow> db_Begin B True (tx_buckets B [] [executionsBucket]
       (tx_bind (tx_read (bt_exists B [executionsBucket, taskID])) (\<lambda>found.
          if found then tx_read (bt_items B [executionsBucket, taskID]) else tx_fail ErrNotFound))) s;
     Some (case r of
             Inl e \<Rightarrow> Inl e
           | Inr items \<Rightarrow> (case decode_items (sc_execution_of C) (\<lambda>_. True) items of None \<Rightarrow> Inl ErrDecode | Some xs \<Rightarrow> Inr xs), s1)
   }"

section \<open>Brokers and workflows\<close>

definition setBrokerTxFunc :: "'tx bolt \<Rightarrow> 'r store_codec \<Rightarrow> 'r stored_broker \<Rightarrow> ('tx, unit) txm" where
  "setBrokerTxFunc B C b =
     (let w = [workflowBucket, int_str (sb_WorkflowID b), brokersBucket]; i = int_str (sb_ID b)
      in tx_buckets B [] w (tx_buckets B [] [brokersBucket]
           (tx_bind (tx_some ErrEncode (sc_broker C b)) (\<lambda>bt.
              tx_ignore (tx_do (bt_put B [brokersBucket] i bt)) (tx_ignore (tx_do (bt_put B w i bt)) (tx_ret ()))))))"

definition SetBroker :: "'tx bolt \<Rightarrow> 'r store_codec \<Rightarrow> 'r stored_broker \<Rightarrow> 'tx store \<Rightarrow> (store_error option \<times> 'tx store) option" where
  "SetBroker B C b = db_Update B (setBrokerTxFunc B C b)"

definition getBrokerTxFunc :: "'tx bolt \<Rightarrow> 'r store_codec \<Rightarrow> string \<Rightarrow> ('tx, 'r stored_broker) txm" where
  "getBrokerTxFunc B C i =
     tx_buckets B [] [brokersBucket]
       (tx_bind (tx_read (bt_get B [brokersBucket] i)) (\<lambda>v.
          tx_bind (tx_some ErrNotFound v) (\<lambda>s. tx_some ErrDecode (sc_broker_of C s))))"

definition GetBroker :: "'tx bolt \<Rightarrow> 'r store_codec \<Rightarrow> string \<Rightarrow> 'tx store \<Rightarrow> ('r stored_broker \<times> 'tx store) option" where
  "GetBroker B C i s = do {
     (err, s1) \<leftarrow> db_Update B (tx_bind (getBrokerTxFunc B C i) (\<lambda>_. tx_ret ())) s;
     Some (case fst (getBrokerTxFunc B C i (st_db s)) of Inl _ \<Rightarrow> sc_broker_zero C | Inr b \<Rightarrow> b, s1)
   }"

definition GetBrokers :: "'tx bolt \<Rightarrow> 'r store_codec \<Rightarrow> 'tx store \<Rightarrow> ((store_error + 'r stored_broker list) \<times> 'tx store) option" where
  "GetBrokers B C =
     db_Begin B True (tx_buckets B [] [brokersBucket]
       (tx_bind (tx_read (bt_items B [brokersBucket])) (\<lambda>items.
          tx_some ErrDecode (decode_items (sc_broker_of C) (\<lambda>b. sb_ID b \<noteq> 0) items))))"

definition deleteBrokerTxFunc :: "'tx bolt \<Rightarrow> 'r store_codec \<Rightarrow> string \<Rightarrow> ('tx, unit) txm" where
  "deleteBrokerTxFunc B C i =
     tx_buckets B [] [brokersBucket]
       (tx_bind (tx_read (bt_get B [brokersBucket] i)) (\<lambda>v.
        tx_bind (tx_some ErrNotFound v) (\<lambda>s.
        tx_bind (tx_some ErrDecode (sc_broker_of C s)) (\<lambda>b.
          (let w = [workflowBucket, int_str (sb_WorkflowID b), brokersBucket]
           in tx_buckets B [] w
                (tx_bind (tx_do (bt_delete B w (int_str (sb_WorkflowID b)))) (\<lambda>_. tx_do (bt_delete B [brokersBucket] i))))))))"

definition DeleteBroker :: "'tx bolt \<Rightarrow> 'r store_codec \<Rightarrow> string \<Rightarrow> 'tx store \<Rightarrow> 'tx store option" where
  "DeleteBroker B C i s =
     map_option snd (db_Update B (tx_bind (deleteBrokerTxFunc B C i) (\<lambda>_. deleteBrokerRecordTxFunc B i)) s)"

text \<open>The loop over the brokers moves the cursor over the tasks, which is at its end, so only the first broker is
  looked at.\<close>

definition first_only :: "'a list \<Rightarrow> 'a list" where
  "first_only xs = take 1 xs"

definition deleteWorkflowTxFunc :: "'tx bolt \<Rightarrow> 'r store_codec \<Rightarrow> string \<Rightarrow> ('tx, unit) txm" where
  "deleteWorkflowTxFunc B C w =
     tx_buckets B [] [workflowBucket, w, tasksBucket] (tx_buckets B [workflowBucket, w] [brokersBucket]
       (tx_bind (tx_read (bt_items B [workflowBucket, w, tasksBucket])) (\<lambda>ts.
        tx_ignore (\<lambda>tx. (Inr (), fold (\<lambda>(k, _). snd \<circ> deleteTaskTxFunc B C k) ts tx))
          (tx_bind (tx_read (bt_items B [workflowBucket, w, brokersBucket])) (\<lambda>bs.
           tx_ignore (\<lambda>tx. (Inr (), fold (\<lambda>(k, _). snd \<circ> deleteBrokerTxFunc B C k) (first_only bs) tx))
             (tx_do (bt_delete_bucket B [workflowBucket, w])))))))"

definition DeleteWorkflow :: "'tx bolt \<Rightarrow> 'r store_codec \<Rightarrow> string \<Rightarrow> 'tx store \<Rightarrow> 'tx store option" where
  "DeleteWorkflow B C w s = map_option snd (db_Update B (deleteWorkflowTxFunc B C w) s)"

definition getWorklowTxFunc :: "'tx bolt \<Rightarrow> string \<Rightarrow> ('tx, string list \<times> string list) txm" where
  "getWorklowTxFunc B w =
     tx_buckets B [] [workflowBucket, w, tasksBucket] (tx_buckets B [workflowBucket, w] [brokersBucket]
       (tx_read (\<lambda>tx. (map fst (bt_items B [workflowBucket, w, tasksBucket] tx), first_only (map fst (bt_items B [workflowBucket, w, brokersBucket] tx))))))"

text \<open>The identifiers of the tasks and brokers of a workflow; one that is not a number counts as zero.\<close>

definition GetWorkflow :: "'tx bolt \<Rightarrow> string \<Rightarrow> 'tx store \<Rightarrow> ((int list \<times> int list) \<times> 'tx store) option" where
  "GetWorkflow B w s = do {
     (err, s1) \<leftarrow> db_Update B (tx_bind (getWorklowTxFunc B w) (\<lambda>_. tx_ret ())) s;
     let num = map (\<lambda>k. case ParseInt k of None \<Rightarrow> 0 | Some i \<Rightarrow> i);
     Some (case fst (getWorklowTxFunc B w (st_db s)) of Inl _ \<Rightarrow> ([], []) | Inr (ts, bs) \<Rightarrow> (num ts, num bs), s1)
   }"

end
