(* ===== verification/Agent_Store_Props.thy ===== *)
theory Agent_Store_Props
  imports Agent_Store "HOL-Library.List_Lexorder" "HOL-Library.Char_ord"
begin

text \<open>
  Properties of the daemon's database.  The locale \<open>bolt_db\<close> states what Bolt documents of its buckets; it is
  interpreted for a tree of buckets, which also runs the examples.  Under these laws the buckets of the
  store keep their shape, the queues are first-in first-out, and tasks are found again; the examples show
  which deletions do not take place.
\<close>

section \<open>What Bolt promises\<close>

locale bolt_db =
  fixes B :: "'tx bolt"
  assumes root: "bt_exists B [] tx"
    and inside: "bt_exists B (p @ [n]) tx \<Longrightarrow> bt_exists B p tx"
    and value_in: "bt_get B p k tx = Some v \<Longrightarrow> bt_exists B p tx"
    and create: "n \<noteq> [] \<Longrightarrow> bt_exists B p tx \<Longrightarrow> bt_get B p n tx = None \<Longrightarrow>
      \<exists>tx'. bt_create B (p @ [n]) tx = Some tx' \<and> (\<forall>q. bt_exists B q tx' \<longleftrightarrow> bt_exists B q tx \<or> q = p @ [n]) \<and> (\<forall>q k. bt_get B q k tx' = bt_get B q k tx)"
    and create_empty: "bt_create B (p @ [[]]) tx = None"
    and put_empty: "bt_put B p [] v tx = None"
    and put: "p \<noteq> [] \<Longrightarrow> k \<noteq> [] \<Longrightarrow> bt_exists B p tx \<Longrightarrow> \<not> bt_exists B (p @ [k]) tx \<Longrightarrow>
      \<exists>tx'. bt_put B p k v tx = Some tx' \<and> (\<forall>q. bt_exists B q tx' \<longleftrightarrow> bt_exists B q tx) \<and>
        (\<forall>q j. bt_get B q j tx' = (if q = p \<and> j = k then Some v else bt_get B q j tx))"
    and delete: "bt_exists B p tx \<Longrightarrow> \<not> bt_exists B (p @ [k]) tx \<Longrightarrow>
      \<exists>tx'. bt_delete B p k tx = Some tx' \<and> (\<forall>q. bt_exists B q tx' \<longleftrightarrow> bt_exists B q tx) \<and>
        (\<forall>q j. bt_get B q j tx' = (if q = p \<and> j = k then None else bt_get B q j tx))"
    and delete_bucket: "bt_exists B (p @ [n]) tx \<Longrightarrow>
      \<exists>tx'. bt_delete_bucket B (p @ [n]) tx = Some tx' \<and> (\<forall>q. bt_exists B q tx' \<longleftrightarrow> bt_exists B q tx \<and> take (Suc (length p)) q \<noteq> p @ [n]) \<and>
        (\<forall>q j. bt_get B q j tx' = (if take (Suc (length p)) q = p @ [n] then None else bt_get B q j tx))"
    and no_bucket: "\<not> bt_exists B (p @ [n]) tx \<Longrightarrow> bt_delete_bucket B (p @ [n]) tx = None"
    and items: "bt_exists B p tx \<Longrightarrow>
      map fst (bt_items B p tx) = sorted_list_of_set {k. bt_get B p k tx \<noteq> None \<or> bt_exists B (p @ [k]) tx} \<and>
      finite {k. bt_get B p k tx \<noteq> None \<or> bt_exists B (p @ [k]) tx} \<and> (\<forall>(k, v)\<in>set (bt_items B p tx). v = bt_get B p k tx)"
    and commits: "bt_commit B tx"

section \<open>A tree of buckets\<close>

datatype bolt_node = BoltValue string | BoltBucket "(string, bolt_node) fmap"

type_synonym bolt_tree = "(string, bolt_node) fmap"

fun tree_bucket :: "path \<Rightarrow> bolt_tree \<Rightarrow> bolt_tree option" where
  "tree_bucket [] m = Some m"
| "tree_bucket (b # p) m = (case fmlookup m b of Some (BoltBucket m') \<Rightarrow> tree_bucket p m' | _ \<Rightarrow> None)"

fun tree_modify :: "path \<Rightarrow> (bolt_tree \<Rightarrow> bolt_tree) \<Rightarrow> bolt_tree \<Rightarrow> bolt_tree" where
  "tree_modify [] f m = f m"
| "tree_modify (b # p) f m =
     (case fmlookup m b of Some (BoltBucket m') \<Rightarrow> fmupd b (BoltBucket (tree_modify p f m')) m | _ \<Rightarrow> m)"

definition node_value :: "bolt_node option \<Rightarrow> string option" where
  "node_value x = (case x of Some (BoltValue v) \<Rightarrow> Some v | _ \<Rightarrow> None)"

definition is_bucket :: "bolt_node option \<Rightarrow> bool" where
  "is_bucket x = (case x of Some (BoltBucket _) \<Rightarrow> True | _ \<Rightarrow> False)"

definition tree_bolt :: "bolt_tree bolt" where
  "tree_bolt = \<lparr>
     bt_create = (\<lambda>p t. if p = [] \<or> last p = [] then None
        else (case tree_bucket (butlast p) t of
                None \<Rightarrow> None
              | Some m \<Rightarrow> (case fmlookup m (last p) of
                   None \<Rightarrow> Some (tree_modify (butlast p) (fmupd (last p) (BoltBucket fmempty)) t)
                 | Some (BoltBucket _) \<Rightarrow> Some t
                 | Some (BoltValue _) \<Rightarrow> None))),
     bt_exists = (\<lambda>p t. tree_bucket p t \<noteq> None),
     bt_delete_bucket = (\<lambda>p t. if p = [] \<or> tree_bucket p t = None then None else Some (tree_modify (butlast p) (fmdrop (last p)) t)),
     bt_get = (\<lambda>p k t. case tree_bucket p t of None \<Rightarrow> None | Some m \<Rightarrow> node_value (fmlookup m k)),
     bt_put = (\<lambda>p k v t. if p = [] \<or> k = [] then None
        else (case tree_bucket p t of
                None \<Rightarrow> None
              | Some m \<Rightarrow> if is_bucket (fmlookup m k) then None else Some (tree_modify p (fmupd k (BoltValue v)) t))),
     bt_delete = (\<lambda>p k t. case tree_bucket p t of
                None \<Rightarrow> None
              | Some m \<Rightarrow> if is_bucket (fmlookup m k) then None else Some (tree_modify p (fmdrop k) t)),
     bt_items = (\<lambda>p t. case tree_bucket p t of
                None \<Rightarrow> []
              | Some m \<Rightarrow> map (\<lambda>k. (k, node_value (fmlookup m k))) (sorted_list_of_fset (fmdom m))),
     bt_commit = (\<lambda>_. True)\<rparr>"

lemma tree_bucket_append: "tree_bucket (p @ q) m = (case tree_bucket p m of None \<Rightarrow> None | Some m' \<Rightarrow> tree_bucket q m')"
  by (induction p arbitrary: m) (auto split: option.splits bolt_node.splits)

definition tree_get :: "path \<Rightarrow> string \<Rightarrow> bolt_tree \<Rightarrow> string option" where
  "tree_get p k t = (case tree_bucket p t of None \<Rightarrow> None | Some m \<Rightarrow> node_value (fmlookup m k))"

lemma tree_exists_modify:
  assumes "tree_bucket p t = Some m"
  shows "tree_bucket q (tree_modify p f t) \<noteq> None \<longleftrightarrow>
    (if take (length p) q = p then tree_bucket (drop (length p) q) (f m) \<noteq> None else tree_bucket q t \<noteq> None)"
  using assms
proof (induction p arbitrary: q t)
  case (Cons b p)
  obtain m' where m': "fmlookup t b = Some (BoltBucket m')" "tree_bucket p m' = Some m"
    using Cons.prems by (auto split: option.splits bolt_node.splits)
  then show ?case using Cons.IH[OF m'(2)] by (cases q) (auto split: option.splits bolt_node.splits)
qed simp

lemma tree_get_modify:
  assumes "tree_bucket p t = Some m"
  shows "tree_get q k (tree_modify p f t) = (if take (length p) q = p then tree_get (drop (length p) q) k (f m) else tree_get q k t)"
  using assms
proof (induction p arbitrary: q t)
  case (Cons b p)
  obtain m' where m': "fmlookup t b = Some (BoltBucket m')" "tree_bucket p m' = Some m"
    using Cons.prems by (auto split: option.splits bolt_node.splits)
  then show ?case using Cons.IH[OF m'(2)]
    by (cases q) (auto simp: tree_get_def node_value_def split: option.splits bolt_node.splits)
qed (simp add: tree_get_def)

lemma path_split: "q = p @ r \<longleftrightarrow> take (length p) q = p \<and> drop (length p) q = r"
  by (metis append_eq_conv_conj)

lemma path_split_Cons: "take (Suc (length p)) q = p @ [n] \<longleftrightarrow> take (length p) q = p \<and> take 1 (drop (length p) q) = [n]"
proof -
  have "take (Suc (length p)) q = take (length p) q @ take 1 (drop (length p) q)" by (simp add: take_add[of "length p" 1, simplified])
  then show ?thesis by (cases "length p \<le> length q") auto
qed

lemma tree_create:
  assumes "n \<noteq> []" "tree_bucket p t \<noteq> None" "tree_get p n t = None"
  shows "\<exists>t'. bt_create tree_bolt (p @ [n]) t = Some t' \<and> (\<forall>q. tree_bucket q t' \<noteq> None \<longleftrightarrow> tree_bucket q t \<noteq> None \<or> q = p @ [n]) \<and>
    (\<forall>q k. tree_get q k t' = tree_get q k t)"
proof -
  obtain m where m: "tree_bucket p t = Some m" using assms(2) by auto
  show ?thesis
  proof (cases "fmlookup m n")
    case None
    have new: "tree_bucket r (fmupd n (BoltBucket fmempty) m) \<noteq> None \<longleftrightarrow> tree_bucket r m \<noteq> None \<or> r = [n]"
      "tree_get r k (fmupd n (BoltBucket fmempty) m) = tree_get r k m" for r k
    proof -
      have e: "tree_bucket r' fmempty \<noteq> None \<longleftrightarrow> r' = []" "tree_get r' k fmempty = None" for r' k by (cases r'; simp add: tree_get_def node_value_def)+
      show "tree_bucket r (fmupd n (BoltBucket fmempty) m) \<noteq> None \<longleftrightarrow> tree_bucket r m \<noteq> None \<or> r = [n]"
        "tree_get r k (fmupd n (BoltBucket fmempty) m) = tree_get r k m"
        using None e by (cases r; auto simp: tree_get_def node_value_def)+
    qed
    have old: "tree_bucket q t = tree_bucket (drop (length p) q) m" "tree_get q k t = tree_get (drop (length p) q) k m" if "take (length p) q = p" for q k
      using tree_bucket_append[of p "drop (length p) q" t] that m append_take_drop_id[of "length p" q] by (auto simp: tree_get_def)
    have "bt_create tree_bolt (p @ [n]) t = Some (tree_modify p (fmupd n (BoltBucket fmempty)) t)"
      using assms(1) m None by (simp add: tree_bolt_def)
    moreover have "tree_bucket q (tree_modify p (fmupd n (BoltBucket fmempty)) t) \<noteq> None \<longleftrightarrow> tree_bucket q t \<noteq> None \<or> q = p @ [n]" for q
      unfolding tree_exists_modify[OF m] path_split[of q] using new(1) old(1)[of q] by auto
    moreover have "tree_get q k (tree_modify p (fmupd n (BoltBucket fmempty)) t) = tree_get q k t" for q k
      unfolding tree_get_modify[OF m] using new(2) old(2)[of q k] by auto
    ultimately show ?thesis by blast
  next
    case (Some x)
    then obtain m' where "x = BoltBucket m'" using assms(3) m by (cases x) (auto simp: tree_get_def node_value_def)
    then have "bt_create tree_bolt (p @ [n]) t = Some t" "tree_bucket (p @ [n]) t \<noteq> None"
      using Some assms(1) m by (simp_all add: tree_bolt_def tree_bucket_append)
    then show ?thesis by auto
  qed
qed

lemma tree_change:
  assumes m: "tree_bucket p t = Some m" and k: "\<not> is_bucket (fmlookup m k)" "\<not> is_bucket (fmlookup (f m) k)" "\<And>j. j \<noteq> k \<Longrightarrow> fmlookup (f m) j = fmlookup m j"
  shows "tree_bucket q (tree_modify p f t) \<noteq> None \<longleftrightarrow> tree_bucket q t \<noteq> None"
    "tree_get q j (tree_modify p f t) = (if q = p \<and> j = k then node_value (fmlookup (f m) k) else tree_get q j t)"
proof -
  have step: "tree_bucket (c # r) (f m) = tree_bucket (c # r) m" for c r
    using k by (cases "c = k") (auto simp: is_bucket_def split: option.splits bolt_node.splits)
  have old: "tree_bucket q t = tree_bucket (drop (length p) q) m" "tree_get q j t = tree_get (drop (length p) q) j m" if "take (length p) q = p"
    using tree_bucket_append[of p "drop (length p) q" t] that m append_take_drop_id[of "length p" q] by (auto simp: tree_get_def)
  show "tree_bucket q (tree_modify p f t) \<noteq> None \<longleftrightarrow> tree_bucket q t \<noteq> None"
    unfolding tree_exists_modify[OF m] using old(1) step by (cases "drop (length p) q") auto
  have "tree_get r j (f m) = (if r = [] \<and> j = k then node_value (fmlookup (f m) k) else tree_get r j m)" for r
    using step k(3)[of j] by (cases r) (auto simp: tree_get_def)
  then show "tree_get q j (tree_modify p f t) = (if q = p \<and> j = k then node_value (fmlookup (f m) k) else tree_get q j t)"
    unfolding tree_get_modify[OF m] using old(2) path_split[of q p "[]"] by (cases "take (length p) q = p") simp_all
qed

lemma not_bucket: "tree_bucket p t = Some m \<Longrightarrow> tree_bucket (p @ [k]) t = None \<longleftrightarrow> \<not> is_bucket (fmlookup m k)"
  by (auto simp: tree_bucket_append is_bucket_def split: option.splits bolt_node.splits)

lemma tree_put:
  assumes "p \<noteq> []" "k \<noteq> []" "tree_bucket p t \<noteq> None" "tree_bucket (p @ [k]) t = None"
  shows "\<exists>t'. bt_put tree_bolt p k v t = Some t' \<and> (\<forall>q. tree_bucket q t' \<noteq> None \<longleftrightarrow> tree_bucket q t \<noteq> None) \<and>
    (\<forall>q j. tree_get q j t' = (if q = p \<and> j = k then Some v else tree_get q j t))"
proof -
  obtain m where m: "tree_bucket p t = Some m" using assms(3) by auto
  have k: "\<not> is_bucket (fmlookup m k)" using assms(4) not_bucket[OF m] by blast
  have "bt_put tree_bolt p k v t = Some (tree_modify p (fmupd k (BoltValue v)) t)" using assms(1,2) m k by (simp add: tree_bolt_def)
  then show ?thesis using tree_change[OF m k, of "fmupd k (BoltValue v)"] by (auto simp: is_bucket_def node_value_def)
qed

lemma tree_delete:
  assumes "tree_bucket p t \<noteq> None" "tree_bucket (p @ [k]) t = None"
  shows "\<exists>t'. bt_delete tree_bolt p k t = Some t' \<and> (\<forall>q. tree_bucket q t' \<noteq> None \<longleftrightarrow> tree_bucket q t \<noteq> None) \<and>
    (\<forall>q j. tree_get q j t' = (if q = p \<and> j = k then None else tree_get q j t))"
proof -
  obtain m where m: "tree_bucket p t = Some m" using assms(1) by auto
  have k: "\<not> is_bucket (fmlookup m k)" using assms(2) not_bucket[OF m] by blast
  have "bt_delete tree_bolt p k t = Some (tree_modify p (fmdrop k) t)" using m k by (simp add: tree_bolt_def)
  then show ?thesis using tree_change[OF m k, of "fmdrop k"] by (auto simp: is_bucket_def node_value_def)
qed

lemma tree_delete_bucket:
  assumes "tree_bucket (p @ [n]) t \<noteq> None"
  shows "\<exists>t'. bt_delete_bucket tree_bolt (p @ [n]) t = Some t' \<and>
    (\<forall>q. tree_bucket q t' \<noteq> None \<longleftrightarrow> tree_bucket q t \<noteq> None \<and> take (Suc (length p)) q \<noteq> p @ [n]) \<and>
    (\<forall>q j. tree_get q j t' = (if take (Suc (length p)) q = p @ [n] then None else tree_get q j t))"
proof -
  obtain m where m: "tree_bucket p t = Some m" using assms by (auto simp: tree_bucket_append split: option.splits)
  have b: "is_bucket (fmlookup m n)" using assms not_bucket[OF m, of n] by simp
  have old: "tree_bucket q t = tree_bucket (drop (length p) q) m" "tree_get q j t = tree_get (drop (length p) q) j m" if "take (length p) q = p" for q j
    using tree_bucket_append[of p "drop (length p) q" t] that m append_take_drop_id[of "length p" q] by (auto simp: tree_get_def)
  have new: "tree_bucket r (fmdrop n m) \<noteq> None \<longleftrightarrow> tree_bucket r m \<noteq> None \<and> take 1 r \<noteq> [n]"
    "tree_get r j (fmdrop n m) = (if take 1 r = [n] then None else tree_get r j m)" for r j
    using b by (cases r; auto simp: tree_get_def node_value_def is_bucket_def split: option.splits bolt_node.splits)+
  have "bt_delete_bucket tree_bolt (p @ [n]) t = Some (tree_modify p (fmdrop n) t)" using assms by (auto simp: tree_bolt_def)
  moreover have "tree_bucket q (tree_modify p (fmdrop n) t) \<noteq> None \<longleftrightarrow> tree_bucket q t \<noteq> None \<and> take (Suc (length p)) q \<noteq> p @ [n]" for q
    unfolding tree_exists_modify[OF m] path_split_Cons using new(1) old(1)[of q] by auto
  moreover have "tree_get q j (tree_modify p (fmdrop n) t) = (if take (Suc (length p)) q = p @ [n] then None else tree_get q j t)" for q j
    unfolding tree_get_modify[OF m] path_split_Cons using new(2) old(2)[of q j] by auto
  ultimately show ?thesis by blast
qed

lemma tree_items:
  assumes "tree_bucket p t \<noteq> None"
  shows "map fst (bt_items tree_bolt p t) = sorted_list_of_set {k. tree_get p k t \<noteq> None \<or> tree_bucket (p @ [k]) t \<noteq> None} \<and>
    finite {k. tree_get p k t \<noteq> None \<or> tree_bucket (p @ [k]) t \<noteq> None} \<and> (\<forall>(k, v)\<in>set (bt_items tree_bolt p t). v = tree_get p k t)"
proof -
  obtain m where m: "tree_bucket p t = Some m" using assms by auto
  have "{k. tree_get p k t \<noteq> None \<or> tree_bucket (p @ [k]) t \<noteq> None} = fset (fmdom m)"
    using m not_bucket[OF m] by (auto simp: tree_get_def node_value_def is_bucket_def fmlookup_dom_iff split: option.splits bolt_node.splits)
  then show ?thesis using m by (auto simp: tree_bolt_def tree_get_def sorted_list_of_fset.rep_eq comp_def)
qed

lemma tree_bolt_simps [simp]: "bt_exists tree_bolt p t \<longleftrightarrow> tree_bucket p t \<noteq> None" "bt_get tree_bolt p k t = tree_get p k t" "bt_commit tree_bolt t"
  by (simp_all add: tree_bolt_def tree_get_def)

interpretation tree: bolt_db tree_bolt
proof (unfold_locales, goal_cases)
  case (2 p n tx)
  then show ?case by (auto simp: tree_bucket_append split: option.splits)
next
  case (3 p k tx v)
  then show ?case by (auto simp: tree_get_def split: option.splits)
next
  case (4 n p tx)
  then show ?case unfolding tree_bolt_simps by (rule tree_create)
next
  case (5 p tx)
  then show ?case by (simp add: tree_bolt_def)
next
  case (6 p v tx)
  then show ?case by (simp add: tree_bolt_def)
next
  case (7 p k tx v)
  then show ?case unfolding tree_bolt_simps not_not by (rule tree_put)
next
  case (8 p tx k)
  then show ?case unfolding tree_bolt_simps not_not by (rule tree_delete)
next
  case (9 p n tx)
  then show ?case unfolding tree_bolt_simps by (rule tree_delete_bucket)
next
  case (10 p n tx)
  then show ?case by (simp add: tree_bolt_def)
next
  case (11 p tx)
  then show ?case unfolding tree_bolt_simps by (rule tree_items)
qed simp_all

section \<open>The order of the keys of a queue\<close>

lemma nat_str_small: "n < 10 \<Longrightarrow> nat_str n = [char_of (48 + n)]"
  by (simp add: nat_str.simps)

lemma nat_str_large: "\<not> n < 10 \<Longrightarrow> nat_str n = nat_str (n div 10) @ [char_of (48 + n mod 10)]"
  by (subst nat_str.simps) (simp del: nat_str.simps)

declare nat_str.simps [simp del]

lemma nat_str_nonempty: "0 < length (nat_str n)"
  by (cases "n < 10") (simp_all add: nat_str_small[of n] nat_str_large[of n])

lemma nat_str_length: "10 ^ d \<le> n \<Longrightarrow> n < 10 ^ Suc d \<Longrightarrow> length (nat_str n) = Suc d"
proof (induction d arbitrary: n)
  case 0
  then show ?case by (simp add: nat_str_small)
next
  case (Suc d)
  have "10 ^ d \<le> n div 10" "n div 10 < 10 ^ Suc d" using Suc.prems by auto
  then have "length (nat_str (n div 10)) = Suc d" by (rule Suc.IH)
  moreover have "10 * 1 \<le> 10 * (10::nat) ^ d" by (rule mult_le_mono2) simp
  then have "\<not> n < 10" using Suc.prems(1) unfolding power_Suc by linarith
  ultimately show ?case by (simp add: nat_str_large[of n])
qed

lemma digit_less: "x < y \<Longrightarrow> y < 10 \<Longrightarrow> char_of (48 + x) < (char_of (48 + y :: nat) :: char)"
  by (simp add: less_char_def)

lemma nat_str_less: "a < b \<Longrightarrow> length (nat_str a) = length (nat_str b) \<Longrightarrow> nat_str a < nat_str b"
proof (induction a arbitrary: b rule: less_induct)
  case (less a)
  show ?case
  proof (cases "a < 10")
    case True
    have "b < 10" using less.prems(2) nat_str_nonempty[of "b div 10"] nat_str_small[OF True] nat_str_large[of b] by (cases "b < 10") simp_all
    then show ?thesis using less.prems(1) digit_less[of a b] True by (simp add: nat_str_small[of a] nat_str_small[of b] list_less_def)
  next
    case False
    then have b: "\<not> b < 10" using less.prems(1) by simp
    have l: "length (nat_str (a div 10)) = length (nat_str (b div 10))" using less.prems(2) by (simp add: nat_str_large[OF False] nat_str_large[OF b])
    consider "a div 10 < b div 10" | "a div 10 = b div 10" "a mod 10 < b mod 10"
      using less.prems(1) by (metis div_le_mono div_mult_mod_eq le_neq_implies_less less_imp_le nat_add_left_cancel_less)
    then show ?thesis
    proof cases
      case 1
      then have "nat_str (a div 10) < nat_str (b div 10)" using less.IH[of "a div 10" "b div 10"] l False by simp
      then show ?thesis using lexord_sufI[of "nat_str (a div 10)" "nat_str (b div 10)"] l by (simp add: list_less_def nat_str_large[OF False] nat_str_large[OF b])
    next
      case 2
      then show ?thesis using digit_less[of "a mod 10" "b mod 10"] by (simp add: list_less_def nat_str_large[OF False] nat_str_large[OF b] lexord_append_leftI)
    qed
  qed
qed

lemma int_str_less:
  assumes "10 ^ 18 \<le> a" "a < b" "b < 10 ^ 19"
  shows "int_str a < int_str b"
proof -
  have "10 ^ 18 \<le> nat a" "nat a < 10 ^ Suc 18" "10 ^ 18 \<le> nat b" "nat b < 10 ^ Suc 18" "nat a < nat b" using assms by auto
  then have "nat_str (nat a) < nat_str (nat b)"
    by (intro nat_str_less) (simp_all only: nat_str_length[of 18 "nat a"] nat_str_length[of 18 "nat b"])
  moreover have "\<not> a < 0" "\<not> b < 0" using assms by auto
  ultimately show ?thesis by (simp add: int_str_def)
qed

section \<open>The shape of the database\<close>

text \<open>Which paths are buckets, and which buckets hold values.\<close>

fun bucket_path :: "path \<Rightarrow> bool" where
  "bucket_path [] = True"
| "bucket_path [a] = (a \<in> {workflowBucket, tasksBucket, executionsBucket, metaBucket, brokersBucket, queueBucket, brokerRecordBucket, scriptBucket, triggerBucket})"
| "bucket_path [a, x] = (a \<in> {workflowBucket, executionsBucket, queueBucket, brokerRecordBucket})"
| "bucket_path [a, x, b] = (a = workflowBucket \<and> b \<in> {tasksBucket, brokersBucket})"
| "bucket_path _ = False"

fun value_path :: "path \<Rightarrow> bool" where
  "value_path [a] = (a \<in> {metaBucket, tasksBucket, brokersBucket, scriptBucket, triggerBucket})"
| "value_path [a, x] = (a \<in> {executionsBucket, queueBucket, brokerRecordBucket})"
| "value_path [a, x, b] = (a = workflowBucket \<and> b \<in> {tasksBucket, brokersBucket})"
| "value_path _ = False"

definition store_ok :: "'tx bolt \<Rightarrow> 'tx \<Rightarrow> bool" where
  "store_ok B tx \<longleftrightarrow> (\<forall>p. bt_exists B p tx \<longrightarrow> bucket_path p) \<and> (\<forall>p k. bt_get B p k tx \<noteq> None \<longrightarrow> value_path p)"

lemma store_ok_change:
  assumes "store_ok B tx" "\<And>q. bt_exists B q tx' \<Longrightarrow> bt_exists B q tx"
    and "\<And>q j. bt_get B q j tx' \<noteq> None \<Longrightarrow> bt_get B q j tx \<noteq> None \<or> value_path q"
  shows "store_ok B tx'"
  using assms unfolding store_ok_def by blast

lemma bucket_path_init: "bucket_path (p @ [n]) \<Longrightarrow> bucket_path p"
  by (cases p rule: bucket_path.cases) auto

lemma bucket_path_init2: "bucket_path (p @ q) \<Longrightarrow> bucket_path p"
  by (induction q rule: rev_induct) (auto dest: bucket_path_init simp flip: append_assoc)

lemma bucket_in_no_values: "bucket_path (p @ [n]) \<Longrightarrow> \<not> value_path p"
  by (cases p rule: bucket_path.cases) auto

lemma value_path_nonempty: "value_path p \<Longrightarrow> p \<noteq> []"
  by auto

text \<open>A transaction function that leaves the shape alone when the given buckets exist; the flag says that it also
  leaves every bucket where it is.\<close>

definition keeps :: "'tx bolt \<Rightarrow> bool \<Rightarrow> path set \<Rightarrow> ('tx, 'a) txm \<Rightarrow> bool" where
  "keeps B stay ps f \<longleftrightarrow> (\<forall>tx. store_ok B tx \<longrightarrow> (\<forall>p\<in>ps. bt_exists B p tx) \<longrightarrow>
     store_ok B (snd (f tx)) \<and> (stay \<longrightarrow> (\<forall>p. bt_exists B p tx \<longrightarrow> bt_exists B p (snd (f tx)))))"

named_theorems keeps_rules

lemma keeps_ret [keeps_rules]: "keeps B stay ps (tx_ret a)"
  by (simp add: keeps_def tx_ret_def)

lemma keeps_fail [keeps_rules]: "keeps B stay ps (tx_fail e)"
  by (simp add: keeps_def tx_fail_def)

lemma keeps_read [keeps_rules]: "keeps B stay ps (tx_read f)"
  by (simp add: keeps_def tx_read_def)

lemma keeps_some [keeps_rules]: "keeps B stay ps (tx_some e x)"
  by (cases x) (simp_all add: tx_some_def keeps_rules)

lemma keeps_bind [keeps_rules]: "keeps B True ps f \<Longrightarrow> (\<And>a. keeps B stay ps (k a)) \<Longrightarrow> keeps B stay ps (tx_bind f k)"
  unfolding keeps_def tx_bind_def by (auto split: prod.splits sum.splits)

lemma keeps_ignore [keeps_rules]: "keeps B True ps f \<Longrightarrow> keeps B stay ps k \<Longrightarrow> keeps B stay ps (tx_ignore f k)"
  unfolding keeps_def tx_ignore_def by auto

lemma keeps_if [keeps_rules]: "keeps B stay ps f \<Longrightarrow> keeps B stay ps g \<Longrightarrow> keeps B stay ps (if b then f else g)"
  by simp

lemma keeps_case_list [keeps_rules]: "keeps B stay ps f \<Longrightarrow> (\<And>x xs. keeps B stay ps (g x xs)) \<Longrightarrow> keeps B stay ps (case l of [] \<Rightarrow> f | x # xs \<Rightarrow> g x xs)"
  by (cases l) simp_all

lemma keeps_case_prod [keeps_rules]: "(\<And>a b. keeps B stay ps (f a b)) \<Longrightarrow> keeps B stay ps (case x of (a, b) \<Rightarrow> f a b)"
  by (cases x) simp

lemma keeps_weaken: "keeps B stay ps f \<Longrightarrow> ps \<subseteq> qs \<Longrightarrow> keeps B stay qs f"
  unfolding keeps_def by blast

lemma keeps_fold: "(\<And>x. keeps B True ps (f x)) \<Longrightarrow> keeps B True ps (\<lambda>tx. (Inr (), fold (\<lambda>(x, _). snd \<circ> f x) xs tx))"
proof (induction xs)
  case (Cons x xs)
  then show ?case unfolding keeps_def by (cases x) auto
qed (simp add: keeps_def)

context bolt_db
begin

lemma keeps_put:
  assumes "p \<in> ps" "value_path p"
  shows "keeps B stay ps (tx_do (bt_put B p k v))"
  unfolding keeps_def
proof (intro allI impI)
  fix tx
  assume ok: "store_ok B tx" and ex: "\<forall>p\<in>ps. bt_exists B p tx"
  have n: "\<not> bt_exists B (p @ [k]) tx" using ok assms(2) bucket_in_no_values unfolding store_ok_def by blast
  show "store_ok B (snd (tx_do (bt_put B p k v) tx)) \<and> (stay \<longrightarrow> (\<forall>q. bt_exists B q tx \<longrightarrow> bt_exists B q (snd (tx_do (bt_put B p k v) tx))))"
  proof (cases "k = []")
    case False
    obtain tx' where "bt_put B p k v tx = Some tx'" "\<And>q. bt_exists B q tx' \<longleftrightarrow> bt_exists B q tx"
      "\<And>q j. bt_get B q j tx' = (if q = p \<and> j = k then Some v else bt_get B q j tx)"
      using put[OF value_path_nonempty[OF assms(2)] False _ n] ex assms(1) by blast
    moreover from this have "store_ok B tx'" using assms(2) by (intro store_ok_change[OF ok]) (auto split: if_splits)
    ultimately show ?thesis by (simp add: tx_do_def)
  qed (use ok in \<open>simp add: put_empty tx_do_def\<close>)
qed

lemma keeps_delete:
  assumes "p \<in> ps" "value_path p"
  shows "keeps B stay ps (tx_do (bt_delete B p k))"
  unfolding keeps_def
proof (intro allI impI)
  fix tx
  assume ok: "store_ok B tx" and ex: "\<forall>p\<in>ps. bt_exists B p tx"
  have n: "\<not> bt_exists B (p @ [k]) tx" using ok assms(2) bucket_in_no_values unfolding store_ok_def by blast
  obtain tx' where "bt_delete B p k tx = Some tx'" "\<And>q. bt_exists B q tx' \<longleftrightarrow> bt_exists B q tx"
    "\<And>q j. bt_get B q j tx' = (if q = p \<and> j = k then None else bt_get B q j tx)"
    using delete[OF _ n] ex assms(1) by blast
  moreover from this have "store_ok B tx'" by (intro store_ok_change[OF ok]) (auto split: if_splits)
  ultimately show "store_ok B (snd (tx_do (bt_delete B p k) tx)) \<and> (stay \<longrightarrow> (\<forall>q. bt_exists B q tx \<longrightarrow> bt_exists B q (snd (tx_do (bt_delete B p k) tx))))"
    by (simp add: tx_do_def)
qed

lemma keeps_delete_bucket: "keeps B False ps (tx_do (bt_delete_bucket B (p @ [n])))"
  unfolding keeps_def
proof (intro allI impI)
  fix tx
  assume ok: "store_ok B tx"
  show "store_ok B (snd (tx_do (bt_delete_bucket B (p @ [n])) tx)) \<and> (False \<longrightarrow> (\<forall>q. bt_exists B q tx \<longrightarrow> bt_exists B q (snd (tx_do (bt_delete_bucket B (p @ [n])) tx))))"
  proof (cases "bt_exists B (p @ [n]) tx")
    case True
    obtain tx' where "bt_delete_bucket B (p @ [n]) tx = Some tx'" "\<And>q. bt_exists B q tx' \<longleftrightarrow> bt_exists B q tx \<and> take (Suc (length p)) q \<noteq> p @ [n]"
      "\<And>q j. bt_get B q j tx' = (if take (Suc (length p)) q = p @ [n] then None else bt_get B q j tx)"
      using delete_bucket[OF True] by blast
    moreover from this have "store_ok B tx'" by (intro store_ok_change[OF ok]) (auto split: if_splits)
    ultimately show ?thesis by (simp add: tx_do_def)
  qed (use ok in \<open>simp add: no_bucket tx_do_def\<close>)
qed

text \<open>Making the buckets on a path: it succeeds when no name is empty, nothing else appears and no value changes.\<close>

lemma create_ok:
  assumes "store_ok B tx" "bt_exists B p tx" "bucket_path (p @ [n])" "n \<noteq> []"
  shows "\<exists>tx'. bt_create B (p @ [n]) tx = Some tx' \<and> store_ok B tx' \<and>
    (\<forall>q. bt_exists B q tx' \<longleftrightarrow> bt_exists B q tx \<or> q = p @ [n]) \<and> (\<forall>q k. bt_get B q k tx' = bt_get B q k tx)"
proof -
  have "bt_get B p n tx = None" using assms(1) bucket_in_no_values[OF assms(3)] unfolding store_ok_def by blast
  from create[OF assms(4,2) this] obtain tx' where t: "bt_create B (p @ [n]) tx = Some tx'" "\<forall>q. bt_exists B q tx' \<longleftrightarrow> bt_exists B q tx \<or> q = p @ [n]"
    "\<forall>q k. bt_get B q k tx' = bt_get B q k tx" by blast
  then have "store_ok B tx'" using assms(1,3) unfolding store_ok_def by metis
  then show ?thesis using t by blast
qed

lemma keeps_buckets:
  "keeps B stay (insert (pre @ p) ps) k \<Longrightarrow> bucket_path (pre @ p) \<Longrightarrow> pre \<in> insert [] ps \<Longrightarrow> keeps B stay ps (tx_buckets B pre p k)"
proof (induction p arbitrary: pre ps)
  case Nil
  then have "\<forall>p\<in>insert pre ps. bt_exists B p tx" if "\<forall>p\<in>ps. bt_exists B p tx" for tx using root that by blast
  then show ?case using Nil.prems(1) unfolding keeps_def append_Nil2 tx_buckets.simps by blast
next
  case (Cons b p)
  have bp: "bucket_path (pre @ [b])" using Cons.prems(2) bucket_path_init2[of "pre @ [b]" p] by simp
  have ih: "keeps B stay (insert (pre @ [b]) ps) (tx_buckets B (pre @ [b]) p k)"
  proof (rule Cons.IH)
    have "insert (pre @ b # p) ps \<subseteq> insert ((pre @ [b]) @ p) (insert (pre @ [b]) ps)" unfolding append_assoc append_Cons append_Nil by blast
    then show "keeps B stay (insert ((pre @ [b]) @ p) (insert (pre @ [b]) ps)) k" by (rule keeps_weaken[OF Cons.prems(1)])
    show "bucket_path ((pre @ [b]) @ p)" using Cons.prems(2) by simp
  qed simp
  show ?case unfolding keeps_def
  proof (intro allI impI)
    fix tx
    assume ok: "store_ok B tx" and ex: "\<forall>p\<in>ps. bt_exists B p tx"
    have pre: "bt_exists B pre tx" using ex Cons.prems(3) root by auto
    show "store_ok B (snd (tx_buckets B pre (b # p) k tx)) \<and> (stay \<longrightarrow> (\<forall>q. bt_exists B q tx \<longrightarrow> bt_exists B q (snd (tx_buckets B pre (b # p) k tx))))"
    proof (cases "b = []")
      case True
      then show ?thesis using ok create_empty by (simp add: tx_bind_def tx_do_def)
    next
      case False
      from create_ok[OF ok pre bp False] obtain tx' where t: "bt_create B (pre @ [b]) tx = Some tx'" "store_ok B tx'"
        "\<And>q. bt_exists B q tx' \<longleftrightarrow> bt_exists B q tx \<or> q = pre @ [b]" by blast
      have "\<forall>p\<in>insert (pre @ [b]) ps. bt_exists B p tx'" using t(3) ex by simp
      then have "store_ok B (snd (tx_buckets B (pre @ [b]) p k tx')) \<and>
          (stay \<longrightarrow> (\<forall>q. bt_exists B q tx' \<longrightarrow> bt_exists B q (snd (tx_buckets B (pre @ [b]) p k tx'))))"
        using ih t(2) unfolding keeps_def by blast
      moreover have "tx_buckets B pre (b # p) k tx = tx_buckets B (pre @ [b]) p k tx'" using t(1) by (simp add: tx_bind_def tx_do_def)
      ultimately show ?thesis using t(3) by simp
    qed
  qed
qed

end

context bolt_db
begin

lemma keeps_delete_bucket2: "keeps B False ps (tx_do (bt_delete_bucket B [a, n]))"
  using keeps_delete_bucket[of ps "[a]" n] by simp

lemmas keeps_ops = keeps_rules keeps_buckets keeps_put keeps_delete keeps_delete_bucket2

lemma keeps_getTask: "keeps B stay ps (getTaskTxFunc B C i)"
  unfolding getTaskTxFunc_def by (intro keeps_ops) simp_all

lemma keeps_setTask: "keeps B stay ps (setTaskTxFunc B C nxt t)"
  unfolding setTaskTxFunc_def Let_def by (intro keeps_ops) (auto intro!: keeps_ops split: option.split)

lemma keeps_deleteTask: "keeps B stay ps (deleteTaskTxFunc B C i)"
  unfolding deleteTaskTxFunc_def Let_def by (intro keeps_ops) simp_all

lemma keeps_setExecution: "keeps B stay ps (setExecutionTxFunc B C i ex)"
  unfolding setExecutionTxFunc_def by (intro keeps_ops) simp_all

lemma keeps_getBroker: "keeps B stay ps (getBrokerTxFunc B C i)"
  unfolding getBrokerTxFunc_def by (intro keeps_ops) simp_all

lemma keeps_setBroker: "keeps B stay ps (setBrokerTxFunc B C b)"
  unfolding setBrokerTxFunc_def Let_def by (intro keeps_ops) simp_all

lemma keeps_deleteBroker: "keeps B stay ps (deleteBrokerTxFunc B C i)"
  unfolding deleteBrokerTxFunc_def Let_def by (intro keeps_ops) simp_all

lemma keeps_deleteBrokerRecord: "keeps B False ps (deleteBrokerRecordTxFunc B i)"
  unfolding deleteBrokerRecordTxFunc_def by (intro keeps_ops) (auto intro!: keeps_ops)

lemma keeps_deleteExecutions: "keeps B False ps (deleteExecutionsTxFunc B i)"
  unfolding deleteExecutionsTxFunc_def by (intro keeps_ops) simp_all

lemma keeps_in_workflow:
  assumes "keeps B stay {[a, b], [a, b, c]} f" "bucket_path [a, b, c]"
  shows "keeps B stay {} (tx_buckets B [] [a, b, c] f)"
proof (rule keeps_buckets)
  have "bt_exists B [a, b] tx" if "bt_exists B [a, b, c] tx" for tx using inside[of "[a, b]" c tx] that by simp
  then show "keeps B stay {[] @ [a, b, c]} f" using assms(1) unfolding keeps_def append_Nil by blast
qed (use assms(2) in simp_all)

lemma keeps_deleteWorkflow: "keeps B False {} (deleteWorkflowTxFunc B C w)"
  unfolding deleteWorkflowTxFunc_def
  by (rule keeps_in_workflow, intro keeps_ops keeps_fold keeps_deleteTask keeps_deleteBroker) simp_all

lemma keeps_getWorkflow: "keeps B stay {} (getWorklowTxFunc B w)"
  unfolding getWorklowTxFunc_def by (rule keeps_in_workflow, intro keeps_ops) simp_all

lemmas keeps_store = keeps_ops keeps_getTask keeps_setTask keeps_deleteTask keeps_setExecution keeps_getBroker keeps_setBroker
  keeps_deleteBroker keeps_deleteBrokerRecord keeps_deleteExecutions keeps_deleteWorkflow keeps_getWorkflow

lemma db_Update_keeps: "keeps B False {} f \<Longrightarrow> store_ok B (st_db s) \<Longrightarrow> db_Update B f s = Some (e, s') \<Longrightarrow> store_ok B (st_db s')"
  unfolding keeps_def db_Update_def by (auto split: if_splits prod.splits sum.splits)

lemma db_Begin_keeps: "keeps B False {} f \<Longrightarrow> store_ok B (st_db s) \<Longrightarrow> db_Begin B rb f s = Some (r, s') \<Longrightarrow> store_ok B (st_db s')"
  unfolding keeps_def db_Begin_def by (auto split: if_splits prod.splits sum.splits)

end

text \<open>The calls of the daemon on its database, in any order and with any arguments.\<close>

inductive store_step :: "'tx bolt \<Rightarrow> 'r store_codec \<Rightarrow> (string \<Rightarrow> int option) \<Rightarrow> 'tx store \<Rightarrow> 'tx store \<Rightarrow> bool"
  for B C nxt s where
  "SetMeta B key v s = Some (e, s') \<Longrightarrow> store_step B C nxt s s'"
| "GetMeta B key s = Some (rs, s') \<Longrightarrow> store_step B C nxt s s'"
| "SetScript B key v s = Some (e, s') \<Longrightarrow> store_step B C nxt s s'"
| "GetScript B key s = Some (rs, s') \<Longrightarrow> store_step B C nxt s s'"
| "GetScripts B s = Some (rl, s') \<Longrightarrow> store_step B C nxt s s'"
| "ListScript B s = Some (rl, s') \<Longrightarrow> store_step B C nxt s s'"
| "DeleteScript B key s = Some (ru, s') \<Longrightarrow> store_step B C nxt s s'"
| "SetTrigger B C tr s = Some (e, s') \<Longrightarrow> store_step B C nxt s s'"
| "GetTriggers B C s = Some (rt, s') \<Longrightarrow> store_step B C nxt s s'"
| "DeleteTrigger B key s = Some (ru, s') \<Longrightarrow> store_step B C nxt s s'"
| "SetQueue B now key v s = Some (e, s') \<Longrightarrow> store_step B C nxt s s'"
| "GetQueue B key s = Some (rs, s') \<Longrightarrow> store_step B C nxt s s'"
| "SetBrokerRecord B C br s = Some (e, s') \<Longrightarrow> store_step B C nxt s s'"
| "GetBrokerRecord B C w b s = Some (rb, s') \<Longrightarrow> store_step B C nxt s s'"
| "GetTasks B C opt s = Some (rk, s') \<Longrightarrow> store_step B C nxt s s'"
| "GetTask B C key s = Some (t, s') \<Longrightarrow> store_step B C nxt s s'"
| "SetTask B C nxt t s = Some (e, s') \<Longrightarrow> store_step B C nxt s s'"
| "DeleteTask B C key s = Some s' \<Longrightarrow> store_step B C nxt s s'"
| "SetExecution B C key ex s = Some (e, s') \<Longrightarrow> store_step B C nxt s s'"
| "SetExecutionDone B C nxt key ex s = Some (e, s') \<Longrightarrow> store_step B C nxt s s'"
| "GetExecutions B C key s = Some (rx, s') \<Longrightarrow> store_step B C nxt s s'"
| "SetBroker B C sb s = Some (e, s') \<Longrightarrow> store_step B C nxt s s'"
| "GetBroker B C key s = Some (sb, s') \<Longrightarrow> store_step B C nxt s s'"
| "GetBrokers B C s = Some (rsb, s') \<Longrightarrow> store_step B C nxt s s'"
| "DeleteBroker B C key s = Some s' \<Longrightarrow> store_step B C nxt s s'"
| "DeleteWorkflow B C key s = Some s' \<Longrightarrow> store_step B C nxt s s'"
| "GetWorkflow B key s = Some (ids, s') \<Longrightarrow> store_step B C nxt s s'"

definition empty_store :: "'tx bolt \<Rightarrow> 'tx store \<Rightarrow> bool" where
  "empty_store B s \<longleftrightarrow> \<not> st_busy s \<and> (\<forall>p. bt_exists B p (st_db s) \<longrightarrow> p = []) \<and> (\<forall>p k. bt_get B p k (st_db s) = None)"

lemma empty_store_ok: "empty_store B s \<Longrightarrow> store_ok B (st_db s)"
  unfolding empty_store_def store_ok_def by auto

text \<open>The calls that drop or convert the result of their transaction.\<close>

lemma GetTask_db: "GetTask B C i s = Some (t, s') \<Longrightarrow> \<exists>e. db_Update B (tx_bind (getTaskTxFunc B C i) (\<lambda>_. tx_ret ())) s = Some (e, s')"
  unfolding GetTask_def by (auto split: bind_splits)

lemma GetBroker_db: "GetBroker B C i s = Some (t, s') \<Longrightarrow> \<exists>e. db_Update B (tx_bind (getBrokerTxFunc B C i) (\<lambda>_. tx_ret ())) s = Some (e, s')"
  unfolding GetBroker_def by (auto split: bind_splits)

lemma GetWorkflow_db: "GetWorkflow B w s = Some (t, s') \<Longrightarrow> \<exists>e. db_Update B (tx_bind (getWorklowTxFunc B w) (\<lambda>_. tx_ret ())) s = Some (e, s')"
  unfolding GetWorkflow_def Let_def by (auto split: bind_splits)

lemma GetExecutions_db:
  "GetExecutions B C i s = Some (t, s') \<Longrightarrow> \<exists>r. db_Begin B True (tx_buckets B [] [executionsBucket]
     (tx_bind (tx_read (bt_exists B [executionsBucket, i])) (\<lambda>found. if found then tx_read (bt_items B [executionsBucket, i]) else tx_fail ErrNotFound))) s = Some (r, s')"
  unfolding GetExecutions_def by (auto split: bind_splits)

lemma map_option_snd_db: "map_option snd x = Some s' \<Longrightarrow> \<exists>e. x = Some (e, s')"
  by auto

lemmas store_call_defs = SetMeta_def GetMeta_def SetScript_def GetScript_def GetScripts_def ListScript_def DeleteScript_def SetTrigger_def GetTriggers_def
  DeleteTrigger_def SetQueue_def GetQueue_def SetBrokerRecord_def GetBrokerRecord_def GetTasks_def SetTask_def DeleteTask_def SetExecution_def
  SetExecutionDone_def SetBroker_def GetBrokers_def DeleteBroker_def DeleteWorkflow_def setMetaTxFunc_def setScriptTxFunc_def setTrigger_def
  setQueueTxFunc_def setBrokerRecordTxFunc_def Let_def

context bolt_db
begin

lemma store_step_keeps:
  assumes "store_step B C nxt s s'" "store_ok B (st_db s)"
  shows "store_ok B (st_db s')"
proof -
  note calls = db_Update_keeps[rotated 2, OF _ _ assms(2)] db_Begin_keeps[rotated 2, OF _ _ assms(2)]
  note dropped = GetTask_db GetBroker_db GetWorkflow_db GetExecutions_db map_option_snd_db
  show ?thesis using assms(1)
    by (cases rule: store_step.cases, unfold store_call_defs) ((drule dropped, erule exE)?, erule calls, (intro keeps_store; simp))+
qed

end

section \<open>Queues\<close>

datatype queue_op = QSet string int string | QGet string

fun run_queue :: "'tx bolt \<Rightarrow> queue_op list \<Rightarrow> 'tx store \<Rightarrow> ((store_error + string) list \<times> 'tx store) option" where
  "run_queue B [] s = Some ([], s)"
| "run_queue B (QSet k t v # ops) s = do {
     (e, s1) \<leftarrow> SetQueue B t k v s;
     (out, s2) \<leftarrow> run_queue B ops s1;
     Some ((case e of None \<Rightarrow> Inr [] | Some e \<Rightarrow> Inl e) # out, s2)
   }"
| "run_queue B (QGet k # ops) s = do {
     (r, s1) \<leftarrow> GetQueue B k s;
     (out, s2) \<leftarrow> run_queue B ops s1;
     Some (r # out, s2)
   }"

text \<open>What the callers expect: a list per name, and the empty string from an empty list.\<close>

fun spec_queue :: "queue_op list \<Rightarrow> (string \<Rightarrow> string list) \<Rightarrow> string list" where
  "spec_queue [] q = []"
| "spec_queue (QSet k t v # ops) q = [] # spec_queue ops (q(k := q k @ [v]))"
| "spec_queue (QGet k # ops) q =
     (case q k of [] \<Rightarrow> [] # spec_queue ops q | v # vs \<Rightarrow> v # spec_queue ops (q(k := vs)))"

text \<open>The clock moves on from one call to the next and shows a time with nineteen digits, and no name is empty.\<close>

fun queue_calls_ok :: "int \<Rightarrow> queue_op list \<Rightarrow> bool" where
  "queue_calls_ok now [] = True"
| "queue_calls_ok now (QSet k t v # ops) = (k \<noteq> [] \<and> now < t \<and> t < 10 ^ 19 \<and> queue_calls_ok t ops)"
| "queue_calls_ok now (QGet k # ops) = (k \<noteq> [] \<and> queue_calls_ok now ops)"

definition queue_items :: "(int \<times> string) list \<Rightarrow> (string \<times> string) list" where
  "queue_items xs = map (\<lambda>(t, v). (int_str t, v)) xs"

definition queue_rep :: "'tx bolt \<Rightarrow> 'tx \<Rightarrow> int \<Rightarrow> string \<Rightarrow> (int \<times> string) list \<Rightarrow> bool" where
  "queue_rep B tx now k xs \<longleftrightarrow>
     (\<forall>j. bt_get B [queueBucket, k] j tx = map_of (queue_items xs) j) \<and>
     sorted_wrt (<) (map fst xs) \<and> (\<forall>t\<in>fst ` set xs. 10 ^ 18 \<le> t \<and> t \<le> now)"

lemma sorted_int_str: "sorted_wrt (<) ts \<Longrightarrow> \<forall>t\<in>set ts. 10 ^ 18 \<le> t \<and> t < 10 ^ 19 \<Longrightarrow> sorted_wrt (<) (map int_str ts)"
  by (induction ts) (auto intro: int_str_less)

lemma queue_keys: "map fst (queue_items xs) = map int_str (map fst xs)"
  by (simp add: queue_items_def comp_def case_prod_beta)

lemma queue_rep_keys:
  assumes "queue_rep B tx now k xs" "now < 10 ^ 19"
  shows "sorted_wrt (<) (map fst (queue_items xs))"
  unfolding queue_keys using assms by (intro sorted_int_str) (auto simp: queue_rep_def)

context bolt_db
begin

lemma buckets_open:
  "store_ok B tx \<Longrightarrow> bt_exists B pre tx \<Longrightarrow> bucket_path (pre @ p) \<Longrightarrow> [] \<notin> set p \<Longrightarrow>
   \<exists>tx'. (\<forall>f :: ('tx, 'x) txm. tx_buckets B pre p f tx = f tx') \<and> store_ok B tx' \<and> bt_exists B (pre @ p) tx' \<and>
     (\<forall>q. bt_exists B q tx \<longrightarrow> bt_exists B q tx') \<and> (\<forall>q. bt_exists B q tx' \<longrightarrow> bt_exists B q tx \<or> take (length q) (pre @ p) = q) \<and>
     (\<forall>q j. bt_get B q j tx' = bt_get B q j tx)"
proof (induction p arbitrary: pre tx)
  case Nil
  then show ?case by auto
next
  case (Cons b p)
  have bp: "bucket_path (pre @ [b])" using Cons.prems(3) bucket_path_init2[of "pre @ [b]" p] by simp
  have "b \<noteq> []" using Cons.prems(4) by auto
  from create_ok[OF Cons.prems(1,2) bp this] obtain tx1 where t: "bt_create B (pre @ [b]) tx = Some tx1" "store_ok B tx1"
    "\<forall>q. bt_exists B q tx1 \<longleftrightarrow> bt_exists B q tx \<or> q = pre @ [b]" "\<forall>q k. bt_get B q k tx1 = bt_get B q k tx" by blast
  have "bt_exists B (pre @ [b]) tx1" "bucket_path ((pre @ [b]) @ p)" "[] \<notin> set p" using t(3) Cons.prems(3,4) by auto
  from Cons.IH[OF t(2) this] obtain tx' where u: "\<forall>f :: ('tx, 'x) txm. tx_buckets B (pre @ [b]) p f tx1 = f tx'" "store_ok B tx'" "bt_exists B ((pre @ [b]) @ p) tx'"
    "\<forall>q. bt_exists B q tx1 \<longrightarrow> bt_exists B q tx'" "\<forall>q. bt_exists B q tx' \<longrightarrow> bt_exists B q tx1 \<or> take (length q) ((pre @ [b]) @ p) = q"
    "\<forall>q j. bt_get B q j tx' = bt_get B q j tx1" by blast
  have "tx_buckets B pre (b # p) f tx = f tx'" for f :: "('tx, 'x) txm" using t(1) u(1) by (simp add: tx_bind_def tx_do_def)
  moreover have "bt_exists B q tx \<or> take (length q) (pre @ b # p) = q" if "bt_exists B q tx'" for q
    using u(5) t(3) that by auto
  ultimately show ?case using t(3,4) u(2-4,6) by (intro exI[of _ tx']) simp
qed

lemma put_ok:
  assumes "store_ok B tx" "bt_exists B p tx" "value_path p" "k \<noteq> []"
  shows "\<exists>tx'. bt_put B p k v tx = Some tx' \<and> store_ok B tx' \<and> (\<forall>q. bt_exists B q tx' \<longleftrightarrow> bt_exists B q tx) \<and>
    (\<forall>q j. bt_get B q j tx' = (if q = p \<and> j = k then Some v else bt_get B q j tx))"
proof -
  have "\<not> bt_exists B (p @ [k]) tx" using assms(1,3) bucket_in_no_values unfolding store_ok_def by blast
  from put[OF value_path_nonempty[OF assms(3)] assms(4,2) this] obtain tx' where t: "bt_put B p k v tx = Some tx'" "\<forall>q. bt_exists B q tx' \<longleftrightarrow> bt_exists B q tx"
    "\<forall>q j. bt_get B q j tx' = (if q = p \<and> j = k then Some v else bt_get B q j tx)" by blast
  then have "store_ok B tx'" using assms(3) by (intro store_ok_change[OF assms(1)]) (auto split: if_splits)
  then show ?thesis using t by blast
qed

lemma delete_ok:
  assumes "store_ok B tx" "bt_exists B p tx" "value_path p"
  shows "\<exists>tx'. bt_delete B p k tx = Some tx' \<and> store_ok B tx' \<and> (\<forall>q. bt_exists B q tx' \<longleftrightarrow> bt_exists B q tx) \<and>
    (\<forall>q j. bt_get B q j tx' = (if q = p \<and> j = k then None else bt_get B q j tx))"
proof -
  have "\<not> bt_exists B (p @ [k]) tx" using assms(1,3) bucket_in_no_values unfolding store_ok_def by blast
  from delete[OF assms(2) this] obtain tx' where t: "bt_delete B p k tx = Some tx'" "\<forall>q. bt_exists B q tx' \<longleftrightarrow> bt_exists B q tx"
    "\<forall>q j. bt_get B q j tx' = (if q = p \<and> j = k then None else bt_get B q j tx)" by blast
  then have "store_ok B tx'" by (intro store_ok_change[OF assms(1)]) (auto split: if_splits)
  then show ?thesis using t by blast
qed

end

lemma int_str_nonempty: "int_str i \<noteq> []"
  using nat_str_nonempty[of "nat i"] by (simp add: int_str_def)

lemma map_of_snoc_fresh: "k \<notin> fst ` set xs \<Longrightarrow> map_of (xs @ [(k, v)]) = (map_of xs)(k \<mapsto> v)"
  by (induction xs) auto

lemma queue_rep_snoc:
  assumes r: "queue_rep B tx now k xs" and t: "now < t" "10 ^ 18 \<le> t" "t < 10 ^ 19"
    and g: "\<forall>j. bt_get B [queueBucket, k] j tx' = (if j = int_str t then Some v else bt_get B [queueBucket, k] j tx)"
  shows "queue_rep B tx' t k (xs @ [(t, v)])"
proof -
  have "int_str u < int_str t" if "u \<in> fst ` set xs" for u
    using r t that by (intro int_str_less) (auto simp: queue_rep_def)
  then have "int_str t \<notin> fst ` set (queue_items xs)" by (force simp: queue_items_def)
  then have "map_of (queue_items (xs @ [(t, v)])) = (map_of (queue_items xs))(int_str t \<mapsto> v)"
    using map_of_snoc_fresh[of "int_str t" "queue_items xs" v] by (simp add: queue_items_def)
  moreover have "sorted_wrt (<) (map fst (xs @ [(t, v)]))" using r t by (auto simp: queue_rep_def sorted_wrt_append)
  ultimately show ?thesis using r g t unfolding queue_rep_def by auto
qed

lemma queue_rep_tl:
  assumes r: "queue_rep B tx now k ((t, v) # xs)" "now < 10 ^ 19"
    and g: "\<forall>j. bt_get B [queueBucket, k] j tx' = (if j = int_str t then None else bt_get B [queueBucket, k] j tx)"
  shows "queue_rep B tx' now k xs"
proof -
  have "sorted_wrt (<) (map fst (queue_items ((t, v) # xs)))" by (rule queue_rep_keys[OF r])
  then have "int_str t \<notin> fst ` set (queue_items xs)" by (auto simp: queue_items_def)
  then have "map_of (queue_items xs) (int_str t) = None" by (simp add: map_of_eq_None_iff)
  then show ?thesis using r(1) g unfolding queue_rep_def by (auto simp: queue_items_def)
qed

lemma queue_rep_frame:
  "queue_rep B tx now k xs \<Longrightarrow> now \<le> now' \<Longrightarrow> \<forall>j. bt_get B [queueBucket, k] j tx' = bt_get B [queueBucket, k] j tx \<Longrightarrow> queue_rep B tx' now' k xs"
  unfolding queue_rep_def by force

context bolt_db
begin

lemma queue_rep_items:
  assumes "queue_rep B tx now k xs" "now < 10 ^ 19" "store_ok B tx" "bt_exists B [queueBucket, k] tx"
  shows "bt_items B [queueBucket, k] tx = map (\<lambda>(j, v). (j, Some v)) (queue_items xs)"
proof -
  let ?l = "map fst (queue_items xs)"
  have srt: "sorted_wrt (<) ?l" by (rule queue_rep_keys[OF assms(1,2)])
  have get: "bt_get B [queueBucket, k] j tx = map_of (queue_items xs) j" for j using assms(1) unfolding queue_rep_def by blast
  have "\<not> bt_exists B ([queueBucket, k] @ [j]) tx" for j using assms(3) unfolding store_ok_def by auto
  then have "{j. bt_get B [queueBucket, k] j tx \<noteq> None \<or> bt_exists B ([queueBucket, k] @ [j]) tx} = set ?l"
    by (auto simp: get map_of_eq_None_iff domIff[symmetric] dom_map_of_conv_image_fst)
  then have keys: "map fst (bt_items B [queueBucket, k] tx) = ?l"
    and vals: "\<forall>(j, v)\<in>set (bt_items B [queueBucket, k] tx). v = bt_get B [queueBucket, k] j tx"
    using items[OF assms(4)] sorted_list_of_set.idem_if_sorted_distinct[of ?l] srt unfolding strict_sorted_iff by simp_all
  have "bt_items B [queueBucket, k] tx = map (\<lambda>j. (j, bt_get B [queueBucket, k] j tx)) (map fst (bt_items B [queueBucket, k] tx))"
    using vals by (auto intro!: map_idI[symmetric])
  also have "\<dots> = map (\<lambda>(j, v). (j, map_of (queue_items xs) j)) (queue_items xs)" unfolding keys get by (simp add: case_prod_beta comp_def)
  also have "\<dots> = map (\<lambda>(j, v). (j, Some v)) (queue_items xs)"
    using srt by (auto simp: strict_sorted_iff)
  finally show ?thesis .
qed

lemma SetQueue_ok:
  assumes "store_ok B (st_db s)" "\<not> st_busy s" "k \<noteq> []"
  shows "\<exists>s'. SetQueue B t k v s = Some (None, s') \<and> store_ok B (st_db s') \<and> \<not> st_busy s' \<and>
    (\<forall>q j. bt_get B q j (st_db s') = (if q = [queueBucket, k] \<and> j = int_str t then Some v else bt_get B q j (st_db s)))"
proof -
  obtain tx1 where o: "\<forall>f :: ('tx, unit) txm. tx_buckets B [] [queueBucket, k] f (st_db s) = f tx1" "store_ok B tx1"
    "bt_exists B [queueBucket, k] tx1" "\<forall>q j. bt_get B q j tx1 = bt_get B q j (st_db s)"
    using buckets_open[where 'x = unit, OF assms(1) root, of "[queueBucket, k]"] assms(3) by auto
  obtain tx2 where p: "bt_put B [queueBucket, k] (int_str t) v tx1 = Some tx2" "store_ok B tx2"
    "\<forall>q j. bt_get B q j tx2 = (if q = [queueBucket, k] \<and> j = int_str t then Some v else bt_get B q j tx1)"
    using put_ok[OF o(2,3) _ int_str_nonempty[of t], of v] by auto
  have "SetQueue B t k v s = Some (None, s\<lparr>st_db := tx2\<rparr>)"
    using assms(2) o(1) p(1) commits by (simp add: SetQueue_def db_Update_def setQueueTxFunc_def tx_do_def)
  then show ?thesis using p(2,3) o(4) assms(2) by simp
qed

lemma GetQueue_ok:
  assumes "store_ok B (st_db s)" "\<not> st_busy s" "k \<noteq> []" "queue_rep B (st_db s) now k xs" "now < 10 ^ 19"
  shows "\<exists>s'. GetQueue B k s = Some (Inr (case xs of [] \<Rightarrow> [] | (t, v) # _ \<Rightarrow> v), s') \<and> store_ok B (st_db s') \<and> \<not> st_busy s' \<and>
    (\<forall>q j. bt_get B q j (st_db s') = (if q = [queueBucket, k] \<and> xs \<noteq> [] \<and> j = int_str (fst (hd xs)) then None else bt_get B q j (st_db s)))"
proof -
  obtain tx1 where o: "\<forall>f :: ('tx, string) txm. tx_buckets B [] [queueBucket, k] f (st_db s) = f tx1" "store_ok B tx1"
    "bt_exists B [queueBucket, k] tx1" "\<forall>q j. bt_get B q j tx1 = bt_get B q j (st_db s)"
    using buckets_open[where 'x = string, OF assms(1) root, of "[queueBucket, k]"] assms(3) by auto
  have it: "bt_items B [queueBucket, k] tx1 = map (\<lambda>(j, v). (j, Some v)) (queue_items xs)"
    using queue_rep_items[OF _ assms(5) o(2,3)] queue_rep_frame[OF assms(4), of now tx1] o(4) by simp
  show ?thesis
  proof (cases xs)
    case Nil
    then have "GetQueue B k s = Some (Inr [], s\<lparr>st_db := tx1\<rparr>)"
      using assms(2) o(1) it commits by (simp add: GetQueue_def db_Begin_def tx_bind_def tx_read_def tx_ret_def queue_items_def)
    then show ?thesis using Nil o(2,4) assms(2) by simp
  next
    case (Cons x r)
    obtain t v where x: "x = (t, v)" by (cases x)
    obtain tx2 where d: "bt_delete B [queueBucket, k] (int_str t) tx1 = Some tx2" "store_ok B tx2"
      "\<forall>q j. bt_get B q j tx2 = (if q = [queueBucket, k] \<and> j = int_str t then None else bt_get B q j tx1)"
      using delete_ok[OF o(2,3), of "int_str t"] by auto
    have "GetQueue B k s = Some (Inr v, s\<lparr>st_db := tx2\<rparr>)"
      using assms(2) o(1) it d(1) commits Cons x by (simp add: GetQueue_def db_Begin_def tx_bind_def tx_do_def tx_read_def tx_ret_def queue_items_def)
    then show ?thesis using Cons x d(2,3) o(4) assms(2) by simp
  qed
qed

end

context bolt_db
begin

lemma run_queue_refines:
  "store_ok B (st_db s) \<Longrightarrow> \<not> st_busy s \<Longrightarrow> \<forall>k. queue_rep B (st_db s) now k (xs k) \<Longrightarrow> 10 ^ 18 - 1 \<le> now \<Longrightarrow> now < 10 ^ 19 \<Longrightarrow>
   queue_calls_ok now ops \<Longrightarrow> \<exists>s'. run_queue B ops s = Some (map Inr (spec_queue ops (\<lambda>k. map snd (xs k))), s')"
proof (induction ops arbitrary: s xs now)
  case Nil
  then show ?case by simp
next
  case (Cons c ops)
  show ?case
  proof (cases c)
    case (QSet k t v)
    then have k: "k \<noteq> []" and t: "now < t" "t < 10 ^ 19" "10 ^ 18 \<le> t" and ops: "queue_calls_ok t ops" using Cons.prems(4,6) by auto
    obtain s1 where s1: "SetQueue B t k v s = Some (None, s1)" "store_ok B (st_db s1)" "\<not> st_busy s1"
      "\<forall>q j. bt_get B q j (st_db s1) = (if q = [queueBucket, k] \<and> j = int_str t then Some v else bt_get B q j (st_db s))"
      using SetQueue_ok[OF Cons.prems(1,2) k, of t v] by blast
    let ?xs = "xs(k := xs k @ [(t, v)])"
    have "queue_rep B (st_db s1) t j (?xs j)" for j
    proof (cases "j = k")
      case True
      then show ?thesis using queue_rep_snoc[OF spec[OF Cons.prems(3), of k] t(1,3,2), of "st_db s1" v] s1(4) by simp
    next
      case False
      then show ?thesis using queue_rep_frame[OF spec[OF Cons.prems(3), of j], of t "st_db s1"] t(1) s1(4) by simp
    qed
    then obtain s' where "run_queue B ops s1 = Some (map Inr (spec_queue ops (\<lambda>k. map snd (?xs k))), s')"
      using Cons.IH[OF s1(2,3), of t ?xs] t ops by auto
    moreover have "(\<lambda>k. map snd (?xs k)) = (\<lambda>k. map snd (xs k))(k := map snd (xs k) @ [v])" by auto
    ultimately show ?thesis using s1(1) QSet by simp
  next
    case (QGet k)
    then have k: "k \<noteq> []" and ops: "queue_calls_ok now ops" using Cons.prems(6) by auto
    obtain s1 where s1: "GetQueue B k s = Some (Inr (case xs k of [] \<Rightarrow> [] | (t, v) # _ \<Rightarrow> v), s1)" "store_ok B (st_db s1)" "\<not> st_busy s1"
      "\<forall>q j. bt_get B q j (st_db s1) = (if q = [queueBucket, k] \<and> xs k \<noteq> [] \<and> j = int_str (fst (hd (xs k))) then None else bt_get B q j (st_db s))"
      using GetQueue_ok[OF Cons.prems(1,2) k spec[OF Cons.prems(3), of k] Cons.prems(5)] by blast
    let ?xs = "xs(k := tl (xs k))"
    have "queue_rep B (st_db s1) now j (?xs j)" for j
    proof (cases "j = k \<and> xs k \<noteq> []")
      case True
      then obtain t v r where x: "xs k = (t, v) # r" by (cases "xs k") auto
      then show ?thesis using queue_rep_tl[of B "st_db s" now k t v r "st_db s1"] Cons.prems(5) spec[OF Cons.prems(3), of k] s1(4) True by simp
    next
      case False
      then show ?thesis using queue_rep_frame[OF spec[OF Cons.prems(3), of j], of now "st_db s1"] s1(4) by auto
    qed
    then obtain s' where "run_queue B ops s1 = Some (map Inr (spec_queue ops (\<lambda>k. map snd (?xs k))), s')"
      using Cons.IH[OF s1(2,3), of now ?xs] Cons.prems(4,5) ops by auto
    moreover have "(\<lambda>k. map snd (?xs k)) = (\<lambda>k. map snd (xs k))(k := tl (map snd (xs k)))" by (auto simp: map_tl)
    ultimately show ?thesis using s1(1) QGet by (cases "xs k") (auto simp: fun_upd_idem split: prod.splits)
  qed
qed

end

section \<open>Tasks\<close>

definition stored_task :: "'tx bolt \<Rightarrow> 'r store_codec \<Rightarrow> 'tx \<Rightarrow> string \<Rightarrow> 'r agent_task option" where
  "stored_task B C tx i = Option.bind (bt_get B [tasksBucket] i tx) (sc_task_of C)"

text \<open>The stored task of the same name, if there is one, decodes, and the new schedule has a next time.\<close>

definition can_merge :: "'tx bolt \<Rightarrow> 'r store_codec \<Rightarrow> (string \<Rightarrow> int option) \<Rightarrow> 'tx \<Rightarrow> 'r agent_task \<Rightarrow> bool" where
  "can_merge B C nxt tx t \<longleftrightarrow>
     (case bt_get B [tasksBucket] (at_ID t) tx of
        None \<Rightarrow> True
      | Some b \<Rightarrow> (case sc_task_of C b of None \<Rightarrow> False | Some et \<Rightarrow> merge_task nxt et t \<noteq> None))"

declare tx_buckets.simps [simp del]

lemma db_Update_returns: "\<not> st_busy s \<Longrightarrow> \<exists>e s'. db_Update B f s = Some (e, s')"
  by (simp add: db_Update_def flip: split_paired_Ex)

lemmas tx_defs = tx_bind_def tx_do_def tx_read_def tx_ret_def tx_fail_def tx_some_def tx_ignore_def

context bolt_db
begin

lemma GetTask_ok:
  fixes C :: "'r store_codec"
  assumes "store_ok B (st_db s)" "\<not> st_busy s"
  shows "map_option fst (GetTask B C i s) = Some (case stored_task B C (st_db s) i of None \<Rightarrow> sc_task_zero C | Some t \<Rightarrow> t)"
proof -
  obtain tx1 where o: "\<forall>f :: ('tx, 'r agent_task) txm. tx_buckets B [] [tasksBucket] f (st_db s) = f tx1"
    "\<forall>q j. bt_get B q j tx1 = bt_get B q j (st_db s)"
    using buckets_open[where 'x = "'r agent_task", OF assms(1) root, of "[tasksBucket]"] by auto
  have g: "getTaskTxFunc B C i (st_db s) =
      (case bt_get B [tasksBucket] i (st_db s) of None \<Rightarrow> (Inl ErrNotFound, tx1)
       | Some b \<Rightarrow> (case sc_task_of C b of None \<Rightarrow> (Inl ErrDecode, tx1) | Some t \<Rightarrow> (Inr t, tx1)))"
    using o unfolding getTaskTxFunc_def by (simp add: tx_defs split: option.split)
  obtain e s1 where "db_Update B (tx_bind (getTaskTxFunc B C i) (\<lambda>_. tx_ret ())) s = Some (e, s1)"
    using db_Update_returns[OF assms(2)] by blast
  then show ?thesis using g by (simp add: GetTask_def stored_task_def split: option.split)
qed

lemma SetTask_ok:
  fixes C :: "'r store_codec"
  assumes "store_ok B (st_db s)" "\<not> st_busy s" "at_ID t \<noteq> []" "sc_task C t = Some b" "can_merge B C nxt (st_db s) t"
  shows "\<exists>s'. SetTask B C nxt t s = Some (None, s') \<and> store_ok B (st_db s') \<and> \<not> st_busy s' \<and>
    (\<forall>i. bt_get B [tasksBucket] i (st_db s') = (if i = at_ID t then Some b else bt_get B [tasksBucket] i (st_db s)))"
proof -
  let ?w = "[workflowBucket, int_str (at_WorkflowID t), tasksBucket]"
  obtain tx1 where t1: "\<forall>f :: ('tx, unit) txm. tx_buckets B [] ?w f (st_db s) = f tx1" "store_ok B tx1"
    "bt_exists B ?w tx1" "\<forall>q j. bt_get B q j tx1 = bt_get B q j (st_db s)"
    using buckets_open[where 'x = unit, OF assms(1) root, of ?w] int_str_nonempty[of "at_WorkflowID t"] by (auto simp: eq_commute[of "[]"])
  obtain tx2 where t2: "bt_put B ?w (at_ID t) b tx1 = Some tx2" "store_ok B tx2"
    "\<forall>q j. bt_get B q j tx2 = (if q = ?w \<and> j = at_ID t then Some b else bt_get B q j tx1)"
    using put_ok[OF t1(2,3) _ assms(3), of b] by auto
  obtain tx3 where t3: "\<forall>f :: ('tx, unit) txm. tx_buckets B [] [tasksBucket] f tx2 = f tx3" "store_ok B tx3"
    "bt_exists B [tasksBucket] tx3" "\<forall>q j. bt_get B q j tx3 = bt_get B q j tx2"
    using buckets_open[where 'x = unit, OF t2(2) root, of "[tasksBucket]"] by auto
  obtain tx4 where t4: "bt_put B [tasksBucket] (at_ID t) b tx3 = Some tx4" "store_ok B tx4"
    "\<forall>q j. bt_get B q j tx4 = (if q = [tasksBucket] \<and> j = at_ID t then Some b else bt_get B q j tx3)"
    using put_ok[OF t3(2,3) _ assms(3), of b] by auto
  have old: "bt_get B [tasksBucket] i tx3 = bt_get B [tasksBucket] i (st_db s)" for i using t1(4) t2(3) t3(4) by simp
  have "setTaskTxFunc B C nxt t (st_db s) = (Inr (), tx4)"
    using assms(4,5) t1(1) t2(1) t3(1) t4(1) old unfolding setTaskTxFunc_def Let_def can_merge_def
    by (auto simp: tx_defs split: option.splits)
  then have "SetTask B C nxt t s = Some (None, s\<lparr>st_db := tx4\<rparr>)" using assms(2) commits by (simp add: SetTask_def db_Update_def)
  then show ?thesis using t4(2,3) old assms(2) by simp
qed

end

context bolt_db
begin

lemma open_frame:
  assumes "store_ok B tx" "bucket_path p" "[] \<notin> set p" "take (length r) p \<noteq> r"
  shows "\<exists>tx'. (\<forall>f :: ('tx, unit) txm. tx_buckets B [] p f tx = f tx') \<and> store_ok B tx' \<and> bt_exists B p tx' \<and>
    (\<forall>q. bt_exists B q tx \<longrightarrow> bt_exists B q tx') \<and> (bt_exists B r tx' \<longleftrightarrow> bt_exists B r tx) \<and> (\<forall>q j. bt_get B q j tx' = bt_get B q j tx)"
proof -
  have "bucket_path ([] @ p)" using assms(2) by simp
  from buckets_open[where 'x = unit, OF assms(1) root this assms(3)] obtain tx' where
    "\<forall>f :: ('tx, unit) txm. tx_buckets B [] p f tx = f tx'" "store_ok B tx'" "bt_exists B p tx'" "\<forall>q. bt_exists B q tx \<longrightarrow> bt_exists B q tx'"
    "\<forall>q. bt_exists B q tx' \<longrightarrow> bt_exists B q tx \<or> take (length q) p = q" "\<forall>q j. bt_get B q j tx' = bt_get B q j tx"
    unfolding append_Nil by blast
  then show ?thesis using assms(4) by (intro exI[of _ tx']) blast
qed

lemma deleteTask_ok:
  fixes C :: "'r store_codec"
  assumes "store_ok B tx" "stored_task B C tx i = Some t"
  shows "\<exists>tx'. deleteTaskTxFunc B C i tx = (Inr (), tx') \<and> store_ok B tx' \<and> (bt_exists B [executionsBucket, i] tx' \<longleftrightarrow> bt_exists B [executionsBucket, i] tx) \<and>
    (\<forall>j. bt_get B [tasksBucket] j tx' = (if j = i then None else bt_get B [tasksBucket] j tx))"
proof -
  let ?w = "[workflowBucket, int_str (at_WorkflowID t), tasksBucket]"
  obtain b where b: "bt_get B [tasksBucket] i tx = Some b" "sc_task_of C b = Some t"
    using assms(2) by (auto simp: stored_task_def split: bind_splits)
  obtain tx1 where t1: "\<forall>f :: ('tx, unit) txm. tx_buckets B [] [tasksBucket] f tx = f tx1" "store_ok B tx1" "bt_exists B [tasksBucket] tx1"
    "bt_exists B [executionsBucket, i] tx1 \<longleftrightarrow> bt_exists B [executionsBucket, i] tx" "\<forall>q j. bt_get B q j tx1 = bt_get B q j tx"
    using open_frame[OF assms(1), of "[tasksBucket]" "[executionsBucket, i]"] by auto
  obtain tx2 where t2: "\<forall>f :: ('tx, unit) txm. tx_buckets B [] ?w f tx1 = f tx2" "store_ok B tx2" "bt_exists B ?w tx2" "bt_exists B [tasksBucket] tx2"
    "bt_exists B [executionsBucket, i] tx2 \<longleftrightarrow> bt_exists B [executionsBucket, i] tx1" "\<forall>q j. bt_get B q j tx2 = bt_get B q j tx1"
    using open_frame[OF t1(2), of ?w "[executionsBucket, i]"] int_str_nonempty[of "at_WorkflowID t"] t1(3) by (auto simp: eq_commute[of "[]"])
  obtain tx3 where t3: "bt_delete B ?w (int_str (at_WorkflowID t)) tx2 = Some tx3" "store_ok B tx3" "\<forall>q. bt_exists B q tx3 \<longleftrightarrow> bt_exists B q tx2"
    "\<forall>q j. bt_get B q j tx3 = (if q = ?w \<and> j = int_str (at_WorkflowID t) then None else bt_get B q j tx2)"
    using delete_ok[OF t2(2,3), of "int_str (at_WorkflowID t)"] by auto
  have "bt_exists B [tasksBucket] tx3" using t3(3) t2(4) by simp
  from delete_ok[OF t3(2) this, of i] obtain tx4 where t4: "bt_delete B [tasksBucket] i tx3 = Some tx4" "store_ok B tx4" "\<forall>q. bt_exists B q tx4 \<longleftrightarrow> bt_exists B q tx3"
    "\<forall>q j. bt_get B q j tx4 = (if q = [tasksBucket] \<and> j = i then None else bt_get B q j tx3)" by auto
  have "deleteTaskTxFunc B C i tx = (Inr (), tx4)"
    using b t1(1,5) t2(1) t3(1) t4(1) unfolding deleteTaskTxFunc_def Let_def by (simp add: tx_defs)
  then show ?thesis using t1(4,5) t2(5,6) t3(3,4) t4(2-4) by simp
qed

lemma DeleteTask_ok:
  fixes C :: "'r store_codec"
  assumes "store_ok B (st_db s)" "\<not> st_busy s" "stored_task B C (st_db s) i = Some t"
  shows "\<exists>s'. DeleteTask B C i s = Some s' \<and> store_ok B (st_db s') \<and> \<not> st_busy s' \<and>
    (if bt_exists B [executionsBucket, i] (st_db s)
     then \<forall>j. bt_get B [tasksBucket] j (st_db s') = (if j = i then None else bt_get B [tasksBucket] j (st_db s))
     else s' = s)"
proof -
  from deleteTask_ok[OF assms(1,3)] obtain tx1 where t1: "deleteTaskTxFunc B C i (st_db s) = (Inr (), tx1)" "store_ok B tx1"
    "bt_exists B [executionsBucket, i] tx1 \<longleftrightarrow> bt_exists B [executionsBucket, i] (st_db s)"
    "\<forall>j. bt_get B [tasksBucket] j tx1 = (if j = i then None else bt_get B [tasksBucket] j (st_db s))" by blast
  obtain tx2 where t2: "\<forall>f :: ('tx, unit) txm. tx_buckets B [] [executionsBucket] f tx1 = f tx2" "store_ok B tx2"
    "bt_exists B [executionsBucket, i] tx2 \<longleftrightarrow> bt_exists B [executionsBucket, i] tx1" "\<forall>q j. bt_get B q j tx2 = bt_get B q j tx1"
    using open_frame[OF t1(2), of "[executionsBucket]" "[executionsBucket, i]"] by auto
  show ?thesis
  proof (cases "bt_exists B [executionsBucket, i] (st_db s)")
    case True
    then have "bt_exists B ([executionsBucket] @ [i]) tx2" using t1(3) t2(3) by simp
    from delete_bucket[OF this] obtain tx3 where t3: "bt_delete_bucket B [executionsBucket, i] tx2 = Some tx3"
      "\<forall>q. bt_exists B q tx3 \<longleftrightarrow> bt_exists B q tx2 \<and> take 2 q \<noteq> [executionsBucket, i]"
      "\<forall>q j. bt_get B q j tx3 = (if take 2 q = [executionsBucket, i] then None else bt_get B q j tx2)" by (auto simp: numeral_2_eq_2)
    have ok: "store_ok B tx3" using t3(2,3) by (intro store_ok_change[OF t2(2)]) (auto split: if_splits)
    have "DeleteTask B C i s = Some (s\<lparr>st_db := tx3\<rparr>)"
      using assms(2) t1(1) t2(1) t3(1) commits by (simp add: DeleteTask_def db_Update_def deleteExecutionsTxFunc_def tx_defs)
    then show ?thesis using True ok assms(2) t3(3) t2(4) t1(4) by simp
  next
    case False
    then have "bt_delete_bucket B [executionsBucket, i] tx2 = None" using no_bucket[of "[executionsBucket]" i tx2] t1(3) t2(3) by simp
    then have "DeleteTask B C i s = Some s" using assms(2) t1(1) t2(1) by (simp add: DeleteTask_def db_Update_def deleteExecutionsTxFunc_def tx_defs)
    then show ?thesis using False assms(1,2) by simp
  qed
qed

end

section \<open>What the database promises the daemon\<close>

text \<open>An empty tree, a task and a codec to run the calls on.\<close>

definition new_store :: "bolt_tree store" where
  "new_store = \<lparr>st_db = fmempty, st_busy = False\<rparr>"

definition demo_task :: "string \<Rightarrow> unit agent_task" where
  "demo_task i = \<lparr>at_ID = i, at_Name = ''t'', at_WorkflowID = 7, at_Schedule = [], at_SuccessCount = 0, at_ErrorCount = 0,
     at_LastSuccess = None, at_LastError = None, at_Disabled = False, at_Metadata = fmempty, at_Status = [], at_Next = 0, at_rest = ()\<rparr>"

definition demo_broker :: "int \<Rightarrow> unit stored_broker" where
  "demo_broker i = \<lparr>sb_ID = i, sb_WorkflowID = 7, sb_rest = ()\<rparr>"

definition demo_codec :: "unit store_codec" where
  "demo_codec = \<lparr>
     sc_task = (\<lambda>t. Some (nat_str (nat (at_SuccessCount t)) @ '':'' @ at_ID t)),
     sc_task_of = (\<lambda>s. case dropWhile (\<lambda>c. c \<noteq> CHR '':'') s of
        [] \<Rightarrow> None
      | _ # i \<Rightarrow> map_option (\<lambda>n. (demo_task i)\<lparr>at_SuccessCount := n\<rparr>) (ParseInt (takeWhile (\<lambda>c. c \<noteq> CHR '':'') s))),
     sc_task_zero = demo_task [],
     sc_broker = (\<lambda>b. Some (int_str (sb_ID b))),
     sc_broker_of = (\<lambda>s. map_option demo_broker (ParseInt s)),
     sc_broker_zero = demo_broker 0,
     sc_execution = (\<lambda>x. Some (xe_Id x)),
     sc_execution_of = (\<lambda>s. None),
     sc_record = (\<lambda>r. Some ''r''),
     sc_record_of = (\<lambda>s. None),
     sc_trigger = (\<lambda>t. None),
     sc_trigger_of = (\<lambda>s. None)\<rparr>"

lemma new_store_empty: "empty_store tree_bolt new_store"
  unfolding empty_store_def
proof (intro conjI allI impI)
  fix p
  assume "bt_exists tree_bolt p (st_db new_store)"
  then show "p = []" by (cases p) (simp_all add: tree_bolt_def new_store_def)
next
  fix p k
  show "bt_get tree_bolt p k (st_db new_store) = None" by (cases p) (simp_all add: tree_bolt_def new_store_def node_value_def)
qed (simp add: new_store_def)

text \<open>C37. Starting from an empty database, whatever calls are made with whatever arguments, every bucket is
  where the store expects buckets, and values are only in the buckets that hold values.\<close>

theorem store_keeps_shape:
  assumes "bolt_db B" "empty_store B s0" "(store_step B C nxt)\<^sup>*\<^sup>* s0 s"
  shows "store_ok B (st_db s)"
  using assms(3)
proof induction
  case base
  then show ?case by (rule empty_store_ok[OF assms(2)])
next
  case (step s s')
  then show ?case using bolt_db.store_step_keeps[OF assms(1)] by blast
qed

theorem store_keeps_shape_witness:
  "store_ok tree_bolt (st_db (snd (the (SetQueue tree_bolt 5 ''k'' ''v'' new_store))))"
proof -
  obtain e s where s: "SetQueue tree_bolt 5 ''k'' ''v'' new_store = Some (e, s)"
    using db_Update_returns[of new_store tree_bolt "setQueueTxFunc tree_bolt 5 ''k'' ''v''"] by (auto simp: SetQueue_def new_store_def)
  then have "(store_step tree_bolt demo_codec (\<lambda>_. None))\<^sup>*\<^sup>* new_store s" by (blast intro: store_step.intros)
  then show ?thesis using store_keeps_shape[OF tree.bolt_db_axioms new_store_empty] s by simp
qed

text \<open>C38. As long as the clock moves on between the calls, the queues of the database are first-in first-out and do
  not disturb each other: any sequence of calls returns what a list per name returns, without an error.\<close>

theorem queue_fifo:
  assumes "bolt_db B" "store_ok B (st_db s)" "\<not> st_busy s" "\<forall>k j. bt_get B [queueBucket, k] j (st_db s) = None"
    and "queue_calls_ok (10 ^ 18) ops"
  shows "\<exists>s'. run_queue B ops s = Some (map Inr (spec_queue ops (\<lambda>_. [])), s')"
  using bolt_db.run_queue_refines[OF assms(1-3), of "10 ^ 18" "\<lambda>_. []" ops] assms(4,5)
  by (simp add: queue_rep_def queue_items_def)

theorem queue_fifo_witness:
  "\<exists>s'. run_queue tree_bolt [QSet ''a'' (10 ^ 18 + 9) ''x'', QSet ''a'' (10 ^ 18 + 10) ''y'', QSet ''b'' (10 ^ 18 + 11) ''z'', QGet ''a'', QGet ''a'', QGet ''a'', QGet ''b''] new_store =
     Some ([Inr [], Inr [], Inr [], Inr ''x'', Inr ''y'', Inr [], Inr ''z''], s')"
proof -
  have "store_ok tree_bolt (st_db new_store)" "\<not> st_busy new_store" "\<forall>k j. bt_get tree_bolt [queueBucket, k] j (st_db new_store) = None"
    using new_store_empty empty_store_ok[OF new_store_empty] unfolding empty_store_def by blast+
  from queue_fifo[OF tree.bolt_db_axioms this, of "[QSet ''a'' (10 ^ 18 + 9) ''x'', QSet ''a'' (10 ^ 18 + 10) ''y'', QSet ''b'' (10 ^ 18 + 11) ''z'', QGet ''a'', QGet ''a'', QGet ''a'', QGet ''b'']"]
  show ?thesis by simp
qed

text \<open>C39. A task that is stored is found again exactly as it was given, and no other task changes.\<close>

theorem set_task_get_task:
  assumes "bolt_db B" "store_ok B (st_db s)" "\<not> st_busy s" "at_ID t \<noteq> []"
    and "sc_task C t = Some b" "sc_task_of C b = Some t" "can_merge B C nxt (st_db s) t"
  shows "\<exists>s'. SetTask B C nxt t s = Some (None, s') \<and>
    map_option fst (GetTask B C i s') = (if i = at_ID t then Some t else map_option fst (GetTask B C i s))"
proof -
  from bolt_db.SetTask_ok[OF assms(1-5,7)] obtain s' where s': "SetTask B C nxt t s = Some (None, s')" "store_ok B (st_db s')" "\<not> st_busy s'"
    "\<forall>i. bt_get B [tasksBucket] i (st_db s') = (if i = at_ID t then Some b else bt_get B [tasksBucket] i (st_db s))" by blast
  then show ?thesis
    using assms(6) by (simp add: bolt_db.GetTask_ok[OF assms(1) s'(2,3)] bolt_db.GetTask_ok[OF assms(1-3)] stored_task_def)
qed

theorem set_task_get_task_witness:
  "\<exists>s'. SetTask tree_bolt demo_codec (\<lambda>_. None) (demo_task ''1'') new_store = Some (None, s') \<and>
     map_option fst (GetTask tree_bolt demo_codec ''1'' s') = Some (demo_task ''1'')"
proof -
  have s: "store_ok tree_bolt (st_db new_store)" "\<not> st_busy new_store"
    using new_store_empty empty_store_ok[OF new_store_empty] unfolding empty_store_def by blast+
  have "at_ID (demo_task ''1'') \<noteq> []" "sc_task demo_codec (demo_task ''1'') = Some ''0:1''" "sc_task_of demo_codec ''0:1'' = Some (demo_task ''1'')"
    "can_merge tree_bolt demo_codec (\<lambda>_. None) (st_db new_store) (demo_task ''1'')"
    by code_simp+
  from set_task_get_task[OF tree.bolt_db_axioms s this, of "''1''"] show ?thesis by (simp add: demo_task_def)
qed

text \<open>C40. Deleting a stored task removes exactly this task when the task has been executed; a task without executions
  stays, and the database does not change at all.\<close>

theorem delete_task_needs_executions:
  assumes "bolt_db B" "store_ok B (st_db s)" "\<not> st_busy s" "stored_task B C (st_db s) i = Some t"
  shows "\<exists>s'. DeleteTask B C i s = Some s' \<and>
    (if bt_exists B [executionsBucket, i] (st_db s)
     then \<forall>j. map_option fst (GetTask B C j s') = (if j = i then Some (sc_task_zero C) else map_option fst (GetTask B C j s))
     else s' = s)"
proof -
  from bolt_db.DeleteTask_ok[OF assms] obtain s' where s': "DeleteTask B C i s = Some s'" "store_ok B (st_db s')" "\<not> st_busy s'"
    "if bt_exists B [executionsBucket, i] (st_db s)
     then \<forall>j. bt_get B [tasksBucket] j (st_db s') = (if j = i then None else bt_get B [tasksBucket] j (st_db s)) else s' = s" by blast
  then show ?thesis
    by (simp add: bolt_db.GetTask_ok[OF assms(1) s'(2,3)] bolt_db.GetTask_ok[OF assms(1-3)] stored_task_def split: if_splits)
qed

definition one_task :: "bolt_tree store" where
  "one_task = snd (the (SetTask tree_bolt demo_codec (\<lambda>_. None) (demo_task ''1'') new_store))"

theorem delete_task_needs_executions_witness:
  "stored_task tree_bolt demo_codec (st_db one_task) ''1'' = Some (demo_task ''1'') \<and> DeleteTask tree_bolt demo_codec ''1'' one_task = Some one_task"
proof -
  have s: "store_ok tree_bolt (st_db new_store)" "\<not> st_busy new_store"
    using new_store_empty empty_store_ok[OF new_store_empty] unfolding empty_store_def by blast+
  have "at_ID (demo_task ''1'') \<noteq> []" "sc_task demo_codec (demo_task ''1'') = Some ''0:1''"
    "can_merge tree_bolt demo_codec (\<lambda>_. None) (st_db new_store) (demo_task ''1'')" by code_simp+
  from tree.SetTask_ok[OF s this] have o: "store_ok tree_bolt (st_db one_task)" "\<not> st_busy one_task" by (auto simp: one_task_def)
  have t: "stored_task tree_bolt demo_codec (st_db one_task) ''1'' = Some (demo_task ''1'')" by code_simp
  have "\<not> bt_exists tree_bolt [executionsBucket, ''1''] (st_db one_task)" by code_simp
  then show ?thesis using delete_task_needs_executions[OF tree.bolt_db_axioms o t] t by simp
qed

section \<open>Odd effects\<close>

text \<open>A task that counts its executions loses the counters when it is stored again without them, although the store
  merges the stored counters into the task.\<close>

lemma stored_counters_are_lost:
  "Option.bind (SetTask tree_bolt demo_codec (\<lambda>_. None) ((demo_task ''1'')\<lparr>at_SuccessCount := 4\<rparr>) new_store)
     (\<lambda>(_, s). Option.bind (SetTask tree_bolt demo_codec (\<lambda>_. None) (demo_task ''1'') s)
        (\<lambda>(_, s). map_option (at_SuccessCount \<circ> fst) (GetTask tree_bolt demo_codec ''1'' s))) = Some 0"
  by code_simp

text \<open>A deleted task stays in the index of its workflow.\<close>

lemma index_keeps_deleted_task:
  "Option.bind (SetExecution tree_bolt demo_codec ''1'' \<lparr>xe_Id = ''e'', xe_Success = True, xe_FinishedAt = 1, xe_rest = ()\<rparr> one_task)
     (\<lambda>(_, s). Option.bind (DeleteTask tree_bolt demo_codec ''1'' s)
        (\<lambda>s. map_option (\<lambda>(x, _). (x, stored_task tree_bolt demo_codec (st_db s) ''1'' = None)) (GetWorkflow tree_bolt ''7'' s))) = Some (([1], []), True)"
  by code_simp

text \<open>Deleting a workflow deletes only the first of its brokers.\<close>

lemma workflow_leaves_brokers:
  "Option.bind (SetBroker tree_bolt demo_codec (demo_broker 1) new_store)
     (\<lambda>(_, s). Option.bind (SetBroker tree_bolt demo_codec (demo_broker 2) s)
        (\<lambda>(_, s). Option.bind (DeleteWorkflow tree_bolt demo_codec ''7'' s)
           (\<lambda>s. map_option (map_sum id (map sb_ID) \<circ> fst) (GetBrokers tree_bolt demo_codec s)))) = Some (Inr [2])"
  by code_simp

text \<open>A broker record that does not decode leaves its transaction open, and the next call never returns.\<close>

lemma open_transaction_blocks:
  "Option.bind (SetBrokerRecord tree_bolt demo_codec \<lparr>rl_BrokerID = 1, rl_WorkflowID = 7, rl_rest = ()\<rparr> new_store)
     (\<lambda>(_, s). Option.bind (GetBrokerRecord tree_bolt demo_codec 7 1 s)
        (\<lambda>(r, s). Some (r = Inl ErrDecode, GetMeta tree_bolt ''a'' s = None))) = Some (True, True)"
  by code_simp

end
