(* ===== verification/Spec2Isabelle.thy ===== *)
theory Spec2Isabelle
  imports Dissolve Ordered_Map Buffers Mem_Stream CB_Queue Pub_Sub_Sync Server Websocket Pubsub_Props Template_Run Worker_Props
    Expression_Props Agent_Store_Props
begin

text \<open>
  Verification of the kairos repository, a workflow engine written in Go.

  \<^bold>\<open>The program.\<close>  A user describes a workflow: tasks that run on client machines, channels, and brokers
  that route results with small templates.  The server runs one worker per workflow
  (\<open>server/runner/worker.go\<close>).  The worker sets tasks and brokers up on the clients, receives their
  replies, runs the brokers' templates (\<open>pkg/workflow/template.go\<close>) and sends commands on.  Commands and replies
  travel through the deliverer (\<open>server/deliverer\<close>), a message server with websocket connections, channels
  and presence.  On every client machine a daemon holds a connection to the deliverer with the library
  \<open>kairos-local/kairosdeamon/pubsub\<close>, and keeps tasks, executions and queues in a local database
  (\<open>kairos-local/kairosdeamon/agent/store.go\<close>).

  \<^bold>\<open>Conventions\<close> (\<open>Kairos_Prelude\<close>).  A function that may panic returns an option and \<open>None\<close> is the panic; an
  error that the code returns is a value.  Go maps are finite maps, and where the code iterates over one the order
  of the iteration is an argument.  Slices are lists, and an index out of range is a panic.  Integers
  have their width where they can wrap; counters and identifiers that cannot are unbounded.  Structs are records
  whose fields carry a short prefix and the name of the source.  Locks are not modelled as such: what runs under one lock is
  one step, and concurrent code is a step relation over its goroutines.

  \<^bold>\<open>Containers.\<close>
  \<^item> \<open>Ring_Queue\<close>: \<open>internal/queue/queue.go\<close> and the queue of \<open>internal/dissolve\<close>.  Both are first-in
    first-out for every sequence of calls (locale \<open>fifo\<close>, interpreted for both), with exact sizes and capacities.
  \<^item> \<open>Writer\<close>: \<open>writer.go\<close>.  Messages reach the transport in order and complete, batched within their bounds, and a full
    queue closes the connection.
  \<^item> \<open>Dissolve\<close>: the background worker runs every job until it succeeds.
  \<^item> \<open>Ordered_Map\<close>: \<open>pkg/orderedmap\<close> keeps insertion order and behaves like a map (locale \<open>keyed_store\<close>).
  \<^item> \<open>Buffers\<close>, \<open>CB_Queue\<close>, \<open>Mem_Stream\<close>: \<open>pkg/circbuf\<close>, \<open>pkg/bufcb\<close>, \<open>pkg/cbqueue\<close> and
    \<open>internal/memstream\<close>.
  \<^item> \<open>Bucket_Map\<close>: maps of maps with their clean-up rule (locale \<open>two_level_store\<close>, interpreted for users,
    subscriptions and presence).

  \<^bold>\<open>The deliverer.\<close>
  \<^item> \<open>Codes\<close>: error, disconnect and unsubscribe codes.
  \<^item> \<open>Pub_Sub_Sync\<close>: \<open>internal/recovery/sync.go\<close> under all interleavings (\<open>pss_step\<close>).
  \<^item> \<open>Hub\<close>: connection and subscription shards (\<open>hub.go\<close>) and the presence table; both refine one set.
  \<^item> \<open>Node\<close>: configuration, registry, wire conversion, and the subscriptions at the broker with the background
    dissolver (\<open>dissolver_step\<close>); the broker is any that satisfies the locale \<open>broker_contract\<close>, which the memory
    broker does.
  \<^item> \<open>Client_State\<close>, \<open>Client\<close>, \<open>Client_Commands\<close>: a connection (\<open>client.go\<close>), all its commands and timers.
    \<open>Client_Life\<close> shows what every operation keeps and what closing releases; \<open>Client_Run\<close> shows for every
    interleaving of the connections of a node (\<open>conn_step\<close>, \<open>sys_reachable\<close>) that no subscription
    leaks and who may publish.
  \<^item> \<open>Server\<close>: publications, calls on all connections of a user, control messages between nodes.
  \<^item> \<open>Framing\<close>, \<open>Websocket\<close>: encoders and decoders of frames, buffer pools, and the loop that reads a frame.

  \<^bold>\<open>The client library.\<close>
  \<^item> \<open>Pubsub_State\<close>, \<open>Pubsub\<close>: \<open>pubsub/client.go\<close> and \<open>subscription.go\<close> with their goroutines, timers and
    handlers as stacks of frames, one step per atomic section (\<open>lib_step\<close>).
  \<^item> \<open>Pubsub_Run\<close>, \<open>Pubsub_Props\<close>: the invariants of every run, the automaton of the events of a subscription, what a
    reconnect sends, how the codes of the server are understood, and runs that deadlock or answer twice.

  \<^bold>\<open>The workflow engine.\<close>
  \<^item> \<open>Go_Strings\<close>: the functions of package \<open>strings\<close> and \<open>strconv\<close> the sources use, on byte strings.
  \<^item> \<open>Template\<close>: the compiler of templates with its jump table, and the interpreter.  The interpreter's loop is a
    \<open>partial_function\<close> whose result \<open>None\<close> is not returning; \<open>Template_Run\<close> proves that it returns for every
    template with closed blocks, whatever the expressions evaluate to, by a lexicographic measure over the open
    blocks.
  \<^item> \<open>Go_Json\<close>: decoding of JSON texts as package \<open>encoding/json\<close> does it.
  \<^item> \<open>Expressions\<close>: the evaluation of one expression (\<open>pkg/workflow/func.go\<close>) with all built-in functions.
    Floating-point numbers, \<open>Sprintf\<close> and the JavaScript runtime are the record \<open>ex_env\<close>.
    \<open>Expression_Props\<close> proves which parameter counts the compiler guarantees, and that with them the evaluation
    does not panic; its examples show the functions left out of that theorem.
  \<^item> \<open>Workflow_Names\<close>: names of points and default variables, and compiling a broker (\<open>workflow.go\<close>).
  \<^item> \<open>Worker\<close>: the worker as goroutines over one state; one action runs the topmost frame of a goroutine, lets two of them
    meet at an unbuffered channel, takes a closure from the callback queue or receives a message
    (\<open>worker_step\<close>, \<open>worker_reachable\<close>).  The answers of the message bus, the clock and the database in a step are the record
    \<open>wk_env\<close>.  \<open>Worker_Run\<close> proves the invariant of all runs, \<open>Worker_Props\<close> that retries are bounded and
    when the tasks are started.

  \<^bold>\<open>The database of the daemon.\<close>
  \<^item> \<open>Agent_Store\<close>: every call of the store as a transaction over nested buckets.  Bolt is the record \<open>bolt\<close> of
    its operations and the JSON form of the stored structs the record \<open>store_codec\<close>.  A transaction that is left
    open makes the next call wait for ever, which is \<open>None\<close>.
  \<^item> \<open>Agent_Store_Props\<close>: the locale \<open>bolt_db\<close> states what Bolt documents; it is interpreted for a tree of
    buckets.  For every sequence of calls (\<open>store_step\<close>) the buckets keep their shape; queues are first-in first-out
    while the clock moves on and shows nineteen digits, which it does from 2001 to 2286; a stored task is found again; a
    deletion takes effect exactly for a task with executions.  The examples show odd effects on the tree.

  \<^bold>\<open>Bounds and fuel.\<close>  No definition has fuel, except for scripts of steps in the examples: loops are structural, have a
    termination proof, or are partial functions with a theorem that says when they return.

  \<^bold>\<open>Not modelled.\<close>  Generated code (protobuf and easyjson): encoding one message is an argument.  The plugin host, the
  executors and the command line tool, which start processes or call external services.  The storage layer and the HTTP
  controllers, which are SQL text and web framework calls.  The web interface.  The rest of the daemon's agent, which starts
  plugin processes, cron entries of a third-party library and an HTTP interface.
  Of the worker: the trigger scheduler and recovery, which read
  cron entries and database rows, and the log of messages in the database.  Texts of errors and log output are kept only where another part
  reads them.  Strings are byte strings and case folding is that of ASCII.  A JSON message that does not decode is not
  delivered to the worker.
\<close>

end
